(* ===== verification/Net_Addr.thy ===== *)
theory Net_Addr
  imports Prelude
begin

text \<open>
  The parts of \<open>std::net\<close> the program relies on: the parser behind
  \<open>IpAddr::from_str\<close> (dotted IPv4 with at most three digits per octet and no leading
  zero, IPv6 groups with one optional \<open>::\<close> and an optional IPv4 tail) and
  \<open>u16::from_str\<close>. A parser takes the remaining text and returns its value with the
  text left over; failure leaves the caller's text as it was.
\<close>

type_synonym 'a reader = "rstr \<Rightarrow> ('a \<times> rstr) option"

datatype ip_addr = V4 "32 word" | V6 "128 word"

definition digit_value :: "nat \<Rightarrow> rchar \<Rightarrow> nat option" where
  "digit_value radix c =
     (let v = (if 48 \<le> c \<and> c \<le> 57 then Some (c - 48)
               else if 97 \<le> c \<and> c \<le> 122 then Some (c - 87)
               else if 65 \<le> c \<and> c \<le> 90 then Some (c - 55) else None)
      in case v of Some d \<Rightarrow> if d < radix then Some d else None | None \<Rightarrow> None)"

definition is_digit :: "nat \<Rightarrow> rchar \<Rightarrow> bool" where
  "is_digit radix c \<longleftrightarrow> digit_value radix c \<noteq> None"

definition digits_value :: "nat \<Rightarrow> rstr \<Rightarrow> nat" where
  "digits_value radix ds = foldl (\<lambda>n c. n * radix + the (digit_value radix c)) 0 ds"

definition read_number :: "nat \<Rightarrow> nat \<Rightarrow> bool \<Rightarrow> nat \<Rightarrow> nat reader" where
  "read_number radix max_digits allow_zero_prefix bound s =
     (let ds = takeWhile (is_digit radix) s; v = digits_value radix ds
      in if ds = [] \<or> max_digits < length ds \<or>
            (\<not> allow_zero_prefix \<and> hd ds = 48 \<and> 1 < length ds) \<or> bound \<le> v
         then None else Some (v, dropWhile (is_digit radix) s))"

definition read_given_char :: "rchar \<Rightarrow> rstr \<Rightarrow> rstr option" where
  "read_given_char c s = (case s of x # r \<Rightarrow> if x = c then Some r else None | [] \<Rightarrow> None)"

text \<open>A separator is required before every element but the first.\<close>

definition read_separator :: "rchar \<Rightarrow> nat \<Rightarrow> 'a reader \<Rightarrow> 'a reader" where
  "read_separator sep index inner s =
     (if index = 0 then inner s
      else case read_given_char sep s of None \<Rightarrow> None | Some r \<Rightarrow> inner r)"

fun read_octets :: "nat \<Rightarrow> nat \<Rightarrow> nat list reader" where
  "read_octets i 0 s = Some ([], s)"
| "read_octets i (Suc n) s =
     (case read_separator 46 i (read_number 10 3 False 256) s of
        None \<Rightarrow> None
      | Some (g, r) \<Rightarrow>
          (case read_octets (Suc i) n r of
             None \<Rightarrow> None
           | Some (gs, r') \<Rightarrow> Some (g # gs, r')))"

definition read_ipv4_addr :: "nat list reader" where
  "read_ipv4_addr s = read_octets 0 4 s"

fun pair_octets :: "nat list \<Rightarrow> nat list" where
  "pair_octets (a # b # r) = (a * 256 + b) # pair_octets r"
| "pair_octets r = []"

text \<open>The groups read, whether an IPv4 tail ended them, and the text left over.\<close>

function read_groups :: "nat \<Rightarrow> nat \<Rightarrow> rstr \<Rightarrow> nat list \<times> bool \<times> rstr" where
  "read_groups limit i s =
     (if limit \<le> i then ([], False, s)
      else case (if i < limit - 1 then read_separator 58 i read_ipv4_addr s else None) of
        Some (octets, r) \<Rightarrow> (pair_octets octets, True, r)
      | None \<Rightarrow>
          (case read_separator 58 i (read_number 16 4 True 65536) s of
             None \<Rightarrow> ([], False, s)
           | Some (g, r) \<Rightarrow>
               (case read_groups limit (Suc i) r of (gs, v4, r') \<Rightarrow> (g # gs, v4, r'))))"
  by pat_completeness auto
termination
  by (relation "measure (\<lambda>(limit, i, s). limit - i)") auto

declare read_groups.simps [simp del]

definition read_ipv6_addr :: "nat list reader" where
  "read_ipv6_addr s =
     (case read_groups 8 0 s of (head, head_ipv4, r) \<Rightarrow>
        if length head = 8 then Some (head, r)
        else if head_ipv4 then None
        else case read_given_char 58 r of None \<Rightarrow> None | Some r1 \<Rightarrow>
          (case read_given_char 58 r1 of None \<Rightarrow> None | Some r2 \<Rightarrow>
            (case read_groups (8 - (length head + 1)) 0 r2 of (tail, _, r3) \<Rightarrow>
               Some (head @ replicate (8 - length head - length tail) 0 @ tail, r3))))"

definition join_groups :: "int \<Rightarrow> nat list \<Rightarrow> int" where
  "join_groups base gs = foldl (\<lambda>n g. n * base + int g) 0 gs"

definition read_ip_addr :: "ip_addr reader" where
  "read_ip_addr s =
     (case read_ipv4_addr s of
        Some (octets, r) \<Rightarrow> Some (V4 (word_of_int (join_groups 256 octets)), r)
      | None \<Rightarrow> (case read_ipv6_addr s of
          Some (groups, r) \<Rightarrow> Some (V6 (word_of_int (join_groups 65536 groups)), r)
        | None \<Rightarrow> None))"

definition parse_ip_addr :: "rstr \<Rightarrow> ip_addr option" where
  "parse_ip_addr s =
     (case read_ip_addr s of Some (a, r) \<Rightarrow> if r = [] then Some a else None | None \<Rightarrow> None)"

definition v4_is_loopback :: "32 word \<Rightarrow> bool" where
  "v4_is_loopback a \<longleftrightarrow> drop_bit 24 a = 127"

definition v6_is_loopback :: "128 word \<Rightarrow> bool" where
  "v6_is_loopback a \<longleftrightarrow> a = 1"

text \<open>\<open>u16::from_str\<close>: an optional plus sign, at least one digit, no overflow.\<close>

definition parse_u16 :: "rstr \<Rightarrow> nat option" where
  "parse_u16 s =
     (let ds = (case s of c # r \<Rightarrow> if c = 43 then r else s | [] \<Rightarrow> s)
      in if ds \<noteq> [] \<and> list_all is_ascii_digit ds \<and> digits_value 10 ds < 65536
         then Some (digits_value 10 ds) else None)"

text \<open>Decimal rendering, as \<open>Display\<close> prints an unsigned integer.\<close>

fun show_nat :: "nat \<Rightarrow> rstr" where
  "show_nat n = (if n < 10 then [48 + n] else show_nat (n div 10) @ [48 + n mod 10])"

declare show_nat.simps [simp del]

section \<open>Facts the components use\<close>

lemma show_nat_nonempty [simp]: "show_nat n \<noteq> []"
  by (subst show_nat.simps) simp

lemma show_nat_digits: "list_all is_ascii_digit (show_nat n)"
proof (induction n rule: show_nat.induct)
  case (1 n)
  have "n mod 10 \<le> 9" using mod_less_divisor [of 10 n] by linarith
  with 1 show ?case
    by (subst show_nat.simps)
      (simp add: is_ascii_digit_def [of "48 + n"] is_ascii_digit_def [of "48 + n mod 10"])
qed

lemma digit_value_decimal: "d < 10 \<Longrightarrow> digit_value 10 (48 + d) = Some d"
  by (simp add: digit_value_def)

lemma digits_value_snoc:
  "digits_value r (ds @ [c]) = digits_value r ds * r + the (digit_value r c)"
  by (simp add: digits_value_def)

lemma digits_value_show: "digits_value 10 (show_nat n) = n"
proof (induction n rule: show_nat.induct)
  case (1 n)
  show ?case
  proof (cases "n < 10")
    case True
    then show ?thesis
      by (subst show_nat.simps) (simp add: digits_value_def digit_value_decimal)
  next
    case False
    with 1 have "digits_value 10 (show_nat (n div 10)) = n div 10" by simp
    with False show ?thesis
      by (subst show_nat.simps) (simp add: digits_value_snoc digit_value_decimal)
  qed
qed

text \<open>Printing and parsing a port agree.\<close>

lemma parse_u16_show: "n < 65536 \<Longrightarrow> parse_u16 (show_nat n) = Some n"
proof -
  assume n: "n < 65536"
  have "list_all is_ascii_digit (show_nat n)" by (rule show_nat_digits)
  moreover have "show_nat n \<noteq> []" by simp
  ultimately have "(case show_nat n of c # r \<Rightarrow> if c = 43 then r else show_nat n
      | [] \<Rightarrow> show_nat n) = show_nat n"
    by (cases "show_nat n") (auto simp: is_ascii_digit_def)
  with n show ?thesis
    by (simp add: parse_u16_def digits_value_show show_nat_digits)
qed

lemma parse_u16_bound: "parse_u16 s = Some n \<Longrightarrow> n < 65536"
  by (auto simp: parse_u16_def Let_def split: if_splits)

text \<open>A dotted address contains no colon, so a colon in a valid address means IPv6.\<close>

lemma read_number_split:
  "read_number radix m z b s = Some (v, r) \<Longrightarrow>
   \<exists>ds. s = ds @ r \<and> ds \<noteq> [] \<and> (\<forall>c \<in> set ds. is_digit radix c)"
  by (rule exI [of _ "takeWhile (is_digit radix) s"])
    (auto simp: read_number_def Let_def dest: set_takeWhileD split: if_splits)

lemma not_is_digit_colon [simp]: "\<not> is_digit 10 58" "\<not> is_digit 16 58"
  by (simp_all add: is_digit_def digit_value_def)

lemma not_is_digit_dot [simp]: "\<not> is_digit 10 46" "\<not> is_digit 16 46"
  by (simp_all add: is_digit_def digit_value_def)

lemma read_separator_split:
  assumes "read_separator c i inner s = Some (v, r)"
  obtains p s' where "s = p @ s'" "inner s' = Some (v, r)" "set p \<subseteq> {c}"
  using assms
  by (auto simp: read_separator_def read_given_char_def
      split: if_splits option.splits list.splits intro: that [of "[]" s] that [of "[c]"])

lemma read_octets_split:
  "read_octets i n s = Some (gs, r) \<Longrightarrow>
   \<exists>p. s = p @ r \<and> (\<forall>c \<in> set p. c = 46 \<or> is_digit 10 c)"
proof (induction n arbitrary: i s gs r)
  case (Suc n)
  from Suc.prems obtain g s1 gs' where
    a: "read_separator 46 i (read_number 10 3 False 256) s = Some (g, s1)" and
    b: "read_octets (Suc i) n s1 = Some (gs', r)"
    by (auto split: option.splits)
  from Suc.IH [OF b] obtain p where p: "s1 = p @ r" "\<forall>c \<in> set p. c = 46 \<or> is_digit 10 c"
    by blast
  from a obtain q s' where q: "s = q @ s'" "read_number 10 3 False 256 s' = Some (g, s1)"
    "set q \<subseteq> {46}"
    by (rule read_separator_split)
  from read_number_split [OF q(2)] obtain ds where
    "s' = ds @ s1" "\<forall>c \<in> set ds. is_digit 10 c" by blast
  with p q show ?case by (intro exI [of _ "q @ ds @ p"]) auto
qed simp

lemma read_ipv4_no_colon: "read_ipv4_addr s = Some (gs, []) \<Longrightarrow> 58 \<notin> set s"
  using read_octets_split [of 0 4 s gs "[]"] by (auto simp: read_ipv4_addr_def)

lemma parse_v4_no_colon:
  assumes "parse_ip_addr s = Some (V4 a)"
  shows "58 \<notin> set s"
proof -
  from assms obtain octets where "read_ipv4_addr s = Some (octets, [])"
    by (auto simp: parse_ip_addr_def read_ip_addr_def split: option.splits if_splits)
  then show ?thesis by (rule read_ipv4_no_colon)
qed

text \<open>No valid address contains a bracket, a slash or white space.\<close>

definition ip_char :: "rchar \<Rightarrow> bool" where
  "ip_char c \<longleftrightarrow> c = 46 \<or> c = 58 \<or> is_digit 16 c"

lemma digit10_ip_char: "is_digit 10 c \<Longrightarrow> ip_char c"
  by (auto simp: ip_char_def is_digit_def digit_value_def Let_def split: option.splits if_splits)

lemma ip_char_cases:
  "ip_char c \<Longrightarrow> c = 46 \<or> (48 \<le> c \<and> c \<le> 58) \<or> (97 \<le> c \<and> c \<le> 102) \<or> (65 \<le> c \<and> c \<le> 70)"
  by (auto simp: ip_char_def is_digit_def digit_value_def Let_def split: option.splits if_splits)

lemma read_ipv4_chars:
  "read_ipv4_addr s = Some (gs, r) \<Longrightarrow> \<exists>p. s = p @ r \<and> (\<forall>c \<in> set p. ip_char c)"
  using read_octets_split [of 0 4 s gs r] digit10_ip_char
  by (auto simp: read_ipv4_addr_def ip_char_def)

lemma read_sep_chars:
  assumes "read_separator 58 i inner s = Some (v, r)"
    and "\<And>s'. inner s' = Some (v, r) \<Longrightarrow> \<exists>p. s' = p @ r \<and> (\<forall>c \<in> set p. ip_char c)"
  shows "\<exists>p. s = p @ r \<and> (\<forall>c \<in> set p. ip_char c)"
proof -
  from assms(1) obtain p s' where p: "s = p @ s'" "inner s' = Some (v, r)" "set p \<subseteq> {58}"
    by (rule read_separator_split)
  from assms(2) [OF p(2)] obtain q where "s' = q @ r" "\<forall>c \<in> set q. ip_char c" by blast
  with p show ?thesis by (intro exI [of _ "p @ q"]) (auto simp: ip_char_def)
qed

lemma read_hex_chars:
  "read_number 16 4 True 65536 s = Some (v, r) \<Longrightarrow>
   \<exists>p. s = p @ r \<and> (\<forall>c \<in> set p. ip_char c)"
  using read_number_split [of 16 4 True 65536 s v r] by (auto simp: ip_char_def)

lemma read_groups_chars:
  "read_groups limit i s = (gs, v4, r) \<Longrightarrow> \<exists>p. s = p @ r \<and> (\<forall>c \<in> set p. ip_char c)"
proof (induction limit i s arbitrary: gs v4 r rule: read_groups.induct)
  case (1 limit i s)
  show ?case
  proof (cases "limit \<le> i")
    case True
    with "1.prems" show ?thesis by (simp add: read_groups.simps [of limit i s])
  next
    case False
    let ?v4 = "if i < limit - 1 then read_separator 58 i read_ipv4_addr s else None"
    show ?thesis
    proof (cases ?v4)
      case (Some a)
      then obtain octets r1 where a: "?v4 = Some (octets, r1)" by (cases a) auto
      with "1.prems" False have "r1 = r" by (simp add: read_groups.simps [of limit i s])
      with a have "read_separator 58 i read_ipv4_addr s = Some (octets, r)"
        by (simp split: if_splits)
      then show ?thesis by (rule read_sep_chars) (rule read_ipv4_chars)
    next
      case None
      show ?thesis
      proof (cases "read_separator 58 i (read_number 16 4 True 65536) s")
        case None2: None
        with None False "1.prems" show ?thesis
          by (simp add: read_groups.simps [of limit i s])
      next
        case (Some b)
        then obtain g r1 where b: "read_separator 58 i (read_number 16 4 True 65536) s
          = Some (g, r1)" by (cases b) auto
        obtain gs2 f2 r2 where rec: "read_groups limit (Suc i) r1 = (gs2, f2, r2)"
          by (cases "read_groups limit (Suc i) r1")
        with b None False "1.prems" have "r2 = r"
          by (simp add: read_groups.simps [of limit i s])
        with "1.IH" [OF False None b refl] rec obtain p where
          p: "r1 = p @ r" "\<forall>c \<in> set p. ip_char c" by blast
        from b have "\<exists>q. s = q @ r1 \<and> (\<forall>c \<in> set q. ip_char c)"
          by (rule read_sep_chars) (rule read_hex_chars)
        then obtain q where "s = q @ r1" "\<forall>c \<in> set q. ip_char c" by blast
        with p show ?thesis by (intro exI [of _ "q @ p"]) auto
      qed
    qed
  qed
qed

lemma read_given_char_Some: "read_given_char c s = Some r \<longleftrightarrow> s = c # r"
  by (cases s) (auto simp: read_given_char_def)

lemma read_ipv6_chars:
  assumes "read_ipv6_addr s = Some (gs, r)"
  shows "\<exists>p. s = p @ r \<and> (\<forall>c \<in> set p. ip_char c)"
proof -
  obtain h f r0 where h: "read_groups 8 0 s = (h, f, r0)"
    by (cases "read_groups 8 0 s")
  from read_groups_chars [OF this] obtain p0 where
    p0: "s = p0 @ r0" "\<forall>c \<in> set p0. ip_char c" by blast
  show ?thesis
  proof (cases "length h = 8")
    case True
    with assms h have "r0 = r" by (simp add: read_ipv6_addr_def)
    with p0 show ?thesis by blast
  next
    case False
    with assms h obtain r2 t f3 where r2: "r0 = 58 # 58 # r2"
      and t: "read_groups (8 - (length h + 1)) 0 r2 = (t, f3, r)"
      by (auto simp: read_ipv6_addr_def read_given_char_Some
          split: if_splits option.splits prod.splits)
    from read_groups_chars [OF t] obtain q where "r2 = q @ r" "\<forall>c \<in> set q. ip_char c"
      by blast
    with p0 r2 show ?thesis
      by (intro exI [of _ "p0 @ 58 # 58 # q"]) (auto simp: ip_char_def)
  qed
qed

lemma parse_ip_addr_chars:
  assumes "parse_ip_addr s = Some a" "c \<in> set s"
  shows "ip_char c"
proof -
  from assms(1) consider gs where "read_ipv4_addr s = Some (gs, [])"
    | gs where "read_ipv6_addr s = Some (gs, [])"
    by (auto simp: parse_ip_addr_def read_ip_addr_def split: option.splits if_splits)
  then show ?thesis
    using read_ipv4_chars read_ipv6_chars assms(2) by cases fastforce+
qed

end
