(* ===== verification/Domain_Rule.thy ===== *)
theory Domain_Rule
  imports Net_Addr
begin

text \<open>
  The domain types of \<open>src/src/domain/rule.rs\<close> and \<open>src/src/domain/host.rs\<close>: names,
  ports, addresses and the three kinds of forwarding, each built by a checking
  constructor, with the error type of \<open>src/src/domain/validation.rs\<close>. A newtype with
  private fields is a datatype; \<open>valid_\<dots>\<close> says that the value is one its constructor
  returns, which is what the privacy of the Rust fields guarantees.
\<close>

type_synonym u16 = "16 word"
type_synonym uuid = "128 word"
type_synonym rule_id = uuid

datatype field =
    FieldRuleName | FieldSshHostAlias | FieldBindPort | FieldDestinationHost
  | FieldDestinationPort

datatype validation_error =
    Empty field
  | SurroundingWhitespace field
  | Whitespace field
  | ControlCharacter field
  | TooLong field nat
  | LooksLikeOption field
  | PortZero field
  | InvalidBindAddress rstr
  | InvalidDestinationHost rstr
  | DuplicateName rstr
  | DuplicateLocalListener rstr u16

section \<open>Checked text\<close>

definition validate_text ::
  "rstr \<Rightarrow> field \<Rightarrow> nat \<Rightarrow> bool \<Rightarrow> validation_error + unit" where
  "validate_text value fld max_characters allow_spaces =
     (if value = [] then Err (Empty fld)
      else if trim value \<noteq> value then Err (SurroundingWhitespace fld)
      else if max_characters < length value then Err (TooLong fld max_characters)
      else if list_ex is_control value then Err (ControlCharacter fld)
      else if \<not> allow_spaces \<and> list_ex is_whitespace value then Err (Whitespace fld)
      else Ok ())"

datatype rule_name = RuleName rstr
datatype host_alias = HostAlias rstr
datatype bind_address = BindAddress rstr
datatype destination_host = DestinationHost rstr
datatype port = Port u16

primrec rule_name_str :: "rule_name \<Rightarrow> rstr" where "rule_name_str (RuleName s) = s"
primrec alias_str :: "host_alias \<Rightarrow> rstr" where "alias_str (HostAlias s) = s"
primrec bind_str :: "bind_address \<Rightarrow> rstr" where "bind_str (BindAddress s) = s"
primrec dest_str :: "destination_host \<Rightarrow> rstr" where "dest_str (DestinationHost s) = s"
primrec port_get :: "port \<Rightarrow> u16" where "port_get (Port p) = p"

definition rule_name_new :: "rstr \<Rightarrow> validation_error + rule_name" where
  "rule_name_new value =
     and_then (validate_text value FieldRuleName 128 True) (\<lambda>_. Ok (RuleName value))"

definition host_alias_new :: "rstr \<Rightarrow> validation_error + host_alias" where
  "host_alias_new value =
     (if value = [] then Err (Empty FieldSshHostAlias)
      else if trim value \<noteq> value then Err (SurroundingWhitespace FieldSshHostAlias)
      else if 255 < length value then Err (TooLong FieldSshHostAlias 255)
      else if list_ex is_control value then Err (ControlCharacter FieldSshHostAlias)
      else if list_ex is_whitespace value then Err (Whitespace FieldSshHostAlias)
      else if hd value = 45 then Err (LooksLikeOption FieldSshHostAlias)
      else Ok (HostAlias value))"

definition port_new :: "u16 \<Rightarrow> field \<Rightarrow> validation_error + port" where
  "port_new value fld = (if value = 0 then Err (PortZero fld) else Ok (Port value))"

definition bind_address_new :: "rstr \<Rightarrow> validation_error + bind_address" where
  "bind_address_new value =
     (if value = lit ''localhost'' \<or> value = lit ''*'' \<or> parse_ip_addr value \<noteq> None
      then Ok (BindAddress value) else Err (InvalidBindAddress value))"

definition default_bind_address :: rstr where
  "default_bind_address = lit ''127.0.0.1''"

definition bind_address_loopback :: bind_address where
  "bind_address_loopback = BindAddress default_bind_address"

definition destination_host_new :: "rstr \<Rightarrow> validation_error + destination_host" where
  "destination_host_new value =
     and_then (validate_text value FieldDestinationHost 253 False) (\<lambda>_.
       if 58 \<in> set value \<and> parse_ip_addr value = None
       then Err (InvalidDestinationHost value)
       else Ok (DestinationHost value))"

section \<open>Rules\<close>

record local_forwarding =
  lf_bind_address :: bind_address
  lf_bind_port :: port
  lf_destination_host :: destination_host
  lf_destination_port :: port

record remote_forwarding =
  rf_bind_address :: bind_address
  rf_bind_port :: port
  rf_destination_host :: destination_host
  rf_destination_port :: port

record dynamic_forwarding =
  df_bind_address :: bind_address
  df_bind_port :: port

datatype forwarding =
    Local local_forwarding
  | Remote remote_forwarding
  | Dynamic dynamic_forwarding

record rule =
  r_id :: rule_id
  r_name :: rule_name
  r_alias :: host_alias
  r_forwarding :: forwarding
  r_auto_start :: bool
  r_reconnect :: bool

definition rule_local ::
  "rule_id \<Rightarrow> rstr \<Rightarrow> rstr \<Rightarrow> u16 \<Rightarrow> rstr \<Rightarrow> u16 \<Rightarrow> validation_error + rule" where
  "rule_local i name alias bport dhost dport =
     and_then (rule_name_new name) (\<lambda>n.
     and_then (host_alias_new alias) (\<lambda>a.
     and_then (port_new bport FieldBindPort) (\<lambda>bp.
     and_then (destination_host_new dhost) (\<lambda>dh.
     and_then (port_new dport FieldDestinationPort) (\<lambda>dp.
       Ok \<lparr>r_id = i, r_name = n, r_alias = a,
           r_forwarding = Local \<lparr>lf_bind_address = bind_address_loopback,
             lf_bind_port = bp, lf_destination_host = dh, lf_destination_port = dp\<rparr>,
           r_auto_start = False, r_reconnect = False\<rparr>)))))"

definition rule_remote ::
  "rule_id \<Rightarrow> rstr \<Rightarrow> rstr \<Rightarrow> u16 \<Rightarrow> rstr \<Rightarrow> u16 \<Rightarrow> validation_error + rule" where
  "rule_remote i name alias bport dhost dport =
     and_then (rule_name_new name) (\<lambda>n.
     and_then (host_alias_new alias) (\<lambda>a.
     and_then (port_new bport FieldBindPort) (\<lambda>bp.
     and_then (destination_host_new dhost) (\<lambda>dh.
     and_then (port_new dport FieldDestinationPort) (\<lambda>dp.
       Ok \<lparr>r_id = i, r_name = n, r_alias = a,
           r_forwarding = Remote \<lparr>rf_bind_address = bind_address_loopback,
             rf_bind_port = bp, rf_destination_host = dh, rf_destination_port = dp\<rparr>,
           r_auto_start = False, r_reconnect = False\<rparr>)))))"

definition rule_dynamic ::
  "rule_id \<Rightarrow> rstr \<Rightarrow> rstr \<Rightarrow> u16 \<Rightarrow> validation_error + rule" where
  "rule_dynamic i name alias bport =
     and_then (rule_name_new name) (\<lambda>n.
     and_then (host_alias_new alias) (\<lambda>a.
     and_then (port_new bport FieldBindPort) (\<lambda>bp.
       Ok \<lparr>r_id = i, r_name = n, r_alias = a,
           r_forwarding = Dynamic \<lparr>df_bind_address = bind_address_loopback,
             df_bind_port = bp\<rparr>,
           r_auto_start = False, r_reconnect = False\<rparr>)))"

primrec forwarding_with_bind :: "bind_address \<Rightarrow> forwarding \<Rightarrow> forwarding" where
  "forwarding_with_bind b (Local v) = Local (v\<lparr>lf_bind_address := b\<rparr>)"
| "forwarding_with_bind b (Remote v) = Remote (v\<lparr>rf_bind_address := b\<rparr>)"
| "forwarding_with_bind b (Dynamic v) = Dynamic (v\<lparr>df_bind_address := b\<rparr>)"

definition with_bind_address :: "rule \<Rightarrow> rstr \<Rightarrow> validation_error + rule" where
  "with_bind_address r value =
     and_then (bind_address_new value) (\<lambda>b.
       Ok (r\<lparr>r_forwarding := forwarding_with_bind b (r_forwarding r)\<rparr>))"

definition with_policy :: "rule \<Rightarrow> bool \<Rightarrow> bool \<Rightarrow> rule" where
  "with_policy r auto_start reconnect = r\<lparr>r_auto_start := auto_start, r_reconnect := reconnect\<rparr>"

text \<open>\<open>rename\<close> takes \<open>&mut self\<close>: the rule after the call comes with the result.\<close>

definition rename :: "rule \<Rightarrow> rstr \<Rightarrow> rule \<times> (validation_error + unit)" where
  "rename r value =
     (case rule_name_new value of
        Inl e \<Rightarrow> (r, Err e)
      | Inr n \<Rightarrow> (r\<lparr>r_name := n\<rparr>, Ok ()))"

definition local_listener :: "rule \<Rightarrow> (bind_address \<times> port) option" where
  "local_listener r =
     (case r_forwarding r of
        Local v \<Rightarrow> Some (lf_bind_address v, lf_bind_port v)
      | Dynamic v \<Rightarrow> Some (df_bind_address v, df_bind_port v)
      | Remote _ \<Rightarrow> None)"

section \<open>Values the constructors return\<close>

definition valid_name :: "rule_name \<Rightarrow> bool" where
  "valid_name n \<longleftrightarrow> rule_name_new (rule_name_str n) = Ok n"

definition valid_alias :: "host_alias \<Rightarrow> bool" where
  "valid_alias a \<longleftrightarrow> host_alias_new (alias_str a) = Ok a"

definition valid_bind :: "bind_address \<Rightarrow> bool" where
  "valid_bind b \<longleftrightarrow> bind_address_new (bind_str b) = Ok b"

definition valid_dest :: "destination_host \<Rightarrow> bool" where
  "valid_dest d \<longleftrightarrow> destination_host_new (dest_str d) = Ok d"

definition valid_port :: "port \<Rightarrow> bool" where
  "valid_port p \<longleftrightarrow> port_get p \<noteq> 0"

primrec valid_forwarding :: "forwarding \<Rightarrow> bool" where
  "valid_forwarding (Local v) \<longleftrightarrow> valid_bind (lf_bind_address v) \<and> valid_port (lf_bind_port v) \<and>
     valid_dest (lf_destination_host v) \<and> valid_port (lf_destination_port v)"
| "valid_forwarding (Remote v) \<longleftrightarrow> valid_bind (rf_bind_address v) \<and> valid_port (rf_bind_port v) \<and>
     valid_dest (rf_destination_host v) \<and> valid_port (rf_destination_port v)"
| "valid_forwarding (Dynamic v) \<longleftrightarrow> valid_bind (df_bind_address v) \<and> valid_port (df_bind_port v)"

definition valid_rule :: "rule \<Rightarrow> bool" where
  "valid_rule r \<longleftrightarrow> valid_name (r_name r) \<and> valid_alias (r_alias r) \<and>
     valid_forwarding (r_forwarding r)"

lemma validate_text_Ok:
  "validate_text v f m sp = Ok u \<longleftrightarrow> v \<noteq> [] \<and> trim v = v \<and> length v \<le> m \<and>
     \<not> list_ex is_control v \<and> (sp \<or> \<not> list_ex is_whitespace v)"
  by (auto simp: validate_text_def)

lemma rule_name_new_Ok:
  "rule_name_new v = Ok n \<longleftrightarrow> n = RuleName v \<and> v \<noteq> [] \<and> trim v = v \<and> length v \<le> 128 \<and>
     \<not> list_ex is_control v"
  by (auto simp: rule_name_new_def validate_text_Ok)

text \<open>Without white space anywhere the trimming check adds nothing.\<close>

lemma trim_no_whitespace: "\<not> list_ex is_whitespace v \<Longrightarrow> trim v = v"
  by (auto simp: trim_id_iff list_ex_iff)

lemma host_alias_new_Ok:
  "host_alias_new v = Ok a \<longleftrightarrow> a = HostAlias v \<and> v \<noteq> [] \<and> length v \<le> 255 \<and>
     \<not> list_ex is_control v \<and> \<not> list_ex is_whitespace v \<and> hd v \<noteq> 45"
  using trim_no_whitespace [of v] by (auto simp: host_alias_new_def)

lemma port_new_Ok [simp]: "port_new v f = Ok p \<longleftrightarrow> p = Port v \<and> v \<noteq> 0"
  by (auto simp: port_new_def)

lemma bind_address_new_Ok:
  "bind_address_new v = Ok b \<longleftrightarrow> b = BindAddress v \<and>
     (v = lit ''localhost'' \<or> v = lit ''*'' \<or> parse_ip_addr v \<noteq> None)"
  by (auto simp: bind_address_new_def)

lemma destination_host_new_Ok:
  "destination_host_new v = Ok d \<longleftrightarrow> d = DestinationHost v \<and> v \<noteq> [] \<and> length v \<le> 253 \<and>
     \<not> list_ex is_control v \<and> \<not> list_ex is_whitespace v \<and>
     (58 \<in> set v \<longrightarrow> parse_ip_addr v \<noteq> None)"
  using trim_no_whitespace [of v]
  by (auto simp: destination_host_new_def validate_text_Ok)

lemma parse_ip_loopback: "parse_ip_addr (lit ''127.0.0.1'') = Some (V4 2130706433)"
  by code_simp

lemma valid_bind_loopback [simp]: "valid_bind bind_address_loopback"
  by (simp add: valid_bind_def bind_address_loopback_def bind_address_new_Ok
      default_bind_address_def parse_ip_loopback)

lemmas valid_defs = valid_name_def valid_alias_def valid_bind_def valid_dest_def
  valid_port_def valid_rule_def

lemmas new_Ok = rule_name_new_Ok host_alias_new_Ok bind_address_new_Ok
  destination_host_new_Ok

text \<open>What each checking constructor returns is valid.\<close>

lemma rule_name_new_valid: "rule_name_new v = Ok n \<Longrightarrow> valid_name n"
  by (auto simp: valid_name_def rule_name_new_Ok)

lemma host_alias_new_valid: "host_alias_new v = Ok a \<Longrightarrow> valid_alias a"
  by (auto simp: valid_alias_def host_alias_new_Ok)

lemma bind_address_new_valid: "bind_address_new v = Ok b \<Longrightarrow> valid_bind b"
  by (auto simp: valid_bind_def bind_address_new_Ok)

lemma destination_host_new_valid: "destination_host_new v = Ok d \<Longrightarrow> valid_dest d"
  by (auto simp: valid_dest_def destination_host_new_Ok)

lemmas new_valid = rule_name_new_valid host_alias_new_valid bind_address_new_valid
  destination_host_new_valid

lemma valid_Port [simp]: "valid_port (Port v) \<longleftrightarrow> v \<noteq> 0"
  by (simp add: valid_port_def)

lemma rule_local_valid: "rule_local i n a bp dh dp = Ok r \<Longrightarrow> valid_rule r"
  by (auto simp: rule_local_def valid_rule_def intro: new_valid)

lemma rule_remote_valid: "rule_remote i n a bp dh dp = Ok r \<Longrightarrow> valid_rule r"
  by (auto simp: rule_remote_def valid_rule_def intro: new_valid)

lemma rule_dynamic_valid: "rule_dynamic i n a bp = Ok r \<Longrightarrow> valid_rule r"
  by (auto simp: rule_dynamic_def valid_rule_def intro: new_valid)

lemma with_bind_address_valid:
  "with_bind_address r v = Ok r' \<Longrightarrow> valid_rule r \<Longrightarrow> valid_rule r'"
  by (cases "r_forwarding r")
    (auto simp: with_bind_address_def valid_rule_def dest: bind_address_new_valid)

lemma with_policy_valid [simp]: "valid_rule (with_policy r a c) = valid_rule r"
  by (simp add: with_policy_def valid_rule_def)

lemma rename_valid: "valid_rule r \<Longrightarrow> valid_rule (fst (rename r v))"
  by (auto simp: rename_def valid_rule_def split: sum.split dest: rule_name_new_valid)

lemmas constructors_valid = rule_local_valid rule_remote_valid rule_dynamic_valid
  with_bind_address_valid rename_valid

text \<open>A valid rule's parts, as the component proofs use them.\<close>

lemma valid_ruleD:
  assumes "valid_rule r"
  shows "valid_name (r_name r)" "valid_alias (r_alias r)" "valid_forwarding (r_forwarding r)"
  using assms by (simp_all add: valid_rule_def)

lemma local_listener_valid:
  "valid_rule r \<Longrightarrow> local_listener r = Some (b, p) \<Longrightarrow> valid_bind b \<and> valid_port p"
  by (auto simp: local_listener_def valid_rule_def split: forwarding.splits)

lemma local_listener_policy [simp]: "local_listener (with_policy r a c) = local_listener r"
  by (simp add: local_listener_def with_policy_def)

lemma valid_alias_arg:
  assumes "valid_alias a"
  shows "alias_str a \<noteq> []" "hd (alias_str a) \<noteq> 45" "\<not> list_ex is_whitespace (alias_str a)"
    "\<not> list_ex is_control (alias_str a)"
  using assms by (cases a; simp add: valid_alias_def host_alias_new_Ok)+

end
