(* ===== verification/Domain_Status.thy ===== *)
theory Domain_Status
  imports Domain_Rule
begin

text \<open>
  The runtime state machine of one rule, \<open>src/src/domain/status.rs\<close>: its states and
  events, the transition function \<open>apply\<close> with its two errors, the step relation it
  computes, and the runs of a machine from its start state.
\<close>

type_synonym attempt_id = uuid

datatype runtime_state =
    RtStopped
  | RtStarting attempt_id
  | RtActive attempt_id
  | RtReconnecting attempt_id
  | RtStopping "attempt_id option"
  | RtFailed attempt_id

datatype runtime_event =
    StartRequested attempt_id
  | ForwardingAccepted attempt_id
  | AttemptFailed attempt_id bool
  | ProcessExited attempt_id bool
  | RetryDue attempt_id attempt_id
  | StopRequested
  | CleanupComplete

datatype transition_error =
    Invalid runtime_state runtime_event
  | StaleAttempt attempt_id attempt_id

record transition =
  t_from :: runtime_state
  t_to :: runtime_state
  t_changed :: bool

record state_machine =
  m_state :: runtime_state

definition machine_new :: state_machine where
  "machine_new = \<lparr>m_state = RtStopped\<rparr>"

definition ensure_attempt :: "attempt_id \<Rightarrow> attempt_id \<Rightarrow> transition_error + unit" where
  "ensure_attempt expected actual =
     (if expected = actual then Ok () else Err (StaleAttempt expected actual))"

definition failed_state :: "attempt_id \<Rightarrow> bool \<Rightarrow> runtime_state" where
  "failed_state a retry = (if retry then RtReconnecting a else RtFailed a)"

fun next_state :: "runtime_state \<Rightarrow> runtime_event \<Rightarrow> transition_error + runtime_state" where
  "next_state RtStopped (StartRequested a) = Ok (RtStarting a)"
| "next_state (RtFailed _) (StartRequested a) = Ok (RtStarting a)"
| "next_state (RtStarting expected) (ForwardingAccepted a) =
     and_then (ensure_attempt expected a) (\<lambda>_. Ok (RtActive a))"
| "next_state (RtStarting expected) (AttemptFailed a retry) =
     and_then (ensure_attempt expected a) (\<lambda>_. Ok (failed_state a retry))"
| "next_state (RtActive expected) (ProcessExited a retry) =
     and_then (ensure_attempt expected a) (\<lambda>_. Ok (failed_state a retry))"
| "next_state (RtReconnecting expected) (RetryDue failed next) =
     and_then (ensure_attempt expected failed) (\<lambda>_. Ok (RtStarting next))"
| "next_state RtStopped StopRequested = Ok RtStopped"
| "next_state (RtStopping a) StopRequested = Ok (RtStopping a)"
| "next_state (RtStarting a) StopRequested = Ok (RtStopping (Some a))"
| "next_state (RtActive a) StopRequested = Ok (RtStopping (Some a))"
| "next_state (RtFailed a) StopRequested = Ok (RtStopping (Some a))"
| "next_state (RtReconnecting a) StopRequested = Ok (RtStopping (Some a))"
| "next_state (RtStopping _) CleanupComplete = Ok RtStopped"
| "next_state s e = Err (Invalid s e)"

definition machine_apply ::
  "state_machine \<Rightarrow> runtime_event \<Rightarrow> state_machine \<times> (transition_error + transition)" where
  "machine_apply m e =
     (case next_state (m_state m) e of
        Inl err \<Rightarrow> (m, Err err)
      | Inr to \<Rightarrow> (m\<lparr>m_state := to\<rparr>,
          Ok \<lparr>t_from = m_state m, t_to = to, t_changed = (m_state m \<noteq> to)\<rparr>))"

fun machine_run :: "state_machine \<Rightarrow> runtime_event list \<Rightarrow> state_machine" where
  "machine_run m [] = m"
| "machine_run m (e # es) = machine_run (fst (machine_apply m e)) es"

section \<open>The step relation\<close>

text \<open>The allowed transitions, one rule each, as the design's state diagram lists them.\<close>

inductive rt_step :: "runtime_state \<Rightarrow> runtime_event \<Rightarrow> runtime_state \<Rightarrow> bool" where
  start: "s = RtStopped \<or> s = RtFailed f \<Longrightarrow> rt_step s (StartRequested a) (RtStarting a)"
| accept: "rt_step (RtStarting a) (ForwardingAccepted a) (RtActive a)"
| startup_retry: "rt_step (RtStarting a) (AttemptFailed a True) (RtReconnecting a)"
| startup_failed: "rt_step (RtStarting a) (AttemptFailed a False) (RtFailed a)"
| exit_retry: "rt_step (RtActive a) (ProcessExited a True) (RtReconnecting a)"
| exit_failed: "rt_step (RtActive a) (ProcessExited a False) (RtFailed a)"
| retry: "rt_step (RtReconnecting a) (RetryDue a b) (RtStarting b)"
| stop: "s \<in> {RtStarting a, RtActive a, RtReconnecting a, RtFailed a} \<Longrightarrow>
     rt_step s StopRequested (RtStopping (Some a))"
| stop_again: "s = RtStopped \<or> s = RtStopping x \<Longrightarrow> rt_step s StopRequested s"
| cleanup: "rt_step (RtStopping x) CleanupComplete RtStopped"

inductive_cases stopping_step: "rt_step (RtStopping x) e s"
inductive_cases to_active: "rt_step s e (RtActive a)"
inductive_cases to_starting: "rt_step s e (RtStarting a)"
inductive_simps rt_accepted: "rt_step s (ForwardingAccepted a) t"

lemma ensure_attempt_Ok [simp]: "ensure_attempt x y = Ok u \<longleftrightarrow> x = y"
  by (simp add: ensure_attempt_def)

lemma next_state_step: "next_state s e = Ok t \<longleftrightarrow> rt_step s e t"
proof
  assume "next_state s e = Ok t"
  then show "rt_step s e t"
    by (cases "(s, e)" rule: next_state.cases)
      (auto simp: failed_state_def intro: rt_step.intros)
next
  assume "rt_step s e t"
  then show "next_state s e = Ok t"
    by cases (auto simp: failed_state_def)
qed

lemma machine_apply_cases:
  obtains t where "next_state (m_state m) e = Ok t" "machine_apply m e =
      (m\<lparr>m_state := t\<rparr>, Ok \<lparr>t_from = m_state m, t_to = t, t_changed = (m_state m \<noteq> t)\<rparr>)"
  | err where "next_state (m_state m) e = Err err" "machine_apply m e = (m, Err err)"
  by (cases "next_state (m_state m) e") (auto simp: machine_apply_def)

lemma machine_step_state:
  "m_state (fst (machine_apply m e)) =
   (case next_state (m_state m) e of Inl _ \<Rightarrow> m_state m | Inr t \<Rightarrow> t)"
  by (simp add: machine_apply_def split: sum.split)

lemma machine_run_append: "machine_run m (xs @ ys) = machine_run (machine_run m xs) ys"
  by (induction xs arbitrary: m) auto

text \<open>Which attempts a run has opened.\<close>

fun opened :: "runtime_event \<Rightarrow> attempt_id set" where
  "opened (StartRequested a) = {a}"
| "opened (RetryDue _ b) = {b}"
| "opened _ = {}"

primrec attempt_of :: "runtime_state \<Rightarrow> attempt_id set" where
  "attempt_of RtStopped = {}"
| "attempt_of (RtStarting a) = {a}"
| "attempt_of (RtActive a) = {a}"
| "attempt_of (RtReconnecting a) = {a}"
| "attempt_of (RtStopping x) = set_option x"
| "attempt_of (RtFailed a) = {a}"

lemma rt_step_attempt: "rt_step s e t \<Longrightarrow> attempt_of t \<subseteq> attempt_of s \<union> opened e"
  by (induction rule: rt_step.induct) auto

lemma machine_run_attempt:
  "attempt_of (m_state (machine_run m es)) \<subseteq> attempt_of (m_state m) \<union> \<Union> (opened ` set es)"
proof (induction es arbitrary: m)
  case (Cons e es)
  have "attempt_of (m_state (fst (machine_apply m e))) \<subseteq> attempt_of (m_state m) \<union> opened e"
    using rt_step_attempt next_state_step
    by (auto simp: machine_step_state split: sum.splits)
  with Cons.IH [of "fst (machine_apply m e)"] show ?case by auto
qed simp

text \<open>A stop request is only undone by the cleanup it waits for.\<close>

lemma stopping_sticky:
  "CleanupComplete \<notin> set es \<Longrightarrow> m_state m = RtStopping x \<Longrightarrow>
   m_state (machine_run m es) = RtStopping x"
proof (induction es arbitrary: m)
  case (Cons e es)
  have "m_state (fst (machine_apply m e)) = RtStopping x"
    using Cons.prems by (cases e) (auto simp: machine_step_state)
  with Cons show ?case by auto
qed simp

section \<open>Properties\<close>

text \<open>C36: the machine takes exactly the transitions of the design's state diagram; an
  event outside it, or one of another attempt, is rejected and leaves the state alone, and
  an accepted one reports where it came from, where it leads and whether that differs.\<close>

theorem machine_apply_refines_diagram:
  "(\<forall>t. m_state (fst (machine_apply m e)) = t \<and> is_ok (snd (machine_apply m e)) \<longleftrightarrow>
        rt_step (m_state m) e t) \<and>
   (is_ok (snd (machine_apply m e)) \<or> fst (machine_apply m e) = m) \<and>
   (case snd (machine_apply m e) of
      Inl _ \<Rightarrow> True
    | Inr tr \<Rightarrow> t_from tr = m_state m \<and> t_to tr = m_state (fst (machine_apply m e)) \<and>
        t_changed tr = (t_from tr \<noteq> t_to tr))"
proof (rule machine_apply_cases [of m e])
  fix t assume t: "next_state (m_state m) e = Ok t" "machine_apply m e =
      (m\<lparr>m_state := t\<rparr>, Ok \<lparr>t_from = m_state m, t_to = t, t_changed = (m_state m \<noteq> t)\<rparr>)"
  then show ?thesis using next_state_step [of "m_state m" e] by (auto simp: t)
next
  fix err assume err: "next_state (m_state m) e = Err err" "machine_apply m e = (m, Err err)"
  then have "\<not> rt_step (m_state m) e t" for t
    using next_state_step [of "m_state m" e t] by auto
  with err show ?thesis by simp
qed

text \<open>An attempt is never active, retrying or failed unless a start request or a due
  retry opened it: whatever events arrive, in any order, the attempt the machine is in was
  opened by one of them.\<close>

theorem machine_attempt_was_opened:
  "attempt_of (m_state (machine_run machine_new es)) \<subseteq> \<Union> (opened ` set es)"
  using machine_run_attempt [of machine_new es] by (simp add: machine_new_def)

text \<open>Once a stop was requested of a machine that runs an attempt, no later event (a
  late success, a failure, a retry, another start) brings it back before its cleanup
  completes.\<close>

theorem machine_stop_is_final:
  assumes "attempt_of (m_state m) \<noteq> {}"
    and "CleanupComplete \<notin> set es"
  shows "\<exists>x. m_state (machine_run m (StopRequested # es)) = RtStopping x"
proof -
  have "\<exists>x. m_state (fst (machine_apply m StopRequested)) = RtStopping x"
    using assms(1) by (cases "m_state m") (auto simp: machine_step_state)
  with stopping_sticky [OF assms(2)] show ?thesis by auto
qed

theorem machine_stop_is_final_witness:
  "\<exists>x. m_state (machine_run \<lparr>m_state = RtStarting 1\<rparr>
     [StopRequested, ForwardingAccepted 1, AttemptFailed 1 True, StartRequested 2]) =
     RtStopping x"
  by (rule machine_stop_is_final [of "\<lparr>m_state = RtStarting 1\<rparr>"]) simp_all

end
