(* ===== verification/Domain_Validation.thy ===== *)
theory Domain_Validation
  imports Domain_Rule "HOL-Library.Multiset"
begin

text \<open>
  Rule-set validation, \<open>src/src/domain/validation.rs\<close>: which bind addresses overlap, and
  the scan that compares each rule with those before it. The interface
  \<open>conflict_relation\<close> states what a symmetric clash gives to any list kept free of
  clashes (the rules here, the accepted candidates of an import preview elsewhere).
\<close>

section \<open>Lists kept free of a symmetric clash\<close>

text \<open>\<open>clash_free\<close> compares each element with all before it, as the scans of the code do.\<close>

definition clash_free :: "('a \<Rightarrow> 'a \<Rightarrow> bool) \<Rightarrow> 'a list \<Rightarrow> bool" where
  "clash_free clash xs \<longleftrightarrow> sorted_wrt (\<lambda>x y. \<not> clash y x) xs"

lemma clash_free_simps [simp]:
  "clash_free clash []"
  "clash_free clash (x # xs) \<longleftrightarrow> (\<forall>y \<in> set xs. \<not> clash y x) \<and> clash_free clash xs"
  by (auto simp: clash_free_def)

lemma clash_free_append:
  "clash_free clash (xs @ ys) \<longleftrightarrow> clash_free clash xs \<and> clash_free clash ys \<and>
     (\<forall>x \<in> set xs. \<forall>y \<in> set ys. \<not> clash y x)"
  by (auto simp: clash_free_def sorted_wrt_append)

lemma clash_free_filter: "clash_free clash xs \<Longrightarrow> clash_free clash (filter P xs)"
  by (simp add: clash_free_def sorted_wrt_filter)

lemma set_remove1_insert: "x \<in> set ys \<Longrightarrow> set ys = insert x (set (remove1 x ys))"
  by (induction ys) auto

locale conflict_relation =
  fixes clash :: "'a \<Rightarrow> 'a \<Rightarrow> bool"
  assumes clash_sym: "clash x y \<Longrightarrow> clash y x"
begin

lemma clash_commute: "clash x y \<longleftrightarrow> clash y x"
  using clash_sym by blast

lemma free_remove1:
  "x \<in> set ys \<Longrightarrow> clash_free clash ys \<longleftrightarrow> clash_free clash (x # remove1 x ys)"
proof (induction ys)
  case (Cons y ys)
  show ?case
  proof (cases "x = y")
    case False
    with Cons.prems have x: "x \<in> set ys" by simp
    then have "set ys = insert x (set (remove1 x ys))"
      by (rule set_remove1_insert)
    then show ?thesis using False Cons.IH [OF x] clash_commute by auto
  qed simp
qed simp

lemma free_perm: "mset xs = mset ys \<Longrightarrow> clash_free clash xs \<longleftrightarrow> clash_free clash ys"
proof (induction xs arbitrary: ys)
  case Nil
  then show ?case by simp
next
  case (Cons x xs)
  from Cons.prems have x: "x \<in> set ys" by (metis list.set_intros(1) mset_eq_setD)
  from Cons.prems x have m: "mset xs = mset (remove1 x ys)" by (metis mset_remove1 add_mset_remove_trivial mset.simps(2))
  then have "set xs = set (remove1 x ys)" by (rule mset_eq_setD)
  with Cons.IH [OF m] free_remove1 [OF x] show ?case by simp
qed

lemma free_nth:
  "clash_free clash xs \<longleftrightarrow>
   (\<forall>i < length xs. \<forall>j < length xs. i \<noteq> j \<longrightarrow> \<not> clash (xs ! i) (xs ! j))"
proof
  assume free: "clash_free clash xs"
  show "\<forall>i < length xs. \<forall>j < length xs. i \<noteq> j \<longrightarrow> \<not> clash (xs ! i) (xs ! j)"
  proof (intro allI impI)
    fix i j assume ij: "i < length xs" "j < length xs" "i \<noteq> j"
    then consider "i < j" | "j < i" by linarith
    then show "\<not> clash (xs ! i) (xs ! j)"
      using free ij clash_sym unfolding clash_free_def sorted_wrt_iff_nth_less
      by cases blast+
  qed
qed (auto simp: clash_free_def sorted_wrt_iff_nth_less)

lemma free_snoc:
  "clash_free clash (xs @ [x]) \<longleftrightarrow> clash_free clash xs \<and> (\<forall>y \<in> set xs. \<not> clash y x)"
  using clash_commute by (auto simp: clash_free_append)

end

section \<open>Bind addresses that overlap\<close>

datatype binding_class =
    Any | Localhost | V4Any | V6Any | BindV4 "32 word" | BindV6 "128 word"

definition binding_class_of :: "bind_address \<Rightarrow> binding_class" where
  "binding_class_of b =
     (if bind_str b = lit ''*'' then Any
      else if bind_str b = lit ''localhost'' then Localhost
      else case parse_ip_addr (bind_str b) of
        Some (V4 a) \<Rightarrow> if a = 0 then V4Any else BindV4 a
      | Some (V6 a) \<Rightarrow> if a = 0 then V6Any else BindV6 a
      | None \<Rightarrow> Any)"

fun classes_overlap :: "binding_class \<Rightarrow> binding_class \<Rightarrow> bool" where
  "classes_overlap Any _ = True"
| "classes_overlap _ Any = True"
| "classes_overlap V4Any (BindV4 _) = True"
| "classes_overlap V4Any Localhost = True"
| "classes_overlap (BindV4 _) V4Any = True"
| "classes_overlap Localhost V4Any = True"
| "classes_overlap V6Any (BindV6 _) = True"
| "classes_overlap V6Any Localhost = True"
| "classes_overlap (BindV6 _) V6Any = True"
| "classes_overlap Localhost V6Any = True"
| "classes_overlap Localhost Localhost = True"
| "classes_overlap Localhost (BindV4 v) = v4_is_loopback v"
| "classes_overlap (BindV4 v) Localhost = v4_is_loopback v"
| "classes_overlap Localhost (BindV6 v) = v6_is_loopback v"
| "classes_overlap (BindV6 v) Localhost = v6_is_loopback v"
| "classes_overlap (BindV4 l) (BindV4 r) = (l = r)"
| "classes_overlap (BindV6 l) (BindV6 r) = (l = r)"
| "classes_overlap _ _ = False"

definition bind_addresses_overlap :: "bind_address \<Rightarrow> bind_address \<Rightarrow> bool" where
  "bind_addresses_overlap left right =
     classes_overlap (binding_class_of left) (binding_class_of right)"

lemma classes_overlap_commute: "classes_overlap a b = classes_overlap b a"
  by (cases a; cases b) auto

lemma bind_addresses_overlap_commute:
  "bind_addresses_overlap a b = bind_addresses_overlap b a"
  by (simp add: bind_addresses_overlap_def classes_overlap_commute)

text \<open>
  What an overlap test should meet, stated over the bind address itself: the IP addresses
  a listener answers on. \<open>*\<close> is every address, \<open>localhost\<close> the loopback addresses of both
  families (127.0.0.0/8 and ::1), a literal the address it parses to, and the unspecified
  literal of a family every address of that family.
\<close>

primrec loopback_address :: "ip_addr \<Rightarrow> bool" where
  "loopback_address (V4 a) \<longleftrightarrow> drop_bit 24 a = 127"
| "loopback_address (V6 a) \<longleftrightarrow> a = 1"

primrec same_family :: "ip_addr \<Rightarrow> ip_addr \<Rightarrow> bool" where
  "same_family (V4 _) ip \<longleftrightarrow> (case ip of V4 _ \<Rightarrow> True | V6 _ \<Rightarrow> False)"
| "same_family (V6 _) ip \<longleftrightarrow> (case ip of V4 _ \<Rightarrow> False | V6 _ \<Rightarrow> True)"

definition unspecified_address :: "ip_addr \<Rightarrow> bool" where
  "unspecified_address ip \<longleftrightarrow> ip = V4 0 \<or> ip = V6 0"

definition answers_on :: "bind_address \<Rightarrow> ip_addr \<Rightarrow> bool" where
  "answers_on b ip \<longleftrightarrow>
     bind_str b = lit ''*'' \<or>
     bind_str b = lit ''localhost'' \<and> loopback_address ip \<or>
     (case parse_ip_addr (bind_str b) of
        Some literal \<Rightarrow> ip = literal \<or> unspecified_address literal \<and> same_family literal ip
      | None \<Rightarrow> False)"

definition listener_addresses :: "bind_address \<Rightarrow> ip_addr set" where
  "listener_addresses b = {ip. answers_on b ip}"

definition same_wildcard :: "bind_address \<Rightarrow> bind_address \<Rightarrow> bool" where
  "same_wildcard a b \<longleftrightarrow>
     (case parse_ip_addr (bind_str a) of
        Some ip \<Rightarrow> unspecified_address ip \<and> parse_ip_addr (bind_str b) = Some ip
      | None \<Rightarrow> False)"

text \<open>The addresses of a class, to which the classification is compared.\<close>

primrec class_addresses :: "binding_class \<Rightarrow> ip_addr set" where
  "class_addresses Any = UNIV"
| "class_addresses Localhost = V4 ` {a. v4_is_loopback a} \<union> V6 ` {a. v6_is_loopback a}"
| "class_addresses V4Any = range V4"
| "class_addresses V6Any = range V6"
| "class_addresses (BindV4 a) = {V4 a}"
| "class_addresses (BindV6 a) = {V6 a}"

lemma loopback_exists: "v4_is_loopback (2130706433)" "v6_is_loopback 1"
  by (simp_all add: v4_is_loopback_def v6_is_loopback_def)

lemma class_addresses_nonempty [simp]: "class_addresses c \<noteq> {}"
  using loopback_exists by (cases c) auto

lemma classes_overlap_iff:
  "classes_overlap a b \<longleftrightarrow> class_addresses a \<inter> class_addresses b \<noteq> {} \<and>
     (a, b) \<notin> {(V4Any, V4Any), (V6Any, V6Any)}"
  using loopback_exists class_addresses_nonempty [of a] class_addresses_nonempty [of b]
  by (cases a; cases b) auto

lemma name_no_literal: "parse_ip_addr (lit ''*'') = None" "parse_ip_addr (lit ''localhost'') = None"
  by code_simp+

lemma loopback_address_eq:
  "{ip. loopback_address ip} = V4 ` {a. v4_is_loopback a} \<union> V6 ` {a. v6_is_loopback a}" (is "?l = ?r")
proof -
  have "ip \<in> ?l \<longleftrightarrow> ip \<in> ?r" for ip by (cases ip) (auto simp: v4_is_loopback_def v6_is_loopback_def)
  then show ?thesis by blast
qed

lemma same_family_range:
  "same_family (V4 a) ip \<longleftrightarrow> ip \<in> range V4" "same_family (V6 b) ip \<longleftrightarrow> ip \<in> range V6"
  by (cases ip; auto)+

lemma listener_addresses_class:
  "valid_bind b \<Longrightarrow> listener_addresses b = class_addresses (binding_class_of b)"
  by (cases "parse_ip_addr (bind_str b)"; cases "the (parse_ip_addr (bind_str b))")
    (auto simp: listener_addresses_def answers_on_def binding_class_of_def valid_bind_def
      bind_address_new_def unspecified_address_def name_no_literal loopback_address_eq
      same_family_range simp del: same_family.simps split: if_splits)

lemma same_wildcard_class:
  "same_wildcard a b \<longleftrightarrow> (binding_class_of a, binding_class_of b) \<in> {(V4Any, V4Any), (V6Any, V6Any)}"
  using name_no_literal
  by (auto simp: same_wildcard_def binding_class_of_def unspecified_address_def
      split: if_splits option.splits ip_addr.splits)

section \<open>The scan of a rule set\<close>

definition same_name :: "rule \<Rightarrow> rule \<Rightarrow> bool" where
  "same_name r other \<longleftrightarrow> r_name other = r_name r"

definition same_listener :: "rule \<Rightarrow> rule \<Rightarrow> bool" where
  "same_listener r other =
     (case local_listener r of None \<Rightarrow> False
      | Some (address, port) \<Rightarrow>
          (case local_listener other of None \<Rightarrow> False
           | Some (other_address, other_port) \<Rightarrow>
               port = other_port \<and> bind_addresses_overlap address other_address))"

definition rule_errors_at :: "rule list \<Rightarrow> rule \<Rightarrow> validation_error list" where
  "rule_errors_at before r =
     (if list_ex (same_name r) before
      then [DuplicateName (rule_name_str (r_name r))] else []) @
     (case local_listener r of None \<Rightarrow> []
      | Some (address, port) \<Rightarrow>
          if list_ex (same_listener r) before
          then [DuplicateLocalListener (bind_str address) (port_get port)] else [])"

fun rule_errors :: "rule list \<Rightarrow> rule list \<Rightarrow> validation_error list" where
  "rule_errors before [] = []"
| "rule_errors before (r # rs) = rule_errors_at before r @ rule_errors (before @ [r]) rs"

definition validate_rule_set :: "rule list \<Rightarrow> validation_error list + unit" where
  "validate_rule_set rules =
     (let errors = rule_errors [] rules in if errors = [] then Ok () else Err errors)"

definition rule_clash :: "rule \<Rightarrow> rule \<Rightarrow> bool" where
  "rule_clash r other \<longleftrightarrow> same_name r other \<or> same_listener r other"

interpretation rules: conflict_relation rule_clash
  by unfold_locales
    (auto simp: rule_clash_def same_name_def same_listener_def
      bind_addresses_overlap_commute split: option.splits)

lemma rule_errors_at_Nil: "rule_errors_at before r = [] \<longleftrightarrow> (\<forall>x \<in> set before. \<not> rule_clash r x)"
  by (auto simp: rule_errors_at_def rule_clash_def same_listener_def list_ex_iff
      split: option.splits)

lemma rule_errors_Nil:
  "rule_errors before rs = [] \<longleftrightarrow>
   clash_free rule_clash rs \<and> (\<forall>x \<in> set before. \<forall>y \<in> set rs. \<not> rule_clash y x)"
  by (induction rs arbitrary: before) (auto simp: rule_errors_at_Nil)

lemma validate_rule_set_Ok:
  "validate_rule_set rs = Ok () \<longleftrightarrow> clash_free rule_clash rs"
  by (simp add: validate_rule_set_def Let_def rule_errors_Nil)

lemma validate_rule_set_cases:
  obtains "validate_rule_set rs = Ok ()" "clash_free rule_clash rs"
  | e where "validate_rule_set rs = Err e" "e \<noteq> []" "\<not> clash_free rule_clash rs"
  using validate_rule_set_Ok [of rs]
  by (cases "validate_rule_set rs") (auto simp: validate_rule_set_def Let_def split: if_splits)

lemma validate_Nil [simp]: "validate_rule_set [] = Ok ()"
  by (simp add: validate_rule_set_Ok)

lemma validate_filter:
  "validate_rule_set rs = Ok () \<Longrightarrow> validate_rule_set (filter P rs) = Ok ()"
  by (simp add: validate_rule_set_Ok clash_free_filter)

lemma validate_distinct_names:
  "validate_rule_set rs = Ok () \<Longrightarrow> distinct (map r_name rs)"
  by (induction rs) (auto simp: validate_rule_set_Ok rule_clash_def same_name_def)

section \<open>Properties\<close>

text \<open>C38: the overlap test against the meaning of a bind address: two valid bind addresses
  overlap exactly when some IP address reaches both listeners (\<open>*\<close> answers on every address,
  localhost on the loopback addresses of both families, an unspecified literal on its whole
  family, another literal on itself), except that twice the IPv4 wildcard, or twice the IPv6
  wildcard, is taken not to overlap although the listeners share every address.\<close>

theorem overlap_means_shared_address:
  assumes "valid_bind a" and "valid_bind b"
  shows "bind_addresses_overlap a b \<longleftrightarrow>
    listener_addresses a \<inter> listener_addresses b \<noteq> {} \<and> \<not> same_wildcard a b"
  using assms
  by (simp only: bind_addresses_overlap_def listener_addresses_class same_wildcard_class classes_overlap_iff)

theorem overlap_means_shared_address_witness:
  "listener_addresses (BindAddress (lit ''localhost'')) \<inter>
     listener_addresses (BindAddress (lit ''127.0.0.2'')) \<noteq> {} \<and>
   listener_addresses (BindAddress (lit ''localhost'')) \<inter>
     listener_addresses (BindAddress (lit ''10.0.0.1'')) = {}"
proof -
  have v: "valid_bind (BindAddress (lit ''localhost''))" "valid_bind (BindAddress (lit ''127.0.0.2''))"
    "valid_bind (BindAddress (lit ''10.0.0.1''))" by code_simp+
  have shared: "bind_addresses_overlap (BindAddress (lit ''localhost'')) (BindAddress (lit ''127.0.0.2''))"
    "\<not> bind_addresses_overlap (BindAddress (lit ''localhost'')) (BindAddress (lit ''10.0.0.1''))"
    by code_simp+
  have w: "\<not> same_wildcard (BindAddress (lit ''localhost'')) (BindAddress (lit ''10.0.0.1''))"
    by (simp add: same_wildcard_def name_no_literal)
  show ?thesis
    using overlap_means_shared_address [OF v(1,2)] overlap_means_shared_address [OF v(1,3)] shared w by blast
qed

definition listener_rule :: "uuid \<Rightarrow> rstr \<Rightarrow> rstr \<Rightarrow> u16 \<Rightarrow> rule" where
  "listener_rule i name bind p = \<lparr>r_id = i, r_name = RuleName name, r_alias = HostAlias (lit ''web''),
     r_forwarding = Dynamic \<lparr>df_bind_address = BindAddress bind, df_bind_port = Port p\<rparr>,
     r_auto_start = False, r_reconnect = False\<rparr>"

text \<open>Two rules that both listen on 0.0.0.0:3000 (or both on [::]:3000) are accepted as a
  rule set although their listeners share every address; the same two rules on 127.0.0.1
  are refused.\<close>

theorem wildcard_duplicates_accepted:
  "validate_rule_set [listener_rule 1 (lit ''a'') (lit ''0.0.0.0'') 3000,
      listener_rule 2 (lit ''b'') (lit ''0.0.0.0'') 3000] = Ok () \<and>
   validate_rule_set [listener_rule 1 (lit ''a'') (lit ''::'') 3000,
      listener_rule 2 (lit ''b'') (lit ''::'') 3000] = Ok () \<and>
   listener_addresses (BindAddress (lit ''0.0.0.0'')) = range V4 \<and>
   validate_rule_set [listener_rule 1 (lit ''a'') (lit ''127.0.0.1'') 3000,
      listener_rule 2 (lit ''b'') (lit ''127.0.0.1'') 3000] =
     Err [DuplicateLocalListener (lit ''127.0.0.1'') 3000]"
proof -
  have "binding_class_of (BindAddress (lit ''0.0.0.0'')) = V4Any"
    "valid_bind (BindAddress (lit ''0.0.0.0''))" by code_simp+
  then have "listener_addresses (BindAddress (lit ''0.0.0.0'')) = range V4"
    by (simp add: listener_addresses_class)
  moreover have "validate_rule_set [listener_rule 1 (lit ''a'') (lit ''0.0.0.0'') 3000,
      listener_rule 2 (lit ''b'') (lit ''0.0.0.0'') 3000] = Ok ()"
    "validate_rule_set [listener_rule 1 (lit ''a'') (lit ''::'') 3000,
      listener_rule 2 (lit ''b'') (lit ''::'') 3000] = Ok ()"
    "validate_rule_set [listener_rule 1 (lit ''a'') (lit ''127.0.0.1'') 3000,
      listener_rule 2 (lit ''b'') (lit ''127.0.0.1'') 3000] =
     Err [DuplicateLocalListener (lit ''127.0.0.1'') 3000]" by code_simp+
  ultimately show ?thesis by blast
qed

text \<open>A rule set passes exactly when no two of its rules share a name or have local
  listeners on one port with overlapping addresses; which rule comes first plays no part.\<close>

theorem validation_is_pairwise:
  "validate_rule_set rs = Ok () \<longleftrightarrow>
   (\<forall>i < length rs. \<forall>j < length rs. i = j \<or>
      (r_name (rs ! i) \<noteq> r_name (rs ! j) \<and> \<not> same_listener (rs ! i) (rs ! j)))"
  using rules.free_nth [of rs]
  by (auto simp: validate_rule_set_Ok rule_clash_def same_name_def)

theorem validation_is_pairwise_witness:
  "validate_rule_set [listener_rule 1 (lit ''a'') (lit ''*'') 80] = Ok () \<longleftrightarrow>
   (\<forall>i < length [listener_rule 1 (lit ''a'') (lit ''*'') 80].
    \<forall>j < length [listener_rule 1 (lit ''a'') (lit ''*'') 80]. i = j \<or>
      (r_name ([listener_rule 1 (lit ''a'') (lit ''*'') 80] ! i) \<noteq>
         r_name ([listener_rule 1 (lit ''a'') (lit ''*'') 80] ! j) \<and>
       \<not> same_listener ([listener_rule 1 (lit ''a'') (lit ''*'') 80] ! i)
           ([listener_rule 1 (lit ''a'') (lit ''*'') 80] ! j)))"
  by (rule validation_is_pairwise)

text \<open>Validation does not depend on the order of the rules.\<close>

theorem validation_ignores_order:
  assumes "mset rs = mset rs'"
  shows "validate_rule_set rs = Ok () \<longleftrightarrow> validate_rule_set rs' = Ok ()"
  using rules.free_perm [OF assms] by (simp add: validate_rule_set_Ok)

theorem validation_ignores_order_witness:
  "validate_rule_set [listener_rule 1 (lit ''a'') (lit ''*'') 80,
      listener_rule 2 (lit ''b'') (lit ''localhost'') 80] = Ok () \<longleftrightarrow>
   validate_rule_set [listener_rule 2 (lit ''b'') (lit ''localhost'') 80,
      listener_rule 1 (lit ''a'') (lit ''*'') 80] = Ok ()"
  by (rule validation_ignores_order) simp

end
