(* ===== verification/Config_Model.thy ===== *)
theory Config_Model
  imports Domain_Validation
begin

text \<open>
  The versioned configuration, \<open>src/src/config/mod.rs\<close> and \<open>src/src/config/conversion.rs\<close>:
  settings, the wire form of a rule, schema versions 1 and 2, and the conversions between
  wire and domain rules. The TOML text itself is the \<open>toml\<close> crate's and enters the store
  as a parameter.
\<close>

section \<open>Settings\<close>

datatype theme = System | Dark | Light

datatype log_level = LvError | LvWarn | LvInfo | LvDebug | LvTrace

primrec priority :: "log_level \<Rightarrow> nat" where
  "priority LvError = 0"
| "priority LvWarn = 1"
| "priority LvInfo = 2"
| "priority LvDebug = 3"
| "priority LvTrace = 4"

definition allows :: "log_level \<Rightarrow> log_level \<Rightarrow> bool" where
  "allows self event \<longleftrightarrow> priority event \<le> priority self"

primrec log_level_str :: "log_level \<Rightarrow> rstr" where
  "log_level_str LvError = lit ''error''"
| "log_level_str LvWarn = lit ''warn''"
| "log_level_str LvInfo = lit ''info''"
| "log_level_str LvDebug = lit ''debug''"
| "log_level_str LvTrace = lit ''trace''"

text \<open>Levels are ordered by how much they let through.\<close>

instantiation log_level :: linorder
begin

definition less_eq_log_level :: "log_level \<Rightarrow> log_level \<Rightarrow> bool" where
  "less_eq_log_level a b \<longleftrightarrow> priority a \<le> priority b"

definition less_log_level :: "log_level \<Rightarrow> log_level \<Rightarrow> bool" where
  "less_log_level a b \<longleftrightarrow> priority a < priority b"

instance
proof
  fix a b :: log_level
  show "a \<le> b \<Longrightarrow> b \<le> a \<Longrightarrow> a = b"
    by (cases a; cases b) (simp_all add: less_eq_log_level_def)
qed (auto simp: less_eq_log_level_def less_log_level_def)

end

lemma allows_iff: "allows self event \<longleftrightarrow> event \<le> self"
  by (simp add: allows_def less_eq_log_level_def)

record settings =
  s_theme :: theme
  s_log_level :: log_level
  s_default_reconnect :: bool
  s_default_auto_start :: bool

definition default_settings :: settings where
  "default_settings = \<lparr>s_theme = System, s_log_level = LvInfo,
     s_default_reconnect = False, s_default_auto_start = False\<rparr>"

section \<open>Wire rules\<close>

record wire_endpoints =
  w_id :: uuid
  w_name :: rstr
  w_ssh_host_alias :: rstr
  w_bind_address :: rstr
  w_bind_port :: u16
  w_destination_host :: rstr
  w_destination_port :: u16
  w_auto_start :: bool
  w_reconnect :: bool

record wire_listener =
  wd_id :: uuid
  wd_name :: rstr
  wd_ssh_host_alias :: rstr
  wd_bind_address :: rstr
  wd_bind_port :: u16
  wd_auto_start :: bool
  wd_reconnect :: bool

text \<open>A dynamic rule has no destination fields at all.\<close>

datatype wire_rule =
    WLocal wire_endpoints
  | WRemote wire_endpoints
  | WDynamic wire_listener

primrec wire_id :: "wire_rule \<Rightarrow> uuid" where
  "wire_id (WLocal w) = w_id w"
| "wire_id (WRemote w) = w_id w"
| "wire_id (WDynamic w) = wd_id w"

definition finish_wire ::
  "validation_error + rule \<Rightarrow> rstr \<Rightarrow> bool \<Rightarrow> bool \<Rightarrow> validation_error + rule" where
  "finish_wire res bind auto_start reconnect =
     and_then res (\<lambda>r. and_then (with_bind_address r bind) (\<lambda>r'.
       Ok (with_policy r' auto_start reconnect)))"

primrec domain_of_wire :: "wire_rule \<Rightarrow> validation_error + rule" where
  "domain_of_wire (WLocal w) =
     finish_wire
       (rule_local (w_id w) (w_name w) (w_ssh_host_alias w) (w_bind_port w)
         (w_destination_host w) (w_destination_port w))
       (w_bind_address w) (w_auto_start w) (w_reconnect w)"
| "domain_of_wire (WRemote w) =
     finish_wire
       (rule_remote (w_id w) (w_name w) (w_ssh_host_alias w) (w_bind_port w)
         (w_destination_host w) (w_destination_port w))
       (w_bind_address w) (w_auto_start w) (w_reconnect w)"
| "domain_of_wire (WDynamic w) =
     finish_wire
       (rule_dynamic (wd_id w) (wd_name w) (wd_ssh_host_alias w) (wd_bind_port w))
       (wd_bind_address w) (wd_auto_start w) (wd_reconnect w)"

definition wire_of_domain :: "rule \<Rightarrow> wire_rule" where
  "wire_of_domain r =
     (case r_forwarding r of
        Local v \<Rightarrow> WLocal \<lparr>w_id = r_id r, w_name = rule_name_str (r_name r),
          w_ssh_host_alias = alias_str (r_alias r),
          w_bind_address = bind_str (lf_bind_address v),
          w_bind_port = port_get (lf_bind_port v),
          w_destination_host = dest_str (lf_destination_host v),
          w_destination_port = port_get (lf_destination_port v),
          w_auto_start = r_auto_start r, w_reconnect = r_reconnect r\<rparr>
      | Remote v \<Rightarrow> WRemote \<lparr>w_id = r_id r, w_name = rule_name_str (r_name r),
          w_ssh_host_alias = alias_str (r_alias r),
          w_bind_address = bind_str (rf_bind_address v),
          w_bind_port = port_get (rf_bind_port v),
          w_destination_host = dest_str (rf_destination_host v),
          w_destination_port = port_get (rf_destination_port v),
          w_auto_start = r_auto_start r, w_reconnect = r_reconnect r\<rparr>
      | Dynamic v \<Rightarrow> WDynamic \<lparr>wd_id = r_id r, wd_name = rule_name_str (r_name r),
          wd_ssh_host_alias = alias_str (r_alias r),
          wd_bind_address = bind_str (df_bind_address v),
          wd_bind_port = port_get (df_bind_port v),
          wd_auto_start = r_auto_start r, wd_reconnect = r_reconnect r\<rparr>)"

lemma wire_id_of_domain [simp]: "wire_id (wire_of_domain r) = r_id r"
  by (simp add: wire_of_domain_def split: forwarding.split)

lemma finish_wire_Ok:
  "finish_wire res b a c = Ok r' \<longleftrightarrow>
   (\<exists>r r1. res = Ok r \<and> with_bind_address r b = Ok r1 \<and> r' = with_policy r1 a c)"
  by (auto simp: finish_wire_def)

lemma domain_of_wire_valid: "domain_of_wire w = Ok r \<Longrightarrow> valid_rule r"
  by (cases w; clarsimp simp: finish_wire_Ok; blast intro: constructors_valid)

lemma domain_of_wire_id: "domain_of_wire w = Ok r \<Longrightarrow> r_id r = wire_id w"
  by (cases w) (auto simp: finish_wire_Ok rule_local_def rule_remote_def rule_dynamic_def
      with_bind_address_def with_policy_def)

lemmas rule_builders = rule_local_def rule_remote_def rule_dynamic_def
  with_bind_address_def with_policy_def

lemma wire_of_domain_of_wire: "domain_of_wire w = Ok r \<Longrightarrow> wire_of_domain r = w"
  by (cases w) (auto simp: finish_wire_Ok rule_builders wire_of_domain_def new_Ok)

lemma valid_newD:
  "valid_name n \<Longrightarrow> rule_name_new (rule_name_str n) = Ok n"
  "valid_alias a \<Longrightarrow> host_alias_new (alias_str a) = Ok a"
  "valid_bind b \<Longrightarrow> bind_address_new (bind_str b) = Ok b"
  "valid_dest d \<Longrightarrow> destination_host_new (dest_str d) = Ok d"
  "valid_port p \<Longrightarrow> port_new (port_get p) f = Ok p"
  by (simp_all add: valid_defs) (cases p; simp add: port_new_def)

lemma domain_of_wire_of_domain: "valid_rule r \<Longrightarrow> domain_of_wire (wire_of_domain r) = Ok r"
  by (cases "r_forwarding r")
    (simp_all add: wire_of_domain_def finish_wire_def rule_builders valid_rule_def valid_newD)

section \<open>Schema versions\<close>

definition schema_version :: nat where "schema_version = 2"

datatype io_kind =
    IoNotFound | IoPermissionDenied | IoAlreadyExists | IoInvalidInput | IoAddrInUse
  | IoWouldBlock | IoTimedOut | IoInterrupted | IoOther

text \<open>The texts of codec errors are the \<open>toml\<close> crate's; their values are not kept.\<close>

datatype store_error =
    StoreIo io_kind
  | StoreDecode
  | StoreEncode
  | UnsupportedSchema nat
  | InvalidRule validation_error
  | InvalidRules "validation_error list"
  | DurabilityUncertain io_kind

record config_v1 =
  v1_schema_version :: nat
  v1_rules :: "wire_rule list"

record config_v2 =
  v2_schema_version :: nat
  v2_rules :: "wire_rule list"
  v2_settings :: settings

definition check_rules :: "rule list \<Rightarrow> store_error + unit" where
  "check_rules rules = map_err InvalidRules (validate_rule_set rules)"

definition wires_into_domain :: "wire_rule list \<Rightarrow> store_error + rule list" where
  "wires_into_domain ws =
     and_then (map_err InvalidRule (collect_results domain_of_wire ws)) (\<lambda>rules.
     and_then (check_rules rules) (\<lambda>_. Ok rules))"

definition v1_into_domain :: "config_v1 \<Rightarrow> store_error + rule list" where
  "v1_into_domain c =
     (if v1_schema_version c \<noteq> 1 then Err (UnsupportedSchema (v1_schema_version c))
      else wires_into_domain (v1_rules c))"

definition v2_into_domain :: "config_v2 \<Rightarrow> store_error + rule list \<times> settings" where
  "v2_into_domain c =
     (if v2_schema_version c \<noteq> schema_version
      then Err (UnsupportedSchema (v2_schema_version c))
      else map_ok (\<lambda>rules. (rules, v2_settings c)) (wires_into_domain (v2_rules c)))"

definition v2_from_domain :: "rule list \<Rightarrow> settings \<Rightarrow> store_error + config_v2" where
  "v2_from_domain rules s =
     and_then (check_rules rules) (\<lambda>_.
       Ok \<lparr>v2_schema_version = schema_version, v2_rules = map wire_of_domain rules,
           v2_settings = s\<rparr>)"

definition well_formed_rules :: "rule list \<Rightarrow> bool" where
  "well_formed_rules rules \<longleftrightarrow>
     list_all valid_rule rules \<and> validate_rule_set rules = Ok ()"

lemma check_rules_Ok [simp]: "check_rules rules = Ok u \<longleftrightarrow> validate_rule_set rules = Ok ()"
  by (simp add: check_rules_def)

lemma wires_into_domain_Ok:
  "wires_into_domain ws = Ok rules \<longleftrightarrow>
   list_all2 (\<lambda>w r. domain_of_wire w = Ok r) ws rules \<and> validate_rule_set rules = Ok ()"
  by (auto simp: wires_into_domain_def collect_results_Inr)

lemma wires_into_domain_well_formed:
  "wires_into_domain ws = Ok rules \<Longrightarrow> well_formed_rules rules"
  by (auto simp: wires_into_domain_Ok well_formed_rules_def list_all_length list_all2_conv_all_nth
      dest: domain_of_wire_valid)

lemma wires_into_domain_map:
  "well_formed_rules rules \<Longrightarrow> wires_into_domain (map wire_of_domain rules) = Ok rules"
  by (auto simp: wires_into_domain_Ok well_formed_rules_def list_all2_conv_all_nth
      list_all_length domain_of_wire_of_domain)

lemma v2_from_domain_Ok:
  "v2_from_domain rules s = Ok c \<longleftrightarrow> validate_rule_set rules = Ok () \<and>
     c = \<lparr>v2_schema_version = schema_version, v2_rules = map wire_of_domain rules,
          v2_settings = s\<rparr>"
  by (auto simp: v2_from_domain_def)

lemma v2_round_trip:
  assumes "well_formed_rules rules" "v2_from_domain rules s = Ok c"
  shows "v2_into_domain c = Ok (rules, s)"
  using assms wires_into_domain_map by (simp add: v2_from_domain_Ok v2_into_domain_def)

lemma v2_into_domain_well_formed:
  "v2_into_domain c = Ok (rules, s) \<Longrightarrow> well_formed_rules rules"
  by (auto simp: v2_into_domain_def wires_into_domain_well_formed split: if_splits)

lemma v1_into_domain_well_formed: "v1_into_domain c = Ok rules \<Longrightarrow> well_formed_rules rules"
  by (auto simp: v1_into_domain_def wires_into_domain_well_formed split: if_splits)

section \<open>Properties\<close>

text \<open>The rules a program can build with the public operations of the domain.\<close>

inductive rule_built :: "rule \<Rightarrow> bool" where
  built_local: "rule_local i n a bp dh dp = Ok r \<Longrightarrow> rule_built r"
| built_remote: "rule_remote i n a bp dh dp = Ok r \<Longrightarrow> rule_built r"
| built_dynamic: "rule_dynamic i n a bp = Ok r \<Longrightarrow> rule_built r"
| built_bind: "rule_built r \<Longrightarrow> with_bind_address r v = Ok r' \<Longrightarrow> rule_built r'"
| built_policy: "rule_built r \<Longrightarrow> rule_built (with_policy r a c)"
| built_rename: "rule_built r \<Longrightarrow> rule_built (fst (rename r v))"

lemma finish_wire_built: "finish_wire res b a c = Ok r' \<Longrightarrow> (\<And>r. res = Ok r \<Longrightarrow> rule_built r) \<Longrightarrow> rule_built r'"
  by (auto simp: finish_wire_Ok intro: built_bind built_policy)

lemma domain_of_wire_built: "domain_of_wire w = Ok r \<Longrightarrow> rule_built r"
  by (cases w) (auto elim!: finish_wire_built intro: built_local built_remote built_dynamic)

text \<open>C37: the constructors establish exactly the domain invariant, and no operation breaks
  it: the rules that can be built are those whose name, alias, bind address, destination
  and ports each satisfy their own check.\<close>

theorem built_rules_are_valid: "rule_built r \<longleftrightarrow> valid_rule r"
proof
  show "rule_built r \<Longrightarrow> valid_rule r"
    by (induction rule: rule_built.induct) (auto dest: constructors_valid)
  show "valid_rule r \<Longrightarrow> rule_built r"
    using domain_of_wire_of_domain domain_of_wire_built by blast
qed

text \<open>C39: what is written to the configuration is what is read back: well-formed rules and
  settings survive the conversion to schema version 2, and every version 2 file that
  loads gives well-formed rules that convert back to that very file.\<close>

theorem config_round_trip:
  "(v2_into_domain c = Ok (rules, s)) \<longleftrightarrow>
   (well_formed_rules rules \<and> v2_from_domain rules s = Ok c)"
proof
  assume l: "v2_into_domain c = Ok (rules, s)"
  then have wf: "well_formed_rules rules" by (rule v2_into_domain_well_formed)
  from l have "list_all2 (\<lambda>w r. domain_of_wire w = Ok r) (v2_rules c) rules"
    and c: "v2_schema_version c = schema_version" "v2_settings c = s"
    by (auto simp: v2_into_domain_def wires_into_domain_Ok split: if_splits)
  then have "map wire_of_domain rules = v2_rules c"
    by (auto simp: list_all2_conv_all_nth intro!: nth_equalityI wire_of_domain_of_wire)
  with wf c show "well_formed_rules rules \<and> v2_from_domain rules s = Ok c"
    by (simp add: v2_from_domain_Ok well_formed_rules_def)
qed (use v2_round_trip in blast)

end
