(* ===== verification/Utf8.thy ===== *)
theory Utf8
  imports Prelude
begin

text \<open>
  UTF-8, as \<open>str::as_bytes\<close>, \<open>str::len\<close> and \<open>str::from_utf8\<close> use it: the encoding of
  a scalar value, and the strict decoder, which refuses overlong forms, surrogates and
  values above U+10FFFF. Bytes are natural numbers below 256.
\<close>

type_synonym bytes = "nat list"

definition scalar_value :: "rchar \<Rightarrow> bool" where
  "scalar_value c \<longleftrightarrow> c < 55296 \<or> (57344 \<le> c \<and> c < 1114112)"

definition valid_str :: "rstr \<Rightarrow> bool" where
  "valid_str s \<longleftrightarrow> list_all scalar_value s"

definition utf8_char :: "rchar \<Rightarrow> bytes" where
  "utf8_char c =
     (if c < 128 then [c]
      else if c < 2048 then [192 + c div 64, 128 + c mod 64]
      else if c < 65536 then [224 + c div 4096, 128 + c div 64 mod 64, 128 + c mod 64]
      else [240 + c div 262144, 128 + c div 4096 mod 64, 128 + c div 64 mod 64, 128 + c mod 64])"

definition utf8_encode :: "rstr \<Rightarrow> bytes" where
  "utf8_encode s = concat (map utf8_char s)"

definition str_len :: "rstr \<Rightarrow> nat" where
  "str_len s = length (utf8_encode s)"

definition continuation :: "nat \<Rightarrow> bool" where
  "continuation b \<longleftrightarrow> 128 \<le> b \<and> b \<le> 191"

definition second_of_three :: "nat \<Rightarrow> nat \<Rightarrow> bool" where
  "second_of_three b c \<longleftrightarrow>
     (if b = 224 then 160 \<le> c \<and> c \<le> 191
      else if b = 237 then 128 \<le> c \<and> c \<le> 159 else continuation c)"

definition second_of_four :: "nat \<Rightarrow> nat \<Rightarrow> bool" where
  "second_of_four b c \<longleftrightarrow>
     (if b = 240 then 144 \<le> c \<and> c \<le> 191
      else if b = 244 then 128 \<le> c \<and> c \<le> 143 else continuation c)"

text \<open>One scalar value off the front of a byte string.\<close>

definition utf8_next :: "bytes \<Rightarrow> (rchar \<times> bytes) option" where
  "utf8_next bs =
     (case bs of [] \<Rightarrow> None | b # r \<Rightarrow>
       if b < 128 then Some (b, r)
       else if 194 \<le> b \<and> b \<le> 223 then
         (case r of c1 # r1 \<Rightarrow>
            if continuation c1 then Some ((b - 192) * 64 + (c1 - 128), r1) else None
          | _ \<Rightarrow> None)
       else if 224 \<le> b \<and> b \<le> 239 then
         (case r of c1 # c2 # r2 \<Rightarrow>
            if second_of_three b c1 \<and> continuation c2
            then Some ((b - 224) * 4096 + (c1 - 128) * 64 + (c2 - 128), r2) else None
          | _ \<Rightarrow> None)
       else if 240 \<le> b \<and> b \<le> 244 then
         (case r of c1 # c2 # c3 # r3 \<Rightarrow>
            if second_of_four b c1 \<and> continuation c2 \<and> continuation c3
            then Some ((b - 240) * 262144 + (c1 - 128) * 4096 + (c2 - 128) * 64 + (c3 - 128), r3)
            else None
          | _ \<Rightarrow> None)
       else None)"

lemma utf8_next_shorter: "utf8_next bs = Some (c, r) \<Longrightarrow> length r < length bs"
  by (auto simp: utf8_next_def split: list.splits if_splits)

function utf8_decode :: "bytes \<Rightarrow> rstr option" where
  "utf8_decode bs =
     (if bs = [] then Some []
      else case utf8_next bs of None \<Rightarrow> None
        | Some (c, r) \<Rightarrow> map_option (Cons c) (utf8_decode r))"
  by pat_completeness auto
termination
  by (relation "measure length") (auto dest: utf8_next_shorter)

declare utf8_decode.simps [simp del]

lemma utf8_decode_Nil [simp]: "utf8_decode [] = Some []"
  by (simp add: utf8_decode.simps)

text \<open>
  \<open>String::from_utf8_lossy\<close>: each maximal ill-formed prefix becomes one U+FFFD. The
  length of that prefix counts the bytes that still could begin a character.
\<close>

definition ill_formed_length :: "bytes \<Rightarrow> nat" where
  "ill_formed_length bs =
     (case bs of
        b # c1 # r \<Rightarrow>
          if 224 \<le> b \<and> b \<le> 239 then (if second_of_three b c1 then 2 else 1)
          else if 240 \<le> b \<and> b \<le> 244 then
            (if second_of_four b c1
             then (case r of c2 # _ \<Rightarrow> if continuation c2 then 3 else 2 | [] \<Rightarrow> 2) else 1)
          else 1
      | _ \<Rightarrow> 1)"

lemma ill_formed_length_pos: "0 < ill_formed_length bs"
  by (simp add: ill_formed_length_def split: list.split)

function utf8_lossy :: "bytes \<Rightarrow> rstr" where
  "utf8_lossy bs =
     (if bs = [] then []
      else case utf8_next bs of
        Some (c, r) \<Rightarrow> c # utf8_lossy r
      | None \<Rightarrow> 65533 # utf8_lossy (drop (ill_formed_length bs) bs))"
  by pat_completeness auto
termination
  by (relation "measure length") (auto dest: utf8_next_shorter simp: ill_formed_length_pos)

declare utf8_lossy.simps [simp del]

lemma utf8_encode_simps [simp]:
  "utf8_encode [] = []"
  "utf8_encode (c # s) = utf8_char c @ utf8_encode s"
  by (simp_all add: utf8_encode_def)

lemma utf8_encode_append: "utf8_encode (s @ t) = utf8_encode s @ utf8_encode t"
  by (simp add: utf8_encode_def)

lemma str_len_append: "str_len (s @ t) = str_len s + str_len t"
  by (simp add: str_len_def utf8_encode_append)

lemma utf8_char_nonempty [simp]: "utf8_char c \<noteq> []"
  by (simp add: utf8_char_def)

text \<open>The six-bit groups of a scalar value.\<close>

lemma group_low: "(c :: nat) mod 64 \<le> 63"
  using mod_less_divisor [of 64 c] by linarith

lemma group_step: "(c :: nat) div 64 * 64 + c mod 64 = c"
  by simp

lemma group_div: "(c :: nat) div 4096 = c div 64 div 64" "c div 262144 = c div 64 div 64 div 64"
  by (simp_all add: div_mult2_eq [symmetric])

text \<open>The decoder reads back the encoding of every scalar value.\<close>

lemma utf8_next_char:
  assumes "scalar_value c"
  shows "utf8_next (utf8_char c @ r) = Some (c, r)"
proof -
  consider "c < 128" | "128 \<le> c" "c < 2048" | "2048 \<le> c" "c < 65536"
    | "65536 \<le> c" "c < 1114112"
    using assms by (fastforce simp: scalar_value_def)
  then show ?thesis
  proof cases
    case 1
    then show ?thesis by (simp add: utf8_char_def utf8_next_def)
  next
    case 2
    define a b where "a = c div 64" "b = c mod 64"
    have "2 \<le> a" "a \<le> 31" "b \<le> 63" and c: "a * 64 + b = c"
      using 2 group_low [of c] group_step [of c] unfolding a_b_def by linarith+
    with 2 show ?thesis
      by (simp add: utf8_char_def utf8_next_def continuation_def a_b_def [symmetric])
  next
    case 3
    define a b d where "a = c div 4096" "b = c div 64 mod 64" "d = c mod 64"
    have bounds: "a \<le> 15" "b \<le> 63" "d \<le> 63" and c: "a * 4096 + b * 64 + d = c"
      using 3 group_low [of c] group_step [of c] group_low [of "c div 64"] group_step [of "c div 64"]
      unfolding a_b_d_def group_div by linarith+
    have "a = 0 \<Longrightarrow> 32 \<le> b" using 3 c bounds by linarith
    moreover have "a = 13 \<Longrightarrow> b \<le> 31"
      using assms c bounds unfolding scalar_value_def by linarith
    ultimately have "second_of_three (224 + a) (128 + b)"
      using bounds by (auto simp: second_of_three_def continuation_def)
    with 3 c bounds show ?thesis
      by (simp add: utf8_char_def utf8_next_def continuation_def a_b_d_def [symmetric])
  next
    case 4
    define a b d e where "a = c div 262144" "b = c div 4096 mod 64" "d = c div 64 mod 64"
      "e = c mod 64"
    have bounds: "a \<le> 4" "b \<le> 63" "d \<le> 63" "e \<le> 63"
      and c: "a * 262144 + b * 4096 + d * 64 + e = c"
      using 4 group_low [of c] group_step [of c] group_low [of "c div 64"] group_step [of "c div 64"]
        group_low [of "c div 64 div 64"] group_step [of "c div 64 div 64"]
      unfolding a_b_d_e_def group_div by linarith+
    have "a = 0 \<Longrightarrow> 16 \<le> b" using 4 c bounds by linarith
    moreover have "a = 4 \<Longrightarrow> b \<le> 15" using 4 c bounds by linarith
    ultimately have "second_of_four (240 + a) (128 + b)"
      using bounds by (auto simp: second_of_four_def continuation_def)
    with 4 c bounds show ?thesis
      by (simp add: utf8_char_def utf8_next_def continuation_def a_b_d_e_def [symmetric])
  qed
qed

lemma utf8_round_trip: "valid_str s \<Longrightarrow> utf8_decode (utf8_encode s) = Some s"
proof (induction s)
  case (Cons c s)
  then have "scalar_value c" and s: "utf8_decode (utf8_encode s) = Some s"
    by (simp_all add: valid_str_def)
  then have "utf8_next (utf8_char c @ utf8_encode s) = Some (c, utf8_encode s)"
    by (simp add: utf8_next_char)
  with s show ?case by (simp add: utf8_decode.simps [of "utf8_char c @ utf8_encode s"])
qed simp

text \<open>And it accepts nothing else: what decodes is the encoding of the result.\<close>

lemma group_split:
  "(y :: nat) < 64 \<Longrightarrow> (k * 64 + y) div 64 = k" "(y :: nat) < 64 \<Longrightarrow> (k * 64 + y) mod 64 = y"
  by simp_all

lemma utf8_next_encodes:
  assumes "utf8_next bs = Some (c, r)"
  shows "bs = utf8_char c @ r"
proof -
  from assms obtain b t where bs: "bs = b # t" by (auto simp: utf8_next_def split: list.splits)
  note nxt = assms [unfolded bs utf8_next_def, simplified]
  consider "b < 128" | "194 \<le> b" "b \<le> 223" | "224 \<le> b" "b \<le> 239" | "240 \<le> b" "b \<le> 244"
    using nxt by (fastforce split: if_splits)
  then show ?thesis
  proof cases
    case 1
    with nxt bs show ?thesis by (simp add: utf8_char_def)
  next
    case 2
    with nxt obtain c1 where t: "t = c1 # r" "continuation c1"
      and c: "c = (b - 192) * 64 + (c1 - 128)"
      by (auto split: list.splits if_splits)
    define a x where "a = b - 192" "x = c1 - 128"
    have "b = 192 + a" "c1 = 128 + x" "x < 64" "2 \<le> a" "a \<le> 31" "c = a * 64 + x"
      using 2 t c by (auto simp: a_x_def continuation_def)
    with bs t show ?thesis by (simp add: utf8_char_def)
  next
    case 3
    with nxt obtain c1 c2 where t: "t = c1 # c2 # r" "second_of_three b c1" "continuation c2"
      and c: "c = (b - 224) * 4096 + (c1 - 128) * 64 + (c2 - 128)"
      by (auto split: list.splits if_splits)
    define a x y where "a = b - 224" "x = c1 - 128" "y = c2 - 128"
    have v: "b = 224 + a" "c1 = 128 + x" "c2 = 128 + y" "x < 64" "y < 64" "a \<le> 15"
      "c = (a * 64 + x) * 64 + y" "0 < a \<or> 32 \<le> x"
      using 3 t c by (auto simp: a_x_y_def continuation_def second_of_three_def split: if_splits)
    have "2048 \<le> c" using v(8) by (elim disjE) (simp_all add: v(7))
    moreover have "c < 65536" using v(4-6) by (simp add: v(7))
    moreover have d: "c div 64 = a * 64 + x" "c mod 64 = y"
      unfolding v(7) by (rule group_split [OF v(5)])+
    moreover have "c div 4096 = a" "c div 64 mod 64 = x"
      unfolding group_div d by (rule group_split [OF v(4)])+
    ultimately show ?thesis using bs t v(1-3) by (simp add: utf8_char_def)
  next
    case 4
    with nxt obtain c1 c2 c3 where t: "t = c1 # c2 # c3 # r" "second_of_four b c1"
        "continuation c2" "continuation c3"
      and c: "c = (b - 240) * 262144 + (c1 - 128) * 4096 + (c2 - 128) * 64 + (c3 - 128)"
      by (auto split: list.splits if_splits)
    define a x y z where "a = b - 240" "x = c1 - 128" "y = c2 - 128" "z = c3 - 128"
    have cv: "c = ((a * 64 + x) * 64 + y) * 64 + z"
      using c unfolding a_x_y_z_def [symmetric] by simp
    have v: "b = 240 + a" "c1 = 128 + x" "c2 = 128 + y" "c3 = 128 + z" "x < 64" "y < 64" "z < 64"
      "0 < a \<or> 16 \<le> x"
      using 4 t c by (auto simp: a_x_y_z_def continuation_def second_of_four_def split: if_splits)
    have "65536 \<le> c" using v(8) by (elim disjE) (simp_all add: cv)
    moreover have d: "c div 64 = (a * 64 + x) * 64 + y" "c mod 64 = z"
      unfolding cv by (rule group_split [OF v(7)])+
    moreover have d2: "c div 64 div 64 = a * 64 + x" "c div 64 mod 64 = y"
      unfolding d by (rule group_split [OF v(6)])+
    moreover have "c div 262144 = a" "c div 4096 mod 64 = x"
      unfolding group_div d2 by (rule group_split [OF v(5)])+
    ultimately show ?thesis using bs t v(1-4) by (simp add: utf8_char_def)
  qed
qed

lemma utf8_decode_encodes: "utf8_decode bs = Some s \<Longrightarrow> utf8_encode s = bs"
proof (induction bs arbitrary: s rule: utf8_decode.induct)
  case (1 bs)
  show ?case
  proof (cases "bs = []")
    case False
    with 1 obtain c r s' where n: "utf8_next bs = Some (c, r)" "utf8_decode r = Some s'" "s = c # s'"
      by (auto simp: utf8_decode.simps [of bs] split: option.splits)
    with 1(1) [OF False n(1) refl] utf8_next_encodes [OF n(1)] show ?thesis by simp
  qed (use 1 in simp)
qed

lemma utf8_lossy_encode: "valid_str s \<Longrightarrow> utf8_lossy (utf8_encode s) = s"
proof (induction s)
  case Nil
  then show ?case by (simp add: utf8_lossy.simps)
next
  case (Cons c s)
  then have "utf8_next (utf8_char c @ utf8_encode s) = Some (c, utf8_encode s)"
    by (simp add: utf8_next_char valid_str_def)
  with Cons show ?case
    by (simp add: utf8_lossy.simps [of "utf8_char c @ utf8_encode s"] valid_str_def)
qed

lemma ascii_valid: "list_all (\<lambda>c. c < 128) s \<Longrightarrow> valid_str s"
  by (auto simp: valid_str_def scalar_value_def list_all_iff)

lemma utf8_ascii: "list_all (\<lambda>c. c < 128) s \<Longrightarrow> utf8_encode s = s"
  by (induction s) (auto simp: utf8_char_def)

lemma utf8_char_low: "b \<in> set (utf8_char c) \<Longrightarrow> b < 128 \<Longrightarrow> b = c"
  by (auto simp: utf8_char_def split: if_splits)

lemma utf8_encode_low: "b < 128 \<Longrightarrow> b \<in> set (utf8_encode s) \<Longrightarrow> b \<in> set s"
  by (induction s) (auto dest: utf8_char_low)

end
