(* ===== verification/Ssh_Process.thy ===== *)
theory Ssh_Process
  imports Config_Model Utf8
begin

text \<open>
  OpenSSH supervision, \<open>src/src/daemon/process.rs\<close>: the classification of diagnostics,
  the arguments given to OpenSSH, the polling loops with their deadlines, the guardian
  process, and the attempt a daemon holds. What the kernel answers (a child's status at
  each poll, a clock reading, the outcome of a system call) is an argument; a loop that
  might not end returns \<open>None\<close> when it does not.
\<close>

type_synonym io_error = "io_kind \<times> rstr"

text \<open>An exit status displays its code, or the signal text the platform gives.\<close>

datatype exit_status = Exited nat | Signaled rstr

primrec status_success :: "exit_status \<Rightarrow> bool" where
  "status_success (Exited n) \<longleftrightarrow> n = 0"
| "status_success (Signaled t) \<longleftrightarrow> False"

primrec show_status :: "exit_status \<Rightarrow> rstr" where
  "show_status (Exited n) = lit ''exit status: '' @ show_nat n"
| "show_status (Signaled t) = t"

datatype process_error =
    PIo io_error
  | PProtocol rstr
  | PStartup rstr

primrec show_process_error :: "process_error \<Rightarrow> rstr" where
  "show_process_error (PIo e) = lit ''SSH process I/O failed: '' @ snd e"
| "show_process_error (PProtocol t) = lit ''guardian protocol failed: '' @ t"
| "show_process_error (PStartup t) = lit ''SSH startup failed: '' @ t"

section \<open>Diagnostics\<close>

datatype diagnostic_kind =
    Authentication | HostKey | Listener | Network | RemoteRejected | Unknown

primrec diagnostic_kind_str :: "diagnostic_kind \<Rightarrow> rstr" where
  "diagnostic_kind_str Authentication = lit ''authentication''"
| "diagnostic_kind_str HostKey = lit ''host_key''"
| "diagnostic_kind_str Listener = lit ''listener''"
| "diagnostic_kind_str Network = lit ''network''"
| "diagnostic_kind_str RemoteRejected = lit ''remote_rejected''"
| "diagnostic_kind_str Unknown = lit ''unknown''"

record diagnostic =
  dg_kind :: diagnostic_kind
  dg_message :: rstr
  dg_retryable :: bool

definition classify_diagnostic :: "rstr \<Rightarrow> diagnostic" where
  "classify_diagnostic value =
     (let lower = to_ascii_lowercase value in
      if str_contains lower (lit ''permission denied'') \<or>
         str_contains lower (lit ''authentication failed'')
      then \<lparr>dg_kind = Authentication, dg_message = lit ''SSH authentication failed'',
            dg_retryable = False\<rparr>
      else if str_contains lower (lit ''host key verification failed'') \<or>
         str_contains lower (lit ''remote host identification has changed'')
      then \<lparr>dg_kind = HostKey, dg_message = lit ''SSH host-key verification failed'',
            dg_retryable = False\<rparr>
      else if str_contains lower (lit ''remote port forwarding failed'') \<or>
         str_contains lower (lit ''administratively prohibited'')
      then \<lparr>dg_kind = RemoteRejected,
            dg_message = lit ''the SSH server rejected remote forwarding'',
            dg_retryable = False\<rparr>
      else if str_contains lower (lit ''address already in use'') \<or>
         str_contains lower (lit ''cannot listen to port'')
      then \<lparr>dg_kind = Listener,
            dg_message = lit ''the requested listener could not be created'',
            dg_retryable = False\<rparr>
      else if str_contains lower (lit ''connection timed out'') \<or>
         str_contains lower (lit ''connection refused'') \<or>
         str_contains lower (lit ''no route to host'') \<or>
         str_contains lower (lit ''connection reset'') \<or>
         str_contains lower (lit ''network is unreachable'')
      then \<lparr>dg_kind = Network, dg_message = lit ''the SSH network connection failed'',
            dg_retryable = True\<rparr>
      else \<lparr>dg_kind = Unknown,
            dg_message = lit ''SSH startup failed for an unclassified reason'',
            dg_retryable = False\<rparr>)"

text \<open>The fixed texts a client can ever be shown.\<close>

definition diagnostic_messages :: "rstr set" where
  "diagnostic_messages = lit ` {''SSH authentication failed'',
     ''SSH host-key verification failed'', ''the SSH server rejected remote forwarding'',
     ''the requested listener could not be created'', ''the SSH network connection failed'',
     ''SSH startup failed for an unclassified reason''}"

lemma classify_retryable:
  "dg_retryable (classify_diagnostic v) \<longleftrightarrow> dg_kind (classify_diagnostic v) = Network"
  by (simp add: classify_diagnostic_def Let_def)

lemma classify_message: "dg_message (classify_diagnostic v) \<in> diagnostic_messages"
  by (simp add: classify_diagnostic_def Let_def diagnostic_messages_def)

section \<open>Forwarding arguments\<close>

definition bracket :: "rstr \<Rightarrow> rstr" where
  "bracket value = (if 58 \<in> set value then 91 # value @ [93] else value)"

definition show_port :: "port \<Rightarrow> rstr" where
  "show_port p = show_nat (unat (port_get p))"

definition forwarding_spec :: "rule \<Rightarrow> rstr \<times> rstr" where
  "forwarding_spec r =
     (case r_forwarding r of
        Local v \<Rightarrow> (lit ''-L'',
          bracket (bind_str (lf_bind_address v)) @ 58 # show_port (lf_bind_port v) @ 58 #
          bracket (dest_str (lf_destination_host v)) @ 58 # show_port (lf_destination_port v))
      | Remote v \<Rightarrow> (lit ''-R'',
          bracket (bind_str (rf_bind_address v)) @ 58 # show_port (rf_bind_port v) @ 58 #
          bracket (dest_str (rf_destination_host v)) @ 58 # show_port (rf_destination_port v))
      | Dynamic v \<Rightarrow> (lit ''-D'',
          bracket (bind_str (df_bind_address v)) @ 58 # show_port (df_bind_port v)))"

lemma show_port_no_colon: "58 \<notin> set (show_port p)"
  using show_nat_digits [of "unat (port_get p)"]
  by (auto simp: show_port_def is_ascii_digit_def list_all_iff)

lemma show_port_inj: "show_port p = show_port q \<Longrightarrow> p = q"
proof -
  assume "show_port p = show_port q"
  then have "parse_u16 (show_nat (unat (port_get p))) = parse_u16 (show_nat (unat (port_get q)))"
    by (simp add: show_port_def)
  moreover have "unat (port_get x) < 65536" for x
    using unsigned_less [of "port_get x", where ?'a = nat] by simp
  ultimately have "unat (port_get p) = unat (port_get q)" by (simp add: parse_u16_show)
  then show ?thesis by (cases p; cases q) (simp add: word_unat_eq_iff)
qed

text \<open>A valid bind address with a colon, and any destination with one, is an IP literal.\<close>

lemma valid_bind_brackets:
  assumes "valid_bind b"
  shows "91 \<notin> set (bind_str b)" "93 \<notin> set (bind_str b)"
proof -
  have "91 \<notin> set (bind_str b) \<and> 93 \<notin> set (bind_str b)"
  proof (cases "parse_ip_addr (bind_str b)")
    case None
    then have "bind_str b = lit ''localhost'' \<or> bind_str b = lit ''*''"
      using assms by (cases b) (simp add: valid_bind_def bind_address_new_Ok)
    then show ?thesis by (auto simp: lit_def)
  next
    case (Some ip)
    then show ?thesis using parse_ip_addr_chars [OF Some] ip_char_cases by fastforce
  qed
  then show "91 \<notin> set (bind_str b)" "93 \<notin> set (bind_str b)" by blast+
qed

lemma bracket_inj: "bracket x = bracket y \<Longrightarrow> x = y"
  by (auto simp: bracket_def split: if_splits)

text \<open>What a bracketed bind address begins with tells where it ends.\<close>

lemma bracket_bind_split:
  assumes eq: "bracket x @ 58 # s = bracket y @ 58 # t"
    and "91 \<notin> set x" "93 \<notin> set x" "91 \<notin> set y" "93 \<notin> set y"
  shows "x = y \<and> s = t"
proof (cases "58 \<in> set x")
  case True
  have "58 \<in> set y"
  proof (rule ccontr)
    assume y: "58 \<notin> set y"
    with eq True have "91 # x @ 93 # 58 # s = y @ 58 # t" by (simp add: bracket_def)
    with assms y show False by (cases y) auto
  qed
  with eq True have "x @ 93 # (58 # s) = y @ 93 # (58 # t)" by (simp add: bracket_def)
  from first_split_unique [OF this] assms show ?thesis by simp
next
  case False
  have "58 \<notin> set y"
  proof
    assume y: "58 \<in> set y"
    with eq False have "91 # y @ 93 # 58 # t = x @ 58 # s" by (simp add: bracket_def)
    with assms False show False by (cases x) auto
  qed
  with eq False have "x @ 58 # s = y @ 58 # t" by (simp add: bracket_def)
  from first_split_unique [OF this] False \<open>58 \<notin> set y\<close> show ?thesis by simp
qed

lemma endpoint_spec_inj:
  assumes eq: "bracket x @ 58 # show_port p @ 58 # bracket d @ 58 # show_port q =
      bracket y @ 58 # show_port p' @ 58 # bracket d' @ 58 # show_port q'"
    and "91 \<notin> set x" "93 \<notin> set x" "91 \<notin> set y" "93 \<notin> set y"
  shows "x = y \<and> p = p' \<and> d = d' \<and> q = q'"
proof -
  from bracket_bind_split [OF eq] assms have "x = y"
    and r: "show_port p @ 58 # bracket d @ 58 # show_port q =
      show_port p' @ 58 # bracket d' @ 58 # show_port q'" by blast+
  from first_split_unique [OF r] show_port_no_colon have "show_port p = show_port p'"
    and t: "bracket d @ 58 # show_port q = bracket d' @ 58 # show_port q'" by blast+
  from last_split_unique [OF t] show_port_no_colon
  have "bracket d = bracket d'" "show_port q = show_port q'" by blast+
  with \<open>x = y\<close> \<open>show_port p = show_port p'\<close> show ?thesis
    using show_port_inj bracket_inj by blast
qed

lemma bind_str_inj: "bind_str b = bind_str c \<Longrightarrow> b = c" by (cases b; cases c) simp
lemma dest_str_inj: "dest_str b = dest_str c \<Longrightarrow> b = c" by (cases b; cases c) simp

lemma forwarding_spec_inj:
  assumes "valid_rule r" "valid_rule s" and eq: "forwarding_spec r = forwarding_spec s"
  shows "r_forwarding r = r_forwarding s"
proof -
  note defs = forwarding_spec_def valid_rule_def
  show ?thesis
  proof (cases "r_forwarding r"; cases "r_forwarding s")
    fix v w assume rw: "r_forwarding r = Local v" "r_forwarding s = Local w"
    with assms have e: "bracket (bind_str (lf_bind_address v)) @ 58 # show_port (lf_bind_port v) @
        58 # bracket (dest_str (lf_destination_host v)) @ 58 # show_port (lf_destination_port v) =
      bracket (bind_str (lf_bind_address w)) @ 58 # show_port (lf_bind_port w) @
        58 # bracket (dest_str (lf_destination_host w)) @ 58 # show_port (lf_destination_port w)"
      by (simp add: forwarding_spec_def)
    from assms rw have "valid_bind (lf_bind_address v)" "valid_bind (lf_bind_address w)"
      by (simp_all add: valid_rule_def)
    with endpoint_spec_inj [OF e] valid_bind_brackets bind_str_inj dest_str_inj rw
    show ?thesis by simp
  next
    fix v w assume rw: "r_forwarding r = Remote v" "r_forwarding s = Remote w"
    with assms have e: "bracket (bind_str (rf_bind_address v)) @ 58 # show_port (rf_bind_port v) @
        58 # bracket (dest_str (rf_destination_host v)) @ 58 # show_port (rf_destination_port v) =
      bracket (bind_str (rf_bind_address w)) @ 58 # show_port (rf_bind_port w) @
        58 # bracket (dest_str (rf_destination_host w)) @ 58 # show_port (rf_destination_port w)"
      by (simp add: forwarding_spec_def)
    from assms rw have "valid_bind (rf_bind_address v)" "valid_bind (rf_bind_address w)"
      by (simp_all add: valid_rule_def)
    with endpoint_spec_inj [OF e] valid_bind_brackets bind_str_inj dest_str_inj rw
    show ?thesis by simp
  next
    fix v w assume rw: "r_forwarding r = Dynamic v" "r_forwarding s = Dynamic w"
    with assms have e: "bracket (bind_str (df_bind_address v)) @ 58 # show_port (df_bind_port v) =
        bracket (bind_str (df_bind_address w)) @ 58 # show_port (df_bind_port w)"
      by (simp add: forwarding_spec_def)
    from assms rw have "valid_bind (df_bind_address v)" "valid_bind (df_bind_address w)"
      by (simp_all add: valid_rule_def)
    with bracket_bind_split [OF e] valid_bind_brackets bind_str_inj show_port_inj rw
    show ?thesis by simp
  qed (use eq in \<open>simp_all add: forwarding_spec_def\<close>)
qed

section \<open>Command lines\<close>

definition master_arguments :: "rstr \<Rightarrow> rstr \<Rightarrow> rstr list" where
  "master_arguments socket alias =
     map lit [''-N'', ''-T'', ''-n'', ''-o'', ''BatchMode=yes'', ''-o'',
       ''ClearAllForwardings=yes'', ''-o'', ''ControlMaster=yes'', ''-o'',
       ''ControlPersist=no'', ''-o'', ''ForkAfterAuthentication=no'', ''-o'',
       ''ExitOnForwardFailure=yes'', ''-o'', ''ServerAliveInterval=15'', ''-o'',
       ''ServerAliveCountMax=3'', ''-S''] @ [socket, alias]"

definition control_arguments :: "rstr \<Rightarrow> rstr \<Rightarrow> rstr list \<Rightarrow> rstr list" where
  "control_arguments socket alias arguments =
     map lit [''-F'', ''/dev/null'', ''-S''] @ [socket] @ arguments @ [alias]"

definition forward_arguments :: "rstr \<times> rstr \<Rightarrow> rstr list" where
  "forward_arguments spec =
     map lit [''-O'', ''forward'', ''-o'', ''ClearAllForwardings=no'', ''-o'',
       ''ExitOnForwardFailure=yes''] @ [fst spec, snd spec]"

definition check_socket_length :: "rstr \<Rightarrow> bool" where
  "check_socket_length path \<longleftrightarrow> str_len path < 108"

section \<open>Polling with a deadline\<close>

text \<open>
  The loops \<open>wait_child\<close>, \<open>control\<close>, \<open>terminate_group\<close> and \<open>guardian_start\<close> share one
  shape: ask, answer, else compare the clock with the deadline, else sleep and ask again.
  \<open>Some (Inr None)\<close> is a deadline that passed, \<open>None\<close> a loop that never ends.
\<close>

partial_function (option) poll_loop ::
  "(nat \<Rightarrow> 'e + 'a option) \<Rightarrow> (nat \<Rightarrow> nat) \<Rightarrow> nat \<Rightarrow> nat \<Rightarrow> ('e + 'a option) option" where
  "poll_loop poll clock deadline i =
     (case poll i of
        Inl e \<Rightarrow> Some (Inl e)
      | Inr (Some x) \<Rightarrow> Some (Inr (Some x))
      | Inr None \<Rightarrow> if deadline \<le> clock i then Some (Inr None)
          else poll_loop poll clock deadline (i + 1))"

text \<open>The loop is the least poll that answers or finds the deadline passed.\<close>

definition poll_stops :: "(nat \<Rightarrow> 'e + 'a option) \<Rightarrow> (nat \<Rightarrow> nat) \<Rightarrow> nat \<Rightarrow> nat \<Rightarrow> bool" where
  "poll_stops poll clock deadline i \<longleftrightarrow> poll i \<noteq> Inr None \<or> deadline \<le> clock i"

lemma poll_loop_step:
  "poll_stops poll clock deadline i \<Longrightarrow> poll_loop poll clock deadline i = Some (poll i)"
  "\<not> poll_stops poll clock deadline i \<Longrightarrow>
    poll_loop poll clock deadline i = poll_loop poll clock deadline (i + 1)"
  by (auto simp: poll_stops_def poll_loop.simps [of poll clock deadline i]
      split: sum.splits option.splits)

lemma poll_loop_first:
  assumes "poll_stops poll clock deadline (i + k)"
    and "\<And>j. j < k \<Longrightarrow> \<not> poll_stops poll clock deadline (i + j)"
  shows "poll_loop poll clock deadline i = Some (poll (i + k))"
  using assms
proof (induction k arbitrary: i)
  case 0
  then show ?case by (simp add: poll_loop_step)
next
  case (Suc k)
  have "\<not> poll_stops poll clock deadline i" using Suc.prems(2) [of 0] by simp
  moreover have "\<not> poll_stops poll clock deadline (i + 1 + j)" if "j < k" for j
    using Suc.prems(2) [of "Suc j"] that by simp
  then have "poll_loop poll clock deadline (i + 1) = Some (poll (i + 1 + k))"
    using Suc.prems(1) by (intro Suc.IH) simp_all
  ultimately show ?case by (simp add: poll_loop_step)
qed

lemma poll_loop_returns:
  assumes "deadline \<le> clock k"
  obtains j where "j \<le> k" "poll_loop poll clock deadline 0 = Some (poll j)"
    "poll_stops poll clock deadline j" "\<And>m. m < j \<Longrightarrow> \<not> poll_stops poll clock deadline m"
proof -
  let ?P = "poll_stops poll clock deadline"
  have "?P k" using assms by (simp add: poll_stops_def)
  then obtain j where j: "?P j" "\<And>m. m < j \<Longrightarrow> \<not> ?P m" "j \<le> k"
    by (metis LeastI Least_le not_less_Least)
  have "poll_loop poll clock deadline 0 = Some (poll (0 + j))"
    by (rule poll_loop_first) (use j in auto)
  with j that show ?thesis by auto
qed

text \<open>A clock that moves on at least \<open>step\<close> between polls reaches every deadline.\<close>

definition ticking :: "nat \<Rightarrow> (nat \<Rightarrow> nat) \<Rightarrow> bool" where
  "ticking step clock \<longleftrightarrow> (\<forall>i. clock i + step \<le> clock (Suc i))"

lemma ticking_lower: "ticking step clock \<Longrightarrow> clock 0 + i * step \<le> clock i"
proof (induction i)
  case (Suc i)
  then have "clock i + step \<le> clock (Suc i)" by (simp add: ticking_def)
  with Suc show ?case by simp
qed simp

lemma poll_loop_ticking:
  assumes "ticking step clock" "start \<le> clock 0" "timeout \<le> k * step"
  obtains j where "j \<le> k" "poll_loop poll clock (start + timeout) 0 = Some (poll j)"
    "poll j \<noteq> Inr None \<or> start + timeout \<le> clock j"
    "\<And>m. m < j \<Longrightarrow> poll m = Inr None \<and> clock m < start + timeout"
proof -
  have "start + timeout \<le> clock k" using ticking_lower [OF assms(1), of k] assms by linarith
  then obtain j where "j \<le> k" "poll_loop poll clock (start + timeout) 0 = Some (poll j)"
    "poll_stops poll clock (start + timeout) j"
    "\<And>m. m < j \<Longrightarrow> \<not> poll_stops poll clock (start + timeout) m"
    using poll_loop_returns [where poll = poll and clock = clock] by blast
  with that show ?thesis by (auto simp: poll_stops_def not_le)
qed

section \<open>The loops of the source\<close>

definition STARTUP_TIMEOUT :: nat where "STARTUP_TIMEOUT = 30000"
definition CONTROL_TIMEOUT :: nat where "CONTROL_TIMEOUT = 5000"
definition STOP_GRACE :: nat where "STOP_GRACE = 5000"
definition MAX_STDERR_BYTES :: nat where "MAX_STDERR_BYTES = 65536"

type_synonym child = "nat \<Rightarrow> io_error + exit_status option"

text \<open>\<open>wait_child\<close>; the clock gives the milliseconds at the check after the \<open>i\<close>-th poll.\<close>

definition wait_child ::
  "child \<Rightarrow> (nat \<Rightarrow> nat) \<Rightarrow> nat \<Rightarrow> nat \<Rightarrow> (process_error + exit_status) option" where
  "wait_child try_wait clock start timeout =
     map_option (\<lambda>res. case res of
         Inl e \<Rightarrow> Err (PIo e)
       | Inr (Some status) \<Rightarrow> Ok status
       | Inr None \<Rightarrow> Err (PProtocol (lit ''guardian did not finish cleanup'')))
     (poll_loop try_wait clock (start + timeout) 0)"

text \<open>\<open>control\<close>: the flag tells whether the client process was killed at the deadline.\<close>

definition control ::
  "io_error + child \<Rightarrow> (nat \<Rightarrow> nat) \<Rightarrow> nat \<Rightarrow> ((process_error + unit) \<times> bool) option" where
  "control spawn clock start =
     (case spawn of
        Inl e \<Rightarrow> Some (Err (PIo e), False)
      | Inr try_wait \<Rightarrow>
          map_option (\<lambda>res. case res of
              Inl e \<Rightarrow> (Err (PIo e), False)
            | Inr (Some status) \<Rightarrow>
                ((if status_success status then Ok ()
                  else Err (PStartup (lit ''SSH control request was rejected''))), False)
            | Inr None \<Rightarrow>
                (Err (PStartup (lit ''SSH control request timed out'')), True))
          (poll_loop try_wait clock (start + CONTROL_TIMEOUT) 0))"

datatype signal = SigTerm | SigKill

text \<open>
  \<open>terminate_group\<close>: the signals sent to the process group, in order; after a kill the
  child is waited for, whose failure is the last argument.
\<close>

definition terminate_group ::
  "child \<Rightarrow> (nat \<Rightarrow> nat) \<Rightarrow> nat \<Rightarrow> nat \<Rightarrow> io_error option \<Rightarrow>
   ((process_error + unit) \<times> signal list) option" where
  "terminate_group try_wait clock start grace wait_result =
     map_option (\<lambda>res. case res of
         Inl e \<Rightarrow> (Err (PIo e), [SigTerm])
       | Inr (Some _) \<Rightarrow> (Ok (), [SigTerm])
       | Inr None \<Rightarrow>
           ((case wait_result of None \<Rightarrow> Ok () | Some e \<Rightarrow> Err (PIo e)), [SigTerm, SigKill]))
     (poll_loop try_wait clock (start + grace) 0)"

text \<open>
  \<open>bounded_read\<close>: chunks of at most 8192 bytes as \<open>read\<close> returns them; an empty one is
  the end, and a failed read ends the list. Everything is drained, 64 KiB are kept.
\<close>

fun bounded_read_loop :: "bytes \<Rightarrow> bytes list \<Rightarrow> bytes" where
  "bounded_read_loop retained [] = retained"
| "bounded_read_loop retained (chunk # chunks) =
     (if chunk = [] then retained
      else let remaining = MAX_STDERR_BYTES - length retained in
        bounded_read_loop (retained @ take (min (length chunk) remaining) chunk) chunks)"

definition bounded_read :: "bytes list \<Rightarrow> bytes" where
  "bounded_read chunks = bounded_read_loop [] chunks"

definition join_diagnostic :: "bytes option \<Rightarrow> rstr" where
  "join_diagnostic joined =
     trim (utf8_lossy (case joined of None \<Rightarrow> [] | Some bs \<Rightarrow> bs))"

definition format_exit :: "exit_status \<Rightarrow> rstr \<Rightarrow> rstr" where
  "format_exit status diag =
     (if diag = [] then lit ''SSH master exited with '' @ show_status status else diag)"

definition diagnostic_or :: "rstr \<Rightarrow> rstr \<Rightarrow> rstr" where
  "diagnostic_or diag fallback = (if diag = [] then fallback else diag)"

text \<open>
  One line of the guardian protocol: what \<open>read_line\<close> returned, and the decoder of
  \<open>serde_json\<close>, which fails with a text.
\<close>

definition read_json :: "(rstr \<Rightarrow> rstr + 'a) \<Rightarrow> io_error + rstr \<Rightarrow> process_error + 'a" where
  "read_json decode line =
     and_then (map_err PIo line) (\<lambda>l.
       if l = [] \<or> MAX_STDERR_BYTES * 2 < str_len l
       then Err (PProtocol (lit ''guardian disconnected or sent an oversized message''))
       else map_err PProtocol (decode l))"

definition write_json ::
  "('a \<Rightarrow> rstr + rstr) \<Rightarrow> io_error option \<Rightarrow> 'a \<Rightarrow> (process_error + unit) \<times> rstr" where
  "write_json encode fault v =
     (case encode v of
        Inl t \<Rightarrow> (Err (PProtocol t), [])
      | Inr text \<Rightarrow> (case fault of
          Some e \<Rightarrow> (Err (PIo e), [])
        | None \<Rightarrow> (Ok (), text @ [10])))"

lemma bounded_read_loop_take:
  assumes "length acc \<le> MAX_STDERR_BYTES"
  shows "bounded_read_loop acc chunks =
    acc @ take (MAX_STDERR_BYTES - length acc) (concat (takeWhile (\<lambda>c. c \<noteq> []) chunks))"
  using assms
proof (induction acc chunks rule: bounded_read_loop.induct)
  case (2 acc chunk chunks)
  show ?case
  proof (cases "chunk = []")
    case False
    let ?k = "MAX_STDERR_BYTES - length acc"
    have "length (acc @ take (min (length chunk) ?k) chunk) \<le> MAX_STDERR_BYTES"
      using 2 by simp
    from "2.IH" [OF False refl this] False show ?thesis
      by (simp add: Let_def min_def take_Cons' not_le)
  qed simp
qed simp

lemma bounded_read_take:
  "bounded_read chunks =
   take MAX_STDERR_BYTES (concat (takeWhile (\<lambda>c. c \<noteq> []) chunks))"
  by (simp add: bounded_read_def bounded_read_loop_take)

section \<open>The guardian\<close>

text \<open>
  \<open>guardian_start\<close> spawns the OpenSSH master, waits for its control socket and asks it
  for the one forwarding. The environment holds what each call of the source answers:
  \<open>control\<close> for each readiness check and for the forward request, \<open>terminate_group\<close>,
  and the bytes \<open>bounded_read\<close> kept of the standard error.
\<close>

record guardian_env =
  ge_spawn :: "io_error + nat"
  ge_wait :: child
  ge_check :: "nat \<Rightarrow> process_error + unit"
  ge_clock :: "nat \<Rightarrow> nat"
  ge_start :: nat
  ge_stderr :: "bytes list"
  ge_terminate :: "process_error + unit"
  ge_forward :: "process_error + unit"
  ge_last_wait :: "io_error + exit_status option"

datatype fate = NotStarted | Alive | Ended

datatype readiness = ExitedEarly exit_status | Ready

definition readiness_poll :: "guardian_env \<Rightarrow> nat \<Rightarrow> io_error + readiness option" where
  "readiness_poll e i =
     (case ge_wait e i of
        Inl err \<Rightarrow> Inl err
      | Inr (Some status) \<Rightarrow> Inr (Some (ExitedEarly status))
      | Inr None \<Rightarrow> if is_ok (ge_check e i) then Inr (Some Ready) else Inr None)"

fun guardian_outcome ::
  "guardian_env \<Rightarrow> rstr \<Rightarrow> nat \<Rightarrow> io_error + readiness option \<Rightarrow>
   (process_error + nat) \<times> fate" where
  "guardian_outcome e diag pid (Inl err) = (Err (PIo err), Alive)"
| "guardian_outcome e diag pid (Inr None) =
     (case ge_terminate e of
        Inl err \<Rightarrow> (Err err, Alive)
      | Inr _ \<Rightarrow>
          (Err (PStartup (diagnostic_or diag (lit ''SSH master readiness timed out''))), Ended))"
| "guardian_outcome e diag pid (Inr (Some (ExitedEarly status))) =
     (Err (PStartup (format_exit status diag)), Ended)"
| "guardian_outcome e diag pid (Inr (Some Ready)) =
     (case ge_forward e of
        Inl ferr \<Rightarrow> (case ge_terminate e of
            Inl err \<Rightarrow> (Err err, Alive)
          | Inr _ \<Rightarrow>
              (Err (PStartup (diagnostic_or diag (show_process_error ferr))), Ended))
      | Inr _ \<Rightarrow> (case ge_last_wait e of
            Inl err \<Rightarrow> (Err (PIo err), Alive)
          | Inr (Some _) \<Rightarrow> (Err (PStartup (diagnostic_or diag
              (lit ''SSH master exited after accepting the forwarding''))), Ended)
          | Inr None \<Rightarrow> (Ok pid, Alive)))"

definition guardian_start :: "guardian_env \<Rightarrow> ((process_error + nat) \<times> fate) option" where
  "guardian_start e =
     (case ge_spawn e of
        Inl err \<Rightarrow> Some (Err (PIo err), NotStarted)
      | Inr pid \<Rightarrow>
         map_option
           (guardian_outcome e (join_diagnostic (Some (bounded_read (ge_stderr e)))) pid)
           (poll_loop (readiness_poll e) (ge_clock e) (ge_start e + STARTUP_TIMEOUT) 0))"

datatype lease_read = LeaseData | LeaseEof | LeaseWouldBlock | LeaseError

text \<open>The supervision loop: the lease first, then the master, with no deadline.\<close>

datatype supervised = LeaseReleased | MasterGone | WaitFailed io_error

partial_function (option) supervise ::
  "(nat \<Rightarrow> lease_read) \<Rightarrow> child \<Rightarrow> nat \<Rightarrow> supervised option" where
  "supervise lease try_wait i =
     (if lease i \<noteq> LeaseWouldBlock then Some LeaseReleased
      else case try_wait i of
        Inl e \<Rightarrow> Some (WaitFailed e)
      | Inr (Some _) \<Rightarrow> Some MasterGone
      | Inr None \<Rightarrow> supervise lease try_wait (i + 1))"

record guardian_run_env =
  gr_spec :: "process_error + unit"
  gr_report :: "process_error + unit"
  gr_nonblocking :: "io_error option"
  gr_lease :: "nat \<Rightarrow> lease_read"
  gr_wait :: child
  gr_terminate :: "process_error + unit"

text \<open>
  \<open>run_guardian\<close> after the descriptor flags: its result, what became of the master and
  whether the attempt directory was removed.
\<close>

definition run_guardian ::
  "guardian_run_env \<Rightarrow> ((process_error + nat) \<times> fate) option \<Rightarrow>
   ((process_error + unit) \<times> fate \<times> bool) option" where
  "run_guardian e started =
     (case gr_spec e of
        Inl err \<Rightarrow> Some (Err err, NotStarted, False)
      | Inr _ \<Rightarrow> (case started of None \<Rightarrow> None | Some (outcome, fate) \<Rightarrow>
          (case gr_report e of
             Inl err \<Rightarrow> Some (Err err,
               (if is_ok outcome \<and> is_ok (gr_terminate e) then Ended else fate), True)
           | Inr _ \<Rightarrow> (case outcome of
               Inl err \<Rightarrow> Some (Err err, fate, True)
             | Inr _ \<Rightarrow> (case gr_nonblocking e of
                 Some err \<Rightarrow> Some (Err (PIo err), fate, False)
               | None \<Rightarrow> (case supervise (gr_lease e) (gr_wait e) 0 of
                   None \<Rightarrow> None
                 | Some (WaitFailed err) \<Rightarrow> Some (Err (PIo err), fate, False)
                 | Some MasterGone \<Rightarrow> Some (Ok (), Ended, True)
                 | Some LeaseReleased \<Rightarrow> (case gr_terminate e of
                     Inl err \<Rightarrow> Some (Err err, fate, False)
                   | Inr _ \<Rightarrow> Some (Ok (), Ended, True))))))))"

lemma poll_loop_Some: "poll_loop p c d n = Some r \<Longrightarrow> \<exists>i. p i = r"
proof (erule poll_loop.raw_induct [where P = "\<lambda>p c d n r. \<exists>i. p i = r", rotated])
  fix loop :: "(nat \<Rightarrow> 'a + 'b option) \<Rightarrow> (nat \<Rightarrow> nat) \<Rightarrow> nat \<Rightarrow> nat \<Rightarrow> ('a + 'b option) option"
  fix p c d n r
  assume ih: "\<And>p c d n r. loop p c d n = Some r \<Longrightarrow> \<exists>i. p i = r"
    and body: "(case p n of Inl e \<Rightarrow> Some (Inl e) | Inr None \<Rightarrow>
        if d \<le> c n then Some (Inr None) else loop p c d (n + 1)
      | Inr (Some x) \<Rightarrow> Some (Inr (Some x))) = Some r"
  from body consider "p n = r" | "loop p c d (n + 1) = Some r"
    by (auto split: sum.splits option.splits if_splits)
  then show "\<exists>i. p i = r" by cases (auto dest: ih)
qed

text \<open>A reported success is a live master whose forwarding request was accepted.\<close>

lemma guardian_outcome_Ok:
  "guardian_outcome e diag pid res = (Ok p, f) \<Longrightarrow>
   res = Inr (Some Ready) \<and> p = pid \<and> f = Alive \<and> is_ok (ge_forward e) \<and>
   ge_last_wait e = Inr None"
  by (induction e diag pid res rule: guardian_outcome.induct)
    (auto split: sum.splits option.splits)

lemma guardian_outcome_Err:
  "guardian_outcome e diag pid res = (Err err, f) \<Longrightarrow> is_ok (ge_terminate e) \<Longrightarrow>
   (\<And>io. res \<noteq> Inl io) \<Longrightarrow> (\<And>io. ge_last_wait e \<noteq> Inl io) \<Longrightarrow> f = Ended"
  by (induction e diag pid res rule: guardian_outcome.induct)
    (auto simp: is_ok_iff split: sum.splits option.splits)

lemma guardian_start_Ok:
  assumes "guardian_start e = Some (Ok pid, f)"
  shows "f = Alive \<and> ge_spawn e = Inr pid \<and> is_ok (ge_forward e) \<and> ge_last_wait e = Inr None \<and>
    (\<exists>i. is_ok (ge_check e i) \<and> ge_wait e i = Inr None)"
proof (cases "ge_spawn e")
  case (Inl err)
  with assms show ?thesis by (simp add: guardian_start_def)
next
  case (Inr p)
  with assms obtain res
    where loop: "poll_loop (readiness_poll e) (ge_clock e) (ge_start e + STARTUP_TIMEOUT) 0 = Some res"
      and out: "guardian_outcome e (join_diagnostic (Some (bounded_read (ge_stderr e)))) p res =
        (Ok pid, f)"
    by (auto simp: guardian_start_def)
  from poll_loop_Some [OF loop] guardian_outcome_Ok [OF out]
  obtain i where "readiness_poll e i = Inr (Some Ready)" by auto
  then have "is_ok (ge_check e i) \<and> ge_wait e i = Inr None"
    by (auto simp: readiness_poll_def split: sum.splits option.splits if_splits)
  with guardian_outcome_Ok [OF out] Inr show ?thesis by blast
qed

lemma guardian_start_Err:
  assumes "guardian_start e = Some (Err err, f)" "\<And>i io. ge_wait e i \<noteq> Inl io"
    and "is_ok (ge_terminate e)" "\<And>io. ge_last_wait e \<noteq> Inl io"
  shows "f \<noteq> Alive"
proof (cases "ge_spawn e")
  case (Inl err)
  with assms show ?thesis by (simp add: guardian_start_def)
next
  case (Inr p)
  with assms obtain res
    where loop: "poll_loop (readiness_poll e) (ge_clock e) (ge_start e + STARTUP_TIMEOUT) 0 = Some res"
      and out: "guardian_outcome e (join_diagnostic (Some (bounded_read (ge_stderr e)))) p res =
        (Err err, f)"
    by (auto simp: guardian_start_def)
  have "readiness_poll e i \<noteq> Inl io" for i io
    using assms(2) by (auto simp: readiness_poll_def split: sum.splits option.splits)
  with poll_loop_Some [OF loop] have "res \<noteq> Inl io" for io by metis
  from guardian_outcome_Err [OF out assms(3) this assms(4)] show ?thesis by simp
qed

lemma supervise_returns:
  assumes "lease k \<noteq> LeaseWouldBlock \<or> try_wait k \<noteq> Inr None"
  shows "supervise lease try_wait 0 \<noteq> None"
proof -
  have "supervise lease try_wait i \<noteq> None" if "i \<le> k" for i
    using that
  proof (induction "k - i" arbitrary: i)
    case 0
    then have "i = k" by simp
    with assms show ?case
      by (subst supervise.simps) (auto split: sum.splits option.splits)
  next
    case (Suc d)
    then have "supervise lease try_wait (i + 1) \<noteq> None" by (intro Suc.hyps) auto
    then show ?case by (subst supervise.simps) (auto split: sum.splits option.splits)
  qed
  then show ?thesis by blast
qed

section \<open>The attempt the daemon holds\<close>

record guardian_spec =
  gs_ssh :: rstr
  gs_alias :: rstr
  gs_socket :: rstr
  gs_attempt_dir :: rstr
  gs_forward :: "rstr \<times> rstr"

record guardian_report =
  gp_accepted :: bool
  gp_diagnostic :: rstr
  gp_master_pid :: nat

record managed =
  ma_lease :: bool
  ma_guardian :: bool
  ma_master_pid :: nat
  ma_attempt_dir :: rstr
  ma_attempt_id :: uuid

datatype process_action =
    MakeDir rstr
  | SetDirMode rstr
  | SpawnGuardian
  | SendSpec guardian_spec
  | CloseLease
  | WaitGuardian
  | KillGroup nat
  | KillGuardian
  | ReapGuardian
  | RemoveDir rstr

definition force_cleanup :: "managed \<Rightarrow> process_action list" where
  "force_cleanup m =
     [KillGroup (ma_master_pid m), KillGuardian, ReapGuardian, RemoveDir (ma_attempt_dir m)]"

text \<open>\<open>cleanup\<close> takes the lease and the guardian out of the attempt before it waits.\<close>

definition cleanup ::
  "child \<Rightarrow> (nat \<Rightarrow> nat) \<Rightarrow> nat \<Rightarrow> managed \<Rightarrow>
   ((process_error + unit) \<times> managed \<times> process_action list) option" where
  "cleanup try_wait clock start m =
     (let m' = m\<lparr>ma_lease := False, ma_guardian := False\<rparr>;
          closed = (if ma_lease m then [CloseLease] else []) in
      if \<not> ma_guardian m then Some (Ok (), m', closed)
      else map_option (\<lambda>res. case res of
          Inr status \<Rightarrow>
            (if status_success status then (Ok (), m', closed @ [WaitGuardian])
             else (Err (PProtocol (lit ''guardian exited unsuccessfully: '' @ show_status status)),
                   m', closed @ [WaitGuardian] @ force_cleanup m))
        | Inl err \<Rightarrow> (Err err, m', closed @ [WaitGuardian] @ force_cleanup m))
        (wait_child try_wait clock start (STOP_GRACE + 2000)))"

text \<open>\<open>stop\<close> consumes the attempt, so \<open>drop\<close> runs the cleanup once more.\<close>

definition attempt_stop ::
  "child \<Rightarrow> (nat \<Rightarrow> nat) \<Rightarrow> nat \<Rightarrow> managed \<Rightarrow>
   ((process_error + unit) \<times> process_action list) option" where
  "attempt_stop try_wait clock start m =
     (case cleanup try_wait clock start m of None \<Rightarrow> None
      | Some (res, m', acts) \<Rightarrow>
          map_option (\<lambda>(_, _, again). (res, acts @ again)) (cleanup try_wait clock start m'))"

definition has_exited :: "io_error + exit_status option \<Rightarrow> managed \<Rightarrow> process_error + bool" where
  "has_exited try_wait m =
     (if ma_guardian m then map_err PIo (map_ok (\<lambda>st. st \<noteq> None) try_wait) else Ok True)"

text \<open>
  \<open>start_attempt\<close>: the environment has the outcome of each system call, in order, and what
  the exchange with the guardian returned; the second result is the trace of what was done.
  A socket path OpenSSH could not bind is refused after the directory was made.
\<close>

record start_env =
  se_mkdir :: "io_error option"
  se_chmod :: "io_error option"
  se_pair :: "io_error option"
  se_clone :: "io_error option"
  se_spawn :: "io_error option"
  se_set_timeout :: "io_error option"
  se_exchange :: "process_error + guardian_report"
  se_clear_timeout :: "io_error option"

definition abandon :: "rstr \<Rightarrow> process_action list" where
  "abandon dir = [CloseLease, WaitGuardian, RemoveDir dir]"

definition valid_pid :: "nat \<Rightarrow> bool" where
  "valid_pid pid \<longleftrightarrow> 0 < pid \<and> pid < 2 ^ 31"

definition start_exchange ::
  "start_env \<Rightarrow> guardian_spec \<Rightarrow> uuid \<Rightarrow> (process_error + managed) \<times> process_action list" where
  "start_exchange e spec attempt_id =
     (case se_exchange e of
        Inl err \<Rightarrow> (Err err, abandon (gs_attempt_dir spec))
      | Inr report \<Rightarrow>
          if \<not> gp_accepted report
          then (Err (PStartup (gp_diagnostic report)), abandon (gs_attempt_dir spec))
          else if \<not> valid_pid (gp_master_pid report)
          then (Err (PProtocol (lit ''guardian returned an invalid master PID'')),
                abandon (gs_attempt_dir spec))
          else case se_clear_timeout e of
            Some err \<Rightarrow> (Err (PIo err), [CloseLease])
          | None \<Rightarrow> (Ok \<lparr>ma_lease = True, ma_guardian = True,
              ma_master_pid = gp_master_pid report, ma_attempt_dir = gs_attempt_dir spec,
              ma_attempt_id = attempt_id\<rparr>, []))"

definition start_spawned ::
  "start_env \<Rightarrow> guardian_spec \<Rightarrow> uuid \<Rightarrow> (process_error + managed) \<times> process_action list" where
  "start_spawned e spec attempt_id =
     (case se_set_timeout e of
        Some err \<Rightarrow> (Err (PIo err), [CloseLease])
      | None \<Rightarrow> (let (res, acts) = start_exchange e spec attempt_id
                in (res, SendSpec spec # acts)))"

definition start_attempt ::
  "(uuid \<Rightarrow> rstr) \<Rightarrow> start_env \<Rightarrow> uuid \<Rightarrow> rstr \<Rightarrow> rstr \<Rightarrow> rule \<Rightarrow>
   (process_error + managed) \<times> process_action list" where
  "start_attempt show_uuid e attempt_id ssh runtime r =
     (let dir = runtime @ lit ''/attempt-'' @ show_uuid attempt_id;
          socket = dir @ lit ''/control.sock'' in
      case se_mkdir e of Some err \<Rightarrow> (Err (PIo err), [])
      | None \<Rightarrow> case se_chmod e of Some err \<Rightarrow> (Err (PIo err), [MakeDir dir])
      | None \<Rightarrow>
        if \<not> check_socket_length socket
        then (Err (PIo (IoInvalidInput, lit ''control socket path is too long'')),
              [MakeDir dir, SetDirMode dir])
        else case se_pair e of Some err \<Rightarrow> (Err (PIo err), [MakeDir dir, SetDirMode dir])
      | None \<Rightarrow> case se_clone e of Some err \<Rightarrow> (Err (PIo err), [MakeDir dir, SetDirMode dir])
      | None \<Rightarrow> case se_spawn e of
          Some err \<Rightarrow> (Err (PIo err), [MakeDir dir, SetDirMode dir, RemoveDir dir])
        | None \<Rightarrow>
            (let (res, acts) = start_spawned e
               \<lparr>gs_ssh = ssh, gs_alias = alias_str (r_alias r), gs_socket = socket,
                 gs_attempt_dir = dir, gs_forward = forwarding_spec r\<rparr> attempt_id
             in (res, [MakeDir dir, SetDirMode dir, SpawnGuardian] @ acts)))"

lemma cleanup_state:
  assumes "cleanup w c s m = Some (r, m', acts)"
  shows "m' = m\<lparr>ma_lease := False, ma_guardian := False\<rparr>"
proof (cases "ma_guardian m")
  case True
  with assms obtain res where "wait_child w c s (STOP_GRACE + 2000) = Some res"
    by (auto simp: cleanup_def Let_def)
  with assms True show ?thesis
    by (cases res) (auto simp: cleanup_def Let_def split: if_splits)
qed (use assms in \<open>auto simp: cleanup_def Let_def\<close>)

lemma cleanup_idempotent:
  "cleanup w c s m = Some (r, m', acts) \<Longrightarrow> cleanup w c s m' = Some (Ok (), m', [])"
  by (drule cleanup_state) (simp add: cleanup_def)

lemma attempt_stop_eq:
  "attempt_stop w c s m = map_option (\<lambda>(r, _, acts). (r, acts)) (cleanup w c s m)"
  by (auto simp: attempt_stop_def cleanup_idempotent split: option.split)

lemma start_exchange_spec:
  "start_exchange e spec i = (Ok m, acts) \<Longrightarrow> ma_attempt_id m = i \<and> ma_lease m \<and> ma_guardian m \<and>
     valid_pid (ma_master_pid m) \<and> ma_attempt_dir m = gs_attempt_dir spec \<and> acts = [] \<and>
     (\<exists>rep. se_exchange e = Ok rep \<and> gp_accepted rep)"
  by (auto simp: start_exchange_def split: sum.splits option.splits if_splits)

lemma wait_child_returns:
  assumes "ticking 20 clock" "start \<le> clock 0" "timeout \<le> k * 20"
  obtains j where "j \<le> k"
    "\<And>m. m < j \<Longrightarrow> try_wait m = Inr None \<and> clock m < start + timeout"
    "wait_child try_wait clock start timeout = Some (case try_wait j of
        Inl e \<Rightarrow> Err (PIo e)
      | Inr (Some status) \<Rightarrow> Ok status
      | Inr None \<Rightarrow> Err (PProtocol (lit ''guardian did not finish cleanup'')))"
  by (rule poll_loop_ticking [OF assms, of try_wait]) (auto simp: wait_child_def)

section \<open>Properties\<close>

text \<open>the command line handed to OpenSSH determines the forwarding: two valid rules
  whose flag and specification are the same ask for the same kind, bind address, port and
  destination, IPv6 brackets included.\<close>

theorem forwarding_spec_determines_rule:
  assumes "valid_rule r" "valid_rule s"
  shows "forwarding_spec r = forwarding_spec s \<longleftrightarrow> r_forwarding r = r_forwarding s"
  using forwarding_spec_inj [OF assms] by (auto simp: forwarding_spec_def)

definition sample_rule :: "rstr \<Rightarrow> u16 \<Rightarrow> rstr \<Rightarrow> rule" where
  "sample_rule name p host = \<lparr>r_id = 1, r_name = RuleName name, r_alias = HostAlias (lit ''web''),
     r_forwarding = Local \<lparr>lf_bind_address = bind_address_loopback, lf_bind_port = Port p,
       lf_destination_host = DestinationHost host, lf_destination_port = Port 80\<rparr>,
     r_auto_start = True, r_reconnect = True\<rparr>"

lemma sample_rule_valid: "valid_rule (sample_rule (lit ''a'') 8080 (lit ''::1''))"
  by code_simp

theorem forwarding_spec_determines_rule_witness:
  "forwarding_spec (sample_rule (lit ''a'') 8080 (lit ''::1'')) =
     (lit ''-L'', lit ''127.0.0.1:8080:[::1]:80'') \<and>
   (forwarding_spec (sample_rule (lit ''a'') 8080 (lit ''::1'')) =
      forwarding_spec (sample_rule (lit ''a'') 8080 (lit ''::1'')) \<longleftrightarrow>
    r_forwarding (sample_rule (lit ''a'') 8080 (lit ''::1'')) =
      r_forwarding (sample_rule (lit ''a'') 8080 (lit ''::1'')))"
  by (rule conjI [OF _ forwarding_spec_determines_rule [OF sample_rule_valid sample_rule_valid]])
    code_simp

text \<open>clients only ever see one of six fixed texts, whatever OpenSSH printed, and only
  network failures are retried.\<close>

theorem diagnostics_are_redacted:
  "dg_message (classify_diagnostic v) \<in> diagnostic_messages \<and>
   (dg_retryable (classify_diagnostic v) \<longleftrightarrow> dg_kind (classify_diagnostic v) = Network)"
  by (simp add: classify_message classify_retryable)

text \<open>A local failure is taken for one of OpenSSH: when the attempt directory cannot be
  made because the daemon lacks the permission, the rule reports that SSH authentication
  failed.\<close>

theorem local_permission_error_is_authentication:
  "classify_diagnostic (show_process_error
     (PIo (IoPermissionDenied, lit ''Permission denied (os error 13)''))) =
   \<lparr>dg_kind = Authentication, dg_message = lit ''SSH authentication failed'',
    dg_retryable = False\<rparr>"
  by code_simp

lemma supervise_failed:
  assumes "supervise lease try_wait 0 = Some (WaitFailed err)"
  shows "\<exists>i. try_wait i = Inl err"
  using assms
proof (rule supervise.raw_induct [where P = "\<lambda>l w i r. r = WaitFailed err \<longrightarrow> (\<exists>i. w i = Inl err)",
      rotated, THEN mp])
qed (auto split: if_splits sum.splits option.splits)

text \<open>The calls a guardian needs to look after its master: its lease made non-blocking, the
  master's status read and the master's group signalled.\<close>

definition supervision_error :: "guardian_run_env \<Rightarrow> process_error \<Rightarrow> bool" where
  "supervision_error e err \<longleftrightarrow> gr_terminate e = Err err \<or>
     (\<exists>io. err = PIo io \<and> (gr_nonblocking e = Some io \<or> (\<exists>i. gr_wait e i = Inl io)))"

definition start_error :: "guardian_env \<Rightarrow> bool" where
  "start_error g \<longleftrightarrow> \<not> is_ok (ge_terminate g) \<or> \<not> is_ok (ge_last_wait g) \<or> (\<exists>i io. ge_wait g i = Inl io)"

text \<open>A guardian that got its specification, by the error that kept it from cleaning up.\<close>

lemma run_guardian_cases:
  assumes "run_guardian e (Some (outcome, f)) = Some (res, g, removed)" "is_ok (gr_spec e)"
  shows "g = Ended \<and> removed \<or>
    (\<exists>err. res = Err err \<and> removed \<and> g = f \<and> (\<not> is_ok outcome \<or> \<not> is_ok (gr_terminate e))) \<or>
    (\<exists>err. res = Err err \<and> \<not> removed \<and> g = f \<and> is_ok outcome \<and> supervision_error e err)"
proof (cases "gr_report e")
  case r: (Inl err)
  with assms show ?thesis by (cases outcome) (auto simp: run_guardian_def is_ok_iff r split: if_splits)
next
  case r: (Inr v)
  show ?thesis
  proof (cases outcome)
    case (Inl err)
    with assms r show ?thesis by (auto simp: run_guardian_def is_ok_iff)
  next
    case (Inr pid)
    with assms r show ?thesis
    proof (cases "gr_terminate e")
      case t: (Inl err)
      with assms r Inr show ?thesis
        by (auto simp: run_guardian_def supervision_error_def t is_ok_iff
            dest: supervise_failed split: option.splits supervised.splits)
    qed (auto simp: run_guardian_def supervision_error_def is_ok_iff
        dest: supervise_failed split: option.splits supervised.splits)
  qed
qed

lemma guardian_start_alive:
  assumes "guardian_start g = Some (outcome, Alive)"
  shows "is_ok outcome \<or> start_error g"
  using guardian_start_Err [of g "projl outcome" Alive] assms
  by (cases outcome; cases "ge_last_wait g") (auto simp: start_error_def)


definition sample_guardian :: guardian_env where
  "sample_guardian = \<lparr>ge_spawn = Inr 77, ge_wait = (\<lambda>i. Inr None),
     ge_check = (\<lambda>i. if i < 2 then Err (PStartup []) else Ok ()), ge_clock = (\<lambda>i. 50 * i),
     ge_start = 0, ge_stderr = [], ge_terminate = Ok (), ge_forward = Ok (),
     ge_last_wait = Inr None\<rparr>"

definition sample_run :: guardian_run_env where
  "sample_run = \<lparr>gr_spec = Ok (), gr_report = Ok (), gr_nonblocking = None,
     gr_lease = (\<lambda>i. if i < 3 then LeaseWouldBlock else LeaseEof), gr_wait = (\<lambda>i. Inr None),
     gr_terminate = Ok ()\<rparr>"

lemma sample_guardian_starts: "guardian_start sample_guardian = Some (Ok 77, Alive)"
proof -
  have "poll_loop (readiness_poll sample_guardian) (ge_clock sample_guardian) 30000 (0 + 2) =
      Some (readiness_poll sample_guardian (0 + 2))"
    by (rule poll_loop_step(1)) (simp add: poll_stops_def readiness_poll_def sample_guardian_def)
  then have "poll_loop (readiness_poll sample_guardian) (ge_clock sample_guardian) 30000 0 =
      Some (Inr (Some Ready))"
    by (simp add: poll_loop.simps [of _ _ _ 0] poll_loop.simps [of _ _ _ "Suc 0"]
        readiness_poll_def sample_guardian_def numeral_2_eq_2)
  then show ?thesis
    by (simp add: guardian_start_def sample_guardian_def STARTUP_TIMEOUT_def)
qed

lemma sample_supervise: "supervise (gr_lease sample_run) (gr_wait sample_run) 0 = Some LeaseReleased"
  by (simp add: sample_run_def supervise.simps)


lemma attempt_stop_held:
  assumes "ma_lease m" "ma_guardian m"
    and "wait_child try_wait clock start (STOP_GRACE + 2000) = Some x"
  shows "attempt_stop try_wait clock start m = Some (case x of
      Inr status \<Rightarrow>
        (if status_success status then (Ok (), [CloseLease, WaitGuardian])
         else (Err (PProtocol (lit ''guardian exited unsuccessfully: '' @ show_status status)),
               CloseLease # WaitGuardian # force_cleanup m))
    | Inl err \<Rightarrow> (Err err, CloseLease # WaitGuardian # force_cleanup m))"
  unfolding attempt_stop_eq cleanup_def Let_def assms(3)
  using assms(1,2) by (cases x) simp_all

text \<open>Stopping a held attempt always returns, within 351 polls (7 seconds), drops the
  lease first, and answers success only for a guardian that exited with status 0; after any
  other end the process group is killed and the attempt directory removed.\<close>

theorem attempt_stop_returns:
  assumes "ticking 20 clock" "start \<le> clock 0" and "ma_lease m" "ma_guardian m"
  shows "\<exists>res acts. attempt_stop try_wait clock start m = Some (res, CloseLease # WaitGuardian # acts) \<and>
     (case res of
        Inr _ \<Rightarrow> acts = [] \<and> (\<exists>j \<le> 350. try_wait j = Inr (Some (Exited 0)))
      | Inl _ \<Rightarrow> acts = force_cleanup m)"
proof -
  have bound: "STOP_GRACE + 2000 \<le> 350 * 20" by (simp add: STOP_GRACE_def)
  obtain j where j: "j \<le> 350"
    and w: "wait_child try_wait clock start (STOP_GRACE + 2000) = Some (case try_wait j of
        Inl e \<Rightarrow> Err (PIo e)
      | Inr (Some status) \<Rightarrow> Ok status
      | Inr None \<Rightarrow> Err (PProtocol (lit ''guardian did not finish cleanup'')))"
    by (rule wait_child_returns [OF assms(1,2) bound, of try_wait])
  note stop = attempt_stop_held [OF assms(3,4) w]
  show ?thesis
  proof (cases "try_wait j")
    case (Inl e)
    with stop w show ?thesis by simp
  next
    case (Inr st)
    show ?thesis
    proof (cases st)
      case None
      with stop w Inr show ?thesis by simp
    next
      case (Some status)
      show ?thesis
      proof (cases "status = Exited 0")
        case True
        with stop w Inr Some j show ?thesis by auto
      next
        case False
        then have "\<not> status_success status" by (cases status) simp_all
        with stop w Inr Some show ?thesis by simp
      qed
    qed
  qed
qed

definition sample_managed :: managed where
  "sample_managed = \<lparr>ma_lease = True, ma_guardian = True, ma_master_pid = 77,
     ma_attempt_dir = lit ''/run/td/attempt-1'', ma_attempt_id = 1\<rparr>"

theorem attempt_stop_returns_witness:
  "\<exists>res acts. attempt_stop (\<lambda>i. Inr None) (\<lambda>i. 20 * i) 0 sample_managed =
     Some (res, CloseLease # WaitGuardian # acts) \<and>
     (case res of
        Inr _ \<Rightarrow> acts = [] \<and> (\<exists>j \<le> (350 :: nat). (\<lambda>i. Inr None) j = (Inr (Some (Exited 0)) :: io_error + exit_status option))
      | Inl _ \<Rightarrow> acts = force_cleanup sample_managed)"
  by (rule attempt_stop_returns) (simp_all add: ticking_def sample_managed_def)

lemma start_spawned_Err:
  "start_spawned e spec i = (Err err, acts) \<Longrightarrow> se_set_timeout e = None \<Longrightarrow>
   se_clear_timeout e = None \<Longrightarrow> acts = SendSpec spec # abandon (gs_attempt_dir spec)"
  by (auto simp: start_spawned_def start_exchange_def Let_def
      split: sum.splits option.splits if_splits prod.splits)

lemma start_attempt_Ok:
  "start_attempt show e i ssh runtime r = (Ok m, acts) \<Longrightarrow>
   ma_attempt_id m = i \<and> ma_lease m \<and> ma_guardian m \<and> valid_pid (ma_master_pid m)"
  using start_exchange_spec
  by (fastforce simp: start_attempt_def start_spawned_def Let_def
      split: option.splits if_splits prod.splits)

text \<open>A failed start cleans up after itself except when the control socket's path is too
  long (or a descriptor could not be made): the refusal comes after the attempt directory
  was created, nothing removes it, and no guardian exists that would.\<close>

theorem start_attempt_cleanup:
  assumes "se_mkdir e = None" "se_chmod e = None" "se_pair e = None" "se_clone e = None"
    and "se_set_timeout e = None" "se_clear_timeout e = None"
    and dir: "dir = runtime @ lit ''/attempt-'' @ show_uuid i"
    and "start_attempt show_uuid e i ssh runtime r = (Err err, acts)"
  shows "MakeDir dir \<in> set acts \<and>
    (RemoveDir dir \<in> set acts \<longleftrightarrow> check_socket_length (dir @ lit ''/control.sock''))"
  using assms
  by (auto simp: start_attempt_def Let_def abandon_def split: if_splits option.splits prod.splits
      dest: start_spawned_Err)

definition sample_start_env :: start_env where
  "sample_start_env = \<lparr>se_mkdir = None, se_chmod = None, se_pair = None, se_clone = None,
     se_spawn = None, se_set_timeout = None, se_exchange = Err (PProtocol []),
     se_clear_timeout = None\<rparr>"

definition deep_runtime :: rstr where
  "deep_runtime = 47 # replicate 100 97"

theorem start_attempt_cleanup_witness:
  "MakeDir (deep_runtime @ lit ''/attempt-'' @ lit ''1'') \<in>
     set [MakeDir (deep_runtime @ lit ''/attempt-'' @ lit ''1''),
          SetDirMode (deep_runtime @ lit ''/attempt-'' @ lit ''1'')] \<and>
   (RemoveDir (deep_runtime @ lit ''/attempt-'' @ lit ''1'') \<in>
     set [MakeDir (deep_runtime @ lit ''/attempt-'' @ lit ''1''),
          SetDirMode (deep_runtime @ lit ''/attempt-'' @ lit ''1'')] \<longleftrightarrow>
    check_socket_length ((deep_runtime @ lit ''/attempt-'' @ lit ''1'') @ lit ''/control.sock''))"
proof (rule start_attempt_cleanup [of sample_start_env])
  have "\<not> check_socket_length (deep_runtime @ lit ''/attempt-1/control.sock'')"
    by code_simp
  then show "start_attempt (\<lambda>_. lit ''1'') sample_start_env 1 (lit ''ssh'') deep_runtime
      (sample_rule (lit ''a'') 8080 (lit ''::1'')) =
    (Err (PIo (IoInvalidInput, lit ''control socket path is too long'')),
     [MakeDir (deep_runtime @ lit ''/attempt-'' @ lit ''1''),
      SetDirMode (deep_runtime @ lit ''/attempt-'' @ lit ''1'')])"
    by (simp add: start_attempt_def sample_start_env_def Let_def lit_append [symmetric])
qed (simp_all add: sample_start_env_def)

end
