(* ===== verification/Ipc_Model.thy ===== *)
theory Ipc_Model
  imports Ssh_Process
begin

text \<open>
  The IPC contract, \<open>src/src/ipc/mod.rs\<close>: messages, newline framing with its size limit,
  the client's checks of a response, and the event hub with its bounded subscriber
  queues. JSON text is \<open>serde_json\<close>'s: encoders and decoders are arguments.
\<close>

section \<open>Messages\<close>

text \<open>\<open>serde_json::Value\<close>, as far as the program builds and inspects it.\<close>

datatype json =
    JNull
  | JBool bool
  | JNat nat
  | JStr rstr
  | JArr "json list"
  | JObj "(string \<times> json) list"

fun json_get :: "json \<Rightarrow> string \<Rightarrow> json option" where
  "json_get (JObj kvs) key = map_of kvs key"
| "json_get _ _ = None"

fun as_bool :: "json \<Rightarrow> bool option" where
  "as_bool (JBool b) = Some b"
| "as_bool _ = None"

definition PROTOCOL_VERSION :: nat where "PROTOCOL_VERSION = 1"
definition MAX_MESSAGE_BYTES :: nat where "MAX_MESSAGE_BYTES = 1048576"
definition EVENT_BUFFER_CAPACITY :: nat where "EVENT_BUFFER_CAPACITY = 64"

datatype operation =
    HostList | HostShow | HostTest | ForwardList | ForwardAdd | ForwardEditActive
  | ForwardImport | ForwardRemove | ForwardStart | ForwardStop | SettingsGet
  | SettingsUpdate | Status | Subscribe

datatype error_code =
    InvalidRequest | MessageTooLargeCode | UnsupportedVersion | NotFound | Conflict
  | Unavailable | Internal

text \<open>
  A message text is a list of fragments: literal text and the display form of a value
  whose text is defined elsewhere.
\<close>

datatype frag =
    Txt rstr
  | ShowUuid uuid
  | ShowNat nat
  | ShowStore store_error
  | ShowValidation validation_error
  | ShowProcess process_error
  | ShowIo io_kind
  | ShowSerde
  | ShowMessage "frag list"

type_synonym message = "frag list"

record request =
  rq_protocol_version :: nat
  rq_request_id :: uuid
  rq_operation :: operation
  rq_payload :: json

definition request_new :: "uuid \<Rightarrow> operation \<Rightarrow> json \<Rightarrow> request" where
  "request_new fresh op payload =
     \<lparr>rq_protocol_version = PROTOCOL_VERSION, rq_request_id = fresh, rq_operation = op,
      rq_payload = payload\<rparr>"

record protocol_error =
  pe_code :: error_code
  pe_message :: message

record success_response =
  sr_protocol_version :: nat
  sr_request_id :: uuid
  sr_result :: json

record error_response =
  er_protocol_version :: nat
  er_request_id :: uuid
  er_error :: protocol_error

datatype response = Success success_response | Failure error_response

record event =
  ev_protocol_version :: nat
  ev_sequence :: nat
  ev_event :: rstr
  ev_payload :: json

definition ipc_success :: "uuid \<Rightarrow> json \<Rightarrow> response" where
  "ipc_success i result = Success \<lparr>sr_protocol_version = PROTOCOL_VERSION, sr_request_id = i,
     sr_result = result\<rparr>"

definition ipc_failure :: "uuid \<Rightarrow> error_code \<Rightarrow> message \<Rightarrow> response" where
  "ipc_failure i code msg = Failure \<lparr>er_protocol_version = PROTOCOL_VERSION, er_request_id = i,
     er_error = \<lparr>pe_code = code, pe_message = msg\<rparr>\<rparr>"

fun response_version :: "response \<Rightarrow> nat" where
  "response_version (Success v) = sr_protocol_version v"
| "response_version (Failure v) = er_protocol_version v"

fun response_id :: "response \<Rightarrow> uuid" where
  "response_id (Success v) = sr_request_id v"
| "response_id (Failure v) = er_request_id v"

lemma response_builders [simp]:
  "response_id (ipc_success i v) = i" "response_id (ipc_failure i c m) = i"
  "response_version (ipc_success i v) = PROTOCOL_VERSION"
  "response_version (ipc_failure i c m) = PROTOCOL_VERSION"
  by (simp_all add: ipc_success_def ipc_failure_def)

datatype transport_error =
    TransportIo io_kind
  | MessageTooLarge
  | Disconnected
  | InvalidMessage
  | RequestIdMismatch
  | VersionMismatch nat
  | InvalidSubscriptionAcknowledgement
  | SubscriptionRejected error_code

section \<open>Frames\<close>

text \<open>
  What a peer still sends: the bytes, and how the stream goes on after them, an orderly
  end or a failing read (a timeout, a reset).
\<close>

record stream =
  in_bytes :: bytes
  in_fault :: "io_kind option"

text \<open>\<open>take(limit).read_until(b'\n')\<close>: the bytes taken and the ones left.\<close>

fun read_until :: "nat \<Rightarrow> bytes \<Rightarrow> bytes \<times> bytes" where
  "read_until limit [] = ([], [])"
| "read_until limit (b # bs) =
     (if limit = 0 then ([], b # bs)
      else if b = 10 then ([b], bs)
      else (let (t, r) = read_until (limit - 1) bs in (b # t, r)))"

definition read_frame ::
  "(bytes \<Rightarrow> 'a option) \<Rightarrow> stream \<Rightarrow> (transport_error + 'a) \<times> stream" where
  "read_frame decode s =
     (let (taken, rest) = read_until (MAX_MESSAGE_BYTES + 2) (in_bytes s);
          s' = s\<lparr>in_bytes := rest\<rparr>;
          ended = (taken = [] \<or> last taken \<noteq> 10) \<and> length taken < MAX_MESSAGE_BYTES + 2 in
      case (if ended then in_fault s else None) of
        Some e \<Rightarrow> (Err (TransportIo e), s')
      | None \<Rightarrow>
          if taken = [] then (Err Disconnected, s')
          else if last taken \<noteq> 10 \<or> MAX_MESSAGE_BYTES < length taken - 1
          then (Err MessageTooLarge, s')
          else (ok_or InvalidMessage (decode (butlast taken)), s'))"

text \<open>\<open>write_frame\<close>: the bytes that reached the peer when no write failed.\<close>

definition write_frame ::
  "('a \<Rightarrow> bytes option) \<Rightarrow> io_kind option \<Rightarrow> 'a \<Rightarrow> (transport_error + unit) \<times> bytes" where
  "write_frame encode fault v =
     (case encode v of
        None \<Rightarrow> (Err InvalidMessage, [])
      | Some bs \<Rightarrow>
          if MAX_MESSAGE_BYTES < length bs then (Err MessageTooLarge, [])
          else case fault of Some e \<Rightarrow> (Err (TransportIo e), []) | None \<Rightarrow> (Ok (), bs @ [10]))"

lemma read_until_newline:
  "10 \<notin> set bs \<Longrightarrow> length bs < limit \<Longrightarrow> read_until limit (bs @ 10 # r) = (bs @ [10], r)"
  by (induction bs arbitrary: limit) auto

lemma read_until_split: "read_until limit bs = (t, r) \<Longrightarrow> bs = t @ r"
  by (induction limit bs arbitrary: t r rule: read_until.induct)
    (auto simp: Let_def split: if_splits prod.splits)

lemma read_until_length: "read_until limit bs = (t, r) \<Longrightarrow> length t \<le> limit"
  by (induction limit bs arbitrary: t r rule: read_until.induct)
    (fastforce simp: Let_def split: if_splits prod.splits)+

lemma read_until_first_newline:
  "read_until limit bs = (t, r) \<Longrightarrow> t \<noteq> [] \<Longrightarrow> 10 \<notin> set (butlast t)"
  by (induction limit bs arbitrary: t r rule: read_until.induct)
    (fastforce simp: Let_def split: if_splits prod.splits)+

lemma read_frame_written:
  assumes "write_frame encode None v = (Ok (), bs)" and "encode v = Some text"
    and "10 \<notin> set text" and "decode text = Some v"
  shows "read_frame decode \<lparr>in_bytes = bs @ rest, in_fault = f\<rparr> =
    (Ok v, \<lparr>in_bytes = rest, in_fault = f\<rparr>)"
proof -
  from assms have bs: "bs = text @ [10]" and len: "length text \<le> MAX_MESSAGE_BYTES"
    by (auto simp: write_frame_def split: if_splits)
  have "read_until (MAX_MESSAGE_BYTES + 2) (bs @ rest) = (text @ [10], rest)"
    using read_until_newline [OF assms(3)] len bs by simp
  with len assms(4) show ?thesis by (simp add: read_frame_def Let_def)
qed

lemma read_frame_rest:
  "read_frame decode s = (res, s') \<Longrightarrow>
   \<exists>taken. in_bytes s = taken @ in_bytes s' \<and> length taken \<le> MAX_MESSAGE_BYTES + 2 \<and>
     in_fault s' = in_fault s"
proof -
  assume r: "read_frame decode s = (res, s')"
  obtain taken rest where u: "read_until (MAX_MESSAGE_BYTES + 2) (in_bytes s) = (taken, rest)"
    by fastforce
  with r have "s' = s\<lparr>in_bytes := rest\<rparr>"
    by (auto simp: read_frame_def Let_def split: option.splits if_splits)
  with read_until_split [OF u] read_until_length [OF u] show ?thesis by auto
qed

lemma read_frame_Ok:
  assumes "read_frame decode s = (Ok v, s')"
  shows "\<exists>text. in_bytes s = text @ 10 # in_bytes s' \<and> 10 \<notin> set text \<and>
    length text \<le> MAX_MESSAGE_BYTES \<and> decode text = Some v"
proof -
  obtain taken rest where u: "read_until (MAX_MESSAGE_BYTES + 2) (in_bytes s) = (taken, rest)"
    by fastforce
  with assms have t: "taken \<noteq> []" "last taken = 10" "length taken - 1 \<le> MAX_MESSAGE_BYTES"
    "decode (butlast taken) = Some v" "in_bytes s' = rest"
    by (auto simp: read_frame_def Let_def split: option.splits if_splits)
  then have "taken = butlast taken @ [10]" by (metis append_butlast_last_id)
  moreover have "10 \<notin> set (butlast taken)" using read_until_first_newline [OF u t(1)] .
  ultimately show ?thesis using t read_until_split [OF u]
    by (intro exI [of _ "butlast taken"]) (metis append.assoc append_Cons append_Nil length_butlast)
qed

section \<open>The client\<close>

record socket_meta =
  sm_is_socket :: bool
  sm_uid :: nat
  sm_mode :: nat

definition client_connect ::
  "nat \<Rightarrow> io_kind + socket_meta \<Rightarrow> io_kind + 'c \<Rightarrow> transport_error + 'c" where
  "client_connect current_uid metadata connect =
     and_then (map_err TransportIo metadata) (\<lambda>m.
       if \<not> sm_is_socket m \<or> sm_uid m \<noteq> current_uid \<or> permission_bits (sm_mode m) \<noteq> 384
       then Err (TransportIo IoPermissionDenied)
       else map_err TransportIo connect)"

definition check_response :: "request \<Rightarrow> response \<Rightarrow> transport_error + response" where
  "check_response req response =
     (if response_version response \<noteq> PROTOCOL_VERSION
      then Err (VersionMismatch (response_version response))
      else if response_id response \<noteq> rq_request_id req then Err RequestIdMismatch
      else Ok response)"

record codec_io =
  enc_request :: "request \<Rightarrow> bytes option"
  dec_request :: "bytes \<Rightarrow> request option"
  enc_response :: "response \<Rightarrow> bytes option"
  dec_response :: "bytes \<Rightarrow> response option"
  enc_event :: "event \<Rightarrow> bytes option"
  dec_event :: "bytes \<Rightarrow> event option"

text \<open>\<open>call\<close>: the outcome, the bytes written, and what is left of the peer's stream.\<close>

definition client_call ::
  "codec_io \<Rightarrow> io_kind option \<Rightarrow> request \<Rightarrow> stream \<Rightarrow>
   (transport_error + response) \<times> bytes \<times> stream" where
  "client_call c fault req peer =
     (case write_frame (enc_request c) fault req of
        (Inl e, out) \<Rightarrow> (Err e, out, peer)
      | (Inr _, out) \<Rightarrow>
          (let (res, peer') = read_frame (dec_response c) peer
           in (and_then res (check_response req), out, peer')))"

definition client_subscribe ::
  "codec_io \<Rightarrow> io_kind option \<Rightarrow> uuid \<Rightarrow> stream \<Rightarrow> (transport_error + stream) \<times> bytes" where
  "client_subscribe c fault fresh peer =
     (let (res, out, peer') = client_call c fault (request_new fresh Subscribe (JObj [])) peer
      in (case res of
            Inl e \<Rightarrow> Err e
          | Inr (Success v) \<Rightarrow>
              (if Option.bind (json_get (sr_result v) ''subscribed'') as_bool = Some True
               then Ok peer' else Err InvalidSubscriptionAcknowledgement)
          | Inr (Failure v) \<Rightarrow> Err (SubscriptionRejected (pe_code (er_error v))), out))"

definition read_event :: "codec_io \<Rightarrow> stream \<Rightarrow> (transport_error + event) \<times> stream" where
  "read_event c s =
     (let (res, s') = read_frame (dec_event c) s
      in (and_then res (\<lambda>e. if ev_protocol_version e \<noteq> PROTOCOL_VERSION
            then Err (VersionMismatch (ev_protocol_version e)) else Ok e), s'))"

section \<open>The event hub\<close>

text \<open>
  A channel of \<open>sync_channel(64)\<close>: what waits in the queue, what its receiver has taken,
  whether the receiver still exists and whether the hub still holds the sender. The hub's
  \<open>subscribers\<close> are the channels with \<open>ch_subscribed\<close>, in order. \<open>ch_since\<close> is the
  sequence number at the subscription and is only read by specifications.
\<close>

record channel =
  ch_since :: nat
  ch_pending :: "event list"
  ch_taken :: "event list"
  ch_receiving :: bool
  ch_subscribed :: bool

record event_hub =
  hub_sequence :: nat
  hub_channels :: "channel list"

definition hub_new :: event_hub where
  "hub_new = \<lparr>hub_sequence = 0, hub_channels = []\<rparr>"

definition hub_subscribe :: "event_hub \<Rightarrow> event_hub" where
  "hub_subscribe hub =
     hub\<lparr>hub_channels := hub_channels hub @
       [\<lparr>ch_since = hub_sequence hub, ch_pending = [], ch_taken = [], ch_receiving = True,
         ch_subscribed = True\<rparr>]\<rparr>"

definition deliver :: "event \<Rightarrow> channel \<Rightarrow> channel" where
  "deliver e ch =
     (if \<not> ch_subscribed ch then ch
      else if ch_receiving ch \<and> length (ch_pending ch) < EVENT_BUFFER_CAPACITY
      then ch\<lparr>ch_pending := ch_pending ch @ [e]\<rparr>
      else ch\<lparr>ch_subscribed := False\<rparr>)"

text \<open>\<open>publish\<close>; \<open>None\<close> is the panic of an exhausted \<open>u64\<close> sequence.\<close>

definition hub_publish :: "rstr \<Rightarrow> json \<Rightarrow> event_hub \<Rightarrow> (event \<times> event_hub) option" where
  "hub_publish name payload hub =
     (if hub_sequence hub + 1 < 2 ^ 64
      then (let message = \<lparr>ev_protocol_version = PROTOCOL_VERSION,
              ev_sequence = hub_sequence hub + 1, ev_event = name, ev_payload = payload\<rparr>
            in Some (message, \<lparr>hub_sequence = hub_sequence hub + 1,
                 hub_channels = map (deliver message) (hub_channels hub)\<rparr>))
      else None)"

definition take_event :: "channel \<Rightarrow> channel" where
  "take_event ch =
     (case ch_pending ch of [] \<Rightarrow> ch
      | e # es \<Rightarrow> ch\<lparr>ch_pending := es, ch_taken := ch_taken ch @ [e]\<rparr>)"

definition hub_receive :: "nat \<Rightarrow> event_hub \<Rightarrow> event_hub" where
  "hub_receive i hub =
     (if i < length (hub_channels hub)
      then hub\<lparr>hub_channels := (hub_channels hub)[i := take_event (hub_channels hub ! i)]\<rparr>
      else hub)"

definition hub_hang_up :: "nat \<Rightarrow> event_hub \<Rightarrow> event_hub" where
  "hub_hang_up i hub =
     (if i < length (hub_channels hub)
      then hub\<lparr>hub_channels := (hub_channels hub)[i := (hub_channels hub ! i)\<lparr>ch_receiving := False\<rparr>]\<rparr>
      else hub)"

text \<open>Daemon threads publish and subscribe, connection threads receive and hang up.\<close>

inductive hub_step :: "event_hub \<Rightarrow> event_hub \<Rightarrow> bool" where
  step_subscribe: "hub_step hub (hub_subscribe hub)"
| step_publish: "hub_publish name payload hub = Some (e, hub') \<Longrightarrow> hub_step hub hub'"
| step_receive: "hub_step hub (hub_receive i hub)"
| step_hang_up: "hub_step hub (hub_hang_up i hub)"

inductive hub_reachable :: "event_hub \<Rightarrow> bool" where
  hub_start: "hub_reachable hub_new"
| hub_next: "hub_reachable hub \<Longrightarrow> hub_step hub hub' \<Longrightarrow> hub_reachable hub'"

text \<open>A channel saw the events since its subscription, none skipped, up to where it was cut.\<close>

definition channel_gapless :: "nat \<Rightarrow> channel \<Rightarrow> bool" where
  "channel_gapless seq ch \<longleftrightarrow>
     map ev_sequence (ch_taken ch @ ch_pending ch) =
       [Suc (ch_since ch) ..< Suc (ch_since ch + length (ch_taken ch) + length (ch_pending ch))] \<and>
     ch_since ch + length (ch_taken ch) + length (ch_pending ch) \<le> seq \<and>
     (ch_subscribed ch \<longrightarrow> ch_since ch + length (ch_taken ch) + length (ch_pending ch) = seq) \<and>
     length (ch_pending ch) \<le> EVENT_BUFFER_CAPACITY"

definition hub_gapless :: "event_hub \<Rightarrow> bool" where
  "hub_gapless hub \<longleftrightarrow> list_all (channel_gapless (hub_sequence hub)) (hub_channels hub)"

lemma deliver_gapless:
  "channel_gapless seq ch \<Longrightarrow> ev_sequence e = seq + 1 \<Longrightarrow> channel_gapless (seq + 1) (deliver e ch)"
  by (auto simp: channel_gapless_def deliver_def)

lemma take_event_gapless: "channel_gapless seq ch \<Longrightarrow> channel_gapless seq (take_event ch)"
  by (auto simp: channel_gapless_def take_event_def split: list.splits)

lemma hub_step_gapless: "hub_step hub hub' \<Longrightarrow> hub_gapless hub \<Longrightarrow> hub_gapless hub'"
proof (induction rule: hub_step.induct)
  case (step_subscribe hub)
  then show ?case by (simp add: hub_gapless_def hub_subscribe_def channel_gapless_def)
next
  case (step_publish name payload hub e hub')
  then show ?case
    by (auto simp: hub_gapless_def hub_publish_def Let_def list.pred_map comp_def list_all_iff
        intro!: deliver_gapless [of "hub_sequence hub", simplified] split: if_splits)
next
  case (step_receive hub i)
  then show ?case
    by (auto simp: hub_gapless_def hub_receive_def list_all_length nth_list_update take_event_gapless)
next
  case (step_hang_up hub i)
  then show ?case
    by (auto simp: hub_gapless_def hub_hang_up_def list_all_length nth_list_update channel_gapless_def)
qed

lemma hub_reachable_gapless: "hub_reachable hub \<Longrightarrow> hub_gapless hub"
  by (induction rule: hub_reachable.induct)
    (auto simp: hub_new_def hub_gapless_def dest: hub_step_gapless)

section \<open>Properties\<close>

text \<open>Frames written one after the other, and as many read back.\<close>

fun write_frames :: "('a \<Rightarrow> bytes option) \<Rightarrow> 'a list \<Rightarrow> bytes" where
  "write_frames encode [] = []"
| "write_frames encode (v # vs) = snd (write_frame encode None v) @ write_frames encode vs"

fun read_frames ::
  "(bytes \<Rightarrow> 'a option) \<Rightarrow> nat \<Rightarrow> stream \<Rightarrow> (transport_error + 'a) list \<times> stream" where
  "read_frames decode 0 s = ([], s)"
| "read_frames decode (Suc n) s =
     (let (r, s1) = read_frame decode s; (rs, s2) = read_frames decode n s1 in (r # rs, s2))"

definition frameable :: "('a \<Rightarrow> bytes option) \<Rightarrow> (bytes \<Rightarrow> 'a option) \<Rightarrow> 'a \<Rightarrow> bool" where
  "frameable encode decode v \<longleftrightarrow>
     (case encode v of None \<Rightarrow> False
      | Some text \<Rightarrow> 10 \<notin> set text \<and> length text \<le> MAX_MESSAGE_BYTES \<and> decode text = Some v)"

text \<open>Framing is a round trip: messages whose JSON has no raw newline and fits in 1 MiB
  are read back one by one, in order, whatever follows them in the stream; the framing
  needs no more of the codec than that it decodes its own output.\<close>

theorem frames_round_trip:
  assumes "list_all (frameable encode decode) vs"
  shows "read_frames decode (length vs)
      \<lparr>in_bytes = write_frames encode vs @ rest, in_fault = fault\<rparr> =
    (map Ok vs, \<lparr>in_bytes = rest, in_fault = fault\<rparr>)"
  using assms
proof (induction vs)
  case (Cons v vs)
  then obtain ln where t: "encode v = Some ln" "10 \<notin> set ln"
    "length ln \<le> MAX_MESSAGE_BYTES" "decode ln = Some v"
    by (auto simp: frameable_def split: option.splits)
  then have w: "write_frame encode None v = (Ok (), ln @ [10])" by (simp add: write_frame_def)
  have "read_frame decode \<lparr>in_bytes = (ln @ [10]) @ write_frames encode vs @ rest, in_fault = fault\<rparr> =
      (Ok v, \<lparr>in_bytes = write_frames encode vs @ rest, in_fault = fault\<rparr>)"
    using w t by (intro read_frame_written)
  with Cons w show ?case by simp
qed simp

theorem frames_round_trip_witness:
  "read_frames Some (length [lit ''a'', lit ''{}''])
     \<lparr>in_bytes = write_frames Some [lit ''a'', lit ''{}''] @ [123], in_fault = Some IoTimedOut\<rparr> =
   (map Ok [lit ''a'', lit ''{}''], \<lparr>in_bytes = [123], in_fault = Some IoTimedOut\<rparr>)"
  by (rule frames_round_trip) code_simp

text \<open>Reading a frame takes at most 1 MiB and two bytes off the stream, whatever the peer
  sends, and only accepts what is one newline-terminated line of at most 1 MiB that
  decodes to the result.\<close>

theorem read_frame_is_bounded:
  "case read_frame decode s of (res, s') \<Rightarrow>
     (\<exists>taken. in_bytes s = taken @ in_bytes s' \<and> length taken \<le> 1048578 \<and>
       (case res of Inl _ \<Rightarrow> True
        | Inr v \<Rightarrow> \<exists>text. taken = text @ [10] \<and> 10 \<notin> set text \<and> length text \<le> 1048576 \<and>
            decode text = Some v))"
proof -
  obtain res s' where r: "read_frame decode s = (res, s')" by fastforce
  from read_frame_rest [OF r] obtain taken where taken:
    "in_bytes s = taken @ in_bytes s'" "length taken \<le> MAX_MESSAGE_BYTES + 2" by blast
  show ?thesis
  proof (cases res)
    case (Inl e)
    with r taken show ?thesis by (auto simp: MAX_MESSAGE_BYTES_def)
  next
    case (Inr v)
    from read_frame_Ok [of decode s v s'] r Inr obtain ln where t:
      "in_bytes s = ln @ 10 # in_bytes s'" "10 \<notin> set ln"
      "length ln \<le> MAX_MESSAGE_BYTES" "decode ln = Some v" by blast
    with r Inr show ?thesis
      by (auto simp: MAX_MESSAGE_BYTES_def intro!: exI [of _ "ln @ [10]"])
  qed
qed

text \<open>A client call only returns a response of protocol version 1 that carries the
  request's own id and is the first complete line the daemon sent; every other answer is
  an error.\<close>

theorem client_call_is_matched:
  assumes "client_call c fault req peer = (Ok response, out, peer')"
  shows "response_id response = rq_request_id req \<and> response_version response = 1 \<and>
    out = the (enc_request c req) @ [10] \<and>
    (\<exists>text. in_bytes peer = text @ 10 # in_bytes peer' \<and> 10 \<notin> set text \<and>
      dec_response c text = Some response)"
proof -
  obtain w where w: "write_frame (enc_request c) fault req = (Ok (), w)"
    using assms by (cases "write_frame (enc_request c) fault req") (auto simp: client_call_def split: sum.splits)
  then have out: "w = the (enc_request c req) @ [10]"
    by (auto simp: write_frame_def split: option.splits if_splits)
  obtain res where r: "read_frame (dec_response c) peer = (res, peer')"
    and ok: "and_then res (check_response req) = Ok response" and "out = w"
    using assms w by (auto simp: client_call_def split: prod.splits)
  from ok have res: "res = Ok response"
    and chk: "response_version response = PROTOCOL_VERSION" "response_id response = rq_request_id req"
    by (auto simp: check_response_def split: if_splits)
  from read_frame_Ok [of "dec_response c" peer response peer'] r res
  have "\<exists>text. in_bytes peer = text @ 10 # in_bytes peer' \<and> 10 \<notin> set text \<and>
    dec_response c text = Some response" by blast
  with out chk \<open>out = w\<close> show ?thesis by (simp add: PROTOCOL_VERSION_def)
qed

definition echo_codec :: codec_io where
  "echo_codec = \<lparr>enc_request = (\<lambda>r. Some [1]), dec_request = (\<lambda>_. None),
     enc_response = (\<lambda>_. None), dec_response = (\<lambda>t. if t = [2] then Some (ipc_success 7 JNull) else None),
     enc_event = (\<lambda>_. None), dec_event = (\<lambda>_. None)\<rparr>"

theorem client_call_is_matched_witness:
  "response_id (ipc_success 7 JNull) = rq_request_id (request_new 7 Status JNull) \<and>
   response_version (ipc_success 7 JNull) = 1 \<and>
   [1, 10] = the (enc_request echo_codec (request_new 7 Status JNull)) @ [10] \<and>
   (\<exists>text. in_bytes \<lparr>in_bytes = [2, 10, 3], in_fault = None\<rparr> =
        text @ 10 # in_bytes \<lparr>in_bytes = [3], in_fault = None\<rparr> \<and> 10 \<notin> set text \<and>
      dec_response echo_codec text = Some (ipc_success 7 JNull))"
  by (rule client_call_is_matched [of echo_codec None]) code_simp

text \<open>subscribers see no gaps: in every state the hub can reach, the events a subscriber
  has taken and those waiting for it carry consecutive sequence numbers from its
  subscription on, at most 64 wait, and a subscriber the hub still serves is up to date; a
  slow one is cut off rather than skipped.\<close>

theorem hub_delivery_is_gapless:
  assumes "hub_reachable hub" and "ch \<in> set (hub_channels hub)"
  shows "map ev_sequence (ch_taken ch @ ch_pending ch) =
      [Suc (ch_since ch) ..< Suc (ch_since ch + length (ch_taken ch @ ch_pending ch))] \<and>
    length (ch_pending ch) \<le> 64 \<and>
    (\<not> ch_subscribed ch \<or> ch_since ch + length (ch_taken ch @ ch_pending ch) = hub_sequence hub)"
  using hub_reachable_gapless [OF assms(1)] assms(2)
  by (auto simp: hub_gapless_def list_all_iff channel_gapless_def EVENT_BUFFER_CAPACITY_def add.assoc)

definition sample_hub :: event_hub where
  "sample_hub = hub_receive 0 (snd (the (hub_publish (lit ''rule_started'') JNull (hub_subscribe hub_new))))"

lemma sample_hub_reachable: "hub_reachable sample_hub"
proof -
  have "hub_publish (lit ''rule_started'') JNull (hub_subscribe hub_new) =
      Some (the (hub_publish (lit ''rule_started'') JNull (hub_subscribe hub_new)))"
    by (simp add: hub_publish_def hub_subscribe_def hub_new_def Let_def)
  then have "hub_step (hub_subscribe hub_new)
      (snd (the (hub_publish (lit ''rule_started'') JNull (hub_subscribe hub_new))))"
    by (metis prod.collapse step_publish)
  then show ?thesis unfolding sample_hub_def
    by (blast intro: hub_start hub_next step_subscribe step_receive)
qed

theorem hub_delivery_is_gapless_witness:
  "\<exists>ch \<in> set (hub_channels sample_hub). map ev_sequence (ch_taken ch @ ch_pending ch) =
      [Suc (ch_since ch) ..< Suc (ch_since ch + length (ch_taken ch @ ch_pending ch))] \<and>
    length (ch_pending ch) \<le> 64 \<and>
    (\<not> ch_subscribed ch \<or> ch_since ch + length (ch_taken ch @ ch_pending ch) = hub_sequence sample_hub)"
proof -
  have "hub_channels sample_hub ! 0 \<in> set (hub_channels sample_hub)"
    by (simp add: sample_hub_def hub_receive_def hub_publish_def hub_subscribe_def hub_new_def Let_def)
  from hub_delivery_is_gapless [OF sample_hub_reachable this] this show ?thesis by (rule bexI)
qed

end
