(* ===== verification/Private_Fs.thy ===== *)
theory Private_Fs
  imports Config_Model Utf8
begin

text \<open>
  The private directories of \<open>src/src/platform/private_fs.rs\<close>: metadata checks, the
  operations relative to an open directory descriptor, and the creation of missing
  ancestors. A directory is the list of its entries; each system call first consumes one
  entry of a fault plan, which may make it fail (a write after some bytes). What metadata
  the file system gives a new file is part of the state. The interface \<open>file_moves\<close>
  states what renaming and removing do to the entries; the configuration store and the log
  rotation rest on it.
\<close>

section \<open>Metadata\<close>

datatype file_kind = Regular | Directory | Socket | Symlink | OtherKind

record meta =
  mt_kind :: file_kind
  mt_uid :: nat
  mt_mode :: nat
  mt_nlink :: nat

definition fs_check :: "meta \<Rightarrow> nat \<Rightarrow> bool \<Rightarrow> io_kind + unit" where
  "fs_check m uid directory =
     (if mt_uid m \<noteq> uid \<or> permission_bits (mt_mode m) \<noteq> (if directory then 448 else 384) \<or>
         (if directory then mt_kind m \<noteq> Directory
          else mt_kind m \<noteq> Regular \<or> mt_nlink m \<noteq> 1)
      then Err IoPermissionDenied else Ok ())"

lemma fs_check_Ok:
  "fs_check m uid d = Ok u \<longleftrightarrow> mt_uid m = uid \<and>
     permission_bits (mt_mode m) = (if d then 448 else 384) \<and>
     (if d then mt_kind m = Directory else mt_kind m = Regular \<and> mt_nlink m = 1)"
  by (auto simp: fs_check_def)

text \<open>One file name: not empty, not \<open>.\<close> or \<open>..\<close>, without a slash or a NUL.\<close>

definition file_component :: "rstr \<Rightarrow> io_kind + unit" where
  "file_component name =
     (if name = [] \<or> name = lit ''.'' \<or> name = lit ''..'' \<or> 47 \<in> set name then Err IoInvalidInput
      else if 0 \<in> set name then Err IoInvalidInput else Ok ())"

section \<open>An open directory\<close>

record entry =
  en_meta :: meta
  en_data :: bytes
  en_synced :: bool

type_synonym fault = "(io_kind \<times> nat) option"

record pdir =
  pd_meta :: meta
  pd_uid :: nat
  pd_entries :: "(rstr \<times> entry) list"
  pd_created :: meta
  pd_faults :: "fault list"

type_synonym 'a dir_op = "(pdir, io_kind, 'a) st"

definition dir_lookup :: "pdir \<Rightarrow> rstr \<Rightarrow> entry option" where
  "dir_lookup d name = map_of (pd_entries d) name"

definition dir_put :: "rstr \<Rightarrow> entry \<Rightarrow> pdir \<Rightarrow> pdir" where
  "dir_put name e d = d\<lparr>pd_entries := AList.update name e (pd_entries d)\<rparr>"

definition dir_drop :: "rstr \<Rightarrow> pdir \<Rightarrow> pdir" where
  "dir_drop name d = d\<lparr>pd_entries := AList.delete name (pd_entries d)\<rparr>"

lemma dir_lookup_put [simp]:
  "dir_lookup (dir_put n e d) m = (if m = n then Some e else dir_lookup d m)"
  by (simp add: dir_lookup_def dir_put_def update_conv')

lemma dir_lookup_drop [simp]:
  "dir_lookup (dir_drop n d) m = (if m = n then None else dir_lookup d m)"
  by (simp add: dir_lookup_def dir_drop_def delete_conv')

lemma dir_put_drop_fields [simp]:
  "pd_meta (dir_put n e d) = pd_meta d" "pd_uid (dir_put n e d) = pd_uid d"
  "pd_created (dir_put n e d) = pd_created d" "pd_faults (dir_put n e d) = pd_faults d"
  "pd_meta (dir_drop n d) = pd_meta d" "pd_uid (dir_drop n d) = pd_uid d"
  "pd_created (dir_drop n d) = pd_created d" "pd_faults (dir_drop n d) = pd_faults d"
  by (simp_all add: dir_put_def dir_drop_def)

text \<open>The next answer of the fault plan; an exhausted plan means no more failures.\<close>

definition syscall :: "pdir \<Rightarrow> fault \<times> pdir" where
  "syscall d = (case pd_faults d of [] \<Rightarrow> (None, d) | f # fs \<Rightarrow> (f, d\<lparr>pd_faults := fs\<rparr>))"

definition sys :: "unit dir_op" where
  "sys d = (case syscall d of (None, d') \<Rightarrow> (Ok (), d') | (Some (k, _), d') \<Rightarrow> (Err k, d'))"

lemma dir_lookup_syscall [simp]: "dir_lookup (snd (syscall d)) = dir_lookup d"
  by (auto simp: syscall_def dir_lookup_def fun_eq_iff split: list.split)

lemma syscall_lookup: "syscall d = (f, d') \<Longrightarrow> dir_lookup d' = dir_lookup d"
  by (metis dir_lookup_syscall snd_conv)

lemma sys_lookup: "sys d = (r, d') \<Longrightarrow> dir_lookup d' = dir_lookup d"
  by (auto simp: sys_def syscall_def dir_lookup_def split: prod.splits option.splits list.splits)

lemma sys_fields: "sys d = (r, d') \<Longrightarrow> pd_meta d' = pd_meta d \<and> pd_uid d' = pd_uid d \<and>
    pd_created d' = pd_created d"
  by (auto simp: sys_def syscall_def split: prod.splits option.splits list.splits)

lemma sys_no_faults: "pd_faults d = [] \<Longrightarrow> sys d = (Ok (), d)"
  by (simp add: sys_def syscall_def)

datatype open_mode = OpenRead | OpenCreateNew | OpenAppend

definition new_entry :: "pdir \<Rightarrow> entry" where
  "new_entry d = \<lparr>en_meta = pd_created d, en_data = [], en_synced = False\<rparr>"

text \<open>\<open>openat\<close> with \<open>O_NOFOLLOW\<close>: a symbolic link is refused.\<close>

definition openat :: "rstr \<Rightarrow> open_mode \<Rightarrow> entry dir_op" where
  "openat name mode d =
     (case dir_lookup d name of
        None \<Rightarrow> (case mode of
            OpenRead \<Rightarrow> (Err IoNotFound, d)
          | _ \<Rightarrow> (Ok (new_entry d), dir_put name (new_entry d) d))
      | Some e \<Rightarrow> (case mode of
            OpenCreateNew \<Rightarrow> (Err IoAlreadyExists, d)
          | _ \<Rightarrow> if mt_kind (en_meta e) = Symlink then (Err IoOther, d) else (Ok e, d)))"

text \<open>Reading the metadata of the directory and opening the file are a system call each.\<close>

definition open_file :: "rstr \<Rightarrow> open_mode \<Rightarrow> entry dir_op" where
  "open_file name mode =
     st_bind sys (\<lambda>_.
     st_bind (\<lambda>d. (fs_check (pd_meta d) (pd_uid d) True, d)) (\<lambda>_.
     st_bind (st_lift (file_component name)) (\<lambda>_.
     st_bind sys (\<lambda>_. openat name mode))))"

definition unlinkat :: "rstr \<Rightarrow> unit dir_op" where
  "unlinkat name d =
     (case dir_lookup d name of
        None \<Rightarrow> (Err IoNotFound, d)
      | Some e \<Rightarrow> if mt_kind (en_meta e) = Directory then (Err IoOther, d)
          else (Ok (), dir_drop name d))"

definition renameat :: "rstr \<Rightarrow> rstr \<Rightarrow> unit dir_op" where
  "renameat source target d =
     (case dir_lookup d source of
        None \<Rightarrow> (Err IoNotFound, d)
      | Some e \<Rightarrow>
          if source = target then (Ok (), d)
          else case dir_lookup d target of
            Some old \<Rightarrow>
              if (mt_kind (en_meta old) = Directory) \<noteq> (mt_kind (en_meta e) = Directory)
              then (Err IoOther, d) else (Ok (), dir_put target e (dir_drop source d))
          | None \<Rightarrow> (Ok (), dir_put target e (dir_drop source d)))"

definition fs_remove :: "rstr \<Rightarrow> unit dir_op" where
  "fs_remove name =
     st_bind (st_lift (file_component name)) (\<lambda>_. st_bind sys (\<lambda>_. unlinkat name))"

definition fs_rename :: "rstr \<Rightarrow> rstr \<Rightarrow> unit dir_op" where
  "fs_rename source target =
     st_bind (st_lift (file_component source)) (\<lambda>_.
     st_bind (st_lift (file_component target)) (\<lambda>_.
     st_bind sys (\<lambda>_. renameat source target)))"

definition check_entry :: "entry \<Rightarrow> unit dir_op" where
  "check_entry e d = (fs_check (en_meta e) (pd_uid d) False, d)"

text \<open>
  The metadata of what was opened is read by another system call. When that call fails,
  \<open>create\<close> leaves the new file behind; it removes only a file whose metadata is wrong.
\<close>

definition fs_read :: "rstr \<Rightarrow> entry dir_op" where
  "fs_read name =
     st_bind (open_file name OpenRead) (\<lambda>e.
     st_bind sys (\<lambda>_. st_bind (check_entry e) (\<lambda>_. st_return e)))"

definition fs_create :: "rstr \<Rightarrow> entry dir_op" where
  "fs_create name =
     st_bind (open_file name OpenCreateNew) (\<lambda>e.
     st_bind sys (\<lambda>_. st_try (check_entry e) (\<lambda>r. case r of
         Inl err \<Rightarrow> st_try (fs_remove name) (\<lambda>_. st_lift (Err err))
       | Inr _ \<Rightarrow> st_return e)))"

definition fs_append :: "rstr \<Rightarrow> entry dir_op" where
  "fs_append name =
     st_bind (open_file name OpenAppend) (\<lambda>e.
     st_bind sys (\<lambda>_. st_bind (check_entry e) (\<lambda>_. st_return e)))"

definition fs_sync :: "unit dir_op" where
  "fs_sync = sys"

text \<open>\<open>write_all\<close> and \<open>sync_all\<close> on a file held open under its name.\<close>

definition fs_write_all :: "rstr \<Rightarrow> bytes \<Rightarrow> unit dir_op" where
  "fs_write_all name bs d =
     (case dir_lookup d name of
        None \<Rightarrow> sys d
      | Some e \<Rightarrow> (case syscall d of
            (None, d') \<Rightarrow>
              (Ok (), dir_put name (e\<lparr>en_data := en_data e @ bs, en_synced := False\<rparr>) d')
          | (Some (k, n), d') \<Rightarrow>
              (Err k, dir_put name (e\<lparr>en_data := en_data e @ take n bs, en_synced := False\<rparr>) d')))"

definition fs_sync_file :: "rstr \<Rightarrow> unit dir_op" where
  "fs_sync_file name =
     st_bind sys (\<lambda>_ d. (Ok (), case dir_lookup d name of None \<Rightarrow> d
        | Some e \<Rightarrow> dir_put name (e\<lparr>en_synced := True\<rparr>) d))"

section \<open>What moving files does\<close>

locale file_moves =
  fixes lookup :: "'d \<Rightarrow> rstr \<Rightarrow> 'e option"
    and move :: "rstr \<Rightarrow> rstr \<Rightarrow> 'd \<Rightarrow> ('x + unit) \<times> 'd"
    and discard :: "rstr \<Rightarrow> 'd \<Rightarrow> ('x + unit) \<times> 'd"
  assumes move_Err: "move s t d = (Inl x, d') \<Longrightarrow> lookup d' = lookup d"
    and move_Ok: "move s t d = (Inr u, d') \<Longrightarrow>
      \<exists>e. lookup d s = Some e \<and> lookup d' = ((lookup d)(s := None))(t := Some e)"
    and discard_Err: "discard n d = (Inl x, d') \<Longrightarrow> lookup d' = lookup d"
    and discard_Ok: "discard n d = (Inr u, d') \<Longrightarrow> lookup d' = (lookup d)(n := None)"
begin

lemma move_other: "move s t d = (r, d') \<Longrightarrow> n \<noteq> s \<Longrightarrow> n \<noteq> t \<Longrightarrow> lookup d' n = lookup d n"
  using move_Err [of s t d _ d'] move_Ok [of s t d _ d'] by (cases r) fastforce+

lemma discard_other: "discard m d = (r, d') \<Longrightarrow> n \<noteq> m \<Longrightarrow> lookup d' n = lookup d n"
  using discard_Err [of m d _ d'] discard_Ok [of m d _ d'] by (cases r) auto

text \<open>Neither invents an entry.\<close>

lemma move_origin:
  "move s t d = (r, d') \<Longrightarrow> lookup d' n = Some e \<Longrightarrow> \<exists>m. lookup d m = Some e"
  using move_Err [of s t d _ d'] move_Ok [of s t d _ d']
  by (cases r) (fastforce split: if_splits)+

lemma discard_origin:
  "discard m d = (r, d') \<Longrightarrow> lookup d' n = Some e \<Longrightarrow> lookup d n = Some e"
  using discard_Err [of m d _ d'] discard_Ok [of m d _ d']
  by (cases r) (auto split: if_splits)

end

lemma renameat_lookup:
  "renameat s t d = (Inl x, d') \<Longrightarrow> dir_lookup d' = dir_lookup d"
  "renameat s t d = (Inr u, d') \<Longrightarrow>
    \<exists>e. dir_lookup d s = Some e \<and> dir_lookup d' = ((dir_lookup d)(s := None))(t := Some e)"
  by (auto simp: renameat_def fun_eq_iff split: option.splits if_splits)

lemma unlinkat_lookup:
  "unlinkat n d = (Inl x, d') \<Longrightarrow> dir_lookup d' = dir_lookup d"
  "unlinkat n d = (Inr u, d') \<Longrightarrow> dir_lookup d' = (dir_lookup d)(n := None)"
  by (auto simp: unlinkat_def fun_eq_iff split: option.splits if_splits)

lemma fs_rename_Err: "fs_rename s t d = (Inl x, d') \<Longrightarrow> dir_lookup d' = dir_lookup d"
  by (auto simp: fs_rename_def st_lift_def elim!: st_bind_cases
      dest!: sys_lookup renameat_lookup(1))

lemma fs_rename_Ok:
  "fs_rename s t d = (Inr u, d') \<Longrightarrow>
   \<exists>e. dir_lookup d s = Some e \<and> dir_lookup d' = ((dir_lookup d)(s := None))(t := Some e)"
  by (auto simp: fs_rename_def st_lift_def elim!: st_bind_cases
      dest!: sys_lookup renameat_lookup(2))

lemma fs_remove_Err: "fs_remove n d = (Inl x, d') \<Longrightarrow> dir_lookup d' = dir_lookup d"
  by (auto simp: fs_remove_def st_lift_def elim!: st_bind_cases
      dest!: sys_lookup unlinkat_lookup(1))

lemma fs_remove_Ok: "fs_remove n d = (Inr u, d') \<Longrightarrow> dir_lookup d' = (dir_lookup d)(n := None)"
  by (auto simp: fs_remove_def st_lift_def elim!: st_bind_cases
      dest!: sys_lookup unlinkat_lookup(2))

interpretation files: file_moves dir_lookup fs_rename fs_remove
  by unfold_locales (blast intro: fs_rename_Err fs_rename_Ok fs_remove_Err fs_remove_Ok)+

section \<open>What opening files does\<close>

lemma openat_lookup:
  "openat n mode d = (r, d') \<Longrightarrow> m \<noteq> n \<Longrightarrow> dir_lookup d' m = dir_lookup d m"
  "openat n OpenRead d = (r, d') \<Longrightarrow> d' = d"
  "openat n mode d = (Inr e, d') \<Longrightarrow> dir_lookup d' n = Some e"
  "openat n OpenCreateNew d = (Inr e, d') \<Longrightarrow> dir_lookup d n = None \<and> e = new_entry d"
  "openat n mode d = (Inl x, d') \<Longrightarrow> d' = d"
  by (auto simp: openat_def split: option.splits open_mode.splits if_splits)

lemma open_file_cases:
  assumes "open_file n mode d = (r, d')"
  obtains x where "r = Inl x" "dir_lookup d' = dir_lookup d"
  | d1 where "dir_lookup d1 = dir_lookup d" "pd_created d1 = pd_created d" "pd_uid d1 = pd_uid d"
      "openat n mode d1 = (r, d')" "file_component n = Ok ()" "fs_check (pd_meta d) (pd_uid d) True = Ok ()"
proof -
  obtain w d0 where y0: "sys d = (w, d0)" by fastforce
  obtain v d1 where y1: "sys d0 = (v, d1)" by fastforce
  note same = sys_lookup [OF y0] sys_fields [OF y0] sys_lookup [OF y1] sys_fields [OF y1]
  show thesis
  proof (cases "w = Ok () \<and> v = Ok () \<and> fs_check (pd_meta d) (pd_uid d) True = Ok () \<and> file_component n = Ok ()")
    case False
    with assms y0 y1 same have "(\<exists>x. r = Inl x) \<and> dir_lookup d' = dir_lookup d"
      by (auto simp: open_file_def st_lift_def st_bind_def split: sum.splits)
    with that(1) show ?thesis by blast
  next
    case True
    then have "openat n mode d1 = (r, d')" using assms y0 y1 same
      by (auto simp: open_file_def st_lift_def st_bind_def)
    with True same that(2) show ?thesis by metis
  qed
qed

lemma open_read_Ok:
  "open_file n OpenRead d = (Inr e, d') \<Longrightarrow>
   dir_lookup d n = Some e \<and> dir_lookup d' = dir_lookup d \<and> pd_uid d' = pd_uid d \<and>
   file_component n = Ok ()"
  by (erule open_file_cases) (simp, metis openat_lookup(2,3))

lemma open_read_Err: "open_file n OpenRead d = (Inl x, d') \<Longrightarrow> dir_lookup d' = dir_lookup d"
  by (erule open_file_cases) (simp, metis openat_lookup(2))

lemma fs_read_unchanged: "fs_read n d = (r, d') \<Longrightarrow> dir_lookup d' = dir_lookup d"
  by (auto simp: fs_read_def check_entry_def st_return_def elim!: st_bind_cases
      dest: open_read_Ok open_read_Err dest!: sys_lookup)

lemma fs_read_Ok:
  "fs_read n d = (Inr e, d') \<Longrightarrow> dir_lookup d n = Some e \<and> fs_check (en_meta e) (pd_uid d) False = Ok ()"
  by (auto simp: fs_read_def check_entry_def st_return_def elim!: st_bind_cases
      dest: open_read_Ok dest!: sys_fields)

text \<open>No system call claims that a file is missing which is there.\<close>

definition honest_faults :: "pdir \<Rightarrow> bool" where
  "honest_faults d \<longleftrightarrow> list_all (\<lambda>f. \<forall>n. f \<noteq> Some (IoNotFound, n)) (pd_faults d)"

lemma honest_sys:
  "sys d = (r, d') \<Longrightarrow> honest_faults d \<Longrightarrow> honest_faults d' \<and> r \<noteq> Inl IoNotFound"
  by (auto simp: sys_def syscall_def honest_faults_def split: list.splits option.splits prod.splits)

lemma open_read_not_missing:
  assumes "open_file n OpenRead d = (r, d')" "dir_lookup d n = Some e" "honest_faults d"
  shows "r \<noteq> Inl IoNotFound \<and> honest_faults d'"
proof -
  obtain w d0 where y0: "sys d = (w, d0)" by fastforce
  obtain v d1 where y1: "sys d0 = (v, d1)" by fastforce
  have h: "w \<noteq> Inl IoNotFound" "honest_faults d0" using honest_sys [OF y0 assms(3)] by simp_all
  then have "v \<noteq> Inl IoNotFound" "honest_faults d1" using honest_sys [OF y1] by simp_all
  moreover have "dir_lookup d1 n = Some e" using assms(2) y0 y1 by (auto dest!: sys_lookup)
  ultimately show ?thesis using assms(1) y0 y1 h
    by (auto simp: open_file_def fs_check_def file_component_def openat_def st_bind_def st_lift_def
        split: if_splits sum.splits)
qed

lemma fs_read_not_missing:
  assumes "fs_read n d = (Inl IoNotFound, d')" "dir_lookup d n = Some e" "honest_faults d"
  shows False
proof -
  obtain r d1 where o1: "open_file n OpenRead d = (r, d1)" by fastforce
  note h = open_read_not_missing [OF o1 assms(2,3)]
  obtain v d2 where y: "sys d1 = (v, d2)" by fastforce
  from h honest_sys [OF y] have "v \<noteq> Inl IoNotFound" by blast
  with h assms(1) o1 y show False
    by (auto simp: fs_read_def check_entry_def fs_check_def st_bind_def st_return_def
        split: if_splits sum.splits)
qed

text \<open>Creating and appending touch one name; creating never touches an existing file.\<close>

lemma open_file_other:
  "open_file n mode d = (r, d') \<Longrightarrow> m \<noteq> n \<Longrightarrow> dir_lookup d' m = dir_lookup d m"
  by (erule open_file_cases) (simp_all add: openat_lookup(1))

lemma fs_create_steps:
  assumes "fs_create n d = (r, d')"
  obtains x where "open_file n OpenCreateNew d = (Inl x, d')" "r = Inl x"
  | e d1 x where "open_file n OpenCreateNew d = (Inr e, d1)" "r = Inl x" "sys d1 = (Inl x, d')"
  | e d1 u where "open_file n OpenCreateNew d = (Inr e, d1)" "r = Inr e" "sys d1 = (Inr u, d')"
      "fs_check (en_meta e) (pd_uid d') False = Ok ()"
  | e d1 d2 u x q where "open_file n OpenCreateNew d = (Inr e, d1)" "r = Inl x" "sys d1 = (Inr u, d2)"
      "fs_check (en_meta e) (pd_uid d2) False = Err x" "fs_remove n d2 = (q, d')"
proof (cases "open_file n OpenCreateNew d")
  case (Pair o1 d1)
  obtain v d2 where y: "sys d1 = (v, d2)" by fastforce
  show ?thesis
  proof (cases o1)
    case (Inl x)
    with assms Pair that(1) show ?thesis by (auto simp: fs_create_def st_bind_def)
  next
    case o1: (Inr e)
    show ?thesis
    proof (cases v)
      case (Inl x)
      with assms Pair y o1 that(2) show ?thesis by (auto simp: fs_create_def st_bind_def)
    next
      case (Inr u)
      with assms Pair y o1 that(3,4) show ?thesis
        by (cases "fs_check (en_meta e) (pd_uid d2) False"; cases "fs_remove n d2")
          (auto simp: fs_create_def st_bind_def st_try_def check_entry_def st_return_def
            st_lift_def)
    qed
  qed
qed

lemma fs_create_other:
  "fs_create n d = (r, d') \<Longrightarrow> m \<noteq> n \<Longrightarrow> dir_lookup d' m = dir_lookup d m"
  by (erule fs_create_steps) (metis open_file_other files.discard_other sys_lookup)+

lemma open_create_Ok:
  assumes "open_file n OpenCreateNew d = (Inr e, d')"
  shows "dir_lookup d n = None \<and> dir_lookup d' n = Some e \<and> e = new_entry d \<and> pd_uid d' = pd_uid d"
  using assms
proof (rule open_file_cases)
  fix d1 assume d1: "dir_lookup d1 = dir_lookup d" "pd_created d1 = pd_created d" "pd_uid d1 = pd_uid d"
    and o1: "openat n OpenCreateNew d1 = (Inr e, d')"
  have "pd_uid d' = pd_uid d1" using o1 by (auto simp: openat_def split: option.splits)
  with openat_lookup(3,4) [OF o1] d1 show ?thesis by (simp add: new_entry_def)
qed simp

lemma fs_create_Ok:
  assumes "fs_create n d = (Inr e, d')"
  shows "dir_lookup d n = None \<and> dir_lookup d' n = Some e \<and> en_data e = [] \<and>
    fs_check (en_meta e) (pd_uid d) False = Ok ()"
  using assms
proof (rule fs_create_steps)
  fix e' d1 u assume o1: "open_file n OpenCreateNew d = (Inr e', d1)" and e: "Inr e = Inr e'"
    and y: "sys d1 = (Inr u, d')" and c: "fs_check (en_meta e') (pd_uid d') False = Ok ()"
  from open_create_Ok [OF o1] sys_lookup [OF y] sys_fields [OF y] c e show ?thesis
    by (simp add: new_entry_def)
qed simp_all

lemma fs_append_other:
  "fs_append n d = (r, d') \<Longrightarrow> m \<noteq> n \<Longrightarrow> dir_lookup d' m = dir_lookup d m"
  by (auto simp: fs_append_def check_entry_def st_return_def elim!: st_bind_cases
      dest: open_file_other dest!: sys_lookup)

lemma fs_write_all_other:
  "fs_write_all n bs d = (r, d') \<Longrightarrow> m \<noteq> n \<Longrightarrow> dir_lookup d' m = dir_lookup d m"
  by (auto simp: fs_write_all_def split: option.splits prod.splits
      dest!: sys_lookup syscall_lookup)

lemma fs_sync_file_other:
  "fs_sync_file n d = (r, d') \<Longrightarrow> m \<noteq> n \<Longrightarrow> dir_lookup d' m = dir_lookup d m"
  by (auto simp: fs_sync_file_def elim!: st_bind_cases dest!: sys_lookup split: option.splits)

lemma fs_sync_unchanged: "fs_sync d = (r, d') \<Longrightarrow> dir_lookup d' = dir_lookup d"
  by (simp add: fs_sync_def sys_lookup)

lemmas fs_other = fs_create_other fs_append_other fs_write_all_other fs_sync_file_other
  files.move_other files.discard_other

section \<open>Missing ancestors\<close>

text \<open>
  A path is its list of components, the last one first; \<open>[]\<close> is the root. \<open>tr_race\<close> says
  what another process puts at a path between the look at it and the attempt to create it.
\<close>

type_synonym path = "rstr list"

record tree =
  tr_nodes :: "(path \<times> meta) list"
  tr_race :: "path \<Rightarrow> meta option"
  tr_uid :: nat
  tr_made :: meta
  tr_faults :: "io_kind option list"

definition tree_sys :: "(tree, io_kind, unit) st" where
  "tree_sys t = (case tr_faults t of
      [] \<Rightarrow> (Ok (), t)
    | None # fs \<Rightarrow> (Ok (), t\<lparr>tr_faults := fs\<rparr>)
    | Some k # fs \<Rightarrow> (Err k, t\<lparr>tr_faults := fs\<rparr>))"

definition tree_stat :: "path \<Rightarrow> (tree, io_kind, meta) st" where
  "tree_stat p = st_bind tree_sys (\<lambda>_ t. (ok_or IoNotFound (map_of (tr_nodes t) p), t))"

definition tree_mkdir :: "path \<Rightarrow> (tree, io_kind, unit) st" where
  "tree_mkdir p = st_bind tree_sys (\<lambda>_ t.
     (case map_of (tr_nodes t) p of
        Some _ \<Rightarrow> (Err IoAlreadyExists, t)
      | None \<Rightarrow> (case tr_race t p of
          Some m \<Rightarrow> (Err IoAlreadyExists, t\<lparr>tr_nodes := AList.update p m (tr_nodes t)\<rparr>)
        | None \<Rightarrow> (Ok (), t\<lparr>tr_nodes := AList.update p (tr_made t) (tr_nodes t)\<rparr>))))"

definition validate_directory :: "path \<Rightarrow> nat \<Rightarrow> (tree, io_kind, unit) st" where
  "validate_directory p uid = st_bind (tree_stat p) (\<lambda>m. st_lift (fs_check m uid True))"

text \<open>The root is its own end: it has no parent to create.\<close>

fun create_directories :: "path \<Rightarrow> (tree, io_kind, unit) st" where
  "create_directories p =
     st_try (tree_stat p) (\<lambda>r. case r of
         Inr m \<Rightarrow> st_lift (if mt_kind m = Directory then Ok () else Err IoPermissionDenied)
       | Inl k \<Rightarrow>
           if k \<noteq> IoNotFound then st_lift (Err k)
           else st_bind (case p of [] \<Rightarrow> st_return () | _ # parent \<Rightarrow> create_directories parent) (\<lambda>_.
             st_try (tree_mkdir p) (\<lambda>made. case made of
                 Inr _ \<Rightarrow> (case p of [] \<Rightarrow> st_return () | _ \<Rightarrow> st_bind tree_sys (\<lambda>_. tree_sys))
               | Inl e \<Rightarrow> if e = IoAlreadyExists
                   then st_bind (\<lambda>t. (Ok (tr_uid t), t)) (validate_directory p)
                   else st_lift (Err e))))"

declare create_directories.simps [simp del]

text \<open>\<open>PrivateDirectory::open\<close>; \<open>O_DIRECTORY | O_NOFOLLOW\<close> refuses anything but a directory.\<close>

definition private_open :: "bool \<Rightarrow> path \<Rightarrow> (tree, io_kind, meta) st" where
  "private_open absolute p =
     (if \<not> absolute then st_lift (Err IoInvalidInput)
      else st_bind (create_directories p) (\<lambda>_.
           st_bind (tree_stat p) (\<lambda>m.
           if mt_kind m \<noteq> Directory then st_lift (Err IoOther)
           else st_bind (\<lambda>t. (fs_check m (tr_uid t) True, t)) (\<lambda>_. st_return m))))"

text \<open>
  No step of the creation changes a node that was there, and what is new was made here or
  by the other process.
\<close>

definition tree_keeps :: "tree \<Rightarrow> tree \<Rightarrow> bool" where
  "tree_keeps t t' \<longleftrightarrow> map_of (tr_nodes t) \<subseteq>\<^sub>m map_of (tr_nodes t') \<and> tr_uid t' = tr_uid t \<and>
     tr_made t' = tr_made t \<and> tr_race t' = tr_race t \<and>
     (\<forall>q m. map_of (tr_nodes t') q = Some m \<longrightarrow>
        map_of (tr_nodes t) q = Some m \<or> m = tr_made t \<or> tr_race t q = Some m)"

lemma tree_keeps_refl [simp]: "tree_keeps t t"
  by (simp add: tree_keeps_def)

lemma tree_keeps_trans: "tree_keeps t u \<Longrightarrow> tree_keeps u v \<Longrightarrow> tree_keeps t v"
  unfolding tree_keeps_def by (metis map_le_trans)

lemma tree_sys_keeps: "tree_sys t = (r, t') \<Longrightarrow> tree_keeps t t'"
  by (auto simp: tree_sys_def tree_keeps_def split: list.splits option.splits)

lemma tree_stat_keeps: "tree_stat p t = (r, t') \<Longrightarrow> tree_keeps t t'"
  by (auto simp: tree_stat_def elim!: st_bind_cases dest: tree_sys_keeps)

lemma tree_stat_Ok: "tree_stat p t = (Inr m, t') \<Longrightarrow> map_of (tr_nodes t') p = Some m"
  by (auto simp: tree_stat_def elim!: st_bind_cases)

lemma tree_mkdir_keeps: "tree_mkdir p t = (r, t') \<Longrightarrow> tree_keeps t t'"
proof (unfold tree_mkdir_def, erule st_bind_cases)
  fix x u assume u: "tree_sys t = (Inr x, u)"
    and "(case map_of (tr_nodes u) p of
        None \<Rightarrow> (case tr_race u p of
            None \<Rightarrow> (Ok (), u\<lparr>tr_nodes := AList.update p (tr_made u) (tr_nodes u)\<rparr>)
          | Some m \<Rightarrow> (Err IoAlreadyExists, u\<lparr>tr_nodes := AList.update p m (tr_nodes u)\<rparr>))
      | Some _ \<Rightarrow> (Err IoAlreadyExists, u)) = (r, t')"
  then have "tree_keeps u t'"
    by (auto simp: tree_keeps_def map_le_def update_conv' split: option.splits if_splits)
  with tree_sys_keeps [OF u] show ?thesis by (rule tree_keeps_trans)
qed (auto dest: tree_sys_keeps)

lemma tree_sys2_keeps: "st_bind tree_sys (\<lambda>_. tree_sys) t = (r, t') \<Longrightarrow> tree_keeps t t'"
  by (erule st_bind_cases) (auto dest: tree_sys_keeps intro: tree_keeps_trans)

lemma validate_directory_keeps: "validate_directory p uid t = (r, t') \<Longrightarrow> tree_keeps t t'"
  by (auto simp: validate_directory_def st_lift_def elim!: st_bind_cases dest: tree_stat_keeps)

lemma create_directories_keeps: "create_directories p t = (r, t') \<Longrightarrow> tree_keeps t t'"
proof (induction p arbitrary: t r t')
  case Nil
  obtain v t1 where stat: "tree_stat [] t = (v, t1)" by fastforce
  obtain w t2 where mk: "tree_mkdir [] t1 = (w, t2)" by fastforce
  from Nil stat mk have "tree_keeps t1 t'"
    by (auto simp: create_directories.simps st_defs validate_directory_keeps
        split: sum.splits if_splits intro: tree_mkdir_keeps
        elim!: tree_keeps_trans [OF tree_mkdir_keeps [OF mk]] dest!: validate_directory_keeps)
  with tree_stat_keeps [OF stat] show ?case by (rule tree_keeps_trans)
next
  case (Cons c p)
  obtain v t1 where stat: "tree_stat (c # p) t = (v, t1)" by fastforce
  obtain u t2 where up: "create_directories p t1 = (u, t2)" by fastforce
  obtain w t3 where mk: "tree_mkdir (c # p) t2 = (w, t3)" by fastforce
  show ?case
  proof (cases "\<exists>k. v = Inl k \<and> k = IoNotFound \<and> is_ok u")
    case False
    then have "t' = t1 \<or> t' = t2" using Cons.prems stat up
      by (auto simp: create_directories.simps [of "c # p"] st_defs is_ok_iff
          split: sum.splits if_splits)
    then show ?thesis
      using tree_stat_keeps [OF stat] Cons.IH [OF up] tree_keeps_trans by blast
  next
    case True
    then obtain x where x: "v = Inl IoNotFound" "u = Inr x" by (auto simp: is_ok_iff)
    have k3: "tree_keeps t t3"
      using tree_stat_keeps [OF stat] Cons.IH [OF up] tree_mkdir_keeps [OF mk] tree_keeps_trans
      by blast
    have "tree_keeps t3 t'"
    proof (cases w)
      case (Inr y)
      then have "st_bind tree_sys (\<lambda>_. tree_sys) t3 = (r, t')" using Cons.prems stat up mk x
        by (simp add: create_directories.simps [of "c # p"] st_try_def st_bind_def [of "create_directories p"])
      then show ?thesis by (rule tree_sys2_keeps)
    next
      case (Inl e)
      show ?thesis
      proof (cases "e = IoAlreadyExists")
        case True
        then have "validate_directory (c # p) (tr_uid t3) t3 = (r, t')" using Cons.prems stat up mk x Inl
          by (simp add: create_directories.simps [of "c # p"] st_try_def st_bind_def)
        then show ?thesis by (rule validate_directory_keeps)
      next
        case False
        then have "t' = t3" using Cons.prems stat up mk x Inl
          by (simp add: create_directories.simps [of "c # p"] st_try_def st_bind_def st_lift_def)
        then show ?thesis by simp
      qed
    qed
    with k3 show ?thesis by (rule tree_keeps_trans)
  qed
qed

section \<open>Properties\<close>

definition private_file :: "nat \<Rightarrow> meta \<Rightarrow> bool" where
  "private_file uid m \<longleftrightarrow> mt_kind m = Regular \<and> mt_uid m = uid \<and>
     permission_bits (mt_mode m) = 384 \<and> mt_nlink m = 1"

definition private_directory :: "nat \<Rightarrow> meta \<Rightarrow> bool" where
  "private_directory uid m \<longleftrightarrow> mt_kind m = Directory \<and> mt_uid m = uid \<and>
     permission_bits (mt_mode m) = 448"

lemma open_file_private:
  "open_file n mode d = (Inr e, d') \<Longrightarrow>
   private_directory (pd_uid d) (pd_meta d) \<and> file_component n = Ok () \<and> pd_uid d' = pd_uid d"
  by (erule open_file_cases)
    (auto simp: fs_check_Ok private_directory_def openat_def
      split: option.splits open_mode.splits if_splits)

text \<open>C35: whatever the program reads, creates or appends to in one of its directories is a
  regular file of the current user with mode 0600 and a single link, named by one path
  component, in a directory of that user with mode 0700; anything else is an error.\<close>

theorem opened_files_are_private:
  assumes "operation \<in> {fs_read n, fs_create n, fs_append n}"
    and "operation d = (Ok e, d')"
  shows "private_file (pd_uid d) (en_meta e) \<and> private_directory (pd_uid d) (pd_meta d) \<and>
    n \<notin> {[], lit ''.'', lit ''..''} \<and> 47 \<notin> set n \<and> 0 \<notin> set n"
proof -
  obtain mode d1 where o1: "open_file n mode d = (Ok e, d1)"
    and c: "fs_check (en_meta e) (pd_uid d1) False = Ok ()"
    using assms
    by (auto simp: fs_read_def fs_append_def check_entry_def st_return_def
        elim!: st_bind_cases fs_create_steps dest!: sys_fields)
  from open_file_private [OF o1] c show ?thesis
    by (auto simp: private_file_def fs_check_Ok file_component_def split: if_splits)
qed

definition private_meta :: "file_kind \<Rightarrow> meta" where
  "private_meta k = \<lparr>mt_kind = k, mt_uid = 1000,
     mt_mode = (if k = Directory then 448 else 384), mt_nlink = 1\<rparr>"

definition sample_dir :: "(rstr \<times> entry) list \<Rightarrow> pdir" where
  "sample_dir es = \<lparr>pd_meta = private_meta Directory, pd_uid = 1000, pd_entries = es,
     pd_created = private_meta Regular, pd_faults = []\<rparr>"

theorem opened_files_are_private_witness:
  "private_file (pd_uid (sample_dir [])) (en_meta (new_entry (sample_dir []))) \<and>
   private_directory (pd_uid (sample_dir [])) (pd_meta (sample_dir [])) \<and>
   lit ''config.toml'' \<notin> {[], lit ''.'', lit ''..''} \<and> 47 \<notin> set (lit ''config.toml'') \<and>
   0 \<notin> set (lit ''config.toml'')"
  by (rule opened_files_are_private [of "fs_create (lit ''config.toml'')" _ _ _
        "dir_put (lit ''config.toml'') (new_entry (sample_dir [])) (sample_dir [])"])
    (simp, code_simp)

text \<open>Opening an application directory never changes a directory that existed, adds only
  directories it made itself (or that another process made first), and succeeds only for
  an absolute path that then is a directory of the current user with mode 0700.\<close>

theorem private_open_is_safe:
  assumes "private_open absolute p t = (res, t')"
  shows "tree_keeps t t' \<and>
    (case res of Inl _ \<Rightarrow> True
     | Inr m \<Rightarrow> absolute \<and> map_of (tr_nodes t') p = Some m \<and> private_directory (tr_uid t) m)"
proof (cases absolute)
  case False
  with assms show ?thesis by (auto simp: private_open_def st_lift_def)
next
  case True
  obtain u t1 where c: "create_directories p t = (u, t1)" by fastforce
  obtain v t2 where st: "tree_stat p t1 = (v, t2)" by fastforce
  note k = create_directories_keeps [OF c] tree_stat_keeps [OF st]
  then have k2: "tree_keeps t t2" by (rule tree_keeps_trans)
  then have uid: "tr_uid t2 = tr_uid t" by (simp add: tree_keeps_def)
  show ?thesis
  proof (cases u; cases v)
    fix x m assume u: "u = Inr x" and v: "v = Inr m"
    have "map_of (tr_nodes t2) p = Some m" using tree_stat_Ok st v by simp
    with assms True c st u v k2 uid show ?thesis
      by (auto simp: private_open_def st_defs private_directory_def fs_check_Ok fs_check_def
          split: if_splits sum.splits)
  qed (use assms True c st k k2 in \<open>auto simp: private_open_def st_bind_def\<close>)
qed

definition sample_tree :: tree where
  "sample_tree = \<lparr>tr_nodes = [([], \<lparr>mt_kind = Directory, mt_uid = 0, mt_mode = 493, mt_nlink = 2\<rparr>)],
     tr_race = (\<lambda>_. None), tr_uid = 1000, tr_made = private_meta Directory, tr_faults = []\<rparr>"

theorem private_open_is_safe_witness:
  "tree_keeps sample_tree (snd (private_open True [lit ''td'', lit ''run''] sample_tree)) \<and>
   (case Ok (private_meta Directory) of Inl (_ :: io_kind) \<Rightarrow> True
    | Inr m \<Rightarrow> True \<and> map_of (tr_nodes (snd (private_open True [lit ''td'', lit ''run''] sample_tree)))
          [lit ''td'', lit ''run''] = Some m \<and> private_directory (tr_uid sample_tree) m)"
proof (rule private_open_is_safe)
  have "fst (private_open True [lit ''td'', lit ''run''] sample_tree) = Ok (private_meta Directory)"
    by code_simp
  then show "private_open True [lit ''td'', lit ''run''] sample_tree =
      (Ok (private_meta Directory), snd (private_open True [lit ''td'', lit ''run''] sample_tree))"
    by (metis prod.collapse)
qed

end
