(* ===== verification/Config_Store.thy ===== *)
theory Config_Store
  imports Private_Fs
begin

text \<open>
  The configuration store, \<open>src/src/config/store.rs\<close>: reading, saving by exclusive
  temporary file, sync and rename, and the migration of version 1 with its backup. The
  \<open>toml\<close> crate's printer and parsers are a parameter; fresh uuids and their text are
  arguments. The interface \<open>persistence\<close> is what the daemon relies on.
\<close>

section \<open>The TOML codec\<close>

record toml =
  print_v2 :: "config_v2 \<Rightarrow> rstr option"
  parse_header :: "rstr \<Rightarrow> nat option"
  parse_v1 :: "rstr \<Rightarrow> config_v1 option"
  parse_v2 :: "rstr \<Rightarrow> config_v2 option"

text \<open>What the store relies on: a printed version 2 document reads back as itself.\<close>

definition toml_round_trip :: "toml \<Rightarrow> bool" where
  "toml_round_trip t \<longleftrightarrow> (\<forall>c s. print_v2 t c = Some s \<longrightarrow> v2_schema_version c = schema_version \<longrightarrow>
     valid_str s \<and> parse_header t s = Some schema_version \<and> parse_v2 t s = Some c)"

section \<open>Loading\<close>

type_synonym 'a store_op = "(pdir, store_error, 'a) st"

definition config_name :: rstr where "config_name = lit ''config.toml''"

abbreviation io :: "'a dir_op \<Rightarrow> 'a store_op" where
  "io m \<equiv> st_map_err StoreIo m"

definition read_to_string :: "entry \<Rightarrow> rstr store_op" where
  "read_to_string e =
     st_bind (io sys) (\<lambda>_. st_lift (ok_or (StoreIo IoOther) (utf8_decode (en_data e))))"

definition read_original :: "rstr option store_op" where
  "read_original = st_try (fs_read config_name) (\<lambda>r. case r of
       Inl e \<Rightarrow> st_lift (if e = IoNotFound then Ok None else Err (StoreIo e))
     | Inr file \<Rightarrow> st_bind (read_to_string file) (\<lambda>text. st_return (Some text)))"

definition schema :: "toml \<Rightarrow> rstr \<Rightarrow> store_error + nat" where
  "schema t text = ok_or StoreDecode (parse_header t text)"

definition decode :: "toml \<Rightarrow> rstr \<Rightarrow> store_error + rule list \<times> settings" where
  "decode t text =
     and_then (schema t text) (\<lambda>version.
       if version \<noteq> schema_version then Err (UnsupportedSchema version)
       else and_then (ok_or StoreDecode (parse_v2 t text)) v2_into_domain)"

definition load_config :: "toml \<Rightarrow> (rule list \<times> settings) option store_op" where
  "load_config t = st_bind read_original (\<lambda>text. case text of
       None \<Rightarrow> st_return None
     | Some s \<Rightarrow> st_lift (map_ok Some (decode t s)))"

definition load_rules :: "toml \<Rightarrow> rule list option store_op" where
  "load_rules t = st_bind (load_config t) (\<lambda>c. st_return (map_option fst c))"

section \<open>Replacing the configuration\<close>

datatype stage = Created | Written | Synced | Renamed

text \<open>
  A temporary file is removed when it goes out of scope unless it was kept: everything up
  to the rename runs with the removal pending, what follows without.
\<close>

definition replace_prepare :: "(stage \<Rightarrow> io_kind + unit) \<Rightarrow> rstr \<Rightarrow> bytes \<Rightarrow> unit store_op" where
  "replace_prepare checkpoint name bs =
     st_bind (io (st_lift (checkpoint Created))) (\<lambda>_.
     st_bind (io (fs_write_all name bs)) (\<lambda>_.
     st_bind (io (st_lift (checkpoint Written))) (\<lambda>_.
     st_bind (io (fs_sync_file name)) (\<lambda>_.
     st_bind (io (st_lift (checkpoint Synced))) (\<lambda>_.
     st_bind (st_try (fs_read config_name) (\<lambda>r. case r of
         Inr _ \<Rightarrow> st_return ()
       | Inl e \<Rightarrow> st_lift (if e = IoNotFound then Ok () else Err (StoreIo e)))) (\<lambda>_.
     io (fs_rename name config_name)))))))"

definition drop_temporary :: "rstr \<Rightarrow> store_error + 'a \<Rightarrow> 'a store_op" where
  "drop_temporary name r = st_try (fs_remove name) (\<lambda>_. st_lift r)"

definition replace_file :: "(stage \<Rightarrow> io_kind + unit) \<Rightarrow> rstr \<Rightarrow> bytes \<Rightarrow> unit store_op" where
  "replace_file checkpoint name bs =
     st_bind (io (fs_create name)) (\<lambda>_.
     st_try (replace_prepare checkpoint name bs) (\<lambda>r. case r of
         Inl e \<Rightarrow> drop_temporary name (Err e)
       | Inr _ \<Rightarrow> st_map_err DurabilityUncertain
           (st_bind (st_lift (checkpoint Renamed)) (\<lambda>_. fs_sync))))"

definition no_checkpoint :: "stage \<Rightarrow> io_kind + unit" where
  "no_checkpoint s = Ok ()"

definition temporary_name :: "(uuid \<Rightarrow> rstr) \<Rightarrow> uuid \<Rightarrow> rstr" where
  "temporary_name show_uuid u = lit ''.config.'' @ show_uuid u @ lit ''.tmp''"

definition backup_name :: "(uuid \<Rightarrow> rstr) \<Rightarrow> nat \<Rightarrow> uuid \<Rightarrow> rstr" where
  "backup_name show_uuid version u =
     lit ''config.toml.v'' @ show_nat version @ lit ''.'' @ show_uuid u @ lit ''.bak''"

definition render_config :: "toml \<Rightarrow> rule list \<Rightarrow> settings \<Rightarrow> store_error + rstr" where
  "render_config t rules s =
     and_then (v2_from_domain rules s) (\<lambda>c. ok_or StoreEncode (print_v2 t c))"

definition save_config ::
  "toml \<Rightarrow> (uuid \<Rightarrow> rstr) \<Rightarrow> uuid \<Rightarrow> rule list \<Rightarrow> settings \<Rightarrow> unit store_op" where
  "save_config t show_uuid new rules s =
     st_bind (st_lift (render_config t rules s)) (\<lambda>text.
     st_bind (load_config t) (\<lambda>_.
       replace_file no_checkpoint (temporary_name show_uuid new) (utf8_encode text)))"

definition save_rules :: "toml \<Rightarrow> (uuid \<Rightarrow> rstr) \<Rightarrow> uuid \<Rightarrow> rule list \<Rightarrow> unit store_op" where
  "save_rules t show_uuid new rules =
     st_bind (load_config t) (\<lambda>c.
       save_config t show_uuid new rules (case c of None \<Rightarrow> default_settings | Some (_, s) \<Rightarrow> s))"

definition discard_abandoned_save :: "(uuid \<Rightarrow> rstr) \<Rightarrow> uuid \<Rightarrow> unit store_op" where
  "discard_abandoned_save show_uuid u =
     io (st_bind (fs_read (temporary_name show_uuid u)) (\<lambda>_.
         st_bind (fs_remove (temporary_name show_uuid u)) (\<lambda>_. fs_sync)))"

section \<open>Migration\<close>

record migration =
  mg_source_version :: nat
  mg_migrate :: "rstr \<Rightarrow> store_error + config_v2"

definition v1_migration :: "toml \<Rightarrow> migration" where
  "v1_migration t = \<lparr>mg_source_version = 1, mg_migrate = (\<lambda>original.
     and_then (ok_or StoreDecode (parse_v1 t original)) (\<lambda>legacy.
     and_then (v1_into_domain legacy) (\<lambda>rules. v2_from_domain rules default_settings)))\<rparr>"

definition write_backup :: "rstr \<Rightarrow> bytes \<Rightarrow> unit store_op" where
  "write_backup name bs =
     st_bind (io (fs_create name)) (\<lambda>_.
     st_try (io (st_bind (fs_write_all name bs) (\<lambda>_.
         st_bind (fs_sync_file name) (\<lambda>_. fs_sync)))) (\<lambda>r. case r of
       Inl e \<Rightarrow> drop_temporary name (Err e)
     | Inr _ \<Rightarrow> st_return ()))"

definition migrate_text ::
  "toml \<Rightarrow> migration \<Rightarrow> rstr \<Rightarrow> store_error + (rule list \<times> settings) \<times> rstr" where
  "migrate_text t m original =
     and_then (mg_migrate m original) (\<lambda>c.
     and_then (v2_into_domain c) (\<lambda>(rules, s).
     and_then (render_config t rules s) (\<lambda>text. Ok ((rules, s), text))))"

definition load_with_migration ::
  "toml \<Rightarrow> (uuid \<Rightarrow> rstr) \<Rightarrow> uuid \<Rightarrow> uuid \<Rightarrow> migration \<Rightarrow> (rule list \<times> settings) option store_op" where
  "load_with_migration t show_uuid backup_id save_id m =
     st_bind read_original (\<lambda>found. case found of
       None \<Rightarrow> st_return None
     | Some original \<Rightarrow>
         st_bind (st_lift (schema t original)) (\<lambda>version.
         if version = schema_version then st_lift (map_ok Some (decode t original))
         else if schema_version \<le> version \<or> version \<noteq> mg_source_version m
         then st_lift (Err (UnsupportedSchema version))
         else
           st_bind (write_backup (backup_name show_uuid version backup_id) (utf8_encode original)) (\<lambda>_.
           st_bind (st_lift (migrate_text t m original)) (\<lambda>(config, text).
           st_bind (replace_file no_checkpoint (temporary_name show_uuid save_id) (utf8_encode text)) (\<lambda>_.
             st_return (Some config))))))"

definition load_or_migrate_v1 ::
  "toml \<Rightarrow> (uuid \<Rightarrow> rstr) \<Rightarrow> uuid \<Rightarrow> uuid \<Rightarrow> (rule list \<times> settings) option store_op" where
  "load_or_migrate_v1 t show_uuid backup_id save_id =
     load_with_migration t show_uuid backup_id save_id (v1_migration t)"

section \<open>Effects on the directory\<close>

lemma st_map_err_eq: "st_map_err h m s = (r, s') \<longleftrightarrow> (\<exists>q. m s = (q, s') \<and> r = map_err h q)"
  by (auto simp: st_map_err_def Let_def split: prod.split)

lemma st_map_err_Ok [simp]: "st_map_err h m s = (Inr x, s') \<longleftrightarrow> m s = (Inr x, s')"
  by (cases "fst (m s)") (auto simp: st_map_err_def Let_def split: prod.split)

lemma st_map_err_Err [simp]:
  "st_map_err h m s = (Inl e, s') \<longleftrightarrow> (\<exists>x. m s = (Inl x, s') \<and> e = h x)"
  by (cases "fst (m s)") (auto simp: st_map_err_def Let_def split: prod.split)

lemma st_lift_eq [simp]: "st_lift r s = (q, s') \<longleftrightarrow> r = q \<and> s' = s"
  by (auto simp: st_lift_def)

lemma st_bind_lift: "st_bind (st_lift (Inr x)) f s = f x s"
  by (simp add: st_bind_def st_lift_def)

lemma st_return_eq [simp]: "st_return x s = (q, s') \<longleftrightarrow> q = Inr x \<and> s' = s"
  by (auto simp: st_return_def)

lemma fs_write_all_Ok:
  "fs_write_all n bs d = (Inr u, d') \<Longrightarrow> dir_lookup d n = Some e \<Longrightarrow>
   dir_lookup d' n = Some (e\<lparr>en_data := en_data e @ bs, en_synced := False\<rparr>)"
  by (auto simp: fs_write_all_def split: prod.splits option.splits)

lemma fs_sync_file_Ok:
  "fs_sync_file n d = (Inr u, d') \<Longrightarrow> dir_lookup d n = Some e \<Longrightarrow>
   dir_lookup d' n = Some (e\<lparr>en_synced := True\<rparr>)"
  by (auto simp: fs_sync_file_def dest!: sys_lookup elim!: st_bind_cases)

definition check_destination :: "unit store_op" where
  "check_destination = st_try (fs_read config_name) (\<lambda>r. case r of
       Inr _ \<Rightarrow> st_return ()
     | Inl e \<Rightarrow> st_lift (if e = IoNotFound then Ok () else Err (StoreIo e)))"

lemma check_destination_Err: "check_destination d = (Inl x, d') \<Longrightarrow> \<exists>k. x = StoreIo k"
  by (auto simp: check_destination_def st_try_def Let_def split: prod.splits sum.splits if_splits)

lemma check_destination_unchanged:
  "check_destination d = (r, d') \<Longrightarrow> dir_lookup d' = dir_lookup d"
  by (auto simp: check_destination_def st_try_def Let_def split: prod.splits sum.splits
      dest: fs_read_unchanged)

lemma replace_prepare_alt:
  "replace_prepare checkpoint name bs =
     st_bind (io (st_lift (checkpoint Created))) (\<lambda>_.
     st_bind (io (fs_write_all name bs)) (\<lambda>_.
     st_bind (io (st_lift (checkpoint Written))) (\<lambda>_.
     st_bind (io (fs_sync_file name)) (\<lambda>_.
     st_bind (io (st_lift (checkpoint Synced))) (\<lambda>_.
     st_bind check_destination (\<lambda>_.
     io (fs_rename name config_name)))))))"
  unfolding replace_prepare_def check_destination_def by (rule refl)

text \<open>The steps before the rename, and where they stop.\<close>

lemma replace_prepare_cases:
  assumes "replace_prepare cp n bs d = (r, d')"
  obtains x where "r = Inl (StoreIo x)" "\<And>m. m \<noteq> n \<Longrightarrow> dir_lookup d' m = dir_lookup d m"
  | d1 where "\<And>m. m \<noteq> n \<Longrightarrow> dir_lookup d1 m = dir_lookup d m" "r = Inr ()"
      "\<And>e. dir_lookup d n = Some e \<Longrightarrow>
         dir_lookup d1 n = Some (e\<lparr>en_data := en_data e @ bs, en_synced := True\<rparr>)"
      "fs_rename n config_name d1 = (Inr (), d')"
  using assms unfolding replace_prepare_alt
proof (elim st_bind_cases, goal_cases)
  case (7 u1 s1 u2 s2 u3 s3 u4 s4 u5 s5 u6 s6)
  then have w: "fs_write_all n bs d = (Inr u2, s2)" and y: "fs_sync_file n s2 = (Inr u4, s4)"
    and c: "dir_lookup s6 = dir_lookup s4" and q: "io (fs_rename n config_name) s6 = (r, d')"
    by (auto dest!: check_destination_unchanged)
  have same: "dir_lookup s6 m = dir_lookup d m" if "m \<noteq> n" for m
    using that c fs_write_all_other [OF w] fs_sync_file_other [OF y] by simp
  have new: "dir_lookup s6 n = Some (e\<lparr>en_data := en_data e @ bs, en_synced := True\<rparr>)"
    if "dir_lookup d n = Some e" for e
    using fs_sync_file_Ok [OF y fs_write_all_Ok [OF w that]] c by simp
  show ?case
  proof (cases r)
    case (Inl x)
    with q same 7(1) show ?thesis by (auto dest: fs_rename_Err)
  next
    case (Inr u)
    with q 7(2) [OF same _ new] show ?thesis by simp
  qed
next
  case prems: 6
  then obtain s2 s4 x where w: "fs_write_all n bs d = (Inr (), s2)"
    and y: "fs_sync_file n s2 = (Inr (), s4)"
    and c: "check_destination s4 = (Inl x, d')" and r: "r = Inl x" by auto
  from check_destination_Err [OF c] check_destination_unchanged [OF c] fs_write_all_other [OF w]
    fs_sync_file_other [OF y] prems(1) r
  show ?case by auto
qed (auto, (metis fs_write_all_other fs_sync_file_other)+)

text \<open>
  The replacement either leaves every name but its temporary as it was, or has put a
  synced file with the new bytes in place of the configuration.
\<close>

lemma replace_file_cases:
  assumes "replace_file cp n bs d = (r, d')" and "n \<noteq> config_name"
  obtains x where "r = Inl x" "\<And>k. x \<noteq> DurabilityUncertain k"
      "\<And>m. m \<noteq> n \<Longrightarrow> dir_lookup d' m = dir_lookup d m"
  | e where "r = Inr () \<or> (\<exists>k. r = Inl (DurabilityUncertain k))"
      "dir_lookup d' config_name = Some e" "en_data e = bs" "en_synced e" "dir_lookup d' n = None"
      "\<And>m. m \<noteq> n \<Longrightarrow> m \<noteq> config_name \<Longrightarrow> dir_lookup d' m = dir_lookup d m"
proof (cases "fs_create n d")
  case (Pair o1 d1)
  show thesis
  proof (cases o1)
    case (Inl x)
    with assms Pair have "r = Inl (StoreIo x)" "d' = d1"
      by (simp_all add: replace_file_def st_bind_def st_map_err_def)
    with Pair that(1) fs_create_other show thesis by fastforce
  next
    case (Inr e)
    obtain q d2 where prep: "replace_prepare cp n bs d1 = (q, d2)" by fastforce
    have other1: "m \<noteq> n \<Longrightarrow> dir_lookup d1 m = dir_lookup d m" for m
      using fs_create_other [OF Pair] .
    have rest: "(case q of Inl e \<Rightarrow> drop_temporary n (Err e)
        | Inr _ \<Rightarrow> st_map_err DurabilityUncertain (st_bind (st_lift (cp Renamed)) (\<lambda>_. fs_sync))) d2 =
        (r, d')"
      using assms(1) Pair Inr prep by (simp add: replace_file_def st_bind_def st_map_err_def st_try_def)
    from prep show thesis
    proof (rule replace_prepare_cases)
      fix x assume q: "q = Inl (StoreIo x)" and o2: "\<And>m. m \<noteq> n \<Longrightarrow> dir_lookup d2 m = dir_lookup d1 m"
      obtain p d3 where rm: "fs_remove n d2 = (p, d3)" by fastforce
      with rest q have "r = Inl (StoreIo x)" "d' = d3"
        by (simp_all add: drop_temporary_def st_try_def st_lift_def)
      with other1 o2 files.discard_other [OF rm] show thesis
        by (intro that(1) [of "StoreIo x"]) simp_all
    next
      fix d3 assume o3: "\<And>m. m \<noteq> n \<Longrightarrow> dir_lookup d3 m = dir_lookup d1 m" and q: "q = Inr ()"
        and new: "\<And>e. dir_lookup d1 n = Some e \<Longrightarrow>
          dir_lookup d3 n = Some (e\<lparr>en_data := en_data e @ bs, en_synced := True\<rparr>)"
        and ren: "fs_rename n config_name d3 = (Inr (), d2)"
      have e: "dir_lookup d1 n = Some e" "en_data e = []" using fs_create_Ok Pair Inr by auto
      define e' where "e' = e\<lparr>en_data := bs, en_synced := True\<rparr>"
      from fs_rename_Ok [OF ren] new [OF e(1)] e(2)
      have l2: "dir_lookup d2 = ((dir_lookup d3)(n := None))(config_name := Some e')"
        by (simp add: e'_def)
      have "dir_lookup d' = dir_lookup d2 \<and> (r = Inr () \<or> (\<exists>k. r = Inl (DurabilityUncertain k)))"
        using rest q by (cases r) (auto elim!: st_bind_cases dest: fs_sync_unchanged)
      with l2 o3 other1 assms(2) show thesis by (intro that(2) [of e']) (auto simp: e'_def)
    qed
  qed
qed

lemma write_backup_cases:
  assumes "write_backup n bs d = (r, d')"
  obtains x where "r = Inl x" "\<And>m. m \<noteq> n \<Longrightarrow> dir_lookup d' m = dir_lookup d m"
  | e where "r = Inr ()" "dir_lookup d' n = Some e" "en_data e = bs" "en_synced e"
      "\<And>m. m \<noteq> n \<Longrightarrow> dir_lookup d' m = dir_lookup d m"
proof (cases "fs_create n d")
  case (Pair o1 d1)
  show thesis
  proof (cases o1)
    case (Inl x)
    with assms Pair have "r = Inl (StoreIo x)" "d' = d1"
      by (simp_all add: write_backup_def st_bind_def st_map_err_def)
    with Pair that(1) fs_create_other show thesis by fastforce
  next
    case (Inr e)
    obtain q d2 where body:
      "st_bind (fs_write_all n bs) (\<lambda>_. st_bind (fs_sync_file n) (\<lambda>_. fs_sync)) d1 = (q, d2)"
      by fastforce
    have other1: "m \<noteq> n \<Longrightarrow> dir_lookup d1 m = dir_lookup d m" for m
      using fs_create_other [OF Pair] .
    have other2: "m \<noteq> n \<Longrightarrow> dir_lookup d2 m = dir_lookup d1 m" for m
      using body by (elim st_bind_cases)
        (metis fs_write_all_other fs_sync_file_other fs_sync_unchanged)+
    have rest: "(case map_err StoreIo q of Inl e \<Rightarrow> drop_temporary n (Err e) | Inr _ \<Rightarrow> st_return ()) d2 =
        (r, d')"
      using assms Pair Inr body
      by (cases q) (simp_all add: write_backup_def st_bind_def [of "io (fs_create n)"]
          st_map_err_def st_try_def)
    show thesis
    proof (cases q)
      case (Inl x)
      obtain p d3 where rm: "fs_remove n d2 = (p, d3)" by fastforce
      with rest Inl have "r = Inl (StoreIo x)" "d' = d3"
        by (simp_all add: drop_temporary_def st_try_def st_lift_def)
      with other1 other2 files.discard_other [OF rm] show thesis
        by (intro that(1) [of "StoreIo x"]) simp_all
    next
      case (Inr u)
      have e: "dir_lookup d1 n = Some e" "en_data e = []"
        using fs_create_Ok Pair \<open>o1 = Inr e\<close> by auto
      from body Inr obtain d3 d4 where w: "fs_write_all n bs d1 = (Inr (), d3)"
        and y: "fs_sync_file n d3 = (Inr (), d4)" and z: "fs_sync d4 = (Inr (), d2)"
        by (auto simp: st_bind_Inr)
      have "dir_lookup d2 n = Some (e\<lparr>en_data := bs, en_synced := True\<rparr>)"
        using fs_sync_file_Ok [OF y fs_write_all_Ok [OF w e(1)]] fs_sync_unchanged [OF z] e(2) by simp
      with rest Inr other1 other2 show thesis
        by (intro that(2) [of "e\<lparr>en_data := bs, en_synced := True\<rparr>"]) simp_all
    qed
  qed
qed

section \<open>What the daemon relies on\<close>

definition applied :: "store_error + unit \<Rightarrow> bool" where
  "applied r \<longleftrightarrow> (case r of Inr _ \<Rightarrow> True | Inl e \<Rightarrow> (case e of DurabilityUncertain _ \<Rightarrow> True | _ \<Rightarrow> False))"

lemma applied_simps [simp]:
  "applied (Inr u)" "applied (Inl (DurabilityUncertain k))"
  "(\<And>k. e \<noteq> DurabilityUncertain k) \<Longrightarrow> \<not> applied (Inl e)"
  by (auto simp: applied_def split: store_error.split)

locale persistence =
  fixes save :: "uuid \<Rightarrow> rule list \<Rightarrow> settings \<Rightarrow> 'd \<Rightarrow> (store_error + unit) \<times> 'd"
    and stored :: "'d \<Rightarrow> bytes option"
    and render :: "rule list \<Rightarrow> settings \<Rightarrow> bytes"
  assumes save_applied: "save u rules s d = (r, d') \<Longrightarrow> applied r \<Longrightarrow>
      stored d' = Some (render rules s) \<and> validate_rule_set rules = Ok ()"
    and save_refused: "save u rules s d = (r, d') \<Longrightarrow> \<not> applied r \<Longrightarrow> stored d' = stored d"
begin

text \<open>Memory follows the disk when it adopts exactly the saves that were applied.\<close>

lemma commit_follows:
  assumes "stored d = Some (render rules s)" and "save u rules' s' d = (r, d')"
  shows "stored d' = Some (if applied r then render rules' s' else render rules s)"
  using assms save_applied save_refused by (cases "applied r") auto

lemma commit_well_formed:
  assumes "save u rules s d = (r, d')" "applied r" "list_all valid_rule rules"
  shows "well_formed_rules rules"
  using assms save_applied by (simp add: well_formed_rules_def)

end

definition stored_bytes :: "pdir \<Rightarrow> bytes option" where
  "stored_bytes d = map_option en_data (dir_lookup d config_name)"

definition render_bytes :: "toml \<Rightarrow> rule list \<Rightarrow> settings \<Rightarrow> bytes" where
  "render_bytes t rules s =
     (case render_config t rules s of Inl _ \<Rightarrow> [] | Inr text \<Rightarrow> utf8_encode text)"

lemma temporary_not_config [simp]: "temporary_name show_uuid u \<noteq> config_name"
  by (simp add: temporary_name_def config_name_def lit_def)

lemma backup_not_config [simp]: "backup_name show_uuid v u \<noteq> config_name"
  by (simp add: backup_name_def config_name_def lit_def)

lemma temporary_not_backup [simp]: "temporary_name show_uuid u \<noteq> backup_name show_uuid' v w"
  "backup_name show_uuid' v w \<noteq> temporary_name show_uuid u"
  by (simp_all add: backup_name_def temporary_name_def lit_def)

lemma read_original_unchanged: "read_original d = (r, d') \<Longrightarrow> dir_lookup d' = dir_lookup d"
  by (auto simp: read_original_def st_try_def Let_def read_to_string_def elim!: st_bind_cases
      split: prod.splits sum.splits dest!: fs_read_unchanged sys_lookup)

lemma load_config_unchanged: "load_config t d = (r, d') \<Longrightarrow> dir_lookup d' = dir_lookup d"
  by (auto simp: load_config_def elim!: st_bind_cases split: option.splits
      dest: read_original_unchanged)

text \<open>Errors of loading and rendering are never the one that follows a replacement.\<close>

definition load_error :: "store_error \<Rightarrow> bool" where
  "load_error e \<longleftrightarrow> (\<forall>k. e \<noteq> DurabilityUncertain k)"

lemma wires_into_domain_error: "wires_into_domain ws = Err e \<Longrightarrow> load_error e"
  by (auto simp: wires_into_domain_def check_rules_def and_then_Inl load_error_def)

lemma v2_into_domain_error: "v2_into_domain c = Err e \<Longrightarrow> load_error e"
  by (auto simp: v2_into_domain_def load_error_def dest: wires_into_domain_error split: if_splits)

lemma decode_error: "decode t text = Err e \<Longrightarrow> load_error e"
  by (auto simp: decode_def schema_def and_then_Inl load_error_def dest: v2_into_domain_error
      split: if_splits)

lemma read_original_error: "read_original d = (Inl e, d') \<Longrightarrow> load_error e"
  by (auto simp: read_original_def st_try_def Let_def read_to_string_def load_error_def
      elim!: st_bind_cases split: prod.splits sum.splits if_splits)

lemma load_config_error: "load_config t d = (Inl e, d') \<Longrightarrow> load_error e"
  by (auto simp: load_config_def elim!: st_bind_cases split: option.splits
      dest: read_original_error decode_error)

lemma render_config_error: "render_config t rules s = Err e \<Longrightarrow> load_error e"
  by (auto simp: render_config_def v2_from_domain_def check_rules_def and_then_Inl load_error_def)

lemma render_config_valid: "render_config t rules s = Ok text \<Longrightarrow> validate_rule_set rules = Ok ()"
  by (auto simp: render_config_def v2_from_domain_Ok)

text \<open>A save that is not applied is one of the store's other errors and changes no file but
  possibly its own temporary one.\<close>

lemma save_config_cases:
  assumes "save_config t show_uuid u rules s d = (r, d')"
  obtains e where "r = Inl e" "load_error e"
      "\<And>m. m \<noteq> temporary_name show_uuid u \<Longrightarrow> dir_lookup d' m = dir_lookup d m"
  | text' e c d1 where "applied r" "render_config t rules s = Ok text'"
      "load_config t d = (Ok c, d1)"
      "dir_lookup d' config_name = Some e" "en_data e = utf8_encode text'" "en_synced e"
      "dir_lookup d' (temporary_name show_uuid u) = None"
      "\<And>m. m \<noteq> temporary_name show_uuid u \<Longrightarrow> m \<noteq> config_name \<Longrightarrow> dir_lookup d' m = dir_lookup d m"
  using assms unfolding save_config_def
proof (elim st_bind_cases, goal_cases)
  case (1 e)
  then show ?case by (auto dest: render_config_error)
next
  case prems: (2 text' d1 e)
  then have l: "load_config t d = (Inl e, d')" and r: "r = Inl e" by auto
  from load_config_error [OF l] load_config_unchanged [OF l] r show ?case
    by (intro prems(1)) simp_all
next
  case prems: (3 text' d1 c d2)
  from prems have same: "dir_lookup d2 = dir_lookup d" by (auto dest: load_config_unchanged)
  from prems(5) show ?case
  proof (rule replace_file_cases [OF _ temporary_not_config])
    fix x assume "r = Inl x" "\<And>k. x \<noteq> DurabilityUncertain k"
      "\<And>m. m \<noteq> temporary_name show_uuid u \<Longrightarrow> dir_lookup d' m = dir_lookup d2 m"
    with same show ?case by (intro prems(1) [of x]) (simp_all add: load_error_def)
  next
    fix e assume "r = Inr () \<or> (\<exists>k. r = Inl (DurabilityUncertain k))"
      and e: "dir_lookup d' config_name = Some e" "en_data e = utf8_encode text'" "en_synced e"
        "dir_lookup d' (temporary_name show_uuid u) = None"
        "\<And>m. m \<noteq> temporary_name show_uuid u \<Longrightarrow> m \<noteq> config_name \<Longrightarrow> dir_lookup d' m = dir_lookup d2 m"
    then have "applied r" by auto
    with e same prems(3,4) show ?case by (intro prems(2) [of text' c d2 e]) auto
  qed
qed

interpretation config: persistence "save_config t show_uuid" stored_bytes "render_bytes t"
  for t show_uuid
proof
  fix u rules s d r d'
  assume sv: "save_config t show_uuid u rules s d = (r, d')"
  show "applied r \<Longrightarrow> stored_bytes d' = Some (render_bytes t rules s) \<and> validate_rule_set rules = Ok ()"
    using sv by (rule save_config_cases)
      (auto simp: load_error_def stored_bytes_def render_bytes_def dest: render_config_valid)
  show "\<not> applied r \<Longrightarrow> stored_bytes d' = stored_bytes d"
    using sv by (rule save_config_cases)
      (simp_all add: stored_bytes_def temporary_not_config [symmetric, THEN not_sym] not_sym [OF temporary_not_config])
qed

section \<open>Properties\<close>

definition stored_config :: "toml \<Rightarrow> pdir \<Rightarrow> store_error + (rule list \<times> settings) option" where
  "stored_config t d =
     (case stored_bytes d of None \<Rightarrow> Ok None
      | Some bs \<Rightarrow> and_then (ok_or (StoreIo IoOther) (utf8_decode bs)) (\<lambda>text.
          map_ok Some (decode t text)))"

lemma fs_read_missing: "fs_read n d = (Inr e, d') \<Longrightarrow> dir_lookup d n = Some e"
  by (simp add: fs_read_Ok)

text \<open>A load that succeeds returned what the configuration file holds.\<close>

lemma load_config_stored:
  assumes "load_config t d = (Inr (Some c), d')"
  shows "stored_config t d = Ok (Some c)"
proof -
  from assms obtain d1 s where r: "read_original d = (Inr (Some s), d1)" and dec: "decode t s = Ok c"
    by (auto simp: load_config_def elim!: st_bind_cases split: option.splits)
  from r obtain e where "dir_lookup d config_name = Some e" "utf8_decode (en_data e) = Some s"
    by (auto simp: read_original_def st_try_def Let_def read_to_string_def elim!: st_bind_cases
        split: prod.splits sum.splits if_splits dest!: fs_read_missing)
  with dec show ?thesis by (simp add: stored_config_def stored_bytes_def)
qed

lemma rendered_decodes:
  assumes "toml_round_trip t" "list_all valid_rule rules" "render_config t rules s = Ok text'"
  shows "utf8_decode (utf8_encode text') = Some text' \<and> decode t text' = Ok (rules, s)"
proof -
  from assms(3) obtain c where c: "v2_from_domain rules s = Ok c" "print_v2 t c = Some text'"
    by (auto simp: render_config_def)
  then have "v2_schema_version c = schema_version" by (auto simp: v2_from_domain_Ok)
  with assms(1) c(2) have p: "valid_str text'" "parse_header t text' = Some schema_version"
    "parse_v2 t text' = Some c"
    by (auto simp: toml_round_trip_def)
  have "well_formed_rules rules"
    using assms(2,3) render_config_valid by (simp add: well_formed_rules_def)
  from v2_round_trip [OF this c(1)] p show ?thesis
    by (simp add: utf8_round_trip decode_def schema_def ok_or_def)
qed

text \<open>C8: saving is atomic. Whatever system call fails, config.toml is afterwards either the
  old file, untouched, or a file that was completely written and synced with the new
  configuration before it took the name; the latter exactly when the save reports success
  or a failed directory sync, and no other file but the save's own temporary changes.\<close>

theorem save_is_atomic:
  assumes "save_config t show_uuid u rules s d = (r, d')"
  shows "(if applied r
      then \<exists>e text'. dir_lookup d' config_name = Some e \<and> en_synced e \<and>
        render_config t rules s = Ok text' \<and> en_data e = utf8_encode text'
      else dir_lookup d' config_name = dir_lookup d config_name) \<and>
    (\<forall>m. m = config_name \<or> m = temporary_name show_uuid u \<or> dir_lookup d' m = dir_lookup d m)"
  using assms
proof (rule save_config_cases)
  fix e assume "r = Inl e" "load_error e"
    and "\<And>m. m \<noteq> temporary_name show_uuid u \<Longrightarrow> dir_lookup d' m = dir_lookup d m"
  moreover from this(1,2) have "\<not> applied r" by (simp add: load_error_def)
  ultimately show ?thesis using not_sym [OF temporary_not_config] by auto
next
  fix text' e c d1
  assume "applied r" "render_config t rules s = Ok text'" "dir_lookup d' config_name = Some e"
    "en_data e = utf8_encode text'" "en_synced e"
    "\<And>m. m \<noteq> temporary_name show_uuid u \<Longrightarrow> m \<noteq> config_name \<Longrightarrow> dir_lookup d' m = dir_lookup d m"
  then show ?thesis by auto
qed

text \<open>A codec that reads back its own output, for the witnesses: the printed text is the
  position of the document in a fixed list.\<close>

definition sample_rules :: "rule list" where
  "sample_rules = [listener_rule 1 (lit ''a'') (lit ''127.0.0.1'') 3000]"

definition sample_v2 :: config_v2 where
  "sample_v2 = \<lparr>v2_schema_version = schema_version, v2_rules = map wire_of_domain sample_rules,
     v2_settings = default_settings\<rparr>"

definition sample_toml :: toml where
  "sample_toml = \<lparr>print_v2 = (\<lambda>c. if c = sample_v2 then Some (lit ''v2'') else None),
     parse_header = (\<lambda>s. if s = lit ''v2'' then Some 2 else if s = lit ''v1'' then Some 1 else None),
     parse_v1 = (\<lambda>s. if s = lit ''v1''
       then Some \<lparr>v1_schema_version = 1, v1_rules = map wire_of_domain sample_rules\<rparr> else None),
     parse_v2 = (\<lambda>s. if s = lit ''v2'' then Some sample_v2 else None)\<rparr>"

lemma sample_toml_round_trip: "toml_round_trip sample_toml"
  by (auto simp: toml_round_trip_def sample_toml_def schema_version_def valid_str_def
      scalar_value_def lit_def split: if_splits)

definition sample_show_uuid :: "uuid \<Rightarrow> rstr" where
  "sample_show_uuid u = show_nat (unat u)"

definition sample_save :: "(store_error + unit) \<times> pdir" where
  "sample_save = save_config sample_toml sample_show_uuid 7 sample_rules default_settings (sample_dir [])"

lemma sample_save_Ok: "fst sample_save = Ok ()"
  by code_simp

theorem save_is_atomic_witness:
  "(if applied (fst sample_save)
      then \<exists>e text'. dir_lookup (snd sample_save) config_name = Some e \<and> en_synced e \<and>
        render_config sample_toml sample_rules default_settings = Ok text' \<and>
        en_data e = utf8_encode text'
      else dir_lookup (snd sample_save) config_name = dir_lookup (sample_dir []) config_name) \<and>
    (\<forall>m. m = config_name \<or> m = temporary_name sample_show_uuid 7 \<or>
       dir_lookup (snd sample_save) m = dir_lookup (sample_dir []) m)"
  by (rule save_is_atomic) (simp add: sample_save_def)

text \<open>What was saved is what is loaded: if the TOML codec reads back its own output, every
  load that succeeds after an applied save of valid rules returns exactly those rules and
  settings.\<close>

theorem save_then_load:
  assumes "toml_round_trip t" and "list_all valid_rule rules"
    and "save_config t show_uuid u rules s d = (r, d')" and "applied r"
    and "load_config t d' = (Ok (Some c), d'')"
  shows "c = (rules, s)"
proof -
  have "stored_bytes d' = Some (render_bytes t rules s)"
    using config.save_applied [OF assms(3,4)] by simp
  moreover obtain text' where text': "render_config t rules s = Ok text'"
    using assms(3,4) by (rule_tac save_config_cases) (auto simp: load_error_def)
  ultimately have "stored_config t d' = Ok (Some (rules, s))"
    using rendered_decodes [OF assms(1,2) text']
    by (simp add: stored_config_def render_bytes_def ok_or_def)
  with load_config_stored [OF assms(5)] show ?thesis by simp
qed

theorem save_then_load_witness: "(sample_rules, default_settings) = (sample_rules, default_settings)"
proof (rule save_then_load [of sample_toml sample_rules sample_show_uuid 7 _ "sample_dir []"
      "fst sample_save" "snd sample_save"])
  show "load_config sample_toml (snd sample_save) =
      (Ok (Some (sample_rules, default_settings)), snd sample_save)" by code_simp
  show "list_all valid_rule sample_rules" by code_simp
  show "save_config sample_toml sample_show_uuid 7 sample_rules default_settings (sample_dir []) =
      (fst sample_save, snd sample_save)" by (simp add: sample_save_def)
qed (simp_all add: sample_toml_round_trip sample_save_Ok)

text \<open>C13: a configuration this version does not understand is never overwritten: when
  config.toml holds text with another schema version, unreadable TOML or invalid rules, a
  save is refused and the file stays as it is.\<close>

theorem foreign_config_is_kept:
  assumes "dir_lookup d config_name = Some e"
    and "utf8_decode (en_data e) = None \<or> \<not> is_ok (decode t (the (utf8_decode (en_data e))))"
    and "honest_faults d" and "save_config t show_uuid u rules s d = (r, d')"
  shows "\<not> applied r \<and> dir_lookup d' config_name = Some e"
  using assms(4)
proof (rule save_config_cases)
  fix x assume "r = Inl x" "load_error x"
    "\<And>m. m \<noteq> temporary_name show_uuid u \<Longrightarrow> dir_lookup d' m = dir_lookup d m"
  with assms(1) not_sym [OF temporary_not_config] show ?thesis by (simp add: load_error_def)
next
  fix text' e' c d1 assume l: "load_config t d = (Ok c, d1)"
  show ?thesis
  proof (cases c)
    case (Some c')
    with l have "stored_config t d = Ok (Some c')" by (simp add: load_config_stored)
    with assms(1,2) show ?thesis
      by (auto simp: stored_config_def stored_bytes_def is_ok_iff)
  next
    case None
    with l obtain q where "read_original d = (Inr None, q)"
      by (auto simp: load_config_def elim!: st_bind_cases split: option.splits)
    then obtain k where "fs_read config_name d = (Inl IoNotFound, k)"
      by (auto simp: read_original_def st_try_def Let_def read_to_string_def elim!: st_bind_cases
          split: prod.splits sum.splits if_splits)
    with fs_read_not_missing [OF _ assms(1) assms(3)] show ?thesis by blast
  qed
qed

definition foreign_dir :: pdir where
  "foreign_dir = sample_dir [(config_name,
     \<lparr>en_meta = private_meta Regular, en_data = lit ''v1'', en_synced = True\<rparr>)]"

theorem foreign_config_is_kept_witness:
  "\<not> applied (fst (save_config sample_toml sample_show_uuid 7 sample_rules default_settings foreign_dir)) \<and>
   dir_lookup (snd (save_config sample_toml sample_show_uuid 7 sample_rules default_settings foreign_dir))
     config_name = Some \<lparr>en_meta = private_meta Regular, en_data = lit ''v1'', en_synced = True\<rparr>"
proof (rule foreign_config_is_kept [of foreign_dir _ sample_toml])
  show "honest_faults foreign_dir"
    by (simp add: honest_faults_def foreign_dir_def sample_dir_def)
  show "dir_lookup foreign_dir config_name =
      Some \<lparr>en_meta = private_meta Regular, en_data = lit ''v1'', en_synced = True\<rparr>"
    by (simp add: foreign_dir_def sample_dir_def dir_lookup_def)
  show "utf8_decode (en_data \<lparr>en_meta = private_meta Regular, en_data = lit ''v1'', en_synced = True\<rparr>) = None \<or>
    \<not> is_ok (decode sample_toml (the (utf8_decode (en_data
      \<lparr>en_meta = private_meta Regular, en_data = lit ''v1'', en_synced = True\<rparr>))))"
    by code_simp
qed simp

text \<open>The migration, step by step, on a file of another version.\<close>

lemma migration_steps:
  assumes "st_bind (write_backup (backup_name show_uuid version b) (utf8_encode original)) (\<lambda>_.
           st_bind (st_lift (migrate_text t m original)) (\<lambda>(config, text).
           st_bind (replace_file no_checkpoint (temporary_name show_uuid u) (utf8_encode text)) (\<lambda>_.
             st_return (Some config)))) d = (r, d')"
    and "dir_lookup d config_name = Some e" "utf8_encode original = en_data e"
  obtains x where "r = Inl x" "dir_lookup d' config_name = Some e"
  | x e' where "r = Inl x" "dir_lookup d' (backup_name show_uuid version b) = Some e'" "en_data e' = en_data e"
  | e' e2 c text' where "r = Inr (Some c)" "dir_lookup d' (backup_name show_uuid version b) = Some e'"
      "en_data e' = en_data e" "migrate_text t m original = Ok (c, text')"
      "dir_lookup d' config_name = Some e2" "en_data e2 = utf8_encode text'"
proof -
  obtain w d2 where wb: "write_backup (backup_name show_uuid version b) (utf8_encode original) d = (w, d2)"
    by fastforce
  from wb show thesis
  proof (rule write_backup_cases)
    fix x assume "w = Inl x" and "\<And>k. k \<noteq> backup_name show_uuid version b \<Longrightarrow> dir_lookup d2 k = dir_lookup d k"
    with assms(1,2) wb show thesis
      by (intro that(1) [of x]) (auto simp: st_bind_def not_sym [OF backup_not_config])
  next
    fix e' assume w: "w = Inr ()" and e': "dir_lookup d2 (backup_name show_uuid version b) = Some e'"
      "en_data e' = utf8_encode original"
    show thesis
    proof (cases "migrate_text t m original")
      case (Inl x)
      with assms(1,3) wb w e' show thesis
        by (intro that(2) [of x e']) (auto simp: st_bind_def st_lift_def)
    next
      case (Inr ct)
      obtain c text' where ct: "ct = (c, text')" by fastforce
      obtain v d3 where rp: "replace_file no_checkpoint (temporary_name show_uuid u)
          (utf8_encode text') d2 = (v, d3)" by fastforce
      with assms(1) wb w Inr ct
      have r: "r = map_ok (\<lambda>_. Some c) v" "d' = d3"
        by (cases v; simp add: st_bind_def st_lift_def st_return_def)+
      have kept: "dir_lookup d3 (backup_name show_uuid version b) = Some e'"
        using rp temporary_not_config by (rule replace_file_cases) (simp_all add: e')
      show thesis
      proof (cases v)
        case (Inl x)
        with r kept e' assms(3) show thesis by (intro that(2) [of x e']) simp_all
      next
        case (Inr y)
        from rp temporary_not_config obtain e2 where
          "dir_lookup d3 config_name = Some e2" "en_data e2 = utf8_encode text'"
          by (rule replace_file_cases) (simp_all add: Inr)
        with r kept e' assms(3) Inr \<open>migrate_text t m original = Inr ct\<close> ct show thesis
          by (intro that(3) [of c e' text' e2]) simp_all
      qed
    qed
  qed
qed

lemma load_with_migration_cases:
  assumes "load_with_migration t show_uuid b u m d = (r, d')"
    and "dir_lookup d config_name = Some e" "utf8_decode (en_data e) = Some original"
    and "parse_header t original = Some version" "version < schema_version"
  obtains x where "r = Inl x" "dir_lookup d' config_name = Some e"
  | x e' where "r = Inl x" "dir_lookup d' (backup_name show_uuid version b) = Some e'"
      "en_data e' = en_data e"
  | e' e2 c text' where "r = Inr (Some c)" "dir_lookup d' (backup_name show_uuid version b) = Some e'"
      "en_data e' = en_data e" "migrate_text t m original = Ok (c, text')"
      "dir_lookup d' config_name = Some e2" "en_data e2 = utf8_encode text'"
  | "r = Inr None" "dir_lookup d' config_name = Some e"
proof -
  obtain q d1 where rd: "read_original d = (q, d1)" by fastforce
  note same = read_original_unchanged [OF rd]
  consider (err) x where "q = Inl x" | (none) "q = Inr None" | (found) s where "q = Inr (Some s)"
    by (metis option.exhaust sum.exhaust)
  then show thesis
  proof cases
    case err
    with assms(1,2) rd same show thesis
      by (intro that(1)) (auto simp: load_with_migration_def st_bind_def)
  next
    case none
    with assms(1,2) rd same show thesis
      by (intro that(4)) (auto simp: load_with_migration_def st_bind_def st_return_def)
  next
    case (found s)
    then have s: "s = original" using rd assms(2,3)
      by (auto simp: read_original_def st_try_def Let_def read_to_string_def elim!: st_bind_cases
          split: prod.splits sum.splits if_splits dest!: fs_read_missing)
    have enc: "utf8_encode original = en_data e" using utf8_decode_encodes [OF assms(3)] .
    have run: "(if schema_version \<le> version \<or> version \<noteq> mg_source_version m
         then st_lift (Err (UnsupportedSchema version))
         else
           st_bind (write_backup (backup_name show_uuid version b) (utf8_encode original)) (\<lambda>_.
           st_bind (st_lift (migrate_text t m original)) (\<lambda>(config, text).
           st_bind (replace_file no_checkpoint (temporary_name show_uuid u) (utf8_encode text)) (\<lambda>_.
             st_return (Some config))))) d1 = (r, d')"
      using assms(1,4,5) rd found s
      by (simp add: load_with_migration_def st_bind_def [of read_original] schema_def ok_or_def
          st_bind_lift)
    show thesis
    proof (cases "version = mg_source_version m")
      case False
      with run same assms(2) show thesis by (intro that(1)) auto
    next
      case True
      with run assms(5) have "st_bind (write_backup (backup_name show_uuid version b) (utf8_encode original)) (\<lambda>_.
           st_bind (st_lift (migrate_text t m original)) (\<lambda>(config, text).
           st_bind (replace_file no_checkpoint (temporary_name show_uuid u) (utf8_encode text)) (\<lambda>_.
             st_return (Some config)))) d1 = (r, d')" by simp
      moreover have "dir_lookup d1 config_name = Some e" using same assms(2) by simp
      ultimately show thesis using enc by (rule migration_steps) (use that in blast)+
    qed
  qed
qed

text \<open>A migration that reports a configuration left that configuration on disk.\<close>

lemma migration_stored:
  assumes "toml_round_trip t"
    and "dir_lookup d config_name = Some e" "utf8_decode (en_data e) = Some original"
    and "parse_header t original = Some version" "version < schema_version"
    and "load_with_migration t show_uuid b u (v1_migration t) d = (Inr (Some (rules, s)), d')"
  shows "stored_config t d' = Ok (Some (rules, s)) \<and> well_formed_rules rules \<and> s = default_settings"
  using assms(6)
proof (rule load_with_migration_cases [OF _ assms(2-5)])
  fix e2 c text'
  assume r: "Inr (Some (rules, s)) = Inr (Some c)"
    and mig: "migrate_text t (v1_migration t) original = Ok (c, text')"
    and e2: "dir_lookup d' config_name = Some e2" "en_data e2 = utf8_encode text'"
  from r have c: "c = (rules, s)" by simp
  from mig c obtain v2 where v2: "mg_migrate (v1_migration t) original = Ok v2"
    "v2_into_domain v2 = Ok (rules, s)" "render_config t rules s = Ok text'"
    by (auto simp: migrate_text_def)
  then have wf: "well_formed_rules rules" by (auto intro: v2_into_domain_well_formed)
  from v2(1,2) have "s = default_settings"
    by (auto simp: v1_migration_def v2_from_domain_Ok v2_into_domain_def split: if_splits)
  moreover from rendered_decodes [OF assms(1) _ v2(3)] wf
  have "stored_config t d' = Ok (Some (rules, s))"
    by (simp add: stored_config_def stored_bytes_def e2 ok_or_def well_formed_rules_def)
  ultimately show ?thesis using wf by simp
qed simp_all

text \<open>C9: migrating a version 1 configuration never loses it: whatever fails, some file of the
  directory still holds the original bytes, config.toml itself or the backup; and a
  migration that reports a configuration left exactly that configuration on disk, its
  rules well formed and its settings the defaults.\<close>

theorem migration_keeps_original:
  assumes "toml_round_trip t"
    and "dir_lookup d config_name = Some e" "utf8_decode (en_data e) = Some original"
    and "parse_header t original = Some 1"
    and "load_or_migrate_v1 t show_uuid b u d = (r, d')"
  shows "(\<exists>m e'. dir_lookup d' m = Some e' \<and> en_data e' = en_data e) \<and>
    (case r of
       Inr (Some (rules, s)) \<Rightarrow> stored_config t d' = Ok (Some (rules, s)) \<and>
         well_formed_rules rules \<and> s = default_settings
     | _ \<Rightarrow> True)"
proof -
  have v: "(1 :: nat) < schema_version" by (simp add: schema_version_def)
  from assms(5) have load: "load_with_migration t show_uuid b u (v1_migration t) d = (r, d')"
    by (simp add: load_or_migrate_v1_def)
  then show ?thesis
  proof (rule load_with_migration_cases [OF _ assms(2,3,4) v])
    fix e' c assume r: "r = Inr (Some c)"
      and e': "dir_lookup d' (backup_name show_uuid 1 b) = Some e'" "en_data e' = en_data e"
    obtain rules s where c: "c = (rules, s)" by fastforce
    with load r migration_stored [OF assms(1-4) v] have "stored_config t d' = Ok (Some (rules, s)) \<and>
        well_formed_rules rules \<and> s = default_settings" by blast
    with r e' c show ?thesis by auto
  qed auto
qed

definition migrated :: "(store_error + (rule list \<times> settings) option) \<times> pdir" where
  "migrated = load_or_migrate_v1 sample_toml sample_show_uuid 8 9 foreign_dir"

theorem migration_keeps_original_witness:
  "(\<exists>m e'. dir_lookup (snd migrated) m = Some e' \<and> en_data e' = lit ''v1'') \<and>
   (case Ok (Some (sample_rules, default_settings)) of
       Inl (_ :: store_error) \<Rightarrow> True
     | Inr None \<Rightarrow> True
     | Inr (Some (rules, s)) \<Rightarrow> stored_config sample_toml (snd migrated) = Ok (Some (rules, s)) \<and>
         well_formed_rules rules \<and> s = default_settings)"
proof -
  have m: "load_or_migrate_v1 sample_toml sample_show_uuid 8 9 foreign_dir =
      (Ok (Some (sample_rules, default_settings)), snd migrated)"
  proof -
    have "fst migrated = Ok (Some (sample_rules, default_settings))" by code_simp
    then show ?thesis unfolding migrated_def by (metis prod.collapse)
  qed
  have e: "dir_lookup foreign_dir config_name =
      Some \<lparr>en_meta = private_meta Regular, en_data = lit ''v1'', en_synced = True\<rparr>"
    by (simp add: foreign_dir_def sample_dir_def dir_lookup_def)
  have u: "utf8_decode (en_data \<lparr>en_meta = private_meta Regular, en_data = lit ''v1'', en_synced = True\<rparr>) =
      Some (lit ''v1'')" by code_simp
  have h: "parse_header sample_toml (lit ''v1'') = Some 1"
    by (simp add: sample_toml_def)
  from migration_keeps_original [OF sample_toml_round_trip e u h m] show ?thesis by simp
qed

text \<open>What a load or a migration returns is what the file then holds.\<close>

lemma decode_well_formed: "decode t text' = Ok (rules, s) \<Longrightarrow> well_formed_rules rules"
  by (auto simp: decode_def split: if_splits intro: v2_into_domain_well_formed)

lemma read_original_Some:
  assumes "read_original d = (Inr (Some original), d')"
  shows "\<exists>e. dir_lookup d config_name = Some e \<and> utf8_decode (en_data e) = Some original"
  using assms
  by (auto simp: read_original_def st_try_def Let_def read_to_string_def elim!: st_bind_cases
      split: prod.splits sum.splits if_splits dest!: fs_read_missing)

lemma read_original_None:
  assumes "read_original d = (Inr None, d')" "honest_faults d"
  shows "dir_lookup d config_name = None"
proof (rule ccontr)
  assume "dir_lookup d config_name \<noteq> None"
  then obtain e where e: "dir_lookup d config_name = Some e" by blast
  from assms(1) obtain k where "fs_read config_name d = (Inl IoNotFound, k)"
    by (auto simp: read_original_def st_try_def Let_def read_to_string_def elim!: st_bind_cases
        split: prod.splits sum.splits if_splits)
  with fs_read_not_missing [OF _ e assms(2)] show False by blast
qed

lemma load_or_migrate_stored:
  assumes "load_or_migrate_v1 t show_uuid b u d = (Inr res, d')"
    and "toml_round_trip t" "honest_faults d"
  shows "stored_config t d' = Ok res" "res = Some (rules, s) \<Longrightarrow> well_formed_rules rules"
proof -
  obtain q d1 where rd: "read_original d = (q, d1)" by fastforce
  note same = read_original_unchanged [OF rd]
  have run: "load_with_migration t show_uuid b u (v1_migration t) d = (Inr res, d')"
    using assms(1) by (simp add: load_or_migrate_v1_def)
  then obtain found where q: "q = Inr found"
    using rd by (cases q) (auto simp: load_with_migration_def st_bind_def)
  have "stored_config t d' = Ok res \<and> (res = Some (rules, s) \<longrightarrow> well_formed_rules rules)"
  proof (cases found)
    case None
    with run rd q have "res = None" "d' = d1"
      by (auto simp: load_with_migration_def st_bind_def st_return_def)
    moreover have "dir_lookup d1 config_name = None"
      using read_original_None assms(3) rd q None same by simp
    ultimately show ?thesis by (simp add: stored_config_def stored_bytes_def)
  next
    case (Some original)
    with rd q obtain e where e: "dir_lookup d config_name = Some e" "utf8_decode (en_data e) = Some original"
      using read_original_Some by blast
    from run rd q Some obtain version where v: "parse_header t original = Some version"
      by (cases "parse_header t original")
        (auto simp: load_with_migration_def st_bind_def st_lift_def schema_def ok_or_def)
    show ?thesis
    proof (cases "version = schema_version")
      case True
      with run rd q Some v have "map_ok Some (decode t original) = Inr res" "d' = d1"
        by (auto simp: load_with_migration_def st_bind_def st_lift_def schema_def ok_or_def)
      with e same show ?thesis
        by (auto simp: stored_config_def stored_bytes_def ok_or_def decode_well_formed)
    next
      case False
      show ?thesis
      proof (cases "version < schema_version")
        case less: True
        from run rd q Some v False less have "res \<noteq> None"
          by (auto simp: load_with_migration_def st_bind_def [of read_original] schema_def ok_or_def
              st_bind_lift split: if_splits elim!: st_bind_cases)
        with migration_stored [OF assms(2) e v less] run show ?thesis by auto
      next
        case geq: False
        with run rd q Some v False show ?thesis
          by (simp add: load_with_migration_def st_bind_def st_lift_def schema_def ok_or_def)
      qed
    qed
  qed
  then show "stored_config t d' = Ok res" "res = Some (rules, s) \<Longrightarrow> well_formed_rules rules" by auto
qed

end
