(* ===== verification/Reconnect.thy ===== *)
theory Reconnect
  imports Prelude
begin

text \<open>
  Reconnect scheduling, \<open>src/src/daemon/reconnect.rs\<close>: a delay drawn with full jitter from
  a range that doubles with every attempt up to a minute. Durations are milliseconds.
\<close>

definition MAX_DELAY :: nat where "MAX_DELAY = 60000"
definition RESET_AFTER :: nat where "RESET_AFTER = 60000"

text \<open>\<open>checked_shl\<close> on a \<open>u64\<close> fails when the shift is not less than the width.\<close>

definition checked_shl :: "64 word \<Rightarrow> nat \<Rightarrow> 64 word option" where
  "checked_shl x n = (if n < 64 then Some (push_bit n x) else None)"

definition full_jitter :: "nat \<Rightarrow> 64 word \<Rightarrow> nat" where
  "full_jitter attempt entropy =
     (let cap_seconds = min (case checked_shl 1 (min attempt 6) of None \<Rightarrow> 64 | Some v \<Rightarrow> v) 60;
          cap_millis = cap_seconds * 1000
      in unat (entropy mod (cap_millis + 1)))"

definition jitter_cap :: "nat \<Rightarrow> nat" where
  "jitter_cap attempt = 1000 * min 60 (2 ^ min attempt 6)"

lemma cap_word:
  "min (case checked_shl 1 (min a 6) of None \<Rightarrow> 64 | Some v \<Rightarrow> v) 60 * 1000 + 1 =
   (of_nat (jitter_cap a + 1) :: 64 word)"
proof -
  have "min a 6 \<in> {0, 1, 2, 3, 4, 5, 6}" by (auto simp: min_def)
  then show ?thesis
    by (auto simp: checked_shl_def jitter_cap_def push_bit_eq_mult min_def word_le_nat_alt)
qed

lemma full_jitter_mod: "full_jitter a e = unat e mod (jitter_cap a + 1)"
proof -
  have "jitter_cap a + 1 < 2 ^ 64" by (simp add: jitter_cap_def min_def)
  then have "unat (of_nat (jitter_cap a + 1) :: 64 word) = jitter_cap a + 1"
    by (simp only: unat_of_nat) simp
  then show ?thesis
    unfolding full_jitter_def Let_def cap_word by (simp add: unat_mod_distrib)
qed

section \<open>Properties\<close>

text \<open>The delay before reconnect attempt n is between 0 and min(60 s, 2^n s), both ends
  included, and every millisecond of that range is drawn by some entropy: the jitter is
  full, never longer than a minute, and no overflow happens on the way.\<close>

theorem full_jitter_range: "range (full_jitter a) = {0 .. 1000 * min 60 (2 ^ a)}"
proof -
  have cap: "jitter_cap a = 1000 * min 60 (2 ^ a)"
  proof (cases "a \<le> 6")
    case False
    then have "(64 :: nat) \<le> 2 ^ a" using power_increasing [of 6 a "2 :: nat"] by simp
    with False show ?thesis by (simp add: jitter_cap_def min_def)
  qed (simp add: jitter_cap_def)
  have small: "jitter_cap a < 2 ^ 64" by (simp add: jitter_cap_def min_def)
  show ?thesis
  proof
    show "range (full_jitter a) \<subseteq> {0 .. 1000 * min 60 (2 ^ a)}"
      using mod_less_divisor [of "jitter_cap a + 1"] cap by (fastforce simp: full_jitter_mod)
    show "{0 .. 1000 * min 60 (2 ^ a)} \<subseteq> range (full_jitter a)"
    proof
      fix d :: nat assume "d \<in> {0 .. 1000 * min 60 (2 ^ a)}"
      then have "d \<le> jitter_cap a" using cap by simp
      then have "full_jitter a (of_nat d) = d" using small
        by (simp add: full_jitter_mod unat_of_nat)
      then show "d \<in> range (full_jitter a)" by (metis rangeI)
    qed
  qed
qed

end
