(* ===== verification/Daemon_Manager.thy ===== *)
theory Daemon_Manager
  imports Ipc_Model Config_Store Reconnect
begin

text \<open>
  The daemon's manager, \<open>src/src/daemon/manager.rs\<close>: its state behind the mutex, every
  request handler, and the supervisor's maintenance pass. A handler that releases the
  lock around a process call is cut there: one definition per section that holds the lock,
  composed by the handler, so that \<open>Daemon_System\<close> can interleave the sections of different
  threads. Process outcomes, clock readings, port probes and fresh uuids are arguments;
  serde's encoders and decoders are the \<open>codec\<close>.
\<close>

section \<open>State\<close>

record codec =
  ser_uuid :: "uuid \<Rightarrow> json"
  ser_rules :: "wire_rule list \<Rightarrow> json"
  ser_settings :: "settings \<Rightarrow> json"
  de_id :: "json \<Rightarrow> uuid option"
  de_name :: "json \<Rightarrow> rstr option"
  de_rule :: "json \<Rightarrow> wire_rule option"
  de_import :: "json \<Rightarrow> wire_rule list option"
  de_edit :: "json \<Rightarrow> (wire_rule \<times> wire_rule) option"
  de_settings :: "json \<Rightarrow> settings option"

datatype attempt =
    AStarting uuid
  | AActive managed
  | AReconnecting nat
  | AFailed

record runtime_info =
  ri_active_since :: "nat option"
  ri_reconnect_count :: nat
  ri_retry_attempt :: nat
  ri_last_error :: "(diagnostic_kind \<times> rstr) option"

definition no_info :: runtime_info where
  "no_info = \<lparr>ri_active_since = None, ri_reconnect_count = 0, ri_retry_attempt = 0,
     ri_last_error = None\<rparr>"

text \<open>
  \<open>dm_events\<close> and \<open>dm_log\<close> are the calls made to the event hub and the log, in order.
\<close>

record daemon =
  dm_store :: pdir
  dm_rules :: "rule list"
  dm_settings :: settings
  dm_running :: "(uuid \<times> attempt) list"
  dm_diagnostics :: "(uuid \<times> runtime_info) list"
  dm_manually_stopped :: "uuid set"
  dm_editing :: "uuid set"
  dm_events :: "(string \<times> json) list"
  dm_log :: "(log_level \<times> message) list"

record manager_env =
  me_toml :: toml
  me_show_uuid :: "uuid \<Rightarrow> rstr"
  me_codec :: codec
  me_process :: bool
  me_logging :: bool

type_synonym failure = "error_code \<times> message"
type_synonym 'a handler = "(daemon, failure, 'a) st"

definition internal :: "message \<Rightarrow> failure" where
  "internal m = (Internal, m)"

definition invalid :: "message \<Rightarrow> failure" where
  "invalid m = (InvalidRequest, m)"

definition daemon_open ::
  "manager_env \<Rightarrow> uuid \<Rightarrow> uuid \<Rightarrow> pdir \<Rightarrow> store_error + daemon" where
  "daemon_open env backup_id save_id dir =
     (let (res, dir') = load_or_migrate_v1 (me_toml env) (me_show_uuid env) backup_id save_id dir in
      map_ok (\<lambda>persisted.
        let (rules, s) = (case persisted of None \<Rightarrow> ([], default_settings) | Some c \<Rightarrow> c) in
        \<lparr>dm_store = dir', dm_rules = rules, dm_settings = s, dm_running = [],
         dm_diagnostics = [], dm_manually_stopped = {}, dm_editing = {}, dm_events = [],
         dm_log = []\<rparr>) res)"

section \<open>Small steps on the state\<close>

definition publish :: "string \<Rightarrow> json \<Rightarrow> daemon \<Rightarrow> daemon" where
  "publish name payload st = st\<lparr>dm_events := dm_events st @ [(name, payload)]\<rparr>"

definition log_event :: "manager_env \<Rightarrow> log_level \<Rightarrow> message \<Rightarrow> daemon \<Rightarrow> daemon" where
  "log_event env level msg st =
     (if allows (s_log_level (dm_settings st)) level \<and> me_logging env
      then st\<lparr>dm_log := dm_log st @ [(level, msg)]\<rparr> else st)"

definition running_of :: "daemon \<Rightarrow> uuid \<Rightarrow> attempt option" where
  "running_of st i = map_of (dm_running st) i"

definition set_running :: "uuid \<Rightarrow> attempt \<Rightarrow> daemon \<Rightarrow> daemon" where
  "set_running i a st = st\<lparr>dm_running := AList.update i a (dm_running st)\<rparr>"

definition drop_running :: "uuid \<Rightarrow> daemon \<Rightarrow> daemon" where
  "drop_running i st = st\<lparr>dm_running := AList.delete i (dm_running st)\<rparr>"

definition info_of :: "daemon \<Rightarrow> uuid \<Rightarrow> runtime_info" where
  "info_of st i = (case map_of (dm_diagnostics st) i of None \<Rightarrow> no_info | Some v \<Rightarrow> v)"

definition set_info :: "uuid \<Rightarrow> runtime_info \<Rightarrow> daemon \<Rightarrow> daemon" where
  "set_info i v st = st\<lparr>dm_diagnostics := AList.update i v (dm_diagnostics st)\<rparr>"

definition drop_info :: "uuid \<Rightarrow> daemon \<Rightarrow> daemon" where
  "drop_info i st = st\<lparr>dm_diagnostics := AList.delete i (dm_diagnostics st)\<rparr>"

definition find_rule :: "daemon \<Rightarrow> uuid \<Rightarrow> rule option" where
  "find_rule st i = find (\<lambda>r. r_id r = i) (dm_rules st)"

text \<open>\<open>saturating_add(1)\<close> on a \<open>u32\<close>.\<close>

definition saturating_succ :: "nat \<Rightarrow> nat" where
  "saturating_succ n = min (n + 1) (2 ^ 32 - 1)"

text \<open>The first eight bytes of a uuid, read little-endian.\<close>

definition uuid_bytes :: "uuid \<Rightarrow> nat list" where
  "uuid_bytes u = map (\<lambda>i. unat u div 256 ^ (15 - i) mod 256) [0 ..< 16]"

definition uuid_entropy :: "uuid \<Rightarrow> 64 word" where
  "uuid_entropy u = of_nat (foldr (\<lambda>b acc. b + 256 * acc) (take 8 (uuid_bytes u)) 0)"

definition rule_ref :: "manager_env \<Rightarrow> uuid \<Rightarrow> json" where
  "rule_ref env i = JObj [(''rule_id'', ser_uuid (me_codec env) i)]"

definition start_answer :: "manager_env \<Rightarrow> uuid \<Rightarrow> bool \<Rightarrow> bool \<Rightarrow> json" where
  "start_answer env i requested changed = JObj [(''rule_id'', ser_uuid (me_codec env) i),
     (''start_requested'', JBool requested), (''changed'', JBool changed)]"

section \<open>Selecting a rule\<close>

definition rule_id_of :: "manager_env \<Rightarrow> json \<Rightarrow> daemon \<Rightarrow> failure + uuid" where
  "rule_id_of env payload st =
     (case de_id (me_codec env) payload of
        Some i \<Rightarrow> Ok i
      | None \<Rightarrow> (case de_name (me_codec env) payload of
          None \<Rightarrow> Err (invalid [ShowSerde])
        | Some name \<Rightarrow>
            ok_or (NotFound, [Txt (lit ''rule was not found'')])
              (map_option r_id (find (\<lambda>r. rule_name_str (r_name r) = name) (dm_rules st)))))"

definition check_local_port ::
  "(rstr \<Rightarrow> u16 \<Rightarrow> io_kind + unit) \<Rightarrow> rule \<Rightarrow> failure + unit" where
  "check_local_port bind r =
     (case local_listener r of
        None \<Rightarrow> Ok ()
      | Some (address, port) \<Rightarrow>
          (let a = (if bind_str address = lit ''*'' then lit ''0.0.0.0'' else bind_str address) in
           case bind a (port_get port) of
             Inr _ \<Rightarrow> Ok ()
           | Inl e \<Rightarrow>
               if e = IoAddrInUse
               then Err (Conflict, [Txt (lit ''local listener ''), Txt a, Txt (lit '':''),
                 ShowNat (unat (port_get port)), Txt (lit '' is already in use'')])
               else Err (Unavailable,
                 [Txt (lit ''local listener cannot be checked: ''), ShowIo e])))"

section \<open>Saving\<close>

definition dm_save :: "manager_env \<Rightarrow> uuid \<Rightarrow> rule list \<Rightarrow> settings \<Rightarrow> (daemon, store_error, unit) st" where
  "dm_save env u rules s st =
     (let (r, dir) = save_config (me_toml env) (me_show_uuid env) u rules s (dm_store st)
      in (r, st\<lparr>dm_store := dir\<rparr>))"

definition save_outcome :: "store_error + unit \<Rightarrow> failure + failure option" where
  "save_outcome r =
     (case r of
        Inr _ \<Rightarrow> Ok None
      | Inl e \<Rightarrow> (case e of
          DurabilityUncertain _ \<Rightarrow> Ok (Some (internal [ShowStore e]))
        | _ \<Rightarrow> Err (internal [ShowStore e])))"

definition save_error_code :: "store_error \<Rightarrow> error_code" where
  "save_error_code e = (case e of InvalidRules _ \<Rightarrow> Conflict | _ \<Rightarrow> Internal)"

definition check_rule_set :: "rule list \<Rightarrow> failure + unit" where
  "check_rule_set rules =
     map_err (\<lambda>errors. (Conflict, [ShowStore (InvalidRules errors)])) (validate_rule_set rules)"

text \<open>
  The common end of every mutation of the rules: save, adopt what was applied, publish,
  and only then report a durability error.
\<close>

definition commit_rules ::
  "manager_env \<Rightarrow> uuid \<Rightarrow> rule list \<Rightarrow> json \<Rightarrow> json \<Rightarrow> json handler" where
  "commit_rules env u nxt changed answer st =
     (let (r, st1) = dm_save env u nxt (dm_settings st) st in
      case save_outcome r of
        Inl e \<Rightarrow> (Err e, st1)
      | Inr durability \<Rightarrow>
          (let st2 = publish ''configuration_changed'' changed (st1\<lparr>dm_rules := nxt\<rparr>)
           in (case durability of Some e \<Rightarrow> Err e | None \<Rightarrow> Ok answer, st2)))"

section \<open>Requests handled under the lock\<close>

definition forward_list :: "manager_env \<Rightarrow> daemon \<Rightarrow> failure + json" where
  "forward_list env st =
     map_err (\<lambda>e. internal [ShowStore e])
       (map_ok (\<lambda>c. ser_rules (me_codec env) (v2_rules c))
         (v2_from_domain (dm_rules st) (dm_settings st)))"

text \<open>The first rule with the id is the one \<open>iter_mut().find\<close> replaces.\<close>

fun replace_first :: "uuid \<Rightarrow> rule \<Rightarrow> rule list \<Rightarrow> rule list" where
  "replace_first i r [] = []"
| "replace_first i r (x # xs) = (if r_id x = i then r # xs else x # replace_first i r xs)"

definition forward_add :: "manager_env \<Rightarrow> uuid \<Rightarrow> json \<Rightarrow> json handler" where
  "forward_add env u payload st =
     (case de_rule (me_codec env) payload of
        None \<Rightarrow> (Err (invalid [ShowSerde]), st)
      | Some wire \<Rightarrow> (case domain_of_wire wire of
          Inl e \<Rightarrow> (Err (InvalidRequest, [ShowValidation e]), st)
        | Inr r \<Rightarrow>
            (let i = r_id r; existing = list_ex (\<lambda>x. r_id x = i) (dm_rules st) in
             if i \<in> dm_editing st
             then (Err (Conflict, [Txt (lit ''rule is being edited'')]), st)
             else if existing \<and> running_of st i \<noteq> None
             then (Err (Conflict, [Txt (lit ''an active rule cannot be edited'')]), st)
             else
               let nxt = (if existing then replace_first i r (dm_rules st) else dm_rules st @ [r]) in
               case check_rule_set nxt of
                 Inl e \<Rightarrow> (Err e, st)
               | Inr _ \<Rightarrow> commit_rules env u nxt (rule_ref env i) (rule_ref env i) st)))"

text \<open>The first id that is already there, or that came earlier in the import.\<close>

fun first_seen :: "uuid set \<Rightarrow> uuid list \<Rightarrow> uuid option" where
  "first_seen seen [] = None"
| "first_seen seen (i # is) = (if i \<in> seen then Some i else first_seen (insert i seen) is)"

definition forward_import :: "manager_env \<Rightarrow> uuid \<Rightarrow> json \<Rightarrow> json handler" where
  "forward_import env u payload st =
     (case de_import (me_codec env) payload of
        None \<Rightarrow> (Err (invalid [ShowSerde]), st)
      | Some wires \<Rightarrow>
          if wires = []
          then (Err (InvalidRequest, [Txt (lit ''at least one imported rule is required'')]), st)
          else case collect_results domain_of_wire wires of
            Inl e \<Rightarrow> (Err (InvalidRequest, [ShowValidation e]), st)
          | Inr imported \<Rightarrow>
              (let ids = map r_id imported;
                   answer = JObj [(''rule_ids'', JArr (map (ser_uuid (me_codec env)) ids))] in
               case first_seen (set (map r_id (dm_rules st))) ids of
                 Some i \<Rightarrow> (Err (Conflict,
                     [Txt (lit ''imported rule ID already exists: ''), ShowUuid i]), st)
               | None \<Rightarrow> (case check_rule_set (dm_rules st @ imported) of
                   Inl e \<Rightarrow> (Err e, st)
                 | Inr _ \<Rightarrow> commit_rules env u (dm_rules st @ imported) answer answer st)))"

definition forward_remove :: "manager_env \<Rightarrow> uuid \<Rightarrow> json \<Rightarrow> json handler" where
  "forward_remove env u payload st =
     (case rule_id_of env payload st of
        Inl e \<Rightarrow> (Err e, st)
      | Inr i \<Rightarrow>
          if i \<in> dm_editing st then (Err (Conflict, [Txt (lit ''rule is being edited'')]), st)
          else if running_of st i \<noteq> None
          then (Err (Conflict, [Txt (lit ''an active rule cannot be removed'')]), st)
          else
            let nxt = filter (\<lambda>r. r_id r \<noteq> i) (dm_rules st) in
            if length nxt = length (dm_rules st)
            then (Err (NotFound, [Txt (lit ''rule was not found'')]), st)
            else commit_rules env u nxt (rule_ref env i)
              (JObj [(''rule_id'', ser_uuid (me_codec env) i), (''removed'', JBool True)]) st)"

definition settings_update :: "manager_env \<Rightarrow> uuid \<Rightarrow> json \<Rightarrow> json handler" where
  "settings_update env u payload st =
     (case de_settings (me_codec env) payload of
        None \<Rightarrow> (Err (invalid [ShowSerde]), st)
      | Some new \<Rightarrow>
          (let (r, st1) = dm_save env u (dm_rules st) new st in
           case save_outcome r of
             Inl e \<Rightarrow> (Err e, st1)
           | Inr durability \<Rightarrow>
               (let st2 = publish ''settings_changed'' (ser_settings (me_codec env) new)
                      (st1\<lparr>dm_settings := new\<rparr>)
                in (case durability of Some e \<Rightarrow> Err e
                    | None \<Rightarrow> Ok (ser_settings (me_codec env) new), st2))))"

definition state_name :: "attempt option \<Rightarrow> string" where
  "state_name a =
     (case a of
        Some (AStarting _) \<Rightarrow> ''starting''
      | Some (AActive _) \<Rightarrow> ''active''
      | Some (AReconnecting _) \<Rightarrow> ''reconnecting''
      | Some AFailed \<Rightarrow> ''failed''
      | None \<Rightarrow> ''stopped'')"

definition is_active :: "attempt \<Rightarrow> bool" where
  "is_active a \<longleftrightarrow> (case a of AActive _ \<Rightarrow> True | _ \<Rightarrow> False)"

definition is_starting :: "attempt \<Rightarrow> bool" where
  "is_starting a \<longleftrightarrow> (case a of AStarting _ \<Rightarrow> True | _ \<Rightarrow> False)"

definition rule_status :: "manager_env \<Rightarrow> nat \<Rightarrow> daemon \<Rightarrow> rule \<Rightarrow> json" where
  "rule_status env now st r =
     (let i = r_id r; info = map_of (dm_diagnostics st) i;
          uptime = (case Option.bind info ri_active_since of None \<Rightarrow> 0 | Some t \<Rightarrow> (now - t) div 1000);
          count = (case info of None \<Rightarrow> 0 | Some v \<Rightarrow> ri_reconnect_count v);
          (kind, last) = (case Option.bind info ri_last_error of
              None \<Rightarrow> (JNull, JNull)
            | Some (k, m) \<Rightarrow> (JStr (diagnostic_kind_str k), JStr m))
      in JObj [(''rule_id'', ser_uuid (me_codec env) i), (''name'', JStr (rule_name_str (r_name r))),
           (''state'', JStr (lit (state_name (running_of st i)))), (''uptime_seconds'', JNat uptime),
           (''reconnect_count'', JNat count), (''error_kind'', kind), (''last_error'', last)])"

definition status_answer :: "manager_env \<Rightarrow> nat \<Rightarrow> daemon \<Rightarrow> json" where
  "status_answer env now st =
     JObj [(''rules'', JNat (length (dm_rules st))),
       (''active'', JNat (length (filter is_active (map snd (dm_running st))))),
       (''starting'', JNat (length (filter is_starting (map snd (dm_running st))))),
       (''forwards'', JArr (map (rule_status env now st) (dm_rules st)))]"

text \<open>
  \<open>dispatch\<close>; the three operations it must never see panic in the source, which \<open>None\<close>
  stands for.
\<close>

definition dispatch ::
  "manager_env \<Rightarrow> uuid \<Rightarrow> nat \<Rightarrow> operation \<Rightarrow> json \<Rightarrow> daemon \<Rightarrow> ((failure + json) \<times> daemon) option" where
  "dispatch env u now op payload st =
     (case op of
        ForwardList \<Rightarrow> Some (forward_list env st, st)
      | ForwardAdd \<Rightarrow> Some (forward_add env u payload st)
      | ForwardImport \<Rightarrow> Some (forward_import env u payload st)
      | ForwardRemove \<Rightarrow> Some (forward_remove env u payload st)
      | ForwardStart \<Rightarrow> None
      | ForwardStop \<Rightarrow> None
      | ForwardEditActive \<Rightarrow> None
      | SettingsGet \<Rightarrow> Some (Ok (ser_settings (me_codec env) (dm_settings st)), st)
      | SettingsUpdate \<Rightarrow> Some (settings_update env u payload st)
      | Status \<Rightarrow> Some (Ok (status_answer env now st), st)
      | Subscribe \<Rightarrow> Some (Ok (JObj [(''subscribed'', JBool True)]), st)
      | HostList \<Rightarrow> Some (Err (Unavailable, [Txt (lit ''operation is not handled by the daemon yet'')]), st)
      | HostShow \<Rightarrow> Some (Err (Unavailable, [Txt (lit ''operation is not handled by the daemon yet'')]), st)
      | HostTest \<Rightarrow> Some (Err (Unavailable, [Txt (lit ''operation is not handled by the daemon yet'')]), st))"

section \<open>Starting\<close>

text \<open>
  The first section of \<open>start_inner\<close>: everything up to the release of the lock. It either
  answers, or leaves the attempt's id as a marker under the rule.
\<close>

datatype reserved = Answered "failure + json" | Reserved uuid rule

definition start_reserve ::
  "manager_env \<Rightarrow> (rstr \<Rightarrow> u16 \<Rightarrow> io_kind + unit) \<Rightarrow> uuid \<Rightarrow> bool \<Rightarrow> bool \<Rightarrow> json \<Rightarrow> daemon \<Rightarrow>
   reserved \<times> daemon" where
  "start_reserve env bind attempt_id automatic edit_owned payload st =
     (case rule_id_of env payload st of
        Inl e \<Rightarrow> (Answered (Err e), st)
      | Inr i \<Rightarrow>
          if i \<in> dm_editing st \<and> \<not> edit_owned
          then (Answered (Err (Conflict, [Txt (lit ''rule is being edited'')])), st)
          else if automatic \<and> i \<in> dm_manually_stopped st
          then (Answered (Ok (start_answer env i False False)), st)
          else
            (let st1 = (if \<not> automatic \<and> \<not> edit_owned
                 then st\<lparr>dm_manually_stopped := dm_manually_stopped st - {i}\<rparr> else st) in
             case find_rule st1 i of
               None \<Rightarrow> (Answered (Err (NotFound, [Txt (lit ''rule was not found'')])), st1)
             | Some r \<Rightarrow>
                 (let st2 = (if running_of st1 i = Some AFailed then drop_running i st1 else st1) in
                  if running_of st2 i \<noteq> None
                  then (Answered (Ok (start_answer env i True False)), st2)
                  else case check_local_port bind r of
                    Inl e \<Rightarrow> (Answered (Err e), st2)
                  | Inr _ \<Rightarrow> (Reserved i r, set_running i (AStarting attempt_id) st2))))"

definition rule_failed_log :: "uuid \<Rightarrow> string \<Rightarrow> diagnostic_kind \<Rightarrow> rstr \<Rightarrow> message" where
  "rule_failed_log i name kind text =
     [Txt (lit (''event='' @ name @ '' rule_id='')), ShowUuid i, Txt (lit '' diagnostic_kind=''),
      Txt (diagnostic_kind_str kind), Txt (lit '' diagnostic=''), Txt text]"

text \<open>The second section when the process did not start.\<close>

definition start_failed ::
  "manager_env \<Rightarrow> nat \<Rightarrow> uuid \<Rightarrow> bool \<Rightarrow> uuid \<Rightarrow> rule \<Rightarrow> process_error \<Rightarrow> json handler" where
  "start_failed env now attempt_id edit_owned i r err st =
     (let dg = classify_diagnostic (show_process_error err) in
      if running_of st i \<noteq> Some (AStarting attempt_id)
      then (Ok (start_answer env i False True), st)
      else
        let scheduled = (r_reconnect r \<and> dg_retryable dg \<and> \<not> edit_owned);
            info = (info_of st i)\<lparr>ri_active_since := None,
              ri_last_error := Some (dg_kind dg, dg_message dg)\<rparr>;
            st1 = (if scheduled
               then set_running i
                   (AReconnecting (now + full_jitter (ri_retry_attempt info) (uuid_entropy attempt_id)))
                   (set_info i (info\<lparr>ri_retry_attempt := saturating_succ (ri_retry_attempt info),
                      ri_reconnect_count := saturating_succ (ri_reconnect_count info)\<rparr>) st)
               else if edit_owned then drop_running i (set_info i info st)
               else set_running i AFailed (set_info i info st));
            st2 = log_event env LvError
              (rule_failed_log i ''rule_failed'' (dg_kind dg) (dg_message dg)) st1;
            st3 = (if scheduled
               then publish ''rule_reconnecting'' (rule_ref env i)
                   (log_event env LvInfo
                     (rule_failed_log i ''rule_reconnecting'' (dg_kind dg) (dg_message dg)) st2)
               else st2)
        in (Err (Unavailable, [Txt (dg_message dg)]), st3))"

text \<open>
  The second section when it did; \<open>stopped\<close> is the result of stopping an attempt whose
  marker is gone. Without process settings there is no attempt at all.
\<close>

definition start_finished ::
  "manager_env \<Rightarrow> nat \<Rightarrow> uuid \<Rightarrow> bool \<Rightarrow> uuid \<Rightarrow> managed option \<Rightarrow> process_error + unit \<Rightarrow> json handler" where
  "start_finished env now attempt_id edit_owned i started stopped st =
     (if running_of st i \<noteq> Some (AStarting attempt_id)
      then (case (started, stopped) of
          (Some _, Inl e) \<Rightarrow> (Err (internal [ShowProcess e]), st)
        | _ \<Rightarrow> (Ok (start_answer env i False True), st))
      else
        let st1 = set_running i (case started of Some m \<Rightarrow> AActive m | None \<Rightarrow> AStarting attempt_id) st;
            st2 = (if edit_owned
               then st1\<lparr>dm_manually_stopped := dm_manually_stopped st1 - {i}\<rparr> else st1);
            st3 = set_info i ((info_of st2 i)\<lparr>ri_active_since := Some now, ri_last_error := None\<rparr>) st2;
            st4 = log_event env LvInfo [Txt (lit ''event=rule_started rule_id=''), ShowUuid i] st3
        in (Ok (start_answer env i True True), publish ''rule_started'' (rule_ref env i) st4))"

text \<open>What the process calls of one start answer.\<close>

record start_outcome =
  so_started :: "process_error + managed"
  so_stopped :: "process_error + unit"

definition start_complete ::
  "manager_env \<Rightarrow> nat \<Rightarrow> uuid \<Rightarrow> bool \<Rightarrow> start_outcome \<Rightarrow> uuid \<Rightarrow> rule \<Rightarrow> json handler" where
  "start_complete env now attempt_id edit_owned out i r st =
     (if \<not> me_process env
      then start_finished env now attempt_id edit_owned i None (so_stopped out) st
      else case so_started out of
        Inl err \<Rightarrow> start_failed env now attempt_id edit_owned i r err st
      | Inr m \<Rightarrow> start_finished env now attempt_id edit_owned i (Some m) (so_stopped out) st)"

definition start_inner ::
  "manager_env \<Rightarrow> (rstr \<Rightarrow> u16 \<Rightarrow> io_kind + unit) \<Rightarrow> nat \<Rightarrow> uuid \<Rightarrow> start_outcome \<Rightarrow> bool \<Rightarrow> bool \<Rightarrow>
   json \<Rightarrow> json handler" where
  "start_inner env bind now attempt_id out automatic edit_owned payload st =
     (case start_reserve env bind attempt_id automatic edit_owned payload st of
        (Answered res, st') \<Rightarrow> (res, st')
      | (Reserved i r, st') \<Rightarrow> start_complete env now attempt_id edit_owned out i r st')"

section \<open>Stopping\<close>

definition stop_begin :: "manager_env \<Rightarrow> json \<Rightarrow> (uuid \<times> attempt option) handler" where
  "stop_begin env payload st =
     (case rule_id_of env payload st of
        Inl e \<Rightarrow> (Err e, st)
      | Inr i \<Rightarrow>
          if i \<in> dm_editing st then (Err (Conflict, [Txt (lit ''rule is being edited'')]), st)
          else if find_rule st i = None
          then (Err (NotFound, [Txt (lit ''rule was not found'')]), st)
          else (Ok (i, running_of st i),
            drop_running i (drop_info i
              (st\<lparr>dm_manually_stopped := insert i (dm_manually_stopped st)\<rparr>))))"

definition stop_end ::
  "manager_env \<Rightarrow> process_error + unit \<Rightarrow> uuid \<Rightarrow> attempt option \<Rightarrow> json handler" where
  "stop_end env stopped i taken st =
     (let changed = (taken \<noteq> None);
          active = (case taken of Some a \<Rightarrow> is_active a | None \<Rightarrow> False) in
      case (if active then stopped else Ok ()) of
        Inl e \<Rightarrow> (Err (Internal, [ShowProcess e]), st)
      | Inr _ \<Rightarrow>
          (Ok (start_answer env i False changed),
           if changed
           then publish ''rule_stopped'' (rule_ref env i)
             (log_event env LvInfo [Txt (lit ''event=rule_stopped rule_id=''), ShowUuid i] st)
           else st))"

definition stop_rule ::
  "manager_env \<Rightarrow> process_error + unit \<Rightarrow> json \<Rightarrow> json handler" where
  "stop_rule env stopped payload =
     st_bind (stop_begin env payload) (\<lambda>(i, taken). stop_end env stopped i taken)"

section \<open>Editing an active rule\<close>

definition finish_edit :: "uuid \<Rightarrow> daemon \<Rightarrow> daemon" where
  "finish_edit i st = st\<lparr>dm_editing := dm_editing st - {i}\<rparr>"

definition edit_request :: "manager_env \<Rightarrow> json \<Rightarrow> failure + rule \<times> rule" where
  "edit_request env payload =
     (case de_edit (me_codec env) payload of
        None \<Rightarrow> Err (invalid [ShowSerde])
      | Some (e, r) \<Rightarrow>
          and_then (map_err (\<lambda>x. invalid [ShowValidation x]) (domain_of_wire e)) (\<lambda>expected.
          and_then (map_err (\<lambda>x. invalid [ShowValidation x]) (domain_of_wire r)) (\<lambda>replacement.
          if r_id replacement \<noteq> r_id expected
          then Err (InvalidRequest, [Txt (lit ''replacement rule ID differs'')])
          else Ok (expected, replacement))))"

text \<open>The reservation: the rule leaves the running table and is held by the edit.\<close>

definition edit_begin ::
  "manager_env \<Rightarrow> rule \<Rightarrow> rule \<Rightarrow> (attempt option) handler" where
  "edit_begin env expected replacement st =
     (let i = r_id expected in
      case find_rule st i of
        None \<Rightarrow> (Err (NotFound, [Txt (lit ''rule was not found'')]), st)
      | Some current \<Rightarrow>
          if current \<noteq> expected \<or> i \<in> dm_editing st
          then (Err (Conflict, [Txt (lit ''rule changed since editing began'')]), st)
          else if \<not> (case running_of st i of Some a \<Rightarrow> is_active a | None \<Rightarrow> False)
          then (Err (Conflict, [Txt (lit ''rule is no longer active'')]), st)
          else case check_rule_set (replace_first i replacement (dm_rules st)) of
            Inl e \<Rightarrow> (Err e, st)
          | Inr _ \<Rightarrow> (Ok (running_of st i),
              drop_running i (drop_info i (st\<lparr>dm_editing := insert i (dm_editing st),
                dm_manually_stopped := insert i (dm_manually_stopped st)\<rparr>))))"

definition stop_failed_text :: rstr where
  "stop_failed_text = lit ''stop failed; forwarding state uncertain''"

definition edit_stop_failed :: "manager_env \<Rightarrow> uuid \<Rightarrow> process_error \<Rightarrow> json handler" where
  "edit_stop_failed env i err st =
     (let st1 = set_info i ((info_of st i)\<lparr>ri_last_error := Some (Unknown, stop_failed_text)\<rparr>)
            (set_running i AFailed st);
          st2 = log_event env LvError (rule_failed_log i ''rule_failed'' Unknown stop_failed_text) st1;
          st3 = publish ''rule_failed'' (rule_ref env i) st2
      in (Err (Internal,
            [Txt (lit ''stop failed; old configuration unchanged; forwarding state uncertain: ''),
             ShowProcess err]),
          finish_edit i st3))"

datatype edit_saved = Disappeared | Saved "store_error + unit"

definition edit_save :: "manager_env \<Rightarrow> uuid \<Rightarrow> uuid \<Rightarrow> rule \<Rightarrow> daemon \<Rightarrow> edit_saved \<times> daemon" where
  "edit_save env u i replacement st0 =
     (let st = publish ''rule_stopped'' (rule_ref env i) st0 in
      if find_rule st i = None then (Disappeared, finish_edit i st)
      else
        let nxt = replace_first i replacement (dm_rules st) in
        case validate_rule_set nxt of
          Inl errors \<Rightarrow> (Saved (Err (InvalidRules errors)), st)
        | Inr _ \<Rightarrow>
            (let (r, st1) = dm_save env u nxt (dm_settings st) st in
             (Saved r, if applied r
               then publish ''configuration_changed'' (rule_ref env i) (st1\<lparr>dm_rules := nxt\<rparr>)
               else st1)))"

definition is_uncertain :: "store_error \<Rightarrow> io_kind option" where
  "is_uncertain e = (case e of DurabilityUncertain k \<Rightarrow> Some k | _ \<Rightarrow> None)"

definition edit_answer ::
  "manager_env \<Rightarrow> uuid \<Rightarrow> store_error + unit \<Rightarrow> failure + json \<Rightarrow> failure + json" where
  "edit_answer env i saved restart =
     (case saved of
        Inr _ \<Rightarrow> (case restart of
            Inr _ \<Rightarrow> Ok (JObj [(''rule_id'', ser_uuid (me_codec env) i), (''saved'', JBool True),
              (''state'', JStr (lit ''active''))])
          | Inl (_, error) \<Rightarrow> Err (Unavailable,
              [Txt (lit ''new configuration saved; forwarding stopped after restart failure: ''),
               ShowMessage error]))
      | Inl e \<Rightarrow> (case is_uncertain e of
          Some k \<Rightarrow> (case restart of
              Inr _ \<Rightarrow> Err (Internal, [Txt (lit
                ''new configuration applied and forwarding restarted; persistence durability uncertain: ''),
                ShowIo k])
            | Inl (_, r) \<Rightarrow> Err (Internal, [Txt (lit
                ''new configuration applied but durability uncertain; forwarding stopped after restart failure: ''),
                ShowMessage r, Txt (lit ''; save: ''), ShowIo k]))
        | None \<Rightarrow> (case restart of
              Inr _ \<Rightarrow> Err (save_error_code e, [Txt (lit
                ''save failed; old configuration restored and forwarding restarted: ''), ShowStore e])
            | Inl (_, r) \<Rightarrow> Err (save_error_code e, [Txt (lit
                ''save failed; old configuration unchanged; forwarding stopped after restart failure: ''),
                ShowMessage r, Txt (lit ''; save: ''), ShowStore e]))))"

text \<open>What the calls of one start, and of one edit, answer.\<close>

record start_oracle =
  or_bind :: "rstr \<Rightarrow> u16 \<Rightarrow> io_kind + unit"
  or_now :: nat
  or_attempt :: uuid
  or_outcome :: start_outcome

definition start_with ::
  "manager_env \<Rightarrow> start_oracle \<Rightarrow> bool \<Rightarrow> bool \<Rightarrow> json \<Rightarrow> json handler" where
  "start_with env orc automatic edit_owned payload =
     start_inner env (or_bind orc) (or_now orc) (or_attempt orc) (or_outcome orc) automatic edit_owned payload"

definition edit_active ::
  "manager_env \<Rightarrow> uuid \<Rightarrow> process_error + unit \<Rightarrow> start_oracle \<Rightarrow> json \<Rightarrow> json handler" where
  "edit_active env u stopped orc payload st =
     (case edit_request env payload of
        Inl e \<Rightarrow> (Err e, st)
      | Inr (expected, replacement) \<Rightarrow>
          (let i = r_id expected in
           case edit_begin env expected replacement st of
             (Inl e, st1) \<Rightarrow> (Err e, st1)
           | (Inr taken, st1) \<Rightarrow>
               if \<not> (case taken of Some a \<Rightarrow> is_active a | None \<Rightarrow> False)
               then (Err (Internal, [Txt (lit ''active attempt disappeared'')]), finish_edit i st1)
               else case stopped of
                 Inl err \<Rightarrow> edit_stop_failed env i err st1
               | Inr _ \<Rightarrow> (case edit_save env u i replacement st1 of
                   (Disappeared, st2) \<Rightarrow>
                     (Err (Internal, [Txt (lit ''reserved rule disappeared'')]), st2)
                 | (Saved saved, st2) \<Rightarrow>
                     (let (restart, st3) = start_with env orc False True (rule_ref env i) st2
                      in (edit_answer env i saved restart, finish_edit i st3)))))"

section \<open>Maintenance\<close>

definition exited_now :: "(managed \<Rightarrow> process_error + bool) \<Rightarrow> attempt \<Rightarrow> bool" where
  "exited_now exits a =
     (case a of AActive m \<Rightarrow> (case exits m of Inl _ \<Rightarrow> True | Inr b \<Rightarrow> b) | _ \<Rightarrow> False)"

definition due_now :: "nat \<Rightarrow> attempt \<Rightarrow> bool" where
  "due_now now a = (case a of AReconnecting due \<Rightarrow> due \<le> now | _ \<Rightarrow> False)"

text \<open>A connection that lasted a minute starts its retry schedule afresh.\<close>

definition reset_retries :: "nat \<Rightarrow> uuid \<Rightarrow> daemon \<Rightarrow> daemon" where
  "reset_retries now i st =
     (case map_of (dm_diagnostics st) i of
        None \<Rightarrow> st
      | Some info \<Rightarrow>
          (case ri_active_since info of
             None \<Rightarrow> st
           | Some since \<Rightarrow>
               if RESET_AFTER \<le> now - since then set_info i (info\<lparr>ri_retry_attempt := 0\<rparr>) st
               else st))"

definition ended_text :: rstr where
  "ended_text = lit ''the SSH connection ended unexpectedly''"

definition reconnect_enabled :: "daemon \<Rightarrow> uuid \<Rightarrow> bool" where
  "reconnect_enabled st i \<longleftrightarrow> (case find_rule st i of None \<Rightarrow> False | Some r \<Rightarrow> r_reconnect r)"

definition note_exit :: "nat \<Rightarrow> uuid \<Rightarrow> uuid \<Rightarrow> daemon \<Rightarrow> daemon" where
  "note_exit now new i st =
     (let failed_attempt = (case running_of st i of Some (AActive m) \<Rightarrow> ma_attempt_id m | _ \<Rightarrow> new);
          info = (info_of st i)\<lparr>ri_active_since := None,
            ri_last_error := Some (Unknown, ended_text)\<rparr> in
      if reconnect_enabled st i
      then set_running i
          (AReconnecting (now + full_jitter (ri_retry_attempt info) (uuid_entropy failed_attempt)))
          (set_info i (info\<lparr>ri_retry_attempt := saturating_succ (ri_retry_attempt info),
             ri_reconnect_count := saturating_succ (ri_reconnect_count info)\<rparr>) st)
      else set_running i AFailed (set_info i info st))"

record sweep =
  sw_reconnecting :: "uuid list"
  sw_terminal :: "uuid list"
  sw_retry :: "uuid list"

text \<open>The section of \<open>maintain\<close> under the lock.\<close>

definition maintain_locked ::
  "(managed \<Rightarrow> process_error + bool) \<Rightarrow> nat \<Rightarrow> uuid \<Rightarrow> daemon \<Rightarrow> sweep \<times> daemon" where
  "maintain_locked exits now new st =
     (let ids = (\<lambda>P. map fst (filter (\<lambda>(_, a). P a) (dm_running st)));
          exited = ids (exited_now exits);
          reset = ids (\<lambda>a. is_active a \<and> \<not> exited_now exits a);
          retry = ids (due_now now);
          st1 = fold (reset_retries now) reset st;
          st2 = fold (note_exit now new) exited st1;
          st3 = fold drop_running retry st2
      in (\<lparr>sw_reconnecting = filter (reconnect_enabled st) exited,
           sw_terminal = filter (\<lambda>i. \<not> reconnect_enabled st i) exited, sw_retry = retry\<rparr>, st3))"

definition report_reconnecting :: "manager_env \<Rightarrow> uuid \<Rightarrow> daemon \<Rightarrow> daemon" where
  "report_reconnecting env i st =
     publish ''rule_reconnecting'' (rule_ref env i)
       (log_event env LvInfo (rule_failed_log i ''rule_reconnecting'' Unknown ended_text)
         (log_event env LvError (rule_failed_log i ''rule_failed'' Unknown ended_text) st))"

definition report_terminal :: "manager_env \<Rightarrow> uuid \<Rightarrow> daemon \<Rightarrow> daemon" where
  "report_terminal env i st =
     publish ''rule_failed'' (rule_ref env i)
       (log_event env LvError (rule_failed_log i ''rule_failed'' Unknown ended_text) st)"

definition report_sweep :: "manager_env \<Rightarrow> sweep \<Rightarrow> daemon \<Rightarrow> daemon" where
  "report_sweep env sw st =
     fold (report_terminal env) (sw_terminal sw)
       (fold (report_reconnecting env) (sw_reconnecting sw) st)"

definition retry_rule :: "manager_env \<Rightarrow> (uuid \<Rightarrow> start_oracle) \<Rightarrow> uuid \<Rightarrow> daemon \<Rightarrow> daemon" where
  "retry_rule env os i st = snd (start_with env (os i) True False (rule_ref env i) st)"

definition maintain ::
  "manager_env \<Rightarrow> (managed \<Rightarrow> process_error + bool) \<Rightarrow> nat \<Rightarrow> uuid \<Rightarrow> (uuid \<Rightarrow> start_oracle) \<Rightarrow>
   daemon \<Rightarrow> daemon" where
  "maintain env exits now new os st =
     (let (sw, st1) = maintain_locked exits now new st
      in fold (retry_rule env os) (sw_retry sw) (report_sweep env sw st1))"

text \<open>\<open>start_supervisor\<close> first starts the rules marked for it, in their order.\<close>

definition restore_rules :: "manager_env \<Rightarrow> (uuid \<Rightarrow> start_oracle) \<Rightarrow> daemon \<Rightarrow> daemon" where
  "restore_rules env os st =
     fold (retry_rule env os) (map r_id (filter r_auto_start (dm_rules st))) st"

section \<open>Requests\<close>

record request_oracle =
  ro_fresh :: uuid
  ro_now :: nat
  ro_stopped :: "process_error + unit"
  ro_start :: start_oracle
  ro_exits :: "managed \<Rightarrow> process_error + bool"
  ro_retries :: "uuid \<Rightarrow> start_oracle"

definition handle ::
  "manager_env \<Rightarrow> request_oracle \<Rightarrow> request \<Rightarrow> daemon \<Rightarrow> (response \<times> daemon) option" where
  "handle env orc req st =
     (let st1 = (if rq_operation req = Status
            then maintain env (ro_exits orc) (ro_now orc) (ro_fresh orc) (ro_retries orc) st else st);
          payload = rq_payload req in
      map_option (\<lambda>(res, st2). (case res of
            Inr v \<Rightarrow> ipc_success (rq_request_id req) v
          | Inl (code, msg) \<Rightarrow> ipc_failure (rq_request_id req) code msg, st2))
        (case rq_operation req of
           ForwardStart \<Rightarrow> Some (start_with env (ro_start orc) False False payload st1)
         | ForwardStop \<Rightarrow> Some (stop_rule env (ro_stopped orc) payload st1)
         | ForwardEditActive \<Rightarrow>
             Some (edit_active env (ro_fresh orc) (ro_stopped orc) (ro_start orc) payload st1)
         | op \<Rightarrow> dispatch env (ro_fresh orc) (ro_now orc) op payload st1))"

lemma answered_id:
  "map_option (\<lambda>(res, st2). (case res of
      Inr v \<Rightarrow> ipc_success i v | Inl (code, msg) \<Rightarrow> ipc_failure i code msg, st2)) x = Some (resp, st') \<Longrightarrow>
   response_id resp = i"
  by (cases x) (auto split: sum.splits)

text \<open>No operation reaches the unreachable arm of the dispatch, and a response carries the id
  of its request.\<close>

lemma handle_answers:
  "\<exists>resp st'. handle env orc req st = Some (resp, st') \<and> response_id resp = rq_request_id req"
proof -
  have "handle env orc req st \<noteq> None"
    by (cases "rq_operation req") (simp_all add: handle_def dispatch_def Let_def)
  then obtain resp st' where "handle env orc req st = Some (resp, st')" by auto
  moreover from this have "response_id resp = rq_request_id req"
    unfolding handle_def Let_def by (rule answered_id)
  ultimately show ?thesis by blast
qed

end
