(* ===== verification/Daemon_Lemmas.thy ===== *)
theory Daemon_Lemmas
  imports Daemon_Manager
begin

text \<open>
  What each section of the manager's handlers does to each part of the state: the
  configuration (store, rules, settings), the running table, the rules being edited and
  those stopped by hand.
\<close>

section \<open>Frames of the small steps\<close>

lemma log_event_fields [simp]:
  "dm_store (log_event env l m st) = dm_store st" "dm_rules (log_event env l m st) = dm_rules st"
  "dm_settings (log_event env l m st) = dm_settings st"
  "dm_running (log_event env l m st) = dm_running st"
  "dm_diagnostics (log_event env l m st) = dm_diagnostics st"
  "dm_manually_stopped (log_event env l m st) = dm_manually_stopped st"
  "dm_editing (log_event env l m st) = dm_editing st"
  "dm_events (log_event env l m st) = dm_events st"
  by (simp_all add: log_event_def)

lemma publish_fields [simp]:
  "dm_store (publish n p st) = dm_store st" "dm_rules (publish n p st) = dm_rules st"
  "dm_settings (publish n p st) = dm_settings st" "dm_running (publish n p st) = dm_running st"
  "dm_diagnostics (publish n p st) = dm_diagnostics st"
  "dm_manually_stopped (publish n p st) = dm_manually_stopped st"
  "dm_editing (publish n p st) = dm_editing st"
  "dm_events (publish n p st) = dm_events st @ [(n, p)]"
  by (simp_all add: publish_def)

lemma set_running_fields [simp]:
  "dm_store (set_running i a st) = dm_store st" "dm_rules (set_running i a st) = dm_rules st"
  "dm_settings (set_running i a st) = dm_settings st"
  "dm_diagnostics (set_running i a st) = dm_diagnostics st"
  "dm_manually_stopped (set_running i a st) = dm_manually_stopped st"
  "dm_editing (set_running i a st) = dm_editing st"
  "dm_events (set_running i a st) = dm_events st"
  "dm_running (set_running i a st) = AList.update i a (dm_running st)"
  by (simp_all add: set_running_def)

lemma drop_running_fields [simp]:
  "dm_store (drop_running i st) = dm_store st" "dm_rules (drop_running i st) = dm_rules st"
  "dm_settings (drop_running i st) = dm_settings st"
  "dm_diagnostics (drop_running i st) = dm_diagnostics st"
  "dm_manually_stopped (drop_running i st) = dm_manually_stopped st"
  "dm_editing (drop_running i st) = dm_editing st"
  "dm_events (drop_running i st) = dm_events st"
  "dm_running (drop_running i st) = AList.delete i (dm_running st)"
  by (simp_all add: drop_running_def)

lemma set_info_fields [simp]:
  "dm_store (set_info i v st) = dm_store st" "dm_rules (set_info i v st) = dm_rules st"
  "dm_settings (set_info i v st) = dm_settings st" "dm_running (set_info i v st) = dm_running st"
  "dm_manually_stopped (set_info i v st) = dm_manually_stopped st"
  "dm_editing (set_info i v st) = dm_editing st" "dm_events (set_info i v st) = dm_events st"
  by (simp_all add: set_info_def)

lemma drop_info_fields [simp]:
  "dm_store (drop_info i st) = dm_store st" "dm_rules (drop_info i st) = dm_rules st"
  "dm_settings (drop_info i st) = dm_settings st" "dm_running (drop_info i st) = dm_running st"
  "dm_manually_stopped (drop_info i st) = dm_manually_stopped st"
  "dm_editing (drop_info i st) = dm_editing st" "dm_events (drop_info i st) = dm_events st"
  by (simp_all add: drop_info_def)

lemma finish_edit_fields [simp]:
  "dm_store (finish_edit i st) = dm_store st" "dm_rules (finish_edit i st) = dm_rules st"
  "dm_settings (finish_edit i st) = dm_settings st"
  "dm_running (finish_edit i st) = dm_running st"
  "dm_diagnostics (finish_edit i st) = dm_diagnostics st"
  "dm_manually_stopped (finish_edit i st) = dm_manually_stopped st"
  "dm_editing (finish_edit i st) = dm_editing st - {i}"
  "dm_events (finish_edit i st) = dm_events st"
  by (simp_all add: finish_edit_def)

lemma reset_retries_fields [simp]:
  "dm_store (reset_retries n i st) = dm_store st" "dm_rules (reset_retries n i st) = dm_rules st"
  "dm_settings (reset_retries n i st) = dm_settings st"
  "dm_running (reset_retries n i st) = dm_running st"
  "dm_manually_stopped (reset_retries n i st) = dm_manually_stopped st"
  "dm_editing (reset_retries n i st) = dm_editing st"
  "dm_events (reset_retries n i st) = dm_events st"
  by (simp_all add: reset_retries_def split: option.split)

lemma running_of_simps [simp]:
  "running_of (log_event env l m st) = running_of st" "running_of (publish n p st) = running_of st"
  "running_of (set_info i v st) = running_of st" "running_of (drop_info i st) = running_of st"
  "running_of (finish_edit i st) = running_of st" "running_of (reset_retries now i st) = running_of st"
  "running_of (set_running i a st) = (running_of st)(i := Some a)"
  "running_of (drop_running i st) = (running_of st)(i := None)"
  by (simp_all add: running_of_def fun_eq_iff update_conv' delete_conv')

lemma running_of_update [simp]:
  "running_of (st\<lparr>dm_manually_stopped := x\<rparr>) = running_of st"
  "running_of (st\<lparr>dm_editing := y\<rparr>) = running_of st"
  "running_of (st\<lparr>dm_rules := z\<rparr>) = running_of st"
  "running_of (st\<lparr>dm_settings := w\<rparr>) = running_of st"
  "running_of (st\<lparr>dm_store := v\<rparr>) = running_of st"
  by (simp_all add: running_of_def fun_eq_iff)

text \<open>The configuration a section leaves alone.\<close>

definition same_config :: "daemon \<Rightarrow> daemon \<Rightarrow> bool" where
  "same_config st st' \<longleftrightarrow> dm_store st' = dm_store st \<and> dm_rules st' = dm_rules st \<and>
     dm_settings st' = dm_settings st"

lemma same_config_refl [simp]: "same_config st st"
  by (simp add: same_config_def)

lemma same_config_trans: "same_config a b \<Longrightarrow> same_config b c \<Longrightarrow> same_config a c"
  by (simp add: same_config_def)

lemma find_rule_same: "same_config st st' \<Longrightarrow> find_rule st' = find_rule st"
  by (simp add: same_config_def find_rule_def fun_eq_iff)

lemma find_rule_Some: "find_rule st i = Some r \<Longrightarrow> r \<in> set (dm_rules st) \<and> r_id r = i"
  by (auto simp: find_rule_def find_Some_iff)

lemma find_rule_None: "find_rule st i = None \<longleftrightarrow> i \<notin> r_id ` set (dm_rules st)"
  by (auto simp: find_rule_def find_None_iff)

section \<open>Sections that keep the configuration\<close>

lemma start_reserve_config: "start_reserve env b a x y p st = (r, st') \<Longrightarrow> same_config st st'"
  by (auto simp: start_reserve_def same_config_def Let_def split: sum.splits option.splits if_splits)

lemma start_failed_config: "start_failed env n a x i r e st = (q, st') \<Longrightarrow> same_config st st'"
  by (auto simp: start_failed_def same_config_def Let_def split: if_splits)

lemma start_finished_config: "start_finished env n a x i m s st = (q, st') \<Longrightarrow> same_config st st'"
  by (auto simp: start_finished_def same_config_def Let_def split: if_splits option.splits sum.splits)

lemma stop_begin_config: "stop_begin env p st = (q, st') \<Longrightarrow> same_config st st'"
  by (auto simp: stop_begin_def same_config_def split: sum.splits if_splits)

lemma stop_end_config: "stop_end env s i t st = (q, st') \<Longrightarrow> same_config st st'"
  by (auto simp: stop_end_def same_config_def Let_def split: sum.splits if_splits)

lemma edit_begin_config: "edit_begin env e r st = (q, st') \<Longrightarrow> same_config st st'"
  by (auto simp: edit_begin_def same_config_def Let_def split: sum.splits if_splits option.splits)

lemma edit_stop_failed_config: "edit_stop_failed env i e st = (q, st') \<Longrightarrow> same_config st st'"
  by (auto simp: edit_stop_failed_def same_config_def Let_def)

lemma fold_frame:
  assumes "\<And>x s. f (g x s) = f s"
  shows "f (fold g xs s) = f s"
  using assms by (induction xs arbitrary: s) simp_all

lemma note_exit_fields [simp]:
  "dm_store (note_exit n u i st) = dm_store st" "dm_rules (note_exit n u i st) = dm_rules st"
  "dm_settings (note_exit n u i st) = dm_settings st"
  "dm_manually_stopped (note_exit n u i st) = dm_manually_stopped st"
  "dm_editing (note_exit n u i st) = dm_editing st" "dm_events (note_exit n u i st) = dm_events st"
  by (simp_all add: note_exit_def Let_def)

lemma maintain_locked_fields:
  assumes "maintain_locked ex n u st = (sw, st')"
  shows "same_config st st'" "dm_manually_stopped st' = dm_manually_stopped st"
    "dm_editing st' = dm_editing st" "dm_events st' = dm_events st"
  using assms
  by (auto simp: maintain_locked_def Let_def same_config_def fold_frame [where f = dm_store]
      fold_frame [where f = dm_rules] fold_frame [where f = dm_settings]
      fold_frame [where f = dm_manually_stopped] fold_frame [where f = dm_editing]
      fold_frame [where f = dm_events])

lemma report_sweep_fields:
  "same_config st (report_sweep env sw st)"
  "dm_manually_stopped (report_sweep env sw st) = dm_manually_stopped st"
  "dm_editing (report_sweep env sw st) = dm_editing st"
  "dm_running (report_sweep env sw st) = dm_running st"
  by (simp_all add: report_sweep_def same_config_def report_terminal_def report_reconnecting_def
      fold_frame [where f = dm_store] fold_frame [where f = dm_rules]
      fold_frame [where f = dm_settings] fold_frame [where f = dm_manually_stopped]
      fold_frame [where f = dm_editing] fold_frame [where f = dm_running])

section \<open>Sections that change the configuration\<close>

text \<open>The rules in memory are valid and are what the disk holds.\<close>

definition config_inv :: "manager_env \<Rightarrow> daemon \<Rightarrow> bool" where
  "config_inv env st \<longleftrightarrow> well_formed_rules (dm_rules st) \<and>
     (stored_config (me_toml env) (dm_store st) = Ok (Some (dm_rules st, dm_settings st)) \<or>
      (stored_config (me_toml env) (dm_store st) = Ok None \<and> dm_rules st = [] \<and>
       dm_settings st = default_settings))"

lemma config_inv_same: "config_inv env st \<Longrightarrow> same_config st st' \<Longrightarrow> config_inv env st'"
  by (simp add: config_inv_def same_config_def)

text \<open>The parts only start, stop, edit and maintenance touch.\<close>

definition same_runtime :: "daemon \<Rightarrow> daemon \<Rightarrow> bool" where
  "same_runtime st st' \<longleftrightarrow> dm_running st' = dm_running st \<and> dm_editing st' = dm_editing st \<and>
     dm_manually_stopped st' = dm_manually_stopped st \<and> dm_diagnostics st' = dm_diagnostics st"

lemma same_runtime_refl [simp]: "same_runtime st st"
  by (simp add: same_runtime_def)

lemma stored_bytes_config: "stored_bytes d' = stored_bytes d \<Longrightarrow> stored_config t d' = stored_config t d"
  by (simp add: stored_config_def)

lemma dm_save_cases:
  assumes "dm_save env u rules s st = (r, st')"
    and "toml_round_trip (me_toml env)" "list_all valid_rule rules"
  obtains dir where "st' = st\<lparr>dm_store := dir\<rparr>" "applied r" "well_formed_rules rules"
      "stored_config (me_toml env) dir = Ok (Some (rules, s))"
  | dir where "st' = st\<lparr>dm_store := dir\<rparr>" "\<not> applied r"
      "stored_config (me_toml env) dir = stored_config (me_toml env) (dm_store st)"
proof -
  obtain dir where sv: "save_config (me_toml env) (me_show_uuid env) u rules s (dm_store st) = (r, dir)"
    and st': "st' = st\<lparr>dm_store := dir\<rparr>"
    using assms(1) by (auto simp: dm_save_def split: prod.splits)
  show thesis
  proof (cases "applied r")
    case True
    from sv obtain text' where text': "render_config (me_toml env) rules s = Ok text'"
      using True by (rule_tac save_config_cases) (auto simp: load_error_def)
    from config.save_applied [OF sv True]
    have "stored_bytes dir = Some (render_bytes (me_toml env) rules s)" by simp
    with rendered_decodes [OF assms(2,3) text'] text'
    have "stored_config (me_toml env) dir = Ok (Some (rules, s))"
      by (simp add: stored_config_def render_bytes_def ok_or_def)
    with that(1) st' True config.commit_well_formed [OF sv True assms(3)] show thesis by blast
  next
    case False
    with that(2) st' stored_bytes_config config.save_refused [OF sv] show thesis by blast
  qed
qed

lemma save_outcome_applied: "is_ok (save_outcome r) \<longleftrightarrow> applied r"
proof (cases r)
  case (Inl e)
  then show ?thesis by (cases e) (simp_all add: save_outcome_def applied_def)
qed (simp add: save_outcome_def)

lemma save_outcome_cases:
  obtains e where "save_outcome r = Inl e" "\<not> applied r"
  | durability where "save_outcome r = Inr durability" "applied r"
  using save_outcome_applied [of r] by (cases "save_outcome r") auto

lemma commit_rules_cases:
  assumes "commit_rules env u nxt c a st = (q, st')"
    and "toml_round_trip (me_toml env)" "list_all valid_rule nxt" "config_inv env st"
  shows "config_inv env st' \<and> same_runtime st st' \<and>
    (dm_rules st' = dm_rules st \<or> dm_rules st' = nxt)"
proof -
  obtain r st1 where sv: "dm_save env u nxt (dm_settings st) st = (r, st1)" by fastforce
  from sv assms(2,3) show ?thesis
  proof (rule dm_save_cases)
    fix dir assume s1: "st1 = st\<lparr>dm_store := dir\<rparr>" "applied r" "well_formed_rules nxt"
      "stored_config (me_toml env) dir = Ok (Some (nxt, dm_settings st))"
    obtain d where "save_outcome r = Inr d" using s1(2) by (rule_tac save_outcome_cases [of r]) auto
    with assms(1) sv s1 have "st' = publish ''configuration_changed'' c (st1\<lparr>dm_rules := nxt\<rparr>)"
      by (auto simp: commit_rules_def Let_def)
    with s1 show ?thesis by (simp add: config_inv_def same_runtime_def)
  next
    fix dir assume s1: "st1 = st\<lparr>dm_store := dir\<rparr>" "\<not> applied r"
      "stored_config (me_toml env) dir = stored_config (me_toml env) (dm_store st)"
    obtain e where "save_outcome r = Inl e" using s1(2) by (rule_tac save_outcome_cases [of r]) auto
    with assms(1) sv have "st' = st1" by (auto simp: commit_rules_def Let_def)
    with s1 assms(4) show ?thesis by (simp add: config_inv_def same_runtime_def)
  qed
qed

lemma find_replace_first:
  "j \<noteq> i \<Longrightarrow> r_id r = i \<Longrightarrow> find (\<lambda>x. r_id x = j) (replace_first i r rs) = find (\<lambda>x. r_id x = j) rs"
  by (induction rs) auto

lemma ids_replace_first: "r_id r = i \<Longrightarrow> map r_id (replace_first i r rs) = map r_id rs"
  by (induction rs) auto

lemma set_replace_first: "set (replace_first i r rs) \<subseteq> insert r (set rs)"
  by (induction rs) auto

lemma valid_replace_first:
  "list_all valid_rule rs \<Longrightarrow> valid_rule r \<Longrightarrow> list_all valid_rule (replace_first i r rs)"
  using set_replace_first by (fastforce simp: list_all_iff)

text \<open>What a change of the rules does to the rule of one id.\<close>

definition rules_at :: "rule list \<Rightarrow> uuid \<Rightarrow> rule option" where
  "rules_at rs i = find (\<lambda>r. r_id r = i) rs"

lemma find_rule_at: "find_rule st i = rules_at (dm_rules st) i"
  by (simp add: find_rule_def rules_at_def)

lemma rules_at_append:
  "rules_at (rs @ ss) i = (case rules_at rs i of None \<Rightarrow> rules_at ss i | Some r \<Rightarrow> Some r)"
  by (induction rs) (simp_all add: rules_at_def)

lemma rules_at_None: "rules_at rs i = None \<longleftrightarrow> i \<notin> r_id ` set rs"
  by (auto simp: rules_at_def find_None_iff)

lemma rules_at_filter: "j \<noteq> i \<Longrightarrow> rules_at (filter (\<lambda>r. r_id r \<noteq> i) rs) j = rules_at rs j"
  by (induction rs) (auto simp: rules_at_def)

text \<open>
  A request handled under the lock keeps the invariant and the runtime tables, drops no
  rule that is running or being edited, and changes none of those.
\<close>

definition locked_effect :: "manager_env \<Rightarrow> daemon \<Rightarrow> daemon \<Rightarrow> bool" where
  "locked_effect env st st' \<longleftrightarrow> config_inv env st' \<and> same_runtime st st' \<and>
     (\<forall>i. i \<in> dm_editing st \<or> running_of st i \<noteq> None \<longrightarrow>
        find_rule st i \<noteq> None \<longrightarrow> find_rule st' i = find_rule st i)"

lemma locked_effect_refl: "config_inv env st \<Longrightarrow> locked_effect env st st"
  by (simp add: locked_effect_def)

lemma commit_rules_effect:
  assumes "commit_rules env u nxt c a st = (q, st')"
    and "toml_round_trip (me_toml env)" "list_all valid_rule nxt" "config_inv env st"
    and "\<And>i. i \<in> dm_editing st \<or> running_of st i \<noteq> None \<Longrightarrow> find_rule st i \<noteq> None \<Longrightarrow>
       rules_at nxt i = find_rule st i"
  shows "locked_effect env st st'"
  using commit_rules_cases [OF assms(1-4)] assms(5)
  by (auto simp: locked_effect_def find_rule_at)

lemma forward_add_effect:
  assumes "forward_add env u p st = (q, st')" "config_inv env st"
    and toml: "toml_round_trip (me_toml env)"
  shows "locked_effect env st st'"
proof (cases "de_rule (me_codec env) p")
  case (Some wire)
  show ?thesis
  proof (cases "domain_of_wire wire")
    case (Inr r)
    let ?i = "r_id r" and ?ex = "list_ex (\<lambda>x. r_id x = r_id r) (dm_rules st)"
    let ?nxt = "if ?ex then replace_first ?i r (dm_rules st) else dm_rules st @ [r]"
    from assms(1) Some Inr consider "st' = st"
      | "?i \<notin> dm_editing st" "\<not> (?ex \<and> running_of st ?i \<noteq> None)"
        "commit_rules env u ?nxt (rule_ref env ?i) (rule_ref env ?i) st = (q, st')"
      by (auto simp: forward_add_def Let_def split: if_splits sum.splits)
    then show ?thesis
    proof cases
      case 1
      then show ?thesis using assms(2) by (simp add: locked_effect_refl)
    next
      case 2
      have "list_all valid_rule (dm_rules st)"
        using assms(2) by (simp add: config_inv_def well_formed_rules_def)
      then have "list_all valid_rule ?nxt"
        using domain_of_wire_valid [OF Inr] by (simp add: valid_replace_first)
      from 2(3) toml this assms(2) show ?thesis
      proof (rule commit_rules_effect)
        fix j assume j: "j \<in> dm_editing st \<or> running_of st j \<noteq> None" "find_rule st j \<noteq> None"
        show "rules_at ?nxt j = find_rule st j"
        proof (cases "j = ?i")
          case True
          with j(2) have ?ex by (auto simp: find_rule_def find_None_iff list_ex_iff)
          with True j(1) 2(1,2) show ?thesis by blast
        next
          case False
          then show ?thesis
            using j(2) find_replace_first [of j ?i r]
            by (auto simp: find_rule_at rules_at_append) (simp add: rules_at_def)
        qed
      qed
    qed
  qed (use assms Some in \<open>simp add: forward_add_def locked_effect_refl\<close>)
qed (use assms in \<open>simp add: forward_add_def locked_effect_refl\<close>)

lemma forward_import_effect:
  assumes "forward_import env u p st = (q, st')" "config_inv env st"
    and toml: "toml_round_trip (me_toml env)"
  shows "locked_effect env st st'"
proof (cases "de_import (me_codec env) p")
  case (Some wires)
  show ?thesis
  proof (cases "collect_results domain_of_wire wires")
    case (Inr imported)
    from assms(1) Some Inr consider "st' = st"
      | a where "commit_rules env u (dm_rules st @ imported) a a st = (q, st')"
      by (auto simp: forward_import_def Let_def split: if_splits sum.splits option.splits)
    then show ?thesis
    proof cases
      case 1
      then show ?thesis using assms(2) by (simp add: locked_effect_refl)
    next
      case 2
      have "list_all valid_rule imported"
        using Inr by (auto simp: collect_results_Inr list_all_length list_all2_conv_all_nth
            dest: domain_of_wire_valid)
      then have "list_all valid_rule (dm_rules st @ imported)"
        using assms(2) by (simp add: config_inv_def well_formed_rules_def)
      from 2 toml this assms(2) show ?thesis
        by (rule commit_rules_effect) (auto simp: find_rule_at rules_at_append)
    qed
  qed (use assms Some in \<open>auto simp: forward_import_def locked_effect_refl split: if_splits\<close>)
qed (use assms in \<open>simp add: forward_import_def locked_effect_refl\<close>)

lemma forward_remove_effect:
  assumes "forward_remove env u p st = (q, st')" "config_inv env st"
    and toml: "toml_round_trip (me_toml env)"
  shows "locked_effect env st st'"
proof (cases "rule_id_of env p st")
  case (Inr i)
  let ?nxt = "filter (\<lambda>r. r_id r \<noteq> i) (dm_rules st)"
  from assms(1) Inr consider "st' = st"
    | a where "i \<notin> dm_editing st" "running_of st i = None"
      "commit_rules env u ?nxt (rule_ref env i) a st = (q, st')"
    by (auto simp: forward_remove_def Let_def split: if_splits)
  then show ?thesis
  proof cases
    case 1
    then show ?thesis using assms(2) by (simp add: locked_effect_refl)
  next
    case 2
    have "list_all valid_rule ?nxt"
      using assms(2) by (auto simp: config_inv_def well_formed_rules_def list_all_iff)
    from 2(3) toml this assms(2) show ?thesis
      by (rule commit_rules_effect) (use 2 in \<open>auto simp: find_rule_at intro: rules_at_filter\<close>)
  qed
qed (use assms in \<open>simp add: forward_remove_def locked_effect_refl\<close>)

lemma settings_update_effect:
  assumes "settings_update env u p st = (q, st')" "config_inv env st"
    and toml: "toml_round_trip (me_toml env)"
  shows "locked_effect env st st'"
proof (cases "de_settings (me_codec env) p")
  case (Some new)
  obtain r st1 where sv: "dm_save env u (dm_rules st) new st = (r, st1)" by fastforce
  have "list_all valid_rule (dm_rules st)"
    using assms(2) by (simp add: config_inv_def well_formed_rules_def)
  from sv toml this show ?thesis
  proof (rule dm_save_cases)
    fix dir assume s1: "st1 = st\<lparr>dm_store := dir\<rparr>" "applied r" "well_formed_rules (dm_rules st)"
      "stored_config (me_toml env) dir = Ok (Some (dm_rules st, new))"
    obtain d where "save_outcome r = Inr d" using s1(2) by (rule_tac save_outcome_cases [of r]) auto
    with assms(1) Some sv s1 have "st' = publish ''settings_changed''
        (ser_settings (me_codec env) new) (st1\<lparr>dm_settings := new\<rparr>)"
      by (auto simp: settings_update_def Let_def)
    with s1 show ?thesis
      by (simp add: locked_effect_def config_inv_def same_runtime_def find_rule_def)
  next
    fix dir assume s1: "st1 = st\<lparr>dm_store := dir\<rparr>" "\<not> applied r"
      "stored_config (me_toml env) dir = stored_config (me_toml env) (dm_store st)"
    obtain e where "save_outcome r = Inl e" using s1(2) by (rule_tac save_outcome_cases [of r]) auto
    with assms(1) Some sv have "st' = st1" by (auto simp: settings_update_def Let_def)
    with s1 assms(2) show ?thesis
      by (simp add: locked_effect_def config_inv_def same_runtime_def find_rule_def)
  qed
qed (use assms in \<open>simp add: settings_update_def locked_effect_refl\<close>)

lemma dispatch_effect:
  assumes "dispatch env u now op p st = Some (q, st')" "config_inv env st"
    and toml: "toml_round_trip (me_toml env)"
  shows "locked_effect env st st'"
  using assms
  by (cases op)
    (auto simp: dispatch_def locked_effect_refl
      intro: forward_add_effect forward_import_effect forward_remove_effect settings_update_effect)

text \<open>The save of an edit replaces one rule, which the edit has reserved.\<close>

lemma edit_save_effect:
  assumes "edit_save env u i replacement st = (res, st')" "config_inv env st"
    and toml: "toml_round_trip (me_toml env)"
    and repl: "valid_rule replacement" "r_id replacement = i" and found: "find_rule st i \<noteq> None"
  shows "(\<exists>r. res = Saved r) \<and> config_inv env st' \<and> same_runtime st st' \<and>
    (\<forall>j. j \<noteq> i \<longrightarrow> find_rule st' j = find_rule st j) \<and> find_rule st' i \<noteq> None"
proof -
  let ?st = "publish ''rule_stopped'' (rule_ref env i) st"
  let ?nxt = "replace_first i replacement (dm_rules st)"
  have same: "find_rule ?st = find_rule st" by (rule find_rule_same) (simp add: same_config_def)
  have keep: "config_inv env ?st" using assms(2) by (simp add: config_inv_def)
  have valid: "list_all valid_rule ?nxt"
    using assms(2) repl(1) by (simp add: config_inv_def well_formed_rules_def valid_replace_first)
  have others: "rules_at ?nxt j = rules_at (dm_rules st) j" if "j \<noteq> i" for j
    using find_replace_first [OF that repl(2)] by (simp add: rules_at_def)
  have stays: "rules_at ?nxt i \<noteq> None"
  proof -
    have "i \<in> set (map r_id (dm_rules st))"
      using found by (auto simp: find_rule_at rules_at_None)
    then have "i \<in> set (map r_id ?nxt)" using ids_replace_first [OF repl(2)] by simp
    then show ?thesis by (auto simp: rules_at_None)
  qed
  show ?thesis
  proof (cases "validate_rule_set ?nxt")
    case (Inl e)
    with assms(1) found same keep show ?thesis
      by (auto simp: edit_save_def Let_def same_runtime_def)
  next
    case (Inr v)
    obtain r st1 where sv: "dm_save env u ?nxt (dm_settings ?st) ?st = (r, st1)" by fastforce
    with assms(1) found same Inr have res: "res = Saved r"
      and st': "st' = (if applied r
          then publish ''configuration_changed'' (rule_ref env i) (st1\<lparr>dm_rules := ?nxt\<rparr>) else st1)"
      by (auto simp: edit_save_def Let_def)
    from sv toml valid show ?thesis
    proof (rule dm_save_cases)
      fix dir assume "st1 = ?st\<lparr>dm_store := dir\<rparr>" "applied r" "well_formed_rules ?nxt"
        "stored_config (me_toml env) dir = Ok (Some (?nxt, dm_settings ?st))"
      with st' res others stays show ?thesis
        by (simp add: config_inv_def same_runtime_def find_rule_at)
    next
      fix dir assume "st1 = ?st\<lparr>dm_store := dir\<rparr>" "\<not> applied r"
        "stored_config (me_toml env) dir = stored_config (me_toml env) (dm_store ?st)"
      with st' res keep found show ?thesis
        by (simp add: config_inv_def same_runtime_def find_rule_at)
    qed
  qed
qed

end
