(* ===== verification/Attempt_Table.thy ===== *)
theory Attempt_Table
  imports Daemon_Manager
begin

text \<open>
  The abstract specification of the daemon's concurrency: what its table of attempts, the
  rules being edited, the rules stopped by hand and the calls in flight between two
  sections of the lock may do, without the configuration store, the diagnostics or the
  codecs. The invariants are proved here once; \<open>Daemon_System\<close> shows that the manager's
  sections implement these steps.
\<close>

text \<open>A thread that released the lock and has still to come back.\<close>

datatype flight =
    FStart uuid uuid rule bool
  | FStop uuid "attempt option"
  | FEditStop uuid rule managed
  | FEditRestart uuid "store_error + unit"
  | FEditDone uuid

text \<open>A start that a client asked for by name of the rule, or anything else.\<close>

datatype label = Explicit uuid | Quiet

record table =
  at_rules :: "uuid \<Rightarrow> rule option"
  at_run :: "uuid \<Rightarrow> attempt option"
  at_edit :: "uuid set"
  at_stop :: "uuid set"
  at_flights :: "flight list"
  at_live :: "uuid set"
  at_used :: "uuid set"

fun attempt_pids :: "attempt option \<Rightarrow> uuid list" where
  "attempt_pids (Some (AActive m)) = [ma_attempt_id m]"
| "attempt_pids _ = []"

fun fl_pids :: "flight \<Rightarrow> uuid list" where
  "fl_pids (FStop i t) = attempt_pids t"
| "fl_pids (FEditStop i r m) = [ma_attempt_id m]"
| "fl_pids _ = []"

fun fl_edit :: "flight \<Rightarrow> uuid list" where
  "fl_edit (FEditStop i r m) = [i]"
| "fl_edit (FEditRestart i s) = [i]"
| "fl_edit (FEditDone i) = [i]"
| "fl_edit (FStart a i r eo) = (if eo then [i] else [])"
| "fl_edit _ = []"

fun fl_attempt :: "flight \<Rightarrow> uuid list" where
  "fl_attempt (FStart a i r eo) = [a]"
| "fl_attempt _ = []"

definition flight_pids :: "flight list \<Rightarrow> uuid list" where
  "flight_pids fs = concat (map fl_pids fs)"

definition flight_edits :: "flight list \<Rightarrow> uuid list" where
  "flight_edits fs = concat (map fl_edit fs)"

definition flight_attempts :: "flight list \<Rightarrow> uuid list" where
  "flight_attempts fs = concat (map fl_attempt fs)"

lemma flight_simps [simp]:
  "flight_pids [] = []" "flight_pids (f # fs) = fl_pids f @ flight_pids fs"
  "flight_pids (fs @ gs) = flight_pids fs @ flight_pids gs"
  "flight_edits [] = []" "flight_edits (f # fs) = fl_edit f @ flight_edits fs"
  "flight_edits (fs @ gs) = flight_edits fs @ flight_edits gs"
  "flight_attempts [] = []" "flight_attempts (f # fs) = fl_attempt f @ flight_attempts fs"
  "flight_attempts (fs @ gs) = flight_attempts fs @ flight_attempts gs"
  by (simp_all add: flight_pids_def flight_edits_def flight_attempts_def)

definition idle :: "attempt option \<Rightarrow> bool" where
  "idle a \<longleftrightarrow> a = None \<or> a = Some AFailed"

definition waiting :: "attempt option \<Rightarrow> bool" where
  "waiting a \<longleftrightarrow> a = Some AFailed \<or> (\<exists>due. a = Some (AReconnecting due))"

text \<open>What one pass of the supervisor may do to the entry of a rule.\<close>

definition swept :: "attempt option \<Rightarrow> attempt option \<Rightarrow> bool" where
  "swept old new \<longleftrightarrow> new = old \<or> (\<exists>m. old = Some (AActive m) \<and> waiting new) \<or>
     (\<exists>due. old = Some (AReconnecting due) \<and> new = None)"

inductive at_step :: "table \<Rightarrow> label \<Rightarrow> table \<Rightarrow> bool" where
  at_config: "(\<And>i. i \<in> at_edit s \<or> at_run s i \<noteq> None \<Longrightarrow> at_rules s i \<noteq> None \<Longrightarrow> rs i = at_rules s i) \<Longrightarrow>
    at_step s Quiet (s\<lparr>at_rules := rs\<rparr>)"
| at_answer: "run = at_run s \<or> (at_run s i = Some AFailed \<and> i \<notin> at_edit s \<and> run = (at_run s)(i := None)) \<Longrightarrow>
    stop = at_stop s \<or> (l = Explicit i \<and> stop = at_stop s - {i}) \<Longrightarrow>
    at_step s l (s\<lparr>at_run := run, at_stop := stop\<rparr>)"
| at_reserve: "at_rules s i = Some r \<Longrightarrow> i \<notin> at_edit s \<Longrightarrow> idle (at_run s i) \<Longrightarrow> a \<notin> at_used s \<Longrightarrow>
    (l = Explicit i \<and> stop = at_stop s - {i}) \<or> (l = Quiet \<and> i \<notin> at_stop s \<and> stop = at_stop s) \<Longrightarrow>
    at_step s l (s\<lparr>at_run := (at_run s)(i := Some (AStarting a)), at_stop := stop,
      at_flights := FStart a i r False # at_flights s, at_used := insert a (at_used s)\<rparr>)"
| at_started: "at_flights s = fs @ FStart a i r eo # gs \<Longrightarrow> ma_attempt_id m \<notin> at_used s \<Longrightarrow>
    at_run s i = Some (AStarting a) \<Longrightarrow>
    at_step s Quiet (s\<lparr>at_run := (at_run s)(i := Some (AActive m)),
      at_stop := (if eo then at_stop s - {i} else at_stop s),
      at_flights := fs @ (if eo then [FEditDone i] else []) @ gs,
      at_live := insert (ma_attempt_id m) (at_live s),
      at_used := insert (ma_attempt_id m) (at_used s)\<rparr>)"
| at_superseded: "at_flights s = fs @ FStart a i r False # gs \<Longrightarrow> at_run s i \<noteq> Some (AStarting a) \<Longrightarrow>
    at_step s Quiet (s\<lparr>at_flights := fs @ gs\<rparr>)"
| at_start_failed: "at_flights s = fs @ FStart a i r eo # gs \<Longrightarrow> at_run s i = Some (AStarting a) \<Longrightarrow>
    (if eo then new = None else waiting new) \<Longrightarrow>
    at_step s Quiet (s\<lparr>at_run := (at_run s)(i := new),
      at_flights := fs @ (if eo then [FEditDone i] else []) @ gs\<rparr>)"
| at_stop_begin: "at_rules s i \<noteq> None \<Longrightarrow> i \<notin> at_edit s \<Longrightarrow>
    at_step s Quiet (s\<lparr>at_run := (at_run s)(i := None), at_stop := insert i (at_stop s),
      at_flights := FStop i (at_run s i) # at_flights s\<rparr>)"
| at_stop_end: "at_flights s = fs @ FStop i t # gs \<Longrightarrow>
    at_step s Quiet (s\<lparr>at_flights := fs @ gs, at_live := at_live s - set (attempt_pids t)\<rparr>)"
| at_edit_begin: "at_rules s i \<noteq> None \<Longrightarrow> i \<notin> at_edit s \<Longrightarrow> at_run s i = Some (AActive m) \<Longrightarrow>
    at_step s Quiet (s\<lparr>at_run := (at_run s)(i := None), at_edit := insert i (at_edit s),
      at_stop := insert i (at_stop s), at_flights := FEditStop i r m # at_flights s\<rparr>)"
| at_edit_stop_failed: "at_flights s = fs @ FEditStop i r m # gs \<Longrightarrow>
    at_step s Quiet (s\<lparr>at_run := (at_run s)(i := Some AFailed), at_edit := at_edit s - {i},
      at_flights := fs @ gs, at_live := at_live s - {ma_attempt_id m}\<rparr>)"
| at_edit_saved: "at_flights s = fs @ FEditStop i r m # gs \<Longrightarrow>
    (\<And>j. j \<noteq> i \<Longrightarrow> rs j = at_rules s j) \<Longrightarrow> rs i \<noteq> None \<Longrightarrow>
    at_step s Quiet (s\<lparr>at_rules := rs, at_flights := fs @ FEditRestart i saved # gs,
      at_live := at_live s - {ma_attempt_id m}\<rparr>)"
| at_edit_answer: "at_flights s = fs @ FEditRestart i saved # gs \<Longrightarrow>
    run = at_run s \<or> (at_run s i = Some AFailed \<and> run = (at_run s)(i := None)) \<Longrightarrow>
    at_step s Quiet (s\<lparr>at_run := run, at_flights := fs @ FEditDone i # gs\<rparr>)"
| at_edit_done: "at_flights s = fs @ FEditDone i # gs \<Longrightarrow>
    at_step s Quiet (s\<lparr>at_edit := at_edit s - {i}, at_flights := fs @ gs\<rparr>)"
| at_edit_reserve: "at_flights s = fs @ FEditRestart i saved # gs \<Longrightarrow> at_rules s i = Some r \<Longrightarrow>
    idle (at_run s i) \<Longrightarrow> a \<notin> at_used s \<Longrightarrow>
    at_step s Quiet (s\<lparr>at_run := (at_run s)(i := Some (AStarting a)),
      at_flights := fs @ FStart a i r True # gs, at_used := insert a (at_used s)\<rparr>)"
| at_sweep: "(\<And>j. swept (at_run s j) (run j)) \<Longrightarrow>
    at_step s Quiet (s\<lparr>at_run := run, at_live := at_live s -
      {ma_attempt_id m | m j. at_run s j = Some (AActive m) \<and> run j \<noteq> at_run s j}\<rparr>)"

section \<open>The invariant\<close>

definition inv_rules :: "table \<Rightarrow> bool" where
  "inv_rules s \<longleftrightarrow> (\<forall>i. i \<in> at_edit s \<or> at_run s i \<noteq> None \<longrightarrow> at_rules s i \<noteq> None)"

definition inv_attempts :: "table \<Rightarrow> bool" where
  "inv_attempts s \<longleftrightarrow> distinct (flight_attempts (at_flights s)) \<and>
     set (flight_attempts (at_flights s)) \<subseteq> at_used s \<and>
     (\<forall>i a. at_run s i = Some (AStarting a) \<longrightarrow> (\<exists>r eo. FStart a i r eo \<in> set (at_flights s)))"

fun edit_ok :: "(uuid \<Rightarrow> attempt option) \<Rightarrow> flight \<Rightarrow> bool" where
  "edit_ok run (FEditStop i r m) = (run i = None)"
| "edit_ok run (FEditRestart i saved) = (run i = None)"
| "edit_ok run (FEditDone i) = (\<forall>a. run i \<noteq> Some (AStarting a))"
| "edit_ok run (FStart a i r eo) = (eo \<longrightarrow> run i = Some (AStarting a))"
| "edit_ok run _ = True"

definition inv_edits :: "table \<Rightarrow> bool" where
  "inv_edits s \<longleftrightarrow> distinct (flight_edits (at_flights s)) \<and>
     set (flight_edits (at_flights s)) = at_edit s \<and>
     (\<forall>f \<in> set (at_flights s). edit_ok (at_run s) f)"

definition run_pids :: "(uuid \<Rightarrow> attempt option) \<Rightarrow> uuid set" where
  "run_pids run = {p. \<exists>i. p \<in> set (attempt_pids (run i))}"

definition own_once :: "(uuid \<Rightarrow> attempt option) \<Rightarrow> bool" where
  "own_once run \<longleftrightarrow> (\<forall>i j p. p \<in> set (attempt_pids (run i)) \<longrightarrow> p \<in> set (attempt_pids (run j)) \<longrightarrow> i = j)"

definition inv_live :: "table \<Rightarrow> bool" where
  "inv_live s \<longleftrightarrow> at_live s = run_pids (at_run s) \<union> set (flight_pids (at_flights s)) \<and>
     run_pids (at_run s) \<inter> set (flight_pids (at_flights s)) = {} \<and>
     distinct (flight_pids (at_flights s)) \<and> own_once (at_run s) \<and> at_live s \<subseteq> at_used s"

definition table_inv :: "table \<Rightarrow> bool" where
  "table_inv s \<longleftrightarrow> inv_rules s \<and> inv_attempts s \<and> inv_edits s \<and> inv_live s"

lemma swept_AStarting: "swept old new \<Longrightarrow> new = Some (AStarting a) \<Longrightarrow> old = new"
  by (auto simp: swept_def waiting_def)

lemma swept_AActive: "swept old new \<Longrightarrow> new = Some (AActive m) \<Longrightarrow> old = new"
  by (auto simp: swept_def waiting_def)

lemma swept_None: "swept None new \<longleftrightarrow> new = None"
  by (auto simp: swept_def)

lemma swept_Starting: "swept (Some (AStarting a)) new \<longleftrightarrow> new = Some (AStarting a)"
  by (auto simp: swept_def)

lemmas swept_simps = swept_None swept_Starting

lemma inv_rules_config:
  "inv_rules s \<Longrightarrow> (\<And>i. i \<in> at_edit s \<or> at_run s i \<noteq> None \<Longrightarrow> at_rules s i \<noteq> None \<Longrightarrow> rs i = at_rules s i) \<Longrightarrow>
   inv_rules (s\<lparr>at_rules := rs\<rparr>)"
  by (auto simp: inv_rules_def)

lemma inv_rules_run:
  "inv_rules s \<Longrightarrow> at_rules s' = at_rules s \<Longrightarrow>
   (\<And>i. i \<in> at_edit s' \<Longrightarrow> i \<in> at_edit s \<or> at_rules s i \<noteq> None) \<Longrightarrow>
   (\<And>i. at_run s' i \<noteq> None \<Longrightarrow> i \<in> at_edit s \<or> at_run s i \<noteq> None \<or> at_rules s i \<noteq> None) \<Longrightarrow>
   inv_rules s'"
  unfolding inv_rules_def by metis

lemma inv_rules_step: "at_step s l s' \<Longrightarrow> inv_rules s \<Longrightarrow> inv_edits s \<Longrightarrow> inv_rules s'"
proof (induction rule: at_step.induct)
  case (at_config s rs)
  then show ?case by (intro inv_rules_config)
next
  case (at_edit_saved s fs i r m gs rs saved)
  then show ?case by (simp add: inv_rules_def) metis
next
  case (at_sweep s run)
  have "run j \<noteq> None \<Longrightarrow> at_run s j \<noteq> None" for j
    using at_sweep(1) [of j] swept_None by metis
  then show ?case by (intro inv_rules_run [OF at_sweep(2)]) simp_all
next
  case (at_edit_stop_failed s fs i r m gs)
  then have "i \<in> at_edit s" by (simp add: inv_edits_def) blast
  then show ?case
    by (intro inv_rules_run [OF at_edit_stop_failed(2)]) (auto split: if_splits)
next
  case (at_answer run s i stop l)
  show ?case
    by (rule inv_rules_run [OF at_answer(3)]) (use at_answer(1) in \<open>auto split: if_splits\<close>)
next
  case (at_edit_answer s fs i saved gs run)
  show ?case
    by (rule inv_rules_run [OF at_edit_answer(3)]) (use at_edit_answer(2) in \<open>auto split: if_splits\<close>)
qed (erule inv_rules_run; auto split: if_splits)+

text \<open>Every starting entry belongs to a call in flight.\<close>

lemma inv_attempts_drop:
  assumes "inv_attempts s" "at_flights s = fs @ f # gs" "at_flights s' = fs @ hs @ gs"
    "at_used s \<subseteq> at_used s'"
    "\<And>i a. at_run s' i = Some (AStarting a) \<Longrightarrow>
       at_run s i = Some (AStarting a) \<and> (\<forall>r eo. f \<noteq> FStart a i r eo)"
    "flight_attempts hs = []"
  shows "inv_attempts s'"
proof -
  have "\<exists>r eo. FStart a i r eo \<in> set (at_flights s')" if "at_run s' i = Some (AStarting a)" for i a
  proof -
    from assms(1) assms(5) [OF that] obtain r eo where "FStart a i r eo \<in> set (at_flights s)"
      unfolding inv_attempts_def by blast
    with assms(2,3) assms(5) [OF that] show ?thesis by auto
  qed
  moreover have "distinct (flight_attempts (at_flights s'))"
    "set (flight_attempts (at_flights s')) \<subseteq> at_used s'"
    using assms(1-4,6) by (auto simp: inv_attempts_def)
  ultimately show ?thesis by (simp add: inv_attempts_def)
qed

lemma inv_attempts_same:
  assumes "inv_attempts s" "at_flights s' = at_flights s" "at_used s \<subseteq> at_used s'"
    "\<And>i a. at_run s' i = Some (AStarting a) \<Longrightarrow> at_run s i = Some (AStarting a)"
  shows "inv_attempts s'"
  using assms unfolding inv_attempts_def by (metis subset_trans)

lemma inv_attempts_step: "at_step s l s' \<Longrightarrow> inv_attempts s \<Longrightarrow> inv_attempts s'"
proof (induction rule: at_step.induct)
  case (at_answer run s i stop l)
  show ?case
    by (rule inv_attempts_same [OF at_answer(3)]) (use at_answer(1) in \<open>auto split: if_splits\<close>)
next
  case (at_reserve s i r a l stop)
  then show ?case by (auto simp: inv_attempts_def)
next
  case (at_started s fs a i r eo gs m)
  show ?case
    by (rule inv_attempts_drop [OF at_started(4,1), where hs = "if eo then [FEditDone i] else []"]) (auto split: if_splits)
next
  case (at_superseded s fs a i r gs)
  show ?case
    by (rule inv_attempts_drop [OF at_superseded(3,1), where hs = "[]"]) (use at_superseded(2) in auto)
next
  case (at_start_failed s fs a i r eo gs new)
  show ?case
    by (rule inv_attempts_drop [OF at_start_failed(4,1), where hs = "if eo then [FEditDone i] else []"])
      (use at_start_failed(3) in \<open>auto simp: waiting_def split: if_splits\<close>)
next
  case (at_stop_begin s i)
  then show ?case by (auto simp: inv_attempts_def)
next
  case (at_stop_end s fs i t gs)
  show ?case by (rule inv_attempts_drop [OF at_stop_end(2,1), where hs = "[]"]) auto
next
  case (at_edit_begin s i m r)
  then show ?case by (auto simp: inv_attempts_def)
next
  case (at_edit_stop_failed s fs i r m gs)
  show ?case
    by (rule inv_attempts_drop [OF at_edit_stop_failed(2,1), where hs = "[]"]) (auto split: if_splits)
next
  case (at_edit_saved s fs i r m gs rs saved)
  then show ?case by (fastforce simp: inv_attempts_def)
next
  case (at_edit_answer s fs i saved gs run)
  show ?case
    by (rule inv_attempts_drop [OF at_edit_answer(3,1), where hs = "[FEditDone i]"])
      (use at_edit_answer(2) in \<open>auto split: if_splits\<close>)
next
  case (at_edit_done s fs i gs)
  show ?case by (rule inv_attempts_drop [OF at_edit_done(2,1), where hs = "[]"]) auto
next
  case (at_edit_reserve s fs i saved gs r a)
  then show ?case by (fastforce simp: inv_attempts_def)
next
  case (at_sweep s run)
  show ?case
    by (rule inv_attempts_same [OF at_sweep(2)]) (use at_sweep(1) swept_AStarting in \<open>simp_all, metis\<close>)
qed (simp add: inv_attempts_def)

text \<open>The rules being edited are those of the edits in flight, one edit each.\<close>

lemma edit_ok_cong: "(\<And>j. j \<in> set (fl_edit f) \<Longrightarrow> run' j = run j) \<Longrightarrow> edit_ok run f \<Longrightarrow> edit_ok run' f"
  by (cases f) auto

lemma fl_edit_in: "f \<in> set fs \<Longrightarrow> set (fl_edit f) \<subseteq> set (flight_edits fs)"
  by (auto simp: flight_edits_def)

lemma fl_attempt_in: "FStart a i r eo \<in> set fs \<Longrightarrow> a \<in> set (flight_attempts fs)"
  by (force simp: flight_attempts_def)

lemma inv_edits_move:
  assumes inv: "inv_edits s" and fl: "at_flights s = fs @ f # gs" "at_flights s' = fs @ hs @ gs"
    and hs: "distinct (flight_edits hs)" "set (flight_edits hs) \<subseteq> set (fl_edit f)"
      "\<forall>h \<in> set hs. edit_ok (at_run s') h"
    and ed: "at_edit s' = at_edit s - set (fl_edit f) \<union> set (flight_edits hs)"
    and run: "\<And>j. j \<in> at_edit s - set (fl_edit f) \<Longrightarrow> at_run s' j = at_run s j"
  shows "inv_edits s'"
proof -
  have rest: "edit_ok (at_run s') g" if "g \<in> set fs \<union> set gs" for g
  proof (rule edit_ok_cong)
    show "edit_ok (at_run s) g" using inv fl that by (auto simp: inv_edits_def)
    show "at_run s' j = at_run s j" if "j \<in> set (fl_edit g)" for j
      using inv fl(1) that \<open>g \<in> set fs \<union> set gs\<close> fl_edit_in [of g fs] fl_edit_in [of g gs]
      by (intro run) (auto simp: inv_edits_def)
  qed
  have "distinct (flight_edits (at_flights s'))"
    using inv fl hs(1,2) by (auto simp: inv_edits_def)
  moreover have "set (flight_edits (at_flights s')) = at_edit s'"
    using inv fl hs(2) ed by (auto simp: inv_edits_def)
  ultimately show ?thesis using rest hs(3) fl(2) by (auto simp: inv_edits_def)
qed

lemma inv_edits_push:
  assumes "inv_edits s" "at_flights s' = f # at_flights s" "distinct (fl_edit f)"
    "set (fl_edit f) \<inter> at_edit s = {}" "at_edit s' = at_edit s \<union> set (fl_edit f)"
    "edit_ok (at_run s') f" "\<And>j. j \<in> at_edit s \<Longrightarrow> at_run s' j = at_run s j"
  shows "inv_edits s'"
proof -
  have "edit_ok (at_run s') g" if "g \<in> set (at_flights s)" for g
    by (rule edit_ok_cong [of g _ "at_run s"])
      (use assms(1,7) that fl_edit_in [OF that] in \<open>auto simp: inv_edits_def\<close>)
  with assms(1-6) show ?thesis by (auto simp: inv_edits_def)
qed

lemma inv_edits_same:
  assumes "inv_edits s" "at_flights s' = at_flights s" "at_edit s' = at_edit s"
    "\<And>j. j \<in> at_edit s \<Longrightarrow> at_run s' j = at_run s j"
  shows "inv_edits s'"
proof -
  have "edit_ok (at_run s') g" if "g \<in> set (at_flights s)" for g
    by (rule edit_ok_cong [of g _ "at_run s"])
      (use assms(1,4) that fl_edit_in [OF that] in \<open>auto simp: inv_edits_def\<close>)
  with assms show ?thesis by (simp add: inv_edits_def)
qed

text \<open>While a rule is edited it only starts on behalf of that edit.\<close>

lemma edited_entry:
  assumes "inv_edits s" "i \<in> at_edit s" "at_run s i = Some (AStarting a)"
  shows "\<exists>r. FStart a i r True \<in> set (at_flights s)"
proof -
  from assms have "i \<in> set (flight_edits (at_flights s))" by (simp add: inv_edits_def)
  then obtain f where f: "f \<in> set (at_flights s)" "i \<in> set (fl_edit f)"
    by (auto simp: flight_edits_def)
  have "edit_ok (at_run s) f" using assms(1) f by (simp add: inv_edits_def)
  show ?thesis
    by (cases f) (use f \<open>edit_ok (at_run s) f\<close> assms(3) in \<open>auto split: if_splits\<close>)
qed

lemma own_start_edited:
  assumes "inv_edits s" "inv_attempts s" "at_flights s = fs @ FStart a i r eo # gs"
    "at_run s i = Some (AStarting a)" "i \<in> at_edit s"
  shows "eo"
proof -
  from edited_entry [OF assms(1,5,4)] obtain r' where "FStart a i r' True \<in> set (at_flights s)"
    by auto
  moreover have "FStart a i r' True \<notin> set fs \<union> set gs"
    using assms(2,3) by (auto simp: inv_attempts_def dest: fl_attempt_in)
  ultimately show ?thesis using assms(3) by auto
qed

lemma edit_ok_swept:
  assumes "edit_ok (at_run s) f" "\<And>j. swept (at_run s j) (run j)"
  shows "edit_ok run f"
proof (cases f)
  case (FEditDone i)
  with assms(1) swept_AStarting [OF assms(2) [of i]] show ?thesis by auto
next
  case (FStart a i r eo)
  with assms(1) assms(2) [of i] show ?thesis by (auto simp: swept_Starting)
next
  case (FEditStop i r m)
  with assms(1) assms(2) [of i] show ?thesis by (auto simp: swept_None)
next
  case (FEditRestart i saved)
  with assms(1) assms(2) [of i] show ?thesis by (auto simp: swept_None)
qed simp

lemma inv_edits_step:
  "at_step s l s' \<Longrightarrow> inv_edits s \<Longrightarrow> inv_attempts s \<Longrightarrow> inv_edits s'"
proof (induction rule: at_step.induct)
  case (at_config s rs)
  show ?case by (rule inv_edits_same [OF at_config(2)]) auto
next
  case (at_answer run s i stop l)
  show ?case
    by (rule inv_edits_same [OF at_answer(3)]) (use at_answer(1) in \<open>auto split: if_splits\<close>)
next
  case (at_reserve s i r a l stop)
  show ?case by (rule inv_edits_push [OF at_reserve(6)]) (use at_reserve(2) in auto)
next
  case (at_started s fs a i r eo gs m)
  have "i \<in> at_edit s \<Longrightarrow> eo" by (rule own_start_edited [OF at_started(4,5,1,3)])
  then show ?case
    by (intro inv_edits_move [OF at_started(4,1), where hs = "if eo then [FEditDone i] else []"])
      (use at_started(1,4) in \<open>auto simp: inv_edits_def\<close>)
next
  case (at_superseded s fs a i r gs)
  show ?case by (rule inv_edits_move [OF at_superseded(3,1), where hs = "[]"]) auto
next
  case (at_start_failed s fs a i r eo gs new)
  have "i \<in> at_edit s \<Longrightarrow> eo" by (rule own_start_edited [OF at_start_failed(4,5,1,2)])
  then show ?case
    by (intro inv_edits_move [OF at_start_failed(4,1), where hs = "if eo then [FEditDone i] else []"])
      (use at_start_failed(1,3,4) in \<open>auto simp: inv_edits_def\<close>)
next
  case (at_stop_begin s i)
  show ?case by (rule inv_edits_push [OF at_stop_begin(3)]) (use at_stop_begin(2) in auto)
next
  case (at_stop_end s fs i t gs)
  show ?case by (rule inv_edits_move [OF at_stop_end(2,1), where hs = "[]"]) auto
next
  case (at_edit_begin s i m r)
  show ?case by (rule inv_edits_push [OF at_edit_begin(4)]) (use at_edit_begin(2) in auto)
next
  case (at_edit_stop_failed s fs i r m gs)
  show ?case by (rule inv_edits_move [OF at_edit_stop_failed(2,1), where hs = "[]"]) auto
next
  case (at_edit_saved s fs i r m gs rs saved)
  have "edit_ok (at_run s) (FEditStop i r m)" "i \<in> at_edit s"
    using at_edit_saved(1,4) by (auto simp: inv_edits_def)
  then show ?case
    by (intro inv_edits_move [OF at_edit_saved(4,1), where hs = "[FEditRestart i saved]"]) auto
next
  case (at_edit_answer s fs i saved gs run)
  have "at_run s i = None" "i \<in> at_edit s" using at_edit_answer(1,3) by (auto simp: inv_edits_def)
  then show ?case
    by (intro inv_edits_move [OF at_edit_answer(3,1), where hs = "[FEditDone i]"])
      (use at_edit_answer(2) in auto)
next
  case (at_edit_done s fs i gs)
  show ?case by (rule inv_edits_move [OF at_edit_done(2,1), where hs = "[]"]) auto
next
  case (at_edit_reserve s fs i saved gs r a)
  have "i \<in> at_edit s" using at_edit_reserve(1,5) by (auto simp: inv_edits_def)
  then show ?case
    by (intro inv_edits_move [OF at_edit_reserve(5,1), where hs = "[FStart a i r True]"]) auto
next
  case (at_sweep s run)
  then show ?case by (auto simp: inv_edits_def intro: edit_ok_swept)
qed

text \<open>Every live process has one owner: an active entry, or a call that is stopping it.\<close>

lemma attempt_pids_distinct [simp]: "distinct (attempt_pids a)"
  by (cases a rule: attempt_pids.cases) auto

lemma attempt_pids_in: "set (attempt_pids (run i)) \<subseteq> run_pids run"
  by (auto simp: run_pids_def)

lemma run_pids_upd:
  "own_once run \<Longrightarrow>
   run_pids (run(i := x)) = run_pids run - set (attempt_pids (run i)) \<union> set (attempt_pids x)"
  by (auto simp: run_pids_def own_once_def split: if_splits)

lemma own_once_upd:
  "own_once run \<Longrightarrow> set (attempt_pids x) \<inter> run_pids run = {} \<Longrightarrow> own_once (run(i := x))"
  by (auto simp: run_pids_def own_once_def)

lemma inv_live_upd:
  assumes "inv_live s" "at_run s' = (at_run s)(i := x)"
    "set (attempt_pids x) \<inter> at_used s = {}"
    "distinct (flight_pids (at_flights s'))"
    "set (flight_pids (at_flights s')) \<subseteq>
       set (flight_pids (at_flights s)) \<union> set (attempt_pids (at_run s i))"
    "at_live s' = (run_pids (at_run s) - set (attempt_pids (at_run s i))) \<union> set (attempt_pids x) \<union>
       set (flight_pids (at_flights s'))"
    "at_used s' = at_used s \<union> set (attempt_pids x) \<union> new"
  shows "inv_live s'"
proof -
  have once: "own_once (at_run s)" and sub: "at_live s \<subseteq> at_used s"
    and live: "at_live s = run_pids (at_run s) \<union> set (flight_pids (at_flights s))"
    and apart: "run_pids (at_run s) \<inter> set (flight_pids (at_flights s)) = {}"
    using assms(1) by (auto simp: inv_live_def)
  have run: "run_pids (at_run s') = run_pids (at_run s) - set (attempt_pids (at_run s i)) \<union> set (attempt_pids x)"
    by (simp add: assms(2) run_pids_upd [OF once])
  have "own_once (at_run s')"
    unfolding assms(2) using assms(3) live sub by (intro own_once_upd [OF once]) blast
  moreover have "run_pids (at_run s') \<inter> set (flight_pids (at_flights s')) = {}"
    unfolding run using assms(3,5) apart live sub attempt_pids_in [of "at_run s" i] by blast
  moreover have "at_live s' \<subseteq> at_used s'"
    unfolding assms(6,7) using assms(5) live sub attempt_pids_in [of "at_run s" i] by blast
  ultimately show ?thesis unfolding inv_live_def using assms(4,6) run by auto
qed

lemma inv_live_same:
  assumes "inv_live s" "at_run s' = at_run s" "distinct (flight_pids (at_flights s'))"
    "set (flight_pids (at_flights s')) \<subseteq> set (flight_pids (at_flights s))"
    "at_live s' = run_pids (at_run s) \<union> set (flight_pids (at_flights s'))"
    "at_used s \<subseteq> at_used s'"
  shows "inv_live s'"
proof -
  have "set (flight_pids (at_flights s')) \<subseteq> at_used s'" "run_pids (at_run s) \<subseteq> at_used s'"
    using assms(1,4,6) unfolding inv_live_def by blast+
  moreover have "run_pids (at_run s) \<inter> set (flight_pids (at_flights s')) = {}"
    using assms(1,4) unfolding inv_live_def by blast
  ultimately show ?thesis using assms(1,2,3,5) by (simp add: inv_live_def)
qed

lemma attempt_pids_iff: "p \<in> set (attempt_pids a) \<longleftrightarrow> (\<exists>m. a = Some (AActive m) \<and> p = ma_attempt_id m)"
  by (cases a rule: attempt_pids.cases) auto

lemma waiting_pids: "waiting a \<Longrightarrow> attempt_pids a = []" "idle a \<Longrightarrow> attempt_pids a = []"
  by (auto simp: waiting_def idle_def)

lemma swept_pids:
  "swept a b \<Longrightarrow> attempt_pids b = (if b = a then attempt_pids a else [])"
  by (auto simp: swept_def waiting_def)

lemma inv_live_sweep:
  assumes "inv_live s" "\<And>j. swept (at_run s j) (run j)"
  shows "inv_live (s\<lparr>at_run := run, at_live := at_live s -
    {ma_attempt_id m | m j. at_run s j = Some (AActive m) \<and> run j \<noteq> at_run s j}\<rparr>)"
proof -
  let ?gone = "{ma_attempt_id m | m j. at_run s j = Some (AActive m) \<and> run j \<noteq> at_run s j}"
  have pids: "attempt_pids (run j) = (if run j = at_run s j then attempt_pids (at_run s j) else [])" for j
    by (rule swept_pids [OF assms(2)])
  have gone: "?gone = {p. \<exists>j. run j \<noteq> at_run s j \<and> p \<in> set (attempt_pids (at_run s j))}"
    unfolding attempt_pids_iff by blast
  have once: "own_once (at_run s)" using assms(1) by (simp add: inv_live_def)
  then have "own_once run" by (auto simp: own_once_def pids split: if_splits)
  moreover have "run_pids run = run_pids (at_run s) - ?gone"
    unfolding gone using once by (auto simp: run_pids_def pids own_once_def split: if_splits)
  moreover have "?gone \<subseteq> run_pids (at_run s)"
    unfolding gone by (auto simp: run_pids_def)
  ultimately show ?thesis using assms(1) by (auto simp: inv_live_def)
qed

lemma inv_live_step: "at_step s l s' \<Longrightarrow> inv_live s \<Longrightarrow> inv_edits s \<Longrightarrow> inv_live s'"
proof (induction rule: at_step.induct)
  case (at_config s rs)
  show ?case by (rule inv_live_same [OF at_config(2)]) (use at_config(2) in \<open>auto simp: inv_live_def\<close>)
next
  case (at_answer run s i stop l)
  from at_answer(1) show ?case
  proof
    assume "run = at_run s"
    with at_answer(3) show ?thesis
      by (intro inv_live_same [OF at_answer(3)]) (auto simp: inv_live_def)
  next
    assume "at_run s i = Some AFailed \<and> i \<notin> at_edit s \<and> run = (at_run s)(i := None)"
    with at_answer(3) show ?thesis
      by (intro inv_live_upd [OF at_answer(3), where i = i and x = None and new = "{}"])
        (auto simp: inv_live_def)
  qed
next
  case (at_reserve s i r a l stop)
  show ?case
    by (rule inv_live_upd [OF at_reserve(6), where i = i and x = "Some (AStarting a)" and new = "{a}"])
      (use at_reserve(3,6) waiting_pids in \<open>auto simp: inv_live_def\<close>)
next
  case (at_started s fs a i r eo gs m)
  show ?case
    by (rule inv_live_upd [OF at_started(4), where i = i and x = "Some (AActive m)" and new = "{}"])
      (use at_started in \<open>auto simp: inv_live_def\<close>)
next
  case (at_superseded s fs a i r gs)
  show ?case
    by (rule inv_live_same [OF at_superseded(3)]) (use at_superseded(1,3) in \<open>auto simp: inv_live_def\<close>)
next
  case (at_start_failed s fs a i r eo gs new)
  have "attempt_pids new = []" using at_start_failed(3) by (auto simp: waiting_pids split: if_splits)
  then show ?case
    by (intro inv_live_upd [OF at_start_failed(4), where i = i and x = new and new = "{}"])
      (use at_start_failed(1,2,4) in \<open>auto simp: inv_live_def\<close>)
next
  case (at_stop_begin s i)
  show ?case
    by (rule inv_live_upd [OF at_stop_begin(3), where i = i and x = None and new = "{}"])
      (use at_stop_begin(3) attempt_pids_in [of "at_run s" i] in \<open>auto simp: inv_live_def\<close>)
next
  case (at_stop_end s fs i t gs)
  show ?case
    by (rule inv_live_same [OF at_stop_end(2)]) (use at_stop_end in \<open>auto simp: inv_live_def\<close>)
next
  case (at_edit_begin s i m r)
  have "ma_attempt_id m \<in> run_pids (at_run s)"
    using at_edit_begin(3) attempt_pids_in [of "at_run s" i] by auto
  then show ?case
    by (intro inv_live_upd [OF at_edit_begin(4), where i = i and x = None and new = "{}"])
      (use at_edit_begin(3,4) in \<open>auto simp: inv_live_def\<close>)
next
  case (at_edit_stop_failed s fs i r m gs)
  have "at_run s i = None" using at_edit_stop_failed(1,3) by (auto simp: inv_edits_def)
  then show ?case
    by (intro inv_live_upd [OF at_edit_stop_failed(2), where i = i and x = "Some AFailed" and new = "{}"])
      (use at_edit_stop_failed(1,2) in \<open>auto simp: inv_live_def\<close>)
next
  case (at_edit_saved s fs i r m gs rs saved)
  show ?case
    by (rule inv_live_same [OF at_edit_saved(4)]) (use at_edit_saved(1,4) in \<open>auto simp: inv_live_def\<close>)
next
  case (at_edit_answer s fs i saved gs run)
  have "at_run s i = None" using at_edit_answer(1,4) by (auto simp: inv_edits_def)
  with at_edit_answer(2) have "run = at_run s" by auto
  then show ?case
    by (intro inv_live_same [OF at_edit_answer(3)]) (use at_edit_answer(1,3) in \<open>auto simp: inv_live_def\<close>)
next
  case (at_edit_done s fs i gs)
  show ?case
    by (rule inv_live_same [OF at_edit_done(2)]) (use at_edit_done(1,2) in \<open>auto simp: inv_live_def\<close>)
next
  case (at_edit_reserve s fs i saved gs r a)
  show ?case
    by (rule inv_live_upd [OF at_edit_reserve(5), where i = i and x = "Some (AStarting a)" and new = "{a}"])
      (use at_edit_reserve(1,3,5) waiting_pids in \<open>auto simp: inv_live_def\<close>)
next
  case (at_sweep s run)
  show ?case by (rule inv_live_sweep [OF at_sweep(2,1)])
qed

theorem table_inv_step: "at_step s l s' \<Longrightarrow> table_inv s \<Longrightarrow> table_inv s'"
  by (simp add: table_inv_def inv_rules_step inv_attempts_step inv_edits_step inv_live_step)

section \<open>A stop by hand is final\<close>

definition hand_stopped :: "uuid \<Rightarrow> table \<Rightarrow> bool" where
  "hand_stopped i s \<longleftrightarrow> i \<in> at_stop s \<and> i \<notin> at_edit s \<and> at_run s i = None"

lemma flight_edited: "inv_edits s \<Longrightarrow> at_flights s = fs @ f # gs \<Longrightarrow> set (fl_edit f) \<subseteq> at_edit s"
  by (auto simp: inv_edits_def)

lemma hand_stopped_step:
  assumes "at_step s l s'" "inv_edits s" "hand_stopped i s" "l \<noteq> Explicit i"
  shows "at_run s' i = None \<and> i \<in> at_stop s' \<and> i \<notin> at_edit s'"
  using assms
proof (induction rule: at_step.induct)
  case (at_edit_stop_failed s fs j r m gs)
  have "j \<in> at_edit s" using flight_edited [OF at_edit_stop_failed(2,1)] by simp
  with at_edit_stop_failed(3) show ?case by (auto simp: hand_stopped_def)
next
  case (at_edit_reserve s fs j saved gs r a)
  have "j \<in> at_edit s" using flight_edited [OF at_edit_reserve(5,1)] by simp
  with at_edit_reserve(6) show ?case by (auto simp: hand_stopped_def)
next
  case (at_sweep s run)
  then show ?case using swept_None [of "run i"] by (auto simp: hand_stopped_def) metis
qed (auto simp: hand_stopped_def split: if_splits)

end
