(* ===== verification/Daemon_System.thy ===== *)
theory Daemon_System
  imports Daemon_Lemmas Attempt_Table
begin

text \<open>
  The daemon as a system of threads: the state behind the mutex and the calls that released
  it and have still to come back. Every section of a handler that holds the lock is one
  step, so the steps of several requests, of the supervisor and of the restore at start-up
  interleave in any order. The system refines \<open>Attempt_Table\<close>, whose invariants it
  inherits.
\<close>

section \<open>What one pass of the supervisor does to the table\<close>

lemma running_of_note_exit:
  "\<exists>w. waiting (Some w) \<and> running_of (note_exit now new i st) = (running_of st)(i := Some w)"
  by (auto simp: note_exit_def Let_def waiting_def)

lemma fold_note_exit:
  "(j \<notin> set xs \<longrightarrow> running_of (fold (note_exit now new) xs st) j = running_of st j) \<and>
   (j \<in> set xs \<longrightarrow> waiting (running_of (fold (note_exit now new) xs st) j))"
proof (induction xs arbitrary: st)
  case (Cons i xs)
  obtain w where "waiting (Some w)"
    and "running_of (note_exit now new i st) = (running_of st)(i := Some w)"
    using running_of_note_exit by blast
  with Cons [of "note_exit now new i st"] show ?case by auto
qed simp

lemma fold_drop_running:
  "running_of (fold drop_running xs st) j = (if j \<in> set xs then None else running_of st j)"
  by (induction xs arbitrary: st) auto

definition keys_distinct :: "daemon \<Rightarrow> bool" where
  "keys_distinct st \<longleftrightarrow> distinct (map fst (dm_running st))"

lemma in_running:
  "keys_distinct st \<Longrightarrow> j \<in> fst ` {x \<in> set (dm_running st). P (snd x)} \<longleftrightarrow>
   (\<exists>a. running_of st j = Some a \<and> P a)"
  by (force simp: keys_distinct_def running_of_def map_of_eq_Some_iff)

definition ids_where :: "(attempt \<Rightarrow> bool) \<Rightarrow> daemon \<Rightarrow> uuid list" where
  "ids_where P st = map fst (filter (\<lambda>(_, a). P a) (dm_running st))"

lemma set_ids_where:
  "keys_distinct st \<Longrightarrow> j \<in> set (ids_where P st) \<longleftrightarrow> (\<exists>a. running_of st j = Some a \<and> P a)"
  by (simp add: ids_where_def in_running [symmetric] case_prod_unfold)

lemma maintain_locked_alt:
  "maintain_locked exits now new st =
    (\<lparr>sw_reconnecting = filter (reconnect_enabled st) (ids_where (exited_now exits) st),
      sw_terminal = filter (\<lambda>i. \<not> reconnect_enabled st i) (ids_where (exited_now exits) st),
      sw_retry = ids_where (due_now now) st\<rparr>,
     fold drop_running (ids_where (due_now now) st)
       (fold (note_exit now new) (ids_where (exited_now exits) st)
         (fold (reset_retries now) (ids_where (\<lambda>a. is_active a \<and> \<not> exited_now exits a) st) st)))"
  by (simp add: maintain_locked_def ids_where_def Let_def)

lemma fold_reset_retries: "running_of (fold (reset_retries now) xs st) = running_of st"
  by (rule fold_frame [where f = running_of]) simp

lemma maintain_locked_running:
  assumes "maintain_locked exits now new st = (sw, st')" "keys_distinct st"
  shows "(\<forall>a. running_of st j = Some a \<longrightarrow> exited_now exits a \<longrightarrow> waiting (running_of st' j)) \<and>
    (\<forall>a. running_of st j = Some a \<longrightarrow> due_now now a \<longrightarrow> running_of st' j = None) \<and>
    ((\<forall>a. running_of st j = Some a \<longrightarrow> \<not> exited_now exits a \<and> \<not> due_now now a) \<longrightarrow>
       running_of st' j = running_of st j)"
proof -
  have apart: "\<not> (exited_now exits a \<and> due_now now a)" for a
    by (cases a) (simp_all add: exited_now_def due_now_def)
  have "running_of st' j =
    (if j \<in> set (ids_where (due_now now) st) then None
     else running_of (fold (note_exit now new) (ids_where (exited_now exits) st)
         (fold (reset_retries now) (ids_where (\<lambda>a. is_active a \<and> \<not> exited_now exits a) st) st)) j)"
    using assms(1) by (auto simp: maintain_locked_alt fold_drop_running)
  then show ?thesis
    using fold_note_exit [of j "ids_where (exited_now exits) st" now new
        "fold (reset_retries now) (ids_where (\<lambda>a. is_active a \<and> \<not> exited_now exits a) st) st"]
      apart set_ids_where [OF assms(2), of j] fold_reset_retries
    by (auto split: if_splits)
qed

lemma maintain_locked_swept:
  assumes "maintain_locked exits now new st = (sw, st')" "keys_distinct st"
  shows "swept (running_of st j) (running_of st' j)"
  using maintain_locked_running [OF assms, of j]
  by (cases "running_of st j" rule: attempt_pids.cases)
    (auto simp: swept_def exited_now_def due_now_def split: if_splits)

section \<open>The running table stays a map\<close>

lemma keys_distinct_running:
  "dm_running st' = dm_running st \<Longrightarrow> keys_distinct st' = keys_distinct st"
  by (simp add: keys_distinct_def)

lemma keys_distinct_simps [simp]:
  "keys_distinct st \<Longrightarrow> keys_distinct (set_running i a st)"
  "keys_distinct st \<Longrightarrow> keys_distinct (drop_running i st)"
  "keys_distinct (log_event env l m st) = keys_distinct st"
  "keys_distinct (publish n p st) = keys_distinct st"
  "keys_distinct (set_info i v st) = keys_distinct st"
  "keys_distinct (drop_info i st) = keys_distinct st"
  "keys_distinct (finish_edit i st) = keys_distinct st"
  "keys_distinct (st\<lparr>dm_manually_stopped := x\<rparr>) = keys_distinct st"
  "keys_distinct (st\<lparr>dm_editing := y\<rparr>) = keys_distinct st"
  "keys_distinct (reset_retries now i st) = keys_distinct st"
  by (simp_all add: keys_distinct_def distinct_update distinct_delete)

lemma keys_distinct_fold:
  "(\<And>x st. keys_distinct st \<Longrightarrow> keys_distinct (f x st)) \<Longrightarrow> keys_distinct st \<Longrightarrow> keys_distinct (fold f xs st)"
  by (induction xs arbitrary: st) simp_all

lemma keys_distinct_note_exit [simp]: "keys_distinct st \<Longrightarrow> keys_distinct (note_exit n u i st)"
  by (simp add: note_exit_def Let_def)

lemma keys_distinct_maintain:
  assumes "maintain_locked exits now new st = (sw, st')" "keys_distinct st"
  shows "keys_distinct st'"
  using assms by (auto simp: maintain_locked_alt intro!: keys_distinct_fold)

section \<open>What each section does to the table\<close>

text \<open>A start that answered left the table alone, or cleared a failed entry.\<close>

lemma start_reserve_answered:
  assumes "start_reserve env b a automatic eo p st = (Answered q, st')"
  shows "dm_editing st' = dm_editing st \<and>
    (running_of st' = running_of st \<and> dm_manually_stopped st' = dm_manually_stopped st \<or>
     (\<exists>i. rule_id_of env p st = Inr i \<and> \<not> (i \<in> dm_editing st \<and> \<not> eo) \<and>
       (running_of st' = running_of st \<or>
        running_of st i = Some AFailed \<and> running_of st' = (running_of st)(i := None)) \<and>
       dm_manually_stopped st' =
         (if \<not> automatic \<and> \<not> eo then dm_manually_stopped st - {i} else dm_manually_stopped st)))"
proof (cases "rule_id_of env p st")
  case (Inr i)
  consider "i \<in> dm_editing st" "\<not> eo" | "\<not> (i \<in> dm_editing st \<and> \<not> eo)" "automatic" "i \<in> dm_manually_stopped st"
    | (go) "\<not> (i \<in> dm_editing st \<and> \<not> eo)" "\<not> (automatic \<and> i \<in> dm_manually_stopped st)" by blast
  then show ?thesis
  proof cases
    case go
    then show ?thesis
      using assms unfolding start_reserve_def Inr sum.case if_not_P [OF go(1)] if_not_P [OF go(2)]
      by (auto simp: Let_def Inr split: if_splits option.splits sum.splits)
  qed (use assms Inr in \<open>auto simp: start_reserve_def split: if_splits\<close>)
qed (use assms in \<open>simp add: start_reserve_def\<close>)

lemma start_reserve_reserved:
  assumes "start_reserve env b a automatic eo p st = (Reserved i r, st')"
  shows "rule_id_of env p st = Inr i" "find_rule st i = Some r" "idle (running_of st i)"
    "\<not> (i \<in> dm_editing st \<and> \<not> eo)" "\<not> (automatic \<and> i \<in> dm_manually_stopped st)"
    "running_of st' = (running_of st)(i := Some (AStarting a))" "dm_editing st' = dm_editing st"
    "dm_manually_stopped st' =
       (if \<not> automatic \<and> \<not> eo then dm_manually_stopped st - {i} else dm_manually_stopped st)"
  using assms
  by (auto simp: start_reserve_def Let_def idle_def find_rule_def
      split: if_splits option.splits sum.splits)

lemma start_reserve_keys:
  "start_reserve env b a automatic eo p st = (q, st') \<Longrightarrow> keys_distinct st \<Longrightarrow> keys_distinct st'"
  by (auto simp: start_reserve_def Let_def split: if_splits option.splits sum.splits)

lemma start_complete_superseded:
  assumes "start_complete env now a eo out i r st = (q, st')" "running_of st i \<noteq> Some (AStarting a)"
  shows "st' = st"
  using assms
  by (auto simp: start_complete_def start_finished_def start_failed_def Let_def
      split: if_splits option.splits sum.splits)

lemma start_complete_started:
  assumes "start_complete env now a eo out i r st = (q, st')" "me_process env"
    "running_of st i = Some (AStarting a)" "so_started out = Inr m"
  shows "q = Ok (start_answer env i True True)"
    "running_of st' = (running_of st)(i := Some (AActive m))" "dm_editing st' = dm_editing st"
    "dm_manually_stopped st' =
       (if eo then dm_manually_stopped st - {i} else dm_manually_stopped st)"
    "keys_distinct st \<Longrightarrow> keys_distinct st'"
  using assms by (auto simp: start_complete_def start_finished_def Let_def split: if_splits)

lemma start_complete_failed:
  assumes "start_complete env now a eo out i r st = (q, st')" "me_process env"
    "running_of st i = Some (AStarting a)" "so_started out = Inl e"
  shows "\<exists>new. running_of st' = (running_of st)(i := new) \<and> (if eo then new = None else waiting new)"
    "dm_editing st' = dm_editing st" "dm_manually_stopped st' = dm_manually_stopped st"
    "keys_distinct st \<Longrightarrow> keys_distinct st'"
  using assms
  by (auto simp: start_complete_def start_failed_def Let_def waiting_def split: if_splits)

lemma start_complete_config:
  "start_complete env now a eo out i r st = (q, st') \<Longrightarrow> same_config st st'"
  by (auto simp: start_complete_def dest: start_failed_config start_finished_config
      split: if_splits sum.splits)

lemma stop_begin_refused: "stop_begin env p st = (Inl e, st') \<Longrightarrow> st' = st"
  by (auto simp: stop_begin_def split: sum.splits if_splits)

lemma stop_begin_taken:
  assumes "stop_begin env p st = (Inr (i, t), st')"
  shows "rule_id_of env p st = Inr i" "i \<notin> dm_editing st" "find_rule st i \<noteq> None"
    "t = running_of st i" "running_of st' = (running_of st)(i := None)"
    "dm_editing st' = dm_editing st" "dm_manually_stopped st' = insert i (dm_manually_stopped st)"
    "keys_distinct st \<Longrightarrow> keys_distinct st'"
  using assms by (auto simp: stop_begin_def split: sum.splits if_splits)

lemma stop_end_table:
  assumes "stop_end env s i t st = (q, st')"
  shows "running_of st' = running_of st" "dm_editing st' = dm_editing st"
    "dm_manually_stopped st' = dm_manually_stopped st" "keys_distinct st' = keys_distinct st"
  using assms by (auto simp: stop_end_def Let_def split: sum.splits if_splits)

lemma edit_begin_refused: "edit_begin env e r st = (Inl x, st') \<Longrightarrow> st' = st"
  by (auto simp: edit_begin_def Let_def split: sum.splits if_splits option.splits)

lemma edit_begin_taken:
  assumes "edit_begin env expected r st = (Inr t, st')"
  shows "find_rule st (r_id expected) = Some expected" "r_id expected \<notin> dm_editing st"
    "\<exists>m. t = Some (AActive m) \<and> running_of st (r_id expected) = Some (AActive m)"
    "running_of st' = (running_of st)(r_id expected := None)"
    "dm_editing st' = insert (r_id expected) (dm_editing st)"
    "dm_manually_stopped st' = insert (r_id expected) (dm_manually_stopped st)"
    "keys_distinct st \<Longrightarrow> keys_distinct st'"
  using assms
  by (auto simp: edit_begin_def Let_def is_active_def
      split: sum.splits if_splits option.splits attempt.splits)

lemma edit_stop_failed_table:
  assumes "edit_stop_failed env i e st = (q, st')"
  shows "running_of st' = (running_of st)(i := Some AFailed)" "dm_editing st' = dm_editing st - {i}"
    "dm_manually_stopped st' = dm_manually_stopped st" "keys_distinct st \<Longrightarrow> keys_distinct st'"
  using assms by (auto simp: edit_stop_failed_def Let_def)

lemma edit_request_valid:
  assumes "edit_request env p = Inr (expected, replacement)"
  shows "valid_rule replacement" "r_id replacement = r_id expected"
  using assms domain_of_wire_valid
  by (auto simp: edit_request_def and_then_Inr split: option.splits if_splits)

section \<open>The system\<close>

text \<open>
  \<open>Call\<close> is a request between two sections; the supervisor is \<open>Reporting\<close> after it
  released the lock, then \<open>Retrying\<close> the rules that were due.
\<close>

datatype thread = Call flight | Reporting sweep | Retrying "uuid list"

record sys =
  sy_daemon :: daemon
  sy_threads :: "thread list"
  sy_live :: "uuid set"
  sy_used :: "uuid set"

definition start_label :: "manager_env \<Rightarrow> json \<Rightarrow> daemon \<Rightarrow> label" where
  "start_label env p st = (case rule_id_of env p st of Inl _ \<Rightarrow> Quiet | Inr i \<Rightarrow> Explicit i)"

definition started_pids :: "start_outcome \<Rightarrow> uuid set" where
  "started_pids out = (case so_started out of Inl _ \<Rightarrow> {} | Inr m \<Rightarrow> {ma_attempt_id m})"

text \<open>The processes \<open>has_exited\<close> reports, and \<open>maintain\<close> takes out of the table.\<close>

definition ended_pids :: "(managed \<Rightarrow> process_error + bool) \<Rightarrow> daemon \<Rightarrow> uuid set" where
  "ended_pids exits st = {ma_attempt_id m | m i. running_of st i = Some (AActive m) \<and>
     exited_now exits (AActive m)}"

inductive sys_step :: "manager_env \<Rightarrow> sys \<Rightarrow> label \<Rightarrow> sys \<Rightarrow> bool" for env where
  request: "dispatch env u now op p (sy_daemon s) = Some (q, d) \<Longrightarrow>
    sys_step env s Quiet (s\<lparr>sy_daemon := d\<rparr>)"
| start_answered: "start_reserve env b a False False p (sy_daemon s) = (Answered q, d) \<Longrightarrow>
    sys_step env s (start_label env p (sy_daemon s)) (s\<lparr>sy_daemon := d\<rparr>)"
| start_reserved: "start_reserve env b a False False p (sy_daemon s) = (Reserved i r, d) \<Longrightarrow>
    a \<notin> sy_used s \<Longrightarrow>
    sys_step env s (start_label env p (sy_daemon s)) (s\<lparr>sy_daemon := d,
      sy_threads := Call (FStart a i r False) # sy_threads s, sy_used := insert a (sy_used s)\<rparr>)"
| start_finished: "sy_threads s = ts @ Call (FStart a i r eo) # us \<Longrightarrow>
    start_complete env now a eo out i r (sy_daemon s) = (q, d) \<Longrightarrow>
    started_pids out \<inter> sy_used s = {} \<Longrightarrow>
    sys_step env s Quiet (s\<lparr>sy_daemon := d,
      sy_threads := ts @ (if eo then [Call (FEditDone i)] else []) @ us,
      sy_live := (if running_of (sy_daemon s) i = Some (AStarting a)
        then sy_live s \<union> started_pids out else sy_live s),
      sy_used := (if running_of (sy_daemon s) i = Some (AStarting a)
        then sy_used s \<union> started_pids out else sy_used s)\<rparr>)"
| stop_refused: "stop_begin env p (sy_daemon s) = (Inl e, d) \<Longrightarrow>
    sys_step env s Quiet (s\<lparr>sy_daemon := d\<rparr>)"
| stop_taken: "stop_begin env p (sy_daemon s) = (Inr (i, t), d) \<Longrightarrow>
    sys_step env s Quiet (s\<lparr>sy_daemon := d, sy_threads := Call (FStop i t) # sy_threads s\<rparr>)"
| stop_ended: "sy_threads s = ts @ Call (FStop i t) # us \<Longrightarrow>
    stop_end env stopped i t (sy_daemon s) = (q, d) \<Longrightarrow>
    sys_step env s Quiet (s\<lparr>sy_daemon := d, sy_threads := ts @ us,
      sy_live := sy_live s - set (attempt_pids t)\<rparr>)"
| edit_refused: "edit_request env p = Inr (expected, replacement) \<Longrightarrow>
    edit_begin env expected replacement (sy_daemon s) = (Inl e, d) \<Longrightarrow>
    sys_step env s Quiet (s\<lparr>sy_daemon := d\<rparr>)"
| edit_taken: "edit_request env p = Inr (expected, replacement) \<Longrightarrow>
    edit_begin env expected replacement (sy_daemon s) = (Inr (Some (AActive m)), d) \<Longrightarrow>
    sys_step env s Quiet (s\<lparr>sy_daemon := d,
      sy_threads := Call (FEditStop (r_id expected) replacement m) # sy_threads s\<rparr>)"
| edit_stop_failed: "sy_threads s = ts @ Call (FEditStop i r m) # us \<Longrightarrow>
    edit_stop_failed env i err (sy_daemon s) = (q, d) \<Longrightarrow>
    sys_step env s Quiet (s\<lparr>sy_daemon := d, sy_threads := ts @ us,
      sy_live := sy_live s - {ma_attempt_id m}\<rparr>)"
| edit_disappeared: "sy_threads s = ts @ Call (FEditStop i r m) # us \<Longrightarrow>
    edit_save env u i r (sy_daemon s) = (Disappeared, d) \<Longrightarrow>
    sys_step env s Quiet (s\<lparr>sy_daemon := d, sy_threads := ts @ us,
      sy_live := sy_live s - {ma_attempt_id m}\<rparr>)"
| edit_saved: "sy_threads s = ts @ Call (FEditStop i r m) # us \<Longrightarrow>
    edit_save env u i r (sy_daemon s) = (Saved saved, d) \<Longrightarrow>
    sys_step env s Quiet (s\<lparr>sy_daemon := d, sy_threads := ts @ Call (FEditRestart i saved) # us,
      sy_live := sy_live s - {ma_attempt_id m}\<rparr>)"
| restart_answered: "sy_threads s = ts @ Call (FEditRestart i saved) # us \<Longrightarrow>
    start_reserve env b a False True (rule_ref env i) (sy_daemon s) = (Answered q, d) \<Longrightarrow>
    sys_step env s Quiet (s\<lparr>sy_daemon := d, sy_threads := ts @ Call (FEditDone i) # us\<rparr>)"
| restart_reserved: "sy_threads s = ts @ Call (FEditRestart i saved) # us \<Longrightarrow>
    start_reserve env b a False True (rule_ref env i) (sy_daemon s) = (Reserved j r, d) \<Longrightarrow>
    a \<notin> sy_used s \<Longrightarrow>
    sys_step env s Quiet (s\<lparr>sy_daemon := d, sy_threads := ts @ Call (FStart a j r True) # us,
      sy_used := insert a (sy_used s)\<rparr>)"
| edit_done: "sy_threads s = ts @ Call (FEditDone i) # us \<Longrightarrow>
    sys_step env s Quiet (s\<lparr>sy_daemon := finish_edit i (sy_daemon s), sy_threads := ts @ us\<rparr>)"
| maintain_locked: "maintain_locked exits now new (sy_daemon s) = (sw, d) \<Longrightarrow>
    sys_step env s Quiet (s\<lparr>sy_daemon := d, sy_threads := Reporting sw # sy_threads s,
      sy_live := sy_live s - ended_pids exits (sy_daemon s)\<rparr>)"
| maintain_reported: "sy_threads s = ts @ Reporting sw # us \<Longrightarrow>
    sys_step env s Quiet (s\<lparr>sy_daemon := report_sweep env sw (sy_daemon s),
      sy_threads := ts @ Retrying (sw_retry sw) # us\<rparr>)"
| restore_begin: "sys_step env s Quiet (s\<lparr>sy_threads :=
      Retrying (map r_id (filter r_auto_start (dm_rules (sy_daemon s)))) # sy_threads s\<rparr>)"
| retry_answered: "sy_threads s = ts @ Retrying (i # is) # us \<Longrightarrow>
    start_reserve env b a True False (rule_ref env i) (sy_daemon s) = (Answered q, d) \<Longrightarrow>
    sys_step env s Quiet (s\<lparr>sy_daemon := d, sy_threads := ts @ Retrying is # us\<rparr>)"
| retry_reserved: "sy_threads s = ts @ Retrying (i # is) # us \<Longrightarrow>
    start_reserve env b a True False (rule_ref env i) (sy_daemon s) = (Reserved j r, d) \<Longrightarrow>
    a \<notin> sy_used s \<Longrightarrow>
    sys_step env s Quiet (s\<lparr>sy_daemon := d,
      sy_threads := Call (FStart a j r False) # ts @ Retrying is # us,
      sy_used := insert a (sy_used s)\<rparr>)"

inductive sys_init :: "manager_env \<Rightarrow> sys \<Rightarrow> bool" for env where
  opened: "honest_faults dir \<Longrightarrow> daemon_open env backup_id save_id dir = Ok d \<Longrightarrow>
    sys_init env \<lparr>sy_daemon = d, sy_threads = [], sy_live = {}, sy_used = {}\<rparr>"

inductive sys_run :: "manager_env \<Rightarrow> sys \<Rightarrow> label list \<Rightarrow> sys \<Rightarrow> bool" for env where
  sys_run_refl: "sys_run env s [] s"
| sys_run_step: "sys_run env s ls s' \<Longrightarrow> sys_step env s' l s'' \<Longrightarrow> sys_run env s (ls @ [l]) s''"

definition sys_reachable :: "manager_env \<Rightarrow> sys \<Rightarrow> bool" where
  "sys_reachable env s \<longleftrightarrow> (\<exists>s0 ls. sys_init env s0 \<and> sys_run env s0 ls s)"

text \<open>
  What is assumed of the code the daemon calls: the TOML library reads back what it
  printed, the JSON library what \<open>rule_ref\<close> printed, and process settings were given.
\<close>

definition lawful :: "manager_env \<Rightarrow> bool" where
  "lawful env \<longleftrightarrow> toml_round_trip (me_toml env) \<and> me_process env \<and>
     (\<forall>i. de_id (me_codec env) (rule_ref env i) = Some i)"

section \<open>The system implements the table\<close>

definition calls :: "thread list \<Rightarrow> flight list" where
  "calls ts = concat (map (\<lambda>t. case t of Call f \<Rightarrow> [f] | _ \<Rightarrow> []) ts)"

lemma calls_simps [simp]:
  "calls [] = []" "calls (Call f # ts) = f # calls ts" "calls (Reporting sw # ts) = calls ts"
  "calls (Retrying is # ts) = calls ts" "calls (ts @ us) = calls ts @ calls us"
  by (simp_all add: calls_def)

definition tab :: "sys \<Rightarrow> table" where
  "tab s = \<lparr>at_rules = find_rule (sy_daemon s), at_run = running_of (sy_daemon s),
     at_edit = dm_editing (sy_daemon s), at_stop = dm_manually_stopped (sy_daemon s),
     at_flights = calls (sy_threads s), at_live = sy_live s, at_used = sy_used s\<rparr>"

definition edits_valid :: "flight list \<Rightarrow> bool" where
  "edits_valid fs \<longleftrightarrow> (\<forall>i r m. FEditStop i r m \<in> set fs \<longrightarrow> valid_rule r \<and> r_id r = i)"

definition sys_inv :: "manager_env \<Rightarrow> sys \<Rightarrow> bool" where
  "sys_inv env s \<longleftrightarrow> config_inv env (sy_daemon s) \<and> keys_distinct (sy_daemon s) \<and>
     edits_valid (calls (sy_threads s)) \<and> table_inv (tab s)"

lemma tab_fields [simp]:
  "at_rules (tab s) = find_rule (sy_daemon s)" "at_run (tab s) = running_of (sy_daemon s)"
  "at_edit (tab s) = dm_editing (sy_daemon s)" "at_stop (tab s) = dm_manually_stopped (sy_daemon s)"
  "at_flights (tab s) = calls (sy_threads s)" "at_live (tab s) = sy_live s"
  "at_used (tab s) = sy_used s"
  by (simp_all add: tab_def)

lemma at_step_eq: "at_step t l u \<Longrightarrow> u = u' \<Longrightarrow> at_step t l u'"
  by simp

lemma find_rule_kept: "same_config st st' \<Longrightarrow> find_rule st' = find_rule st"
  by (rule find_rule_same)

text \<open>A step that answers: the table keeps its entries, or loses a failed one.\<close>

lemma answered_at_step:
  assumes "start_reserve env b a automatic eo p (sy_daemon s) = (Answered q, d)" "\<not> eo"
    "l = (if automatic then Quiet else start_label env p (sy_daemon s))"
    "calls (sy_threads s') = calls (sy_threads s)" "sy_daemon s' = d" "sy_live s' = sy_live s"
    "sy_used s' = sy_used s"
  shows "at_step (tab s) l (tab s')"
proof -
  have rules: "find_rule d = find_rule (sy_daemon s)"
    by (rule find_rule_same [OF start_reserve_config [OF assms(1)]])
  have ed: "dm_editing d = dm_editing (sy_daemon s)"
    using start_reserve_answered [OF assms(1)] by blast
  have eq: "(tab s)\<lparr>at_run := running_of d, at_stop := dm_manually_stopped d\<rparr> = tab s'"
    using assms rules ed by (simp add: tab_def)
  from start_reserve_answered [OF assms(1)] consider
      "running_of d = running_of (sy_daemon s)" "dm_manually_stopped d = dm_manually_stopped (sy_daemon s)"
    | i where "rule_id_of env p (sy_daemon s) = Inr i" "\<not> (i \<in> dm_editing (sy_daemon s) \<and> \<not> eo)"
      "running_of d = running_of (sy_daemon s) \<or>
        running_of (sy_daemon s) i = Some AFailed \<and> running_of d = (running_of (sy_daemon s))(i := None)"
      "dm_manually_stopped d = (if \<not> automatic \<and> \<not> eo
         then dm_manually_stopped (sy_daemon s) - {i} else dm_manually_stopped (sy_daemon s))"
    by blast
  then show ?thesis
  proof cases
    case 1
    then show ?thesis by (intro at_step_eq [OF at_answer eq]) simp_all
  next
    case 2
    show ?thesis
      by (rule at_step_eq [OF at_answer [where i = i] eq])
        (use 2 assms(2,3) in \<open>auto simp: start_label_def\<close>)
  qed
qed

lemma same_table_at_step:
  assumes "calls (sy_threads s') = calls (sy_threads s)" "sy_live s' = sy_live s"
    "sy_used s' = sy_used s" "running_of (sy_daemon s') = running_of (sy_daemon s)"
    "dm_editing (sy_daemon s') = dm_editing (sy_daemon s)"
    "dm_manually_stopped (sy_daemon s') = dm_manually_stopped (sy_daemon s)"
    "find_rule (sy_daemon s') = find_rule (sy_daemon s)"
  shows "at_step (tab s) Quiet (tab s')"
  by (rule at_step_eq [OF at_answer [where run = "at_run (tab s)" and stop = "at_stop (tab s)"]])
    (use assms in \<open>simp_all add: tab_def\<close>)

lemma reserved_at_step:
  assumes "start_reserve env b a automatic False p (sy_daemon s) = (Reserved i r, d)"
    "l = (if automatic then Quiet else start_label env p (sy_daemon s))" "a \<notin> sy_used s"
    "sy_daemon s' = d" "sy_live s' = sy_live s" "sy_used s' = insert a (sy_used s)"
    "calls (sy_threads s') = FStart a i r False # calls (sy_threads s)"
  shows "at_step (tab s) l (tab s')"
proof (rule at_step_eq [OF at_reserve [of "tab s" i r a l "dm_manually_stopped d"]])
  note res = start_reserve_reserved [OF assms(1)]
  have rules: "find_rule d = find_rule (sy_daemon s)"
    by (rule find_rule_same [OF start_reserve_config [OF assms(1)]])
  show "l = Explicit i \<and> dm_manually_stopped d = at_stop (tab s) - {i} \<or>
      l = Quiet \<and> i \<notin> at_stop (tab s) \<and> dm_manually_stopped d = at_stop (tab s)"
    using res assms(2) by (simp add: start_label_def)
  show "(tab s)\<lparr>at_run := (at_run (tab s))(i := Some (AStarting a)),
      at_stop := dm_manually_stopped d, at_flights := FStart a i r False # at_flights (tab s),
      at_used := insert a (at_used (tab s))\<rparr> = tab s'"
    using res assms rules by (simp add: tab_def)
qed (use start_reserve_reserved [OF assms(1)] assms(3) in simp_all)

lemma finished_at_step:
  assumes "sy_threads s = ts @ Call (FStart a i r eo) # us" "sys_inv env s" "me_process env"
    "start_complete env now a eo out i r (sy_daemon s) = (q, d)"
    "started_pids out \<inter> sy_used s = {}" "sy_daemon s' = d"
    "sy_threads s' = ts @ (if eo then [Call (FEditDone i)] else []) @ us"
    "sy_live s' = (if running_of (sy_daemon s) i = Some (AStarting a)
        then sy_live s \<union> started_pids out else sy_live s)"
    "sy_used s' = (if running_of (sy_daemon s) i = Some (AStarting a)
        then sy_used s \<union> started_pids out else sy_used s)"
  shows "at_step (tab s) Quiet (tab s')"
proof -
  let ?d = "sy_daemon s"
  have fl: "at_flights (tab s) = calls ts @ FStart a i r eo # calls us" using assms(1) by simp
  have rules: "find_rule d = find_rule ?d"
    by (rule find_rule_same [OF start_complete_config [OF assms(4)]])
  have ok: "eo \<Longrightarrow> running_of ?d i = Some (AStarting a)"
    using assms(1,2) by (auto simp: sys_inv_def table_inv_def inv_edits_def)
  show ?thesis
  proof (cases "running_of ?d i = Some (AStarting a)")
    case True
    show ?thesis
    proof (cases "so_started out")
      case (Inl e)
      from start_complete_failed [OF assms(4,3) True Inl] obtain new where
        new: "running_of d = (running_of ?d)(i := new)" "if eo then new = None else waiting new"
        and "dm_editing d = dm_editing ?d" "dm_manually_stopped d = dm_manually_stopped ?d"
        by blast
      with assms True Inl rules show ?thesis
        by (intro at_step_eq [OF at_start_failed [OF fl _ new(2)]])
          (auto simp: tab_def started_pids_def)
    next
      case (Inr m)
      with assms(5) have "ma_attempt_id m \<notin> at_used (tab s)" by (simp add: started_pids_def)
      with start_complete_started [OF assms(4,3) True Inr] assms True Inr rules show ?thesis
        by (intro at_step_eq [OF at_started [OF fl]]) (auto simp: tab_def started_pids_def)
    qed
  next
    case False
    with ok have "\<not> eo" by blast
    with fl have "at_flights (tab s) = calls ts @ FStart a i r False # calls us" by simp
    from this False start_complete_superseded [OF assms(4) False] assms \<open>\<not> eo\<close> show ?thesis
      by (intro at_step_eq [OF at_superseded]) (auto simp: tab_def)
  qed
qed

lemma rule_id_of_ref: "lawful env \<Longrightarrow> rule_id_of env (rule_ref env i) st = Inr i"
  by (simp add: rule_id_of_def lawful_def)

lemma config_at_step:
  assumes "locked_effect env (sy_daemon s) d" "sy_daemon s' = d" "sy_threads s' = sy_threads s"
    "sy_live s' = sy_live s" "sy_used s' = sy_used s"
  shows "at_step (tab s) Quiet (tab s')"
  by (rule at_step_eq [OF at_config [of "tab s" "find_rule d"]])
    (use assms in \<open>auto simp: tab_def locked_effect_def same_runtime_def running_of_def fun_eq_iff\<close>)

lemma edit_save_found:
  assumes "sys_inv env s" "FEditStop i r m \<in> set (calls (sy_threads s))"
  shows "find_rule (sy_daemon s) i \<noteq> None" "valid_rule r" "r_id r = i"
    "config_inv env (sy_daemon s)" "i \<in> dm_editing (sy_daemon s)"
proof -
  from assms fl_edit_in [OF assms(2)] show ed: "i \<in> dm_editing (sy_daemon s)"
    by (auto simp: sys_inv_def table_inv_def inv_edits_def)
  with assms(1) show "find_rule (sy_daemon s) i \<noteq> None"
    by (auto simp: sys_inv_def table_inv_def inv_rules_def)
qed (use assms in \<open>auto simp: sys_inv_def edits_valid_def\<close>)

lemma saved_at_step:
  assumes "sys_inv env s" "lawful env" "sy_threads s = ts @ Call (FEditStop i r m) # us"
    "edit_save env u i r (sy_daemon s) = (Saved saved, d)" "sy_daemon s' = d"
    "sy_threads s' = ts @ Call (FEditRestart i saved) # us"
    "sy_live s' = sy_live s - {ma_attempt_id m}" "sy_used s' = sy_used s"
  shows "at_step (tab s) Quiet (tab s')"
proof -
  note found = edit_save_found [OF assms(1), of i r m]
  from found assms(2,3) edit_save_effect [OF assms(4)]
  have "same_runtime (sy_daemon s) d" "\<And>j. j \<noteq> i \<Longrightarrow> find_rule d j = find_rule (sy_daemon s) j"
    "find_rule d i \<noteq> None" by (simp_all add: lawful_def)
  then show ?thesis
    using assms(3,5-8)
    by (intro at_step_eq [OF at_edit_saved [of "tab s" "calls ts" i r m "calls us" "find_rule d" saved]])
      (auto simp: tab_def same_runtime_def running_of_def fun_eq_iff)
qed

lemma restart_at_step:
  assumes "sys_inv env s" "lawful env" "sy_threads s = ts @ Call (FEditRestart i saved) # us"
    "start_reserve env b a False True (rule_ref env i) (sy_daemon s) = (Answered q, d)"
    "sy_daemon s' = d" "sy_threads s' = ts @ Call (FEditDone i) # us"
    "sy_live s' = sy_live s" "sy_used s' = sy_used s"
  shows "at_step (tab s) Quiet (tab s')"
proof -
  have "find_rule d = find_rule (sy_daemon s)"
    by (rule find_rule_same [OF start_reserve_config [OF assms(4)]])
  moreover have "running_of d = running_of (sy_daemon s) \<or> running_of (sy_daemon s) i = Some AFailed \<and>
      running_of d = (running_of (sy_daemon s))(i := None)"
    "dm_editing d = dm_editing (sy_daemon s)" "dm_manually_stopped d = dm_manually_stopped (sy_daemon s)"
    using start_reserve_answered [OF assms(4)] rule_id_of_ref [OF assms(2)] by auto
  ultimately show ?thesis
    using assms(3,5-8)
    by (intro at_step_eq [OF at_edit_answer [of "tab s" "calls ts" i saved "calls us" "running_of d"]])
      (auto simp: tab_def)
qed

lemma restart_reserved_at_step:
  assumes "lawful env" "sy_threads s = ts @ Call (FEditRestart i saved) # us"
    "start_reserve env b a False True (rule_ref env i) (sy_daemon s) = (Reserved j r, d)"
    "a \<notin> sy_used s" "sy_daemon s' = d" "sy_threads s' = ts @ Call (FStart a j r True) # us"
    "sy_live s' = sy_live s" "sy_used s' = insert a (sy_used s)"
  shows "at_step (tab s) Quiet (tab s')"
proof -
  note res = start_reserve_reserved [OF assms(3)]
  have "find_rule d = find_rule (sy_daemon s)"
    by (rule find_rule_same [OF start_reserve_config [OF assms(3)]])
  moreover have "j = i" using res(1) rule_id_of_ref [OF assms(1)] by simp
  ultimately show ?thesis
    using assms(2,4-8) res
    by (intro at_step_eq [OF at_edit_reserve [of "tab s" "calls ts" i saved "calls us" r a]])
      (auto simp: tab_def)
qed

lemma maintain_at_step:
  assumes "sys_inv env s" "maintain_locked exits now new (sy_daemon s) = (sw, d)" "sy_daemon s' = d"
    "calls (sy_threads s') = calls (sy_threads s)" "sy_used s' = sy_used s"
    "sy_live s' = sy_live s - ended_pids exits (sy_daemon s)"
  shows "at_step (tab s) Quiet (tab s')"
proof -
  have keys: "keys_distinct (sy_daemon s)" using assms(1) by (simp add: sys_inv_def)
  note frame = maintain_locked_fields [OF assms(2)]
  have gone: "ended_pids exits (sy_daemon s) = {ma_attempt_id m | m j.
      at_run (tab s) j = Some (AActive m) \<and> running_of d j \<noteq> at_run (tab s) j}"
  proof -
    have "exited_now exits (AActive m) \<longleftrightarrow> running_of d j \<noteq> running_of (sy_daemon s) j"
      if "running_of (sy_daemon s) j = Some (AActive m)" for m j
      using maintain_locked_running [OF assms(2) keys, of j] that
      by (auto simp: waiting_def due_now_def)
    then show ?thesis unfolding ended_pids_def tab_fields by metis
  qed
  show ?thesis
    by (rule at_step_eq [OF at_sweep [of "tab s" "running_of d"]])
      (use maintain_locked_swept [OF assms(2) keys] frame assms(3-6) gone find_rule_same [OF frame(1)]
        in \<open>simp_all add: tab_def\<close>)
qed

theorem sys_step_simulates:
  "sys_step env s l s' \<Longrightarrow> lawful env \<Longrightarrow> sys_inv env s \<Longrightarrow> at_step (tab s) l (tab s')"
proof (induction rule: sys_step.induct)
  case (request u now op p s q d)
  then have "locked_effect env (sy_daemon s) d"
    by (intro dispatch_effect) (auto simp: lawful_def sys_inv_def)
  then show ?case by (rule config_at_step) simp_all
next
  case (start_answered b a p s q d)
  show ?case by (rule answered_at_step [OF start_answered(1)]) simp_all
next
  case (start_reserved b a p s i r d)
  show ?case by (rule reserved_at_step [OF start_reserved(1) _ start_reserved(2)]) simp_all
next
  case (start_finished s ts a i r eo us now out q d)
  then show ?case by (intro finished_at_step) (simp_all add: lawful_def)
next
  case (stop_refused p s e d)
  then show ?case by (intro same_table_at_step) (auto dest: stop_begin_refused)
next
  case (stop_taken p s i t d)
  then show ?case
    using stop_begin_taken [OF stop_taken(1)] find_rule_same [OF stop_begin_config [OF stop_taken(1)]]
    by (intro at_step_eq [OF at_stop_begin [of "tab s" i]]) (simp_all add: tab_def)
next
  case (stop_ended s ts i t us st q d)
  then show ?case
    using stop_end_table [OF stop_ended(2)] find_rule_same [OF stop_end_config [OF stop_ended(2)]]
    by (intro at_step_eq [OF at_stop_end [of "tab s" "calls ts" i t "calls us"]]) (simp_all add: tab_def)
next
  case (edit_refused p expected replacement s e d)
  then show ?case by (intro same_table_at_step) (auto dest: edit_begin_refused)
next
  case (edit_taken p expected replacement s m d)
  then show ?case
    using edit_begin_taken [OF edit_taken(2)] find_rule_same [OF edit_begin_config [OF edit_taken(2)]]
    by (intro at_step_eq [OF at_edit_begin [of "tab s" "r_id expected" m replacement]]) (simp_all add: tab_def)
next
  case (edit_stop_failed s ts i r m us err q d)
  then show ?case
    using edit_stop_failed_table [OF edit_stop_failed(2)]
      find_rule_same [OF edit_stop_failed_config [OF edit_stop_failed(2)]]
    by (intro at_step_eq [OF at_edit_stop_failed [of "tab s" "calls ts" i r m "calls us"]])
      (simp_all add: tab_def)
next
  case (edit_disappeared s ts i r m us u d)
  then show ?case
    using edit_save_found [of env s i r m] edit_save_effect [OF edit_disappeared(2)]
    by (simp add: lawful_def)
next
  case (edit_saved s ts i r m us u saved d)
  show ?case by (rule saved_at_step [OF edit_saved(4,3,1,2)]) simp_all
next
  case (restart_answered s ts i saved us b a q d)
  show ?case by (rule restart_at_step [OF restart_answered(4,3,1,2)]) simp_all
next
  case (restart_reserved s ts i saved us b a j r d)
  show ?case by (rule restart_reserved_at_step [OF restart_reserved(4,1,2,3)]) simp_all
next
  case (edit_done s ts i us)
  have "find_rule (finish_edit i (sy_daemon s)) = find_rule (sy_daemon s)"
    by (rule find_rule_same) (simp add: same_config_def)
  with edit_done show ?case
    by (intro at_step_eq [OF at_edit_done [of "tab s" "calls ts" i "calls us"]]) (simp_all add: tab_def)
next
  case (maintain_locked exits now new s sw d)
  show ?case by (rule maintain_at_step [OF maintain_locked(3,1)]) simp_all
next
  case (maintain_reported s ts sw us)
  then show ?case
    using find_rule_same [OF report_sweep_fields(1)]
    by (intro same_table_at_step) (simp_all add: running_of_def fun_eq_iff report_sweep_fields)
next
  case (restore_begin s)
  show ?case by (rule same_table_at_step) simp_all
next
  case (retry_answered s ts i "is" us b a q d)
  show ?case by (rule answered_at_step [OF retry_answered(2)]) (simp_all add: retry_answered(1))
next
  case (retry_reserved s ts i "is" us b a j r d)
  show ?case
    by (rule reserved_at_step [OF retry_reserved(2) _ retry_reserved(3)]) (simp_all add: retry_reserved(1))
qed

lemma sys_step_config:
  "sys_step env s l s' \<Longrightarrow> lawful env \<Longrightarrow> sys_inv env s \<Longrightarrow> config_inv env (sy_daemon s')"
proof (induction rule: sys_step.induct)
  case (request u now op p s q d)
  then have "locked_effect env (sy_daemon s) d"
    by (intro dispatch_effect) (auto simp: lawful_def sys_inv_def)
  then show ?case by (simp add: locked_effect_def)
next
  case (edit_disappeared s ts i r m us u d)
  then show ?case
    using edit_save_found [of env s i r m] edit_save_effect [OF edit_disappeared(2)]
    by (simp add: lawful_def)
next
  case (edit_saved s ts i r m us u saved d)
  then show ?case
    using edit_save_found [of env s i r m] edit_save_effect [OF edit_saved(2)]
    by (simp add: lawful_def)
next
  case (edit_done s ts i us)
  then show ?case by (auto simp: sys_inv_def same_config_def elim!: config_inv_same)
next
  case (maintain_reported s ts sw us)
  then show ?case using report_sweep_fields(1) by (auto simp: sys_inv_def elim!: config_inv_same)
qed (auto simp: sys_inv_def elim!: config_inv_same
    intro: start_reserve_config start_complete_config stop_begin_config stop_end_config
      edit_begin_config edit_stop_failed_config maintain_locked_fields(1))

lemma sys_step_keys:
  "sys_step env s l s' \<Longrightarrow> lawful env \<Longrightarrow> sys_inv env s \<Longrightarrow> keys_distinct (sy_daemon s')"
proof (induction rule: sys_step.induct)
  case (request u now op p s q d)
  then have "locked_effect env (sy_daemon s) d"
    by (intro dispatch_effect) (auto simp: lawful_def sys_inv_def)
  with request show ?case by (simp add: locked_effect_def same_runtime_def keys_distinct_def sys_inv_def)
next
  case (start_finished s ts a i r eo us now out q d)
  then show ?case
    using start_complete_superseded [OF start_finished(2)]
      start_complete_started(5) [OF start_finished(2)] start_complete_failed(4) [OF start_finished(2)]
    by (cases "running_of (sy_daemon s) i = Some (AStarting a)"; cases "so_started out")
      (auto simp: sys_inv_def lawful_def)
next
  case (edit_disappeared s ts i r m us u d)
  then show ?case
    using edit_save_found [of env s i r m] edit_save_effect [OF edit_disappeared(2)]
    by (simp add: lawful_def)
next
  case (edit_saved s ts i r m us u saved d)
  then show ?case
    using edit_save_found [of env s i r m] edit_save_effect [OF edit_saved(2)]
    by (simp add: lawful_def same_runtime_def keys_distinct_def sys_inv_def)
next
  case (maintain_reported s ts sw us)
  then show ?case
    by (simp add: sys_inv_def keys_distinct_def report_sweep_fields)
qed (auto simp: sys_inv_def dest: start_reserve_keys stop_begin_refused stop_begin_taken(8)
    stop_end_table(4) edit_begin_refused edit_begin_taken(7) edit_stop_failed_table(4)
    keys_distinct_maintain)

lemma sys_step_edits:
  "sys_step env s l s' \<Longrightarrow> edits_valid (calls (sy_threads s)) \<Longrightarrow> edits_valid (calls (sy_threads s'))"
proof (induction rule: sys_step.induct)
  case (edit_taken p expected replacement s m d)
  then show ?case using edit_request_valid [OF edit_taken(1)] by (auto simp: edits_valid_def)
qed (auto simp: edits_valid_def)

theorem sys_inv_step: "sys_step env s l s' \<Longrightarrow> lawful env \<Longrightarrow> sys_inv env s \<Longrightarrow> sys_inv env s'"
  using sys_step_config sys_step_keys sys_step_edits table_inv_step sys_step_simulates
  unfolding sys_inv_def by blast

end
