(* ===== verification/Daemon_Safety.thy ===== *)
theory Daemon_Safety
  imports Daemon_System
begin

text \<open>
  What holds of the daemon in every reachable state, whatever the interleaving of its
  threads.
\<close>

section \<open>Reachable states\<close>

lemma daemon_open_inv:
  assumes "lawful env" "honest_faults dir" "daemon_open env b u dir = Ok d"
  shows "sys_inv env \<lparr>sy_daemon = d, sy_threads = [], sy_live = {}, sy_used = {}\<rparr>"
proof -
  obtain q dir' where q: "load_or_migrate_v1 (me_toml env) (me_show_uuid env) b u dir = (q, dir')"
    by fastforce
  with assms(3) obtain res where "q = Inr res"
    and d: "d = (case (case res of None \<Rightarrow> ([], default_settings) | Some c \<Rightarrow> c) of (rules, s) \<Rightarrow>
        \<lparr>dm_store = dir', dm_rules = rules, dm_settings = s, dm_running = [],
         dm_diagnostics = [], dm_manually_stopped = {}, dm_editing = {}, dm_events = [],
         dm_log = []\<rparr>)"
    by (cases q) (simp_all add: daemon_open_def)
  with q have l: "load_or_migrate_v1 (me_toml env) (me_show_uuid env) b u dir = (Inr res, dir')" by simp
  have toml: "toml_round_trip (me_toml env)" using assms(1) by (simp add: lawful_def)
  note stored = load_or_migrate_stored [OF l toml assms(2)]
  have empty: "well_formed_rules []" by (simp add: well_formed_rules_def)
  have "config_inv env d"
    using stored d empty by (cases res) (auto simp: config_inv_def split: prod.splits)
  moreover have "dm_running d = []" "dm_editing d = {}" using d by (auto split: prod.splits)
  ultimately show ?thesis
    by (simp add: sys_inv_def keys_distinct_def edits_valid_def table_inv_def tab_def inv_rules_def
        inv_attempts_def inv_edits_def inv_live_def run_pids_def own_once_def running_of_def)
qed

lemma sys_run_inv: "sys_run env s ls s' \<Longrightarrow> lawful env \<Longrightarrow> sys_inv env s \<Longrightarrow> sys_inv env s'"
  by (induction rule: sys_run.induct) (auto intro: sys_inv_step)

lemma sys_reachable_inv: "sys_reachable env s \<Longrightarrow> lawful env \<Longrightarrow> sys_inv env s"
  unfolding sys_reachable_def by (auto elim!: sys_init.cases intro: sys_run_inv daemon_open_inv)

lemma sys_run_append: "sys_run env s ls s' \<Longrightarrow> sys_step env s' l s'' \<Longrightarrow> sys_run env s (ls @ [l]) s''"
  by (rule sys_run_step)

lemma sys_reachable_step: "sys_reachable env s \<Longrightarrow> sys_step env s l s' \<Longrightarrow> sys_reachable env s'"
  unfolding sys_reachable_def by (blast intro: sys_run_step)

section \<open>A run, for the witnesses\<close>

text \<open>A daemon with one rule: it is started, its process runs, and it is stopped.\<close>

definition sample_codec :: codec where
  "sample_codec = \<lparr>ser_uuid = (\<lambda>u. JNat (unat u)), ser_rules = (\<lambda>_. JNull), ser_settings = (\<lambda>_. JNull),
     de_id = (\<lambda>j. case j of JObj ((_, JNat n) # _) \<Rightarrow> Some (of_nat n) | _ \<Rightarrow> None),
     de_name = (\<lambda>_. None), de_rule = (\<lambda>_. Some (wire_of_domain (hd sample_rules))),
     de_import = (\<lambda>_. None),
     de_edit = (\<lambda>_. Some (wire_of_domain (hd sample_rules), wire_of_domain (hd sample_rules))),
     de_settings = (\<lambda>_. Some default_settings)\<rparr>"

definition sample_env :: manager_env where
  "sample_env = \<lparr>me_toml = sample_toml, me_show_uuid = sample_show_uuid, me_codec = sample_codec,
     me_process = True, me_logging = True\<rparr>"

lemma sample_env_lawful: "lawful sample_env"
  by (simp add: lawful_def sample_env_def sample_toml_round_trip rule_ref_def sample_codec_def)

definition saved_dir :: pdir where
  "saved_dir = sample_dir [(config_name,
     \<lparr>en_meta = private_meta Regular, en_data = lit ''v2'', en_synced = True\<rparr>)]"

definition sample_opened :: daemon where
  "sample_opened = projr (daemon_open sample_env 8 9 saved_dir)"

definition sample_attempt :: managed where
  "sample_attempt = \<lparr>ma_lease = True, ma_guardian = True, ma_master_pid = 42, ma_attempt_dir = lit ''/r'',
     ma_attempt_id = 101\<rparr>"

definition sample_outcome :: start_outcome where
  "sample_outcome = \<lparr>so_started = Ok sample_attempt, so_stopped = Ok ()\<rparr>"

definition free_port :: "rstr \<Rightarrow> u16 \<Rightarrow> io_kind + unit" where
  "free_port a p = Ok ()"

definition sample_reserved :: daemon where
  "sample_reserved = snd (start_reserve sample_env free_port 100 False False (rule_ref sample_env 1) sample_opened)"

definition sample_active :: daemon where
  "sample_active = snd (start_complete sample_env 5 100 False sample_outcome 1 (hd sample_rules) sample_reserved)"

definition sample_stopping :: daemon where
  "sample_stopping = snd (stop_begin sample_env (rule_ref sample_env 1) sample_active)"

definition sample_editing :: daemon where
  "sample_editing = snd (edit_begin sample_env (hd sample_rules) (hd sample_rules) sample_active)"

definition running_sys :: sys where
  "running_sys = \<lparr>sy_daemon = sample_active, sy_threads = [], sy_live = {101}, sy_used = {101, 100}\<rparr>"

lemma sample_open_ok: "daemon_open sample_env 8 9 saved_dir = Ok sample_opened"
proof -
  have "is_ok (daemon_open sample_env 8 9 saved_dir)" by code_simp
  then show ?thesis by (auto simp: sample_opened_def is_ok_iff)
qed

lemma sample_reserve: "start_reserve sample_env free_port 100 False False (rule_ref sample_env 1) sample_opened
   = (Reserved 1 (hd sample_rules), sample_reserved)"
proof -
  have "fst (start_reserve sample_env free_port 100 False False (rule_ref sample_env 1) sample_opened) =
     Reserved 1 (hd sample_rules)" by code_simp
  then show ?thesis by (simp add: sample_reserved_def prod_eq_iff)
qed

lemma sample_complete: "start_complete sample_env 5 100 False sample_outcome 1 (hd sample_rules) sample_reserved
   = (Ok (start_answer sample_env 1 True True), sample_active)"
proof -
  have "is_ok (fst (start_complete sample_env 5 100 False sample_outcome 1 (hd sample_rules) sample_reserved))"
    "running_of sample_reserved 1 = Some (AStarting 100)"
    by code_simp+
  then show ?thesis
    by (auto simp: sample_active_def prod_eq_iff start_complete_def sample_outcome_def
        start_finished_def Let_def sample_env_def)
qed

lemma sample_running: "running_of sample_active 1 = Some (AActive sample_attempt)"
  by code_simp

lemma sample_stop: "stop_begin sample_env (rule_ref sample_env 1) sample_active =
   (Inr (1, Some (AActive sample_attempt)), sample_stopping)"
proof -
  have "fst (stop_begin sample_env (rule_ref sample_env 1) sample_active) =
    Inr (1, Some (AActive sample_attempt))" by code_simp
  then show ?thesis by (simp add: sample_stopping_def prod_eq_iff)
qed

lemma sample_edit: "edit_begin sample_env (hd sample_rules) (hd sample_rules) sample_active =
   (Inr (Some (AActive sample_attempt)), sample_editing)"
proof -
  have "fst (edit_begin sample_env (hd sample_rules) (hd sample_rules) sample_active) =
    Inr (Some (AActive sample_attempt))" by code_simp
  then show ?thesis by (simp add: sample_editing_def prod_eq_iff)
qed

lemma running_sys_reachable: "sys_reachable sample_env running_sys"
proof -
  let ?s0 = "\<lparr>sy_daemon = sample_opened, sy_threads = [], sy_live = {}, sy_used = {}\<rparr>"
  let ?s1 = "\<lparr>sy_daemon = sample_reserved, sy_threads = [Call (FStart 100 1 (hd sample_rules) False)],
    sy_live = {}, sy_used = {100}\<rparr>"
  have "honest_faults saved_dir" by (simp add: honest_faults_def saved_dir_def sample_dir_def)
  then have "sys_reachable sample_env ?s0"
    unfolding sys_reachable_def using sys_init.opened sample_open_ok sys_run_refl by blast
  moreover have "sys_step sample_env ?s0 (start_label sample_env (rule_ref sample_env 1) sample_opened) ?s1"
    using sys_step.start_reserved [of sample_env free_port 100 "rule_ref sample_env 1" ?s0] sample_reserve
    by simp
  moreover have "sys_step sample_env ?s1 Quiet running_sys"
  proof -
    have run: "running_of sample_reserved 1 = Some (AStarting 100)" by code_simp
    have "sys_step sample_env ?s1 Quiet (?s1\<lparr>sy_daemon := sample_active, sy_threads := [],
        sy_live := {101}, sy_used := {101, 100}\<rparr>)"
      using sys_step.start_finished [of ?s1 "[]" 100 1 "hd sample_rules" False "[]" sample_env 5
          sample_outcome _ sample_active] sample_complete run
      by (simp add: started_pids_def sample_outcome_def sample_attempt_def insert_commute)
    then show ?thesis by (simp add: running_sys_def)
  qed
  ultimately show ?thesis by (blast intro: sys_reachable_step)
qed

definition stopping_sys :: sys where
  "stopping_sys = \<lparr>sy_daemon = sample_stopping,
     sy_threads = [Call (FStop 1 (Some (AActive sample_attempt)))], sy_live = {101}, sy_used = {101, 100}\<rparr>"

lemma stopping_sys_step: "sys_step sample_env running_sys Quiet stopping_sys"
  using sys_step.stop_taken [of sample_env "rule_ref sample_env 1" running_sys] sample_stop
  by (simp add: running_sys_def stopping_sys_def)

definition editing_sys :: sys where
  "editing_sys = \<lparr>sy_daemon = sample_editing,
     sy_threads = [Call (FEditStop 1 (hd sample_rules) sample_attempt)],
     sy_live = {101}, sy_used = {101, 100}\<rparr>"

lemma editing_sys_step: "sys_step sample_env running_sys Quiet editing_sys"
proof -
  have "edit_request sample_env JNull = Inr (hd sample_rules, hd sample_rules)" by code_simp
  from sys_step.edit_taken [OF this, of running_sys] sample_edit show ?thesis
    by (simp add: running_sys_def editing_sys_def sample_rules_def listener_rule_def)
qed

section \<open>Safety of the system\<close>

text \<open>C1: in every reachable state the rules the daemon works with form a valid rule set, and
  they and the settings are exactly what config.toml holds: no interleaving of requests,
  edits, failed saves and retries lets memory and disk drift apart.\<close>

theorem configuration_follows_disk:
  assumes "lawful env" and "sys_reachable env s"
  shows "list_all valid_rule (dm_rules (sy_daemon s)) \<and> validate_rule_set (dm_rules (sy_daemon s)) = Ok () \<and>
    (case stored_config (me_toml env) (dm_store (sy_daemon s)) of
       Inl _ \<Rightarrow> False
     | Inr None \<Rightarrow> dm_rules (sy_daemon s) = [] \<and> dm_settings (sy_daemon s) = default_settings
     | Inr (Some c) \<Rightarrow> c = (dm_rules (sy_daemon s), dm_settings (sy_daemon s)))"
  using sys_reachable_inv [OF assms(2,1)]
  by (auto simp: sys_inv_def config_inv_def well_formed_rules_def)

theorem configuration_follows_disk_witness:
  "list_all valid_rule (dm_rules (sy_daemon running_sys)) \<and>
    validate_rule_set (dm_rules (sy_daemon running_sys)) = Ok () \<and>
    (case stored_config (me_toml sample_env) (dm_store (sy_daemon running_sys)) of
       Inl _ \<Rightarrow> False
     | Inr None \<Rightarrow> dm_rules (sy_daemon running_sys) = [] \<and>
         dm_settings (sy_daemon running_sys) = default_settings
     | Inr (Some c) \<Rightarrow> c = (dm_rules (sy_daemon running_sys), dm_settings (sy_daemon running_sys)))"
  by (rule configuration_follows_disk [OF sample_env_lawful running_sys_reachable])

text \<open>C2: no SSH process is ever forgotten: in every reachable state each process that was
  started, was not stopped and was not seen to end is either the active attempt of exactly
  one rule or is held by exactly one call that is about to stop it; and nothing else is
  listed as active.\<close>

theorem no_process_is_forgotten:
  assumes "lawful env" and "sys_reachable env s"
  shows "sy_live s = {ma_attempt_id m | m i. running_of (sy_daemon s) i = Some (AActive m)} \<union>
      set (flight_pids (calls (sy_threads s))) \<and>
    distinct (flight_pids (calls (sy_threads s))) \<and>
    (\<forall>i m. running_of (sy_daemon s) i = Some (AActive m) \<longrightarrow>
       ma_attempt_id m \<notin> set (flight_pids (calls (sy_threads s))) \<and>
       (\<forall>j n. running_of (sy_daemon s) j = Some (AActive n) \<longrightarrow> ma_attempt_id n = ma_attempt_id m \<longrightarrow> j = i))"
proof -
  have inv: "inv_live (tab s)"
    using sys_reachable_inv [OF assms(2,1)] by (simp add: sys_inv_def table_inv_def)
  have pids: "run_pids (running_of (sy_daemon s)) =
      {ma_attempt_id m | m i. running_of (sy_daemon s) i = Some (AActive m)}"
    by (auto simp: run_pids_def attempt_pids_iff)
  have "\<forall>i m j n. running_of (sy_daemon s) i = Some (AActive m) \<longrightarrow>
      running_of (sy_daemon s) j = Some (AActive n) \<longrightarrow> ma_attempt_id n = ma_attempt_id m \<longrightarrow> j = i"
    using inv by (simp add: inv_live_def own_once_def attempt_pids_iff)
  with inv show ?thesis unfolding inv_live_def tab_fields pids by blast
qed

theorem no_process_is_forgotten_witness:
  "{101} = {ma_attempt_id m | m i. running_of sample_active i = Some (AActive m)} \<and>
   ma_attempt_id sample_attempt \<notin> set (flight_pids (calls []))"
  using no_process_is_forgotten [OF sample_env_lawful running_sys_reachable] sample_running
  by (simp add: running_sys_def)

text \<open>C3: a stop by hand is final: once a rule is marked as stopped by hand, has no entry and
  is not being edited, nothing but a start request for that very rule brings it back:
  no retry that was already due, no start that was in flight, no supervisor pass and no
  request about other rules, in whatever order they come.\<close>

theorem manual_stop_is_final:
  assumes "lawful env" and "sys_reachable env s" and "sys_run env s ls s'"
    and "i \<in> dm_manually_stopped (sy_daemon s)" "i \<notin> dm_editing (sy_daemon s)"
    and "running_of (sy_daemon s) i = None"
    and "Explicit i \<notin> set ls"
  shows "running_of (sy_daemon s') i = None \<and> i \<in> dm_manually_stopped (sy_daemon s')"
proof -
  have "hand_stopped i (tab s) \<Longrightarrow> sys_inv env s \<Longrightarrow> hand_stopped i (tab s') \<and> sys_inv env s'"
    using assms(3,7)
  proof (induction rule: sys_run.induct)
    case (sys_run_step s ls s' l s'')
    then have "hand_stopped i (tab s') \<and> sys_inv env s'" and "l \<noteq> Explicit i" by auto
    moreover from this(1) have "inv_edits (tab s')" by (simp add: sys_inv_def table_inv_def)
    ultimately show ?case
      using hand_stopped_step [OF sys_step_simulates [OF sys_run_step(2) assms(1)]]
        sys_inv_step [OF sys_run_step(2) assms(1)] by (auto simp: hand_stopped_def)
  qed simp
  with assms sys_reachable_inv [OF assms(2,1)] show ?thesis by (simp add: hand_stopped_def)
qed

theorem manual_stop_is_final_witness:
  "\<exists>s'. sys_run sample_env stopping_sys [Quiet] s' \<and>
     running_of (sy_daemon s') 1 = None \<and> 1 \<in> dm_manually_stopped (sy_daemon s')"
proof -
  let ?d = "snd (stop_end sample_env (Ok ()) 1 (Some (AActive sample_attempt)) sample_stopping)"
  let ?s = "stopping_sys\<lparr>sy_daemon := ?d, sy_threads := [], sy_live := {}\<rparr>"
  have "sys_step sample_env stopping_sys Quiet ?s"
    using sys_step.stop_ended [of stopping_sys "[]" 1 "Some (AActive sample_attempt)" "[]" sample_env
        "Ok ()" _ ?d] by (simp add: stopping_sys_def prod_eq_iff sample_attempt_def)
  from sys_run_step [OF sys_run_refl this] have run: "sys_run sample_env stopping_sys [Quiet] ?s" by simp
  have "1 \<in> dm_manually_stopped sample_stopping" "1 \<notin> dm_editing sample_stopping"
    "running_of sample_stopping 1 = None" by code_simp+
  with manual_stop_is_final [OF sample_env_lawful
      sys_reachable_step [OF running_sys_reachable stopping_sys_step] run, of 1] run
  show ?thesis by (auto simp: stopping_sys_def)
qed

lemma count_list_distinct: "distinct xs \<Longrightarrow> x \<in> set xs \<Longrightarrow> count_list xs x = 1"
  by (induction xs) auto

text \<open>C4: an edit holds its rule exclusively: while a rule is being edited exactly one call in
  flight edits it, the rule exists, its entry is absent or that call's own start until the
  edit is done, and the save of the edit never finds the rule gone.\<close>

theorem edit_is_exclusive:
  assumes "lawful env" and "sys_reachable env s" and "i \<in> dm_editing (sy_daemon s)"
  shows "find_rule (sy_daemon s) i \<noteq> None \<and>
    count_list (flight_edits (calls (sy_threads s))) i = 1 \<and>
    (\<forall>a. running_of (sy_daemon s) i = Some (AStarting a) \<longrightarrow>
      (\<exists>r. FStart a i r True \<in> set (calls (sy_threads s)))) \<and>
    (\<forall>r m u. FEditStop i r m \<in> set (calls (sy_threads s)) \<longrightarrow>
      fst (edit_save env u i r (sy_daemon s)) \<noteq> Disappeared)"
proof -
  note inv = sys_reachable_inv [OF assms(2,1)]
  then have ed: "inv_edits (tab s)" and rules: "inv_rules (tab s)"
    by (simp_all add: sys_inv_def table_inv_def)
  from ed assms(3) have "count_list (flight_edits (calls (sy_threads s))) i = 1"
    by (simp add: inv_edits_def count_list_distinct)
  moreover have "fst (edit_save env u i r (sy_daemon s)) \<noteq> Disappeared"
    if "FEditStop i r m \<in> set (calls (sy_threads s))" for r m u
  proof -
    obtain q d where q: "edit_save env u i r (sy_daemon s) = (q, d)" by fastforce
    from edit_save_found [OF inv that] edit_save_effect [OF q] assms(1) show ?thesis
      by (auto simp: lawful_def q)
  qed
  ultimately show ?thesis
    using rules edited_entry [OF ed] assms(3) by (auto simp: inv_rules_def)
qed

theorem edit_is_exclusive_witness:
  "find_rule sample_editing 1 \<noteq> None \<and> count_list (flight_edits (calls (sy_threads editing_sys))) 1 = 1"
proof -
  have "1 \<in> dm_editing (sy_daemon editing_sys)" by code_simp
  with edit_is_exclusive [OF sample_env_lawful
      sys_reachable_step [OF running_sys_reachable editing_sys_step], of 1]
  show ?thesis by (simp add: editing_sys_def)
qed

lemma rules_of_running:
  "at_step s l s' \<Longrightarrow> inv_rules s \<Longrightarrow> inv_edits s \<Longrightarrow> at_run s i \<noteq> None \<Longrightarrow> at_rules s' i = at_rules s i"
proof (induction rule: at_step.induct)
  case (at_edit_saved s fs j r m gs rs saved)
  then have "at_run s j = None" by (auto simp: inv_edits_def)
  with at_edit_saved(6) have "i \<noteq> j" by auto
  with at_edit_saved(2) show ?case by simp
qed (auto simp: inv_rules_def)

text \<open>C5: what runs is what is configured: a rule with an entry in the running table always
  exists, and no step of any thread changes or removes the rule while that entry is
  there.\<close>

theorem running_rules_are_kept:
  assumes "lawful env" and "sys_reachable env s" and "running_of (sy_daemon s) i \<noteq> None"
    and "sys_step env s l s'"
  shows "find_rule (sy_daemon s) i \<noteq> None \<and> find_rule (sy_daemon s') i = find_rule (sy_daemon s) i"
proof -
  note inv = sys_reachable_inv [OF assms(2,1)]
  then have "inv_rules (tab s)" "inv_edits (tab s)" by (simp_all add: sys_inv_def table_inv_def)
  with rules_of_running [OF sys_step_simulates [OF assms(4,1) inv], of i] assms(3) show ?thesis
    by (auto simp: inv_rules_def)
qed

theorem running_rules_are_kept_witness:
  "find_rule sample_active 1 \<noteq> None \<and> find_rule sample_stopping 1 = find_rule sample_active 1"
  using running_rules_are_kept [OF sample_env_lawful running_sys_reachable _ stopping_sys_step, of 1]
    sample_running
  by (simp add: running_sys_def stopping_sys_def)

end
