(* ===== verification/Daemon_Requests.thy ===== *)
theory Daemon_Requests
  imports Daemon_Safety
begin

text \<open>
  What one whole request does when no other thread takes the lock in between: edits,
  additions, retries and the dispatcher.
\<close>

section \<open>Whole requests\<close>

text \<open>a due retry can be lost. The supervisor takes a due rule out of the table and then
  starts it; when the local port is taken at that moment the start is refused before
  anything is recorded, so the rule ends up stopped: no entry, no event, no log line and no
  further retry, although nobody stopped it and it asks to be reconnected.\<close>

theorem due_retry_is_lost:
  assumes "lawful env" and "dm_running st = [(i, AReconnecting due)]" "due \<le> now"
    and "find_rule st i = Some r" "i \<notin> dm_editing st" "i \<notin> dm_manually_stopped st"
    and "check_local_port (or_bind (os i)) r = Err e"
  shows "maintain env exits now new os st = drop_running i st"
proof -
  have ids: "ids_where (due_now now) st = [i]" "ids_where (exited_now exits) st = []"
    "ids_where (\<lambda>a. is_active a \<and> \<not> exited_now exits a) st = []"
    using assms(2,3) by (simp_all add: ids_where_def due_now_def exited_now_def is_active_def)
  have find: "find_rule (drop_running i st) i = Some r"
    using assms(4) by (simp add: find_rule_def)
  show ?thesis
    using assms(5-7) find
    by (simp add: maintain_def maintain_locked_alt ids report_sweep_def retry_rule_def start_with_def
        start_inner_def start_reserve_def rule_id_of_ref [OF assms(1)])
qed

definition taken_port :: start_oracle where
  "taken_port = \<lparr>or_bind = (\<lambda>_ _. Err IoAddrInUse), or_now = 9, or_attempt = 200, or_outcome = sample_outcome\<rparr>"

definition waiting_daemon :: daemon where
  "waiting_daemon = set_running 1 (AReconnecting 7) sample_opened"

theorem due_retry_is_lost_witness:
  "maintain sample_env (\<lambda>_. Ok False) 9 300 (\<lambda>_. taken_port) waiting_daemon = drop_running 1 waiting_daemon \<and>
   running_of (drop_running 1 waiting_daemon) 1 = None"
proof -
  have "\<not> is_ok (check_local_port (or_bind taken_port) (hd sample_rules))" by code_simp
  then obtain e where e: "check_local_port (or_bind taken_port) (hd sample_rules) = Err e"
    by (cases "check_local_port (or_bind taken_port) (hd sample_rules)") auto
  have "find_rule waiting_daemon 1 = Some (hd sample_rules)" "1 \<notin> dm_editing waiting_daemon"
    "1 \<notin> dm_manually_stopped waiting_daemon" "dm_running waiting_daemon = [(1, AReconnecting 7)]"
    by code_simp+
  with due_retry_is_lost [OF sample_env_lawful, of waiting_daemon 1 7 9 _ "\<lambda>_. taken_port" e] e
  show ?thesis by simp
qed

lemma edit_save_rules:
  assumes "edit_save env u i r st = (Saved saved, st')"
  shows "dm_rules st' = (if applied saved then replace_first i r (dm_rules st) else dm_rules st) \<and>
    running_of st' = running_of st \<and> dm_editing st' = dm_editing st"
  using assms
  by (auto simp: edit_save_def Let_def dm_save_def applied_def running_of_def fun_eq_iff
      split: if_splits sum.splits prod.splits)

lemma edit_answer_ok: "is_ok (edit_answer env i saved restart) \<longleftrightarrow> is_ok saved \<and> is_ok restart"
  by (auto simp: edit_answer_def split: sum.splits option.splits)

lemma start_complete_editing:
  assumes "start_complete env now a eo out i r st = (q, st')" "me_process env"
  shows "dm_editing st' = dm_editing st"
  using assms start_complete_superseded [OF assms(1)]
    start_complete_started(3) [OF assms] start_complete_failed(2) [OF assms]
  by (cases "running_of st i = Some (AStarting a)"; cases "so_started out") auto

lemma start_inner_frame:
  assumes "start_inner env b now a out automatic eo p st = (q, st')" "me_process env"
  shows "dm_editing st' = dm_editing st" "same_config st st'"
proof -
  obtain w st1 where w: "start_reserve env b a automatic eo p st = (w, st1)" by fastforce
  note keep = start_reserve_config [OF w]
  have "dm_editing st' = dm_editing st \<and> same_config st st'"
  proof (cases w)
    case (Answered res)
    with w assms(1) have "st' = st1" by (simp add: start_inner_def)
    with start_reserve_answered [OF w [unfolded Answered]] keep show ?thesis by simp
  next
    case (Reserved i r)
    with w assms(1) have c: "start_complete env now a eo out i r st1 = (q, st')"
      by (simp add: start_inner_def)
    from start_complete_editing [OF c assms(2)] start_complete_config [OF c] keep
      start_reserve_reserved(7) [OF w [unfolded Reserved]] same_config_trans show ?thesis by auto
  qed
  then show "dm_editing st' = dm_editing st" "same_config st st'" by auto
qed

text \<open>A pass of the supervisor touches neither the configuration nor the edits.\<close>

lemma retry_frame:
  assumes "me_process env"
  shows "same_config st (retry_rule env os i st) \<and> dm_editing (retry_rule env os i st) = dm_editing st"
  using start_inner_frame [OF _ assms]
  by (cases "start_with env (os i) True False (rule_ref env i) st")
    (auto simp: retry_rule_def start_with_def)

lemma retries_frame:
  assumes "me_process env"
  shows "same_config st (fold (retry_rule env os) is st) \<and> dm_editing (fold (retry_rule env os) is st) = dm_editing st"
proof (induction "is" arbitrary: st)
  case (Cons i "is")
  with retry_frame [OF assms, of st os i] show ?case by (auto intro: same_config_trans)
qed simp

lemma maintain_frame:
  assumes "me_process env"
  shows "same_config st (maintain env exits now new os st)"
    "dm_editing (maintain env exits now new os st) = dm_editing st"
proof -
  obtain sw st1 where m: "maintain_locked exits now new st = (sw, st1)" by fastforce
  from maintain_locked_fields [OF m] report_sweep_fields [where st = st1 and env = env and sw = sw]
    retries_frame [OF assms, of "report_sweep env sw st1" os "sw_retry sw"]
  show "same_config st (maintain env exits now new os st)"
    "dm_editing (maintain env exits now new os st) = dm_editing st"
    by (auto simp: maintain_def m intro: same_config_trans)
qed

text \<open>A restart that answers success made the rule active.\<close>

lemma restart_ok:
  assumes "start_inner env b now a out False True (rule_ref env i) st = (q, st')" "lawful env"
    "running_of st i = None" "is_ok q"
  shows "\<exists>m. so_started out = Ok m \<and> running_of st' i = Some (AActive m)"
proof -
  obtain w st1 where w: "start_reserve env b a False True (rule_ref env i) st = (w, st1)" by fastforce
  show ?thesis
  proof (cases w)
    case (Answered res)
    with w assms(1) have "q = res" by (simp add: start_inner_def)
    with w Answered assms(2-4) show ?thesis
      by (auto simp: start_reserve_def rule_id_of_ref Let_def split: option.splits sum.splits)
  next
    case (Reserved j r)
    with w assms(1) have c: "start_complete env now a True out j r st1 = (q, st')"
      by (simp add: start_inner_def)
    note res = start_reserve_reserved [OF w [unfolded Reserved]]
    have j: "j = i" using res(1) rule_id_of_ref [OF assms(2)] by simp
    have run: "running_of st1 i = Some (AStarting a)" and proc: "me_process env"
      using res(6) j assms(2) by (simp_all add: lawful_def)
    show ?thesis
    proof (cases "so_started out")
      case (Inl e)
      with c run proc j have "\<not> is_ok q"
        by (auto simp: start_complete_def start_failed_def Let_def)
      with assms(4) show ?thesis by simp
    next
      case (Inr m)
      with start_complete_started(2) [OF c [unfolded j] proc run Inr] show ?thesis by simp
    qed
  qed
qed

text \<open>An edit whose process was stopped: the save, the restart and the end of the reservation.\<close>

definition edit_kept :: "manager_env \<Rightarrow> rule \<Rightarrow> rule \<Rightarrow> start_oracle \<Rightarrow> daemon \<Rightarrow> failure + json \<Rightarrow> daemon \<Rightarrow> bool" where
  "edit_kept env expected replacement orc st res st' \<longleftrightarrow>
     dm_editing st' = dm_editing st - {r_id expected} \<and> config_inv env st' \<and>
     dm_rules st' \<in> {dm_rules st, replace_first (r_id expected) replacement (dm_rules st)} \<and>
     (is_ok res \<longrightarrow> dm_rules st' = replace_first (r_id expected) replacement (dm_rules st) \<and>
       (\<exists>m. so_started (or_outcome orc) = Ok m \<and> running_of st' (r_id expected) = Some (AActive m)))"

lemma edit_after_stop:
  assumes "lawful env" "config_inv env st" "edit_request env payload = Ok (expected, replacement)"
    and "find_rule st (r_id expected) \<noteq> None" "running_of st (r_id expected) = None"
    and "edit_save env u (r_id expected) replacement st = (w, st2)"
  obtains saved where "w = Saved saved"
    "\<And>q st3. start_with env orc False True (rule_ref env (r_id expected)) st2 = (q, st3) \<Longrightarrow>
      edit_kept env expected replacement orc st (edit_answer env (r_id expected) saved q)
        (finish_edit (r_id expected) st3)"
proof -
  let ?i = "r_id expected"
  have toml: "toml_round_trip (me_toml env)" and proc: "me_process env"
    using assms(1) by (simp_all add: lawful_def)
  from edit_save_effect [OF assms(6,2) toml edit_request_valid [OF assms(3)] assms(4)]
  obtain saved where w: "w = Saved saved" and c2: "config_inv env st2" by blast
  note rules2 = edit_save_rules [OF assms(6) [unfolded w]]
  have "edit_kept env expected replacement orc st (edit_answer env ?i saved q) (finish_edit ?i st3)"
    if "start_with env orc False True (rule_ref env ?i) st2 = (q, st3)" for q st3
  proof -
    note restart = that [unfolded start_with_def]
    note frame = start_inner_frame [OF restart proc]
    have "config_inv env (finish_edit ?i st3)"
      using config_inv_same [OF config_inv_same [OF c2 frame(2)]] by (simp add: same_config_def)
    moreover have "\<exists>m. so_started (or_outcome orc) = Ok m \<and> running_of (finish_edit ?i st3) ?i = Some (AActive m)"
      if "is_ok q"
    proof -
      have "running_of st2 ?i = None" using rules2 assms(5) by simp
      from restart_ok [OF restart assms(1) this that] show ?thesis by auto
    qed
    moreover have "is_ok saved \<Longrightarrow> applied saved" by (auto simp: applied_def is_ok_iff)
    ultimately show ?thesis
      using frame rules2 by (auto simp: edit_kept_def same_config_def edit_answer_ok split: if_splits)
  qed
  with w show thesis by (rule that)
qed

text \<open>C6: an edit of an active rule ends well on every path: the rule is released again, no
  other rule changes, memory and disk agree, and the rule is either as it was or the
  replacement; when the request answers success, the replacement is saved and its new
  process is the rule's active attempt.\<close>

theorem edit_saves_or_keeps:
  assumes "lawful env" and "config_inv env st"
    and "edit_active env u stopped orc payload st = (res, st')"
  shows "dm_editing st' = dm_editing st \<and> config_inv env st' \<and>
    (dm_rules st' = dm_rules st \<or> (\<exists>expected replacement.
       edit_request env payload = Ok (expected, replacement) \<and>
       dm_rules st' = replace_first (r_id expected) replacement (dm_rules st))) \<and>
    (is_ok res \<longrightarrow> (\<exists>expected replacement m.
       edit_request env payload = Ok (expected, replacement) \<and>
       dm_rules st' = replace_first (r_id expected) replacement (dm_rules st) \<and>
       so_started (or_outcome orc) = Ok m \<and>
       running_of st' (r_id expected) = Some (AActive m)))"
proof (cases "edit_request env payload")
  case (Inl e)
  with assms show ?thesis by (auto simp: edit_active_def)
next
  case (Inr er)
  obtain expected replacement where er: "edit_request env payload = Ok (expected, replacement)"
    using Inr by (cases er) simp
  let ?i = "r_id expected"
  obtain t st1 where eb: "edit_begin env expected replacement st = (t, st1)" by fastforce
  note same1 = edit_begin_config [OF eb]
  have c1: "config_inv env st1" using config_inv_same [OF assms(2) same1] .
  show ?thesis
  proof (cases t)
    case (Inl e)
    with assms er eb edit_begin_refused show ?thesis by (fastforce simp: edit_active_def)
  next
    case tk: (Inr taken)
    note taken = edit_begin_taken [OF eb [unfolded tk]]
    then obtain m where m: "taken = Some (AActive m)" by blast
    have rules1: "dm_rules st1 = dm_rules st" using same1 by (simp add: same_config_def)
    show ?thesis
    proof (cases stopped)
      case (Inl err)
      with assms(3) er eb tk m have "edit_stop_failed env ?i err st1 = (res, st')"
        by (simp add: edit_active_def is_active_def)
      with edit_stop_failed_table [OF this] edit_stop_failed_config [OF this] taken rules1 c1
      show ?thesis by (auto simp: same_config_def edit_stop_failed_def Let_def config_inv_def)
    next
      case stop: (Inr v)
      obtain w st2 where save: "edit_save env u ?i replacement st1 = (w, st2)" by fastforce
      obtain q st3 where restart: "start_with env orc False True (rule_ref env ?i) st2 = (q, st3)"
        by fastforce
      have "find_rule st1 ?i \<noteq> None" "running_of st1 ?i = None"
        using taken(1,4) find_rule_same [OF same1] by simp_all
      from edit_after_stop [OF assms(1) c1 er this save] obtain saved where w: "w = Saved saved"
        and kept: "edit_kept env expected replacement orc st1 (edit_answer env ?i saved q) (finish_edit ?i st3)"
        using restart by metis
      from assms(3) er eb tk m stop save w restart
      have "res = edit_answer env ?i saved q" "st' = finish_edit ?i st3"
        by (simp_all add: edit_active_def is_active_def Let_def)
      with kept rules1 er taken(2,5) show ?thesis by (auto simp: edit_kept_def)
    qed
  qed
qed

definition sample_oracle :: start_oracle where
  "sample_oracle = \<lparr>or_bind = free_port, or_now = 9, or_attempt = 200, or_outcome = sample_outcome\<rparr>"

definition edited :: "(failure + json) \<times> daemon" where
  "edited = edit_active sample_env 7 (Ok ()) sample_oracle JNull sample_active"

lemma sample_active_config: "config_inv sample_env sample_active"
  using sys_reachable_inv [OF running_sys_reachable sample_env_lawful]
  by (simp add: sys_inv_def running_sys_def)

theorem edit_saves_or_keeps_witness:
  "is_ok (fst edited) \<and> (\<exists>m. so_started sample_outcome = Ok m \<and>
     running_of (snd edited) 1 = Some (AActive m))"
proof -
  have "is_ok (fst edited)" by code_simp
  moreover have "edit_request sample_env JNull = Ok (hd sample_rules, hd sample_rules)" by code_simp
  moreover have "edit_active sample_env 7 (Ok ()) sample_oracle JNull sample_active =
      (fst edited, snd edited)" by (simp add: edited_def)
  moreover have "r_id (hd sample_rules) = 1" by (simp add: sample_rules_def listener_rule_def)
  moreover have "or_outcome sample_oracle = sample_outcome" by (simp add: sample_oracle_def)
  ultimately show ?thesis
    using edit_saves_or_keeps [OF sample_env_lawful sample_active_config,
        of 7 "Ok ()" sample_oracle JNull "fst edited" "snd edited"] by auto
qed

lemma find_added:
  "find (\<lambda>x. r_id x = r_id r)
     (if list_ex (\<lambda>x. r_id x = r_id r) rs then replace_first (r_id r) r rs else rs @ [r]) = Some r"
  by (induction rs) auto

text \<open>An addition that answers success is durable and visible: the decoded rule is in the
  rule set under its id, config.toml holds that set, and one configuration_changed event
  was published; when it answers an error the rules in memory are those on disk, either the
  old ones or, when only the final directory sync failed, the new ones.\<close>

theorem added_rule_is_saved:
  assumes "lawful env" and "config_inv env st" and "forward_add env u payload st = (res, st')"
  shows "config_inv env st' \<and>
    (is_ok res \<longrightarrow> (\<exists>wire r. de_rule (me_codec env) payload = Some wire \<and> domain_of_wire wire = Ok r \<and>
       find_rule st' (r_id r) = Some r \<and>
       stored_config (me_toml env) (dm_store st') = Ok (Some (dm_rules st', dm_settings st')) \<and>
       dm_events st' = dm_events st @ [(''configuration_changed'', rule_ref env (r_id r))]))"
proof -
  have toml: "toml_round_trip (me_toml env)" using assms(1) by (simp add: lawful_def)
  have inv: "config_inv env st'"
    using forward_add_effect [OF assms(3,2) toml] by (simp add: locked_effect_def)
  moreover have "\<exists>wire r. de_rule (me_codec env) payload = Some wire \<and> domain_of_wire wire = Ok r \<and>
       find_rule st' (r_id r) = Some r \<and>
       stored_config (me_toml env) (dm_store st') = Ok (Some (dm_rules st', dm_settings st')) \<and>
       dm_events st' = dm_events st @ [(''configuration_changed'', rule_ref env (r_id r))]"
    if ok: "is_ok res"
  proof -
    from assms(3) ok obtain wire r nxt where wire: "de_rule (me_codec env) payload = Some wire"
      "domain_of_wire wire = Ok r"
      and nxt: "nxt = (if list_ex (\<lambda>x. r_id x = r_id r) (dm_rules st)
          then replace_first (r_id r) r (dm_rules st) else dm_rules st @ [r])"
      and commit: "commit_rules env u nxt (rule_ref env (r_id r)) (rule_ref env (r_id r)) st = (res, st')"
      by (auto simp: forward_add_def Let_def split: option.splits sum.splits if_splits)
    have found: "find (\<lambda>x. r_id x = r_id r) nxt = Some r"
      unfolding nxt by (rule find_added)
    from commit ok have st': "dm_rules st' = nxt"
      "dm_events st' = dm_events st @ [(''configuration_changed'', rule_ref env (r_id r))]"
      by (auto simp: commit_rules_def dm_save_def Let_def split: prod.splits sum.splits option.splits)
    then have "dm_rules st' \<noteq> []" using found by auto
    with inv have "stored_config (me_toml env) (dm_store st') = Ok (Some (dm_rules st', dm_settings st'))"
      by (auto simp: config_inv_def)
    with wire found st' show ?thesis by (auto simp: find_rule_def)
  qed
  ultimately show ?thesis by blast
qed

lemma sample_opened_config: "config_inv sample_env sample_opened"
proof -
  have "honest_faults saved_dir" by (simp add: honest_faults_def saved_dir_def sample_dir_def)
  from daemon_open_inv [OF sample_env_lawful this sample_open_ok] show ?thesis
    by (simp add: sys_inv_def)
qed

definition added :: "(failure + json) \<times> daemon" where
  "added = forward_add sample_env 7 JNull sample_opened"

theorem added_rule_is_saved_witness:
  "is_ok (fst added) \<and> find_rule (snd added) 1 = Some (hd sample_rules) \<and>
   stored_config sample_toml (dm_store (snd added)) = Ok (Some (dm_rules (snd added), dm_settings (snd added)))"
proof -
  have "forward_add sample_env 7 JNull sample_opened = (fst added, snd added)" by (simp add: added_def)
  note saved = added_rule_is_saved [OF sample_env_lawful sample_opened_config this]
  have ok: "is_ok (fst added)" by code_simp
  have "de_rule (me_codec sample_env) JNull = Some (wire_of_domain (hd sample_rules))"
    by (simp add: sample_env_def sample_codec_def)
  moreover have "domain_of_wire (wire_of_domain (hd sample_rules)) = Ok (hd sample_rules)" by code_simp
  moreover have "r_id (hd sample_rules) = 1" by (simp add: sample_rules_def listener_rule_def)
  moreover have "me_toml sample_env = sample_toml" by (simp add: sample_env_def)
  ultimately show ?thesis using saved ok by auto
qed

text \<open>a due retry restarts its rule: when the local port is free and the process starts,
  one supervisor pass leaves the rule active with the new attempt, whatever else the
  table holds, unless the rule is being edited or was stopped by hand meanwhile.\<close>

theorem due_retry_restarts:
  assumes "lawful env" and "dm_running st = [(i, AReconnecting due)]" "due \<le> now"
    and "find_rule st i = Some r" "i \<notin> dm_editing st" "i \<notin> dm_manually_stopped st"
    and "check_local_port (or_bind (os i)) r = Ok ()" "so_started (or_outcome (os i)) = Ok m"
  shows "running_of (maintain env exits now new os st) i = Some (AActive m) \<and>
    dm_events (maintain env exits now new os st) = dm_events st @ [(''rule_started'', rule_ref env i)]"
proof -
  have ids: "ids_where (due_now now) st = [i]" "ids_where (exited_now exits) st = []"
    "ids_where (\<lambda>a. is_active a \<and> \<not> exited_now exits a) st = []"
    using assms(2,3) by (simp_all add: ids_where_def due_now_def exited_now_def is_active_def)
  have find: "find_rule (drop_running i st) i = Some r"
    using assms(4) by (simp add: find_rule_def)
  have "me_process env" using assms(1) by (simp add: lawful_def)
  then show ?thesis
    using assms(5-8) find
    by (simp add: maintain_def maintain_locked_alt ids report_sweep_def retry_rule_def start_with_def
        start_inner_def start_reserve_def rule_id_of_ref [OF assms(1)] start_complete_def
        start_finished_def Let_def)
qed

theorem due_retry_restarts_witness:
  "running_of (maintain sample_env (\<lambda>_. Ok False) 9 300 (\<lambda>_. sample_oracle) waiting_daemon) 1 =
     Some (AActive sample_attempt)"
proof -
  have "find_rule waiting_daemon 1 = Some (hd sample_rules)" "1 \<notin> dm_editing waiting_daemon"
    "1 \<notin> dm_manually_stopped waiting_daemon" "dm_running waiting_daemon = [(1, AReconnecting 7)]"
    "check_local_port (or_bind sample_oracle) (hd sample_rules) = Ok ()"
    by code_simp+
  with due_retry_restarts [OF sample_env_lawful, of waiting_daemon 1 7 9 _ "\<lambda>_. sample_oracle"]
  show ?thesis by (simp add: sample_oracle_def sample_outcome_def)
qed

text \<open>Every request is answered: no operation, payload or state reaches the handlers'
  unreachable branch, and the response carries the id of its request.\<close>

theorem every_request_is_answered:
  "\<exists>resp st'. handle env orc req st = Some (resp, st') \<and> response_id resp = rq_request_id req"
  by (rule handle_answers)

end
