(* ===== verification/Rule_Identity.thy ===== *)
theory Rule_Identity
  imports Daemon_Requests
begin

text \<open>
  Rules are addressed by their ids. Loading a configuration does not look at ids, so that they
  are unique is not part of \<open>config_inv\<close>; here every step of every thread is shown to keep them
  so.
\<close>

definition unique_ids :: "daemon \<Rightarrow> bool" where
  "unique_ids st \<longleftrightarrow> distinct (map r_id (dm_rules st))"

lemma unique_ids_same: "unique_ids st \<Longrightarrow> same_config st st' \<Longrightarrow> unique_ids st'"
  by (simp add: unique_ids_def same_config_def)

lemma unique_ids_find: "unique_ids st \<Longrightarrow> r \<in> set (dm_rules st) \<Longrightarrow> find_rule st (r_id r) = Some r"
proof -
  have "distinct (map r_id rs) \<Longrightarrow> r \<in> set rs \<Longrightarrow> find (\<lambda>x. r_id x = r_id r) rs = Some r" for rs
    by (induction rs) (auto simp: rev_image_eqI)
  then show "unique_ids st \<Longrightarrow> r \<in> set (dm_rules st) \<Longrightarrow> find_rule st (r_id r) = Some r"
    by (simp add: unique_ids_def find_rule_def)
qed

section \<open>Requests that change the rules\<close>

lemma first_seen_None: "first_seen seen is = None \<longleftrightarrow> distinct is \<and> set is \<inter> seen = {}"
  by (induction "is" arbitrary: seen) auto

lemma commit_rules_rules:
  "commit_rules env u nxt c a st = (q, st') \<Longrightarrow> dm_rules st' = dm_rules st \<or> dm_rules st' = nxt"
  by (auto simp: commit_rules_def dm_save_def Let_def split: prod.splits sum.splits)

lemma commit_unique:
  "commit_rules env u nxt c a st = (q, st') \<Longrightarrow> unique_ids st \<Longrightarrow> distinct (map r_id nxt) \<Longrightarrow> unique_ids st'"
  by (auto simp: unique_ids_def dest!: commit_rules_rules)

lemma forward_add_unique: "forward_add env u p st = (q, st') \<Longrightarrow> unique_ids st \<Longrightarrow> unique_ids st'"
  by (auto simp: forward_add_def Let_def list_ex_iff split: option.splits sum.splits if_splits
      elim!: commit_unique) (auto simp: unique_ids_def ids_replace_first)

lemma forward_import_unique: "forward_import env u p st = (q, st') \<Longrightarrow> unique_ids st \<Longrightarrow> unique_ids st'"
  by (auto simp: forward_import_def Let_def split: option.splits sum.splits if_splits elim!: commit_unique)
    (auto simp: unique_ids_def first_seen_None)

lemma forward_remove_unique: "forward_remove env u p st = (q, st') \<Longrightarrow> unique_ids st \<Longrightarrow> unique_ids st'"
  by (auto simp: forward_remove_def Let_def split: sum.splits if_splits elim!: commit_unique)
    (auto simp: unique_ids_def distinct_map_filter)

lemma settings_update_unique: "settings_update env u p st = (q, st') \<Longrightarrow> unique_ids st \<Longrightarrow> unique_ids st'"
  by (auto simp: unique_ids_def settings_update_def dm_save_def Let_def
      split: option.splits sum.splits prod.splits)

lemma dispatch_unique:
  "dispatch env u now op p st = Some (q, st') \<Longrightarrow> unique_ids st \<Longrightarrow> unique_ids st'"
  by (cases op)
    (auto simp: dispatch_def dest: settings_update_unique forward_add_unique forward_import_unique forward_remove_unique)

section \<open>Every step\<close>

lemma edit_save_unique:
  assumes "edit_save env u i r st = (w, st')" "r_id r = i" "unique_ids st"
  shows "unique_ids st'"
proof -
  have "dm_rules st' = dm_rules st \<or> dm_rules st' = replace_first i r (dm_rules st)"
    using assms(1)
    by (auto simp: edit_save_def Let_def dm_save_def split: if_splits sum.splits prod.splits)
  with assms(2,3) show ?thesis by (auto simp: unique_ids_def ids_replace_first)
qed

lemma sys_step_unique:
  "sys_step env s l s' \<Longrightarrow> sys_inv env s \<Longrightarrow> unique_ids (sy_daemon s) \<Longrightarrow> unique_ids (sy_daemon s')"
proof (induction rule: sys_step.induct)
  case (request u now op p s q d)
  then show ?case using dispatch_unique by simp
next
  case (edit_disappeared s ts i r m us u d)
  then show ?case
    using edit_save_found(3) [of env s i r m] edit_save_unique [OF edit_disappeared(2)] by simp
next
  case (edit_saved s ts i r m us u saved d)
  then show ?case
    using edit_save_found(3) [of env s i r m] edit_save_unique [OF edit_saved(2)] by simp
next
  case (edit_done s ts i us)
  then show ?case by (simp add: unique_ids_def)
next
  case (maintain_reported s ts sw us)
  then show ?case using report_sweep_fields(1) by (auto elim!: unique_ids_same)
qed (auto elim!: unique_ids_same
    intro: start_reserve_config start_complete_config stop_begin_config stop_end_config
      edit_begin_config edit_stop_failed_config maintain_locked_fields(1))

text \<open>C7: Ids stay names of single rules. From a state in which no two rules share an id, whatever
  requests, edits, retries and restores interleave, no two rules ever do, and the daemon finds
  every rule under its own id; an import or an addition cannot give a rule the id of another.\<close>

theorem rule_ids_stay_unique:
  assumes "lawful env" "sys_reachable env s" "sys_run env s ls s'"
    and "distinct (map r_id (dm_rules (sy_daemon s)))"
  shows "distinct (map r_id (dm_rules (sy_daemon s'))) \<and>
    (\<forall>r \<in> set (dm_rules (sy_daemon s')). find_rule (sy_daemon s') (r_id r) = Some r)"
proof -
  have "unique_ids (sy_daemon s')"
    using assms(3,4) sys_reachable_inv [OF assms(2,1)]
  proof (induction rule: sys_run.induct)
    case (sys_run_step s ls s' l s'')
    then show ?case using sys_step_unique sys_run_inv [OF _ assms(1)] by blast
  qed (simp add: unique_ids_def)
  then show ?thesis using unique_ids_find by (simp add: unique_ids_def)
qed

theorem rule_ids_stay_unique_witness:
  "list_all (\<lambda>r. find_rule (sy_daemon running_sys) (r_id r) = Some r) (dm_rules (sy_daemon running_sys))"
proof -
  have "distinct (map r_id (dm_rules (sy_daemon running_sys)))" by code_simp
  from rule_ids_stay_unique [OF sample_env_lawful running_sys_reachable sys_run_refl this]
  show ?thesis by (simp add: list_all_iff)
qed

end
