(* ===== verification/Daemon_Supervisor.thy ===== *)
theory Daemon_Supervisor
  imports Rule_Identity
begin

text \<open>
  The supervisor thread of \<open>src/src/daemon/manager.rs\<close>: \<open>start_supervisor\<close>, which starts the
  rules marked for it, and \<open>supervisor_loop\<close>, which passes over the attempts again and again.
\<close>

section \<open>The thread\<close>

text \<open>What the world answers during one pass: which processes have ended, the clock, a fresh id
  and what the retries meet.\<close>

record pass =
  ps_exits :: "managed \<Rightarrow> process_error + bool"
  ps_now :: nat
  ps_new :: uuid
  ps_starts :: "uuid \<Rightarrow> start_oracle"

text \<open>One pass per wake-up, until the daemon is gone and \<open>upgrade\<close> fails.\<close>

fun supervisor_loop :: "manager_env \<Rightarrow> pass list \<Rightarrow> daemon \<Rightarrow> daemon" where
  "supervisor_loop env [] st = st"
| "supervisor_loop env (p # ps) st =
     supervisor_loop env ps (maintain env (ps_exits p) (ps_now p) (ps_new p) (ps_starts p) st)"

definition start_supervisor :: "manager_env \<Rightarrow> (uuid \<Rightarrow> start_oracle) \<Rightarrow> pass list \<Rightarrow> daemon \<Rightarrow> daemon" where
  "start_supervisor env os ps st = supervisor_loop env ps (restore_rules env os st)"

lemma supervisor_loop_append:
  "supervisor_loop env (ps @ qs) st = supervisor_loop env qs (supervisor_loop env ps st)"
  by (induction ps arbitrary: st) simp_all

section \<open>One automatic start\<close>

text \<open>
  What becomes of a rule the daemon starts by itself, after \<open>n\<close> retries: nothing if its port
  is taken, and otherwise an attempt that is active, waits for a retry, or has failed.
\<close>

definition started_as :: "start_oracle \<Rightarrow> rule \<Rightarrow> nat \<Rightarrow> attempt option" where
  "started_as orc r n =
     (if \<not> is_ok (check_local_port (or_bind orc) r) then None
      else Some (case so_started (or_outcome orc) of
          Inr m \<Rightarrow> AActive m
        | Inl err \<Rightarrow>
            if r_reconnect r \<and> dg_retryable (classify_diagnostic (show_process_error err))
            then AReconnecting (or_now orc + full_jitter n (uuid_entropy (or_attempt orc)))
            else AFailed))"

definition free_to_start :: "daemon \<Rightarrow> uuid \<Rightarrow> rule \<Rightarrow> bool" where
  "free_to_start st i r \<longleftrightarrow>
     find_rule st i = Some r \<and> i \<notin> dm_editing st \<and> i \<notin> dm_manually_stopped st"

lemma info_of_simps [simp]:
  "info_of (set_info i v st) j = (if j = i then v else info_of st j)"
  "info_of (set_running i a st) = info_of st" "info_of (drop_running i st) = info_of st"
  "info_of (log_event env l m st) = info_of st" "info_of (publish n p st) = info_of st"
  "info_of (st\<lparr>dm_manually_stopped := x\<rparr>) = info_of st"
  by (simp_all add: info_of_def fun_eq_iff set_info_def set_running_def drop_running_def
      log_event_def publish_def update_conv')

lemma retry_rule_running:
  assumes "lawful env" "free_to_start st i r" "idle (running_of st i)"
  shows "running_of (retry_rule env os i st) =
    (running_of st)(i := started_as (os i) r (ri_retry_attempt (info_of st i)))"
  using assms
  by (auto simp: retry_rule_def start_with_def start_inner_def start_reserve_def
      rule_id_of_ref [OF assms(1)] start_complete_def start_finished_def start_failed_def
      started_as_def free_to_start_def lawful_def idle_def find_rule_def Let_def fun_eq_iff
      split: sum.splits)

lemma retry_rule_rest:
  assumes "lawful env"
  shows "dm_manually_stopped (retry_rule env os i st) = dm_manually_stopped st"
    "keys_distinct st \<Longrightarrow> keys_distinct (retry_rule env os i st)"
    "j \<noteq> i \<Longrightarrow> running_of (retry_rule env os i st) j = running_of st j"
    "j \<noteq> i \<Longrightarrow> info_of (retry_rule env os i st) j = info_of st j"
  using assms
  by (auto simp: retry_rule_def start_with_def start_inner_def start_reserve_def
      rule_id_of_ref [OF assms(1)] start_complete_def start_finished_def start_failed_def
      lawful_def find_rule_def Let_def split: sum.splits option.splits)

lemma retry_rule_free:
  assumes "lawful env"
  shows "free_to_start (retry_rule env os i st) j r = free_to_start st j r"
proof -
  have "me_process env" using assms by (simp add: lawful_def)
  from retry_frame [OF this, of st os i] have same: "same_config st (retry_rule env os i st)"
    "dm_editing (retry_rule env os i st) = dm_editing st" by simp_all
  show ?thesis
    by (simp add: free_to_start_def find_rule_same [OF same(1)] same(2) retry_rule_rest(1) [OF assms])
qed

text \<open>Automatic starts of distinct rules do not meet each other.\<close>

lemma retries_rest:
  assumes "lawful env"
  shows "dm_manually_stopped (fold (retry_rule env os) is st) = dm_manually_stopped st"
    "keys_distinct st \<Longrightarrow> keys_distinct (fold (retry_rule env os) is st)"
    "j \<notin> set is \<Longrightarrow> running_of (fold (retry_rule env os) is st) j = running_of st j \<and>
       info_of (fold (retry_rule env os) is st) j = info_of st j"
  by (induction "is" arbitrary: st) (simp_all add: retry_rule_rest [OF assms])

lemma retries_running:
  assumes "lawful env" "distinct is" "j \<in> set is" "free_to_start st j r" "idle (running_of st j)"
  shows "running_of (fold (retry_rule env os) is st) j =
    started_as (os j) r (ri_retry_attempt (info_of st j))"
  using assms(2-5)
proof (induction "is" arbitrary: st)
  case (Cons i "is")
  let ?st = "retry_rule env os i st"
  show ?case
  proof (cases "j = i")
    case True
    with retry_rule_running [OF assms(1) Cons.prems(3,4)] Cons.prems(1) show ?thesis
      by (simp add: retries_rest(3) [OF assms(1)])
  next
    case False
    with Cons.prems have "running_of (fold (retry_rule env os) is ?st) j =
        started_as (os j) r (ri_retry_attempt (info_of ?st j))"
      by (intro Cons.IH) (simp_all add: retry_rule_free [OF assms(1)] retry_rule_rest(3) [OF assms(1)])
    with False show ?thesis by (simp add: retry_rule_rest(4) [OF assms(1)])
  qed
qed simp

section \<open>One pass\<close>

lemma reset_retries_info:
  "i \<notin> set js \<Longrightarrow> info_of (fold (reset_retries now) js st) i = info_of st i"
proof (induction js arbitrary: st)
  case (Cons k js)
  have "info_of (reset_retries now k st) i = info_of st i" if "i \<noteq> k"
    using that by (auto simp: reset_retries_def split: option.splits)
  with Cons show ?case by simp
qed simp

lemma note_exit_info:
  "i \<notin> set js \<Longrightarrow> info_of (fold (note_exit now new) js st) i = info_of st i"
proof (induction js arbitrary: st)
  case (Cons k js)
  have "info_of (note_exit now new k st) i = info_of st i" if "i \<noteq> k"
    using that by (simp add: note_exit_def Let_def)
  with Cons show ?case by simp
qed simp

lemma drop_running_info: "info_of (fold drop_running js st) = info_of st"
  by (rule fold_frame [where f = info_of]) simp

text \<open>What the section under the lock leaves of a rule that waits for its retry.\<close>

lemma maintain_locked_waiting:
  assumes "maintain_locked exits now new st = (sw, st')" "keys_distinct st"
    and "running_of st i = Some (AReconnecting due)"
  shows "running_of st' i = (if due \<le> now then None else Some (AReconnecting due))"
    "info_of st' i = info_of st i" "i \<in> set (sw_retry sw) \<longleftrightarrow> due \<le> now" "distinct (sw_retry sw)"
proof -
  have away: "i \<notin> set (ids_where (exited_now exits) st)"
    "i \<notin> set (ids_where (\<lambda>a. is_active a \<and> \<not> exited_now exits a) st)"
    using assms(3) by (auto simp: set_ids_where [OF assms(2)] exited_now_def is_active_def)
  from maintain_locked_running [OF assms(1,2), of i] assms(3)
  show "running_of st' i = (if due \<le> now then None else Some (AReconnecting due))"
    by (simp add: exited_now_def due_now_def)
  from assms(1) have st': "st' = fold drop_running (ids_where (due_now now) st)
       (fold (note_exit now new) (ids_where (exited_now exits) st)
         (fold (reset_retries now) (ids_where (\<lambda>a. is_active a \<and> \<not> exited_now exits a) st) st))"
    and sw: "sw_retry sw = ids_where (due_now now) st" by (auto simp: maintain_locked_alt)
  show "info_of st' i = info_of st i"
    unfolding st' by (simp add: drop_running_info note_exit_info away reset_retries_info)
  show "i \<in> set (sw_retry sw) \<longleftrightarrow> due \<le> now"
    using assms(3) by (simp add: sw set_ids_where [OF assms(2)] due_now_def)
  show "distinct (sw_retry sw)"
    using assms(2) by (simp add: sw ids_where_def keys_distinct_def distinct_map_filter)
qed

lemma report_sweep_info: "info_of (report_sweep env sw st) = info_of st"
  by (simp add: report_sweep_def report_terminal_def report_reconnecting_def fold_frame [where f = info_of])

lemma maintain_waiting:
  assumes "lawful env" "keys_distinct st" "running_of st i = Some (AReconnecting due)" "free_to_start st i r"
  shows "running_of (maintain env exits now new os st) i =
      (if due \<le> now then started_as (os i) r (ri_retry_attempt (info_of st i))
       else Some (AReconnecting due))"
    "\<not> due \<le> now \<Longrightarrow> info_of (maintain env exits now new os st) i = info_of st i"
    "keys_distinct (maintain env exits now new os st)"
    "free_to_start (maintain env exits now new os st) i r"
proof -
  obtain sw st1 where m: "maintain_locked exits now new st = (sw, st1)" by fastforce
  note locked = maintain_locked_waiting [OF m assms(2,3)]
  let ?st = "report_sweep env sw st1"
  have all: "maintain env exits now new os st = fold (retry_rule env os) (sw_retry sw) ?st"
    by (simp add: maintain_def m)
  have run: "running_of ?st = running_of st1" by (simp add: running_of_def report_sweep_fields(4) fun_eq_iff)
  have "same_config st ?st" using maintain_locked_fields(1) [OF m] report_sweep_fields(1) by (rule same_config_trans)
  then have free: "free_to_start ?st i r"
    using assms(4) maintain_locked_fields [OF m] by (simp add: free_to_start_def find_rule_same report_sweep_fields)
  have keys: "keys_distinct ?st"
    using keys_distinct_maintain [OF m assms(2)] by (simp add: keys_distinct_def report_sweep_fields(4))
  show "running_of (maintain env exits now new os st) i =
      (if due \<le> now then started_as (os i) r (ri_retry_attempt (info_of st i)) else Some (AReconnecting due))"
    using retries_running [OF assms(1) locked(4) _ free] locked run
    by (simp add: all idle_def retries_rest(3) [OF assms(1)] report_sweep_info)
  show "info_of (maintain env exits now new os st) i = info_of st i" if "\<not> due \<le> now"
    using that locked by (simp add: all retries_rest(3) [OF assms(1)] report_sweep_info)
  show "keys_distinct (maintain env exits now new os st)"
    using keys by (simp add: all retries_rest(2) [OF assms(1)])
  have "me_process env" using assms(1) by (simp add: lawful_def)
  from retries_frame [OF this, of ?st os "sw_retry sw"] free
  show "free_to_start (maintain env exits now new os st) i r"
    by (auto simp: all free_to_start_def find_rule_same retries_rest(1) [OF assms(1)])
qed

section \<open>Retries come when they are due\<close>

lemma passes_waiting:
  assumes "lawful env" "list_all (\<lambda>q. ps_now q < due) ps"
    and "keys_distinct st" "running_of st i = Some (AReconnecting due)" "free_to_start st i r"
  shows "keys_distinct (supervisor_loop env ps st) \<and> free_to_start (supervisor_loop env ps st) i r \<and>
    running_of (supervisor_loop env ps st) i = Some (AReconnecting due) \<and>
    info_of (supervisor_loop env ps st) i = info_of st i"
  using assms(2-5)
proof (induction ps arbitrary: st)
  case (Cons p ps)
  from Cons.prems(1) have "\<not> due \<le> ps_now p" by simp
  with Cons.IH [of "maintain env (ps_exits p) (ps_now p) (ps_new p) (ps_starts p) st"] Cons.prems(1)
    maintain_waiting [OF assms(1) Cons.prems(2-4)] show ?case by simp
qed simp

lemma started_as_delay:
  assumes "started_as orc r n = Some (AReconnecting due)"
  shows "r_reconnect r" "due \<le> or_now orc + 1000 * min 60 (2 ^ n)"
proof -
  have "full_jitter n e \<in> {0 .. 1000 * min 60 (2 ^ n)}" for e
    using full_jitter_range [of n] by blast
  with assms show "due \<le> or_now orc + 1000 * min 60 (2 ^ n)" "r_reconnect r"
    by (auto simp: started_as_def split: if_splits sum.splits)
qed

text \<open>C11: Retries come when they are due. A rule that waits for its retry and is neither edited nor
  stopped by hand meanwhile keeps waiting through every pass before its time, whatever else
  the passes find. The first pass that is not before it starts the rule again: it is active if the
  process starts; it waits again, no longer than twice as many seconds as the time before and no
  longer than a minute, if it failed in a way that may pass; it has failed otherwise; and if the
  local port is taken then it is left without an attempt, and no later pass tries again.\<close>

theorem retries_come_due:
  assumes "lawful env" "keys_distinct st" "running_of st i = Some (AReconnecting due)"
    and "free_to_start st i r" "list_all (\<lambda>q. ps_now q < due) early" "due \<le> ps_now p"
    and "n = ri_retry_attempt (info_of st i)"
  shows "running_of (supervisor_loop env early st) i = Some (AReconnecting due) \<and>
    running_of (supervisor_loop env (early @ [p]) st) i = started_as (ps_starts p i) r n \<and>
    (\<forall>again. started_as (ps_starts p i) r n = Some (AReconnecting again) \<longrightarrow>
       r_reconnect r \<and> again \<le> or_now (ps_starts p i) + 1000 * min 60 (2 ^ n))"
proof -
  let ?st = "supervisor_loop env early st"
  from passes_waiting [OF assms(1,5,2,3,4)] have w: "keys_distinct ?st" "free_to_start ?st i r"
    "running_of ?st i = Some (AReconnecting due)" "info_of ?st i = info_of st i" by simp_all
  from maintain_waiting(1) [OF assms(1) w(1,3,2), of "ps_exits p" "ps_now p" "ps_new p" "ps_starts p"]
    assms(6,7) w(3,4) started_as_delay [of "ps_starts p i" r n] show ?thesis
    by (simp add: supervisor_loop_append)
qed

definition calm_pass :: "nat \<Rightarrow> start_oracle \<Rightarrow> pass" where
  "calm_pass now orc = \<lparr>ps_exits = (\<lambda>_. Ok False), ps_now = now, ps_new = 300, ps_starts = (\<lambda>_. orc)\<rparr>"

text \<open>A rule that is due at 7 waits at 3 and 5 and is active at 9.\<close>

theorem retries_come_due_witness:
  "running_of (supervisor_loop sample_env [calm_pass 3 sample_oracle, calm_pass 5 sample_oracle] waiting_daemon) 1 =
     Some (AReconnecting 7) \<and>
   running_of (supervisor_loop sample_env ([calm_pass 3 sample_oracle, calm_pass 5 sample_oracle] @
     [calm_pass 9 sample_oracle]) waiting_daemon) 1 = Some (AActive sample_attempt)"
proof -
  have here: "keys_distinct waiting_daemon" "running_of waiting_daemon 1 = Some (AReconnecting 7)"
    "free_to_start waiting_daemon 1 (hd sample_rules)"
    unfolding keys_distinct_def free_to_start_def by code_simp+
  have passes: "list_all (\<lambda>q. ps_now q < 7) [calm_pass 3 sample_oracle, calm_pass 5 sample_oracle]"
    "7 \<le> ps_now (calm_pass 9 sample_oracle)" by (simp_all add: calm_pass_def)
  have "started_as (ps_starts (calm_pass 9 sample_oracle) 1) (hd sample_rules) n = Some (AActive sample_attempt)" for n
  proof -
    have "is_ok (check_local_port (or_bind sample_oracle) (hd sample_rules))" by code_simp
    then show ?thesis by (simp add: started_as_def calm_pass_def sample_oracle_def sample_outcome_def)
  qed
  with retries_come_due [OF sample_env_lawful here passes refl] show ?thesis by simp
qed

section \<open>Starting with the daemon\<close>

text \<open>C12: The rules marked for it start with the daemon, and no others. From a state as opening leaves
  it, each rule with \<open>auto_start\<close> is active if its process starts; it waits for a retry if it
  failed in a way that may pass and is to reconnect, has failed otherwise, and has no attempt if
  its local port is taken. No other rule has an attempt, whatever the marked ones
  meet, and the configuration is as it was.\<close>

theorem marked_rules_come_up:
  assumes "lawful env" "dm_running st = []" "dm_diagnostics st = []" "dm_editing st = {}"
    and "dm_manually_stopped st = {}" "distinct (map r_id (dm_rules st))"
  shows "same_config st (restore_rules env os st) \<and>
    (\<forall>r \<in> set (dm_rules st). running_of (restore_rules env os st) (r_id r) =
       (if r_auto_start r then started_as (os (r_id r)) r 0 else None)) \<and>
    (\<forall>i. i \<notin> r_id ` set (dm_rules st) \<longrightarrow> running_of (restore_rules env os st) i = None)"
proof -
  let ?ids = "map r_id (filter r_auto_start (dm_rules st))"
  have none: "running_of st i = None" "ri_retry_attempt (info_of st i) = 0" for i
    using assms(2,3) by (simp_all add: running_of_def info_of_def no_info_def)
  have marked: "r_id r \<in> set ?ids \<longleftrightarrow> r_auto_start r" if "r \<in> set (dm_rules st)" for r
    using that assms(6) by (auto simp: distinct_map inj_on_def)
  have "running_of (restore_rules env os st) (r_id r) =
      (if r_auto_start r then started_as (os (r_id r)) r 0 else None)" if r: "r \<in> set (dm_rules st)" for r
  proof (cases "r_auto_start r")
    case True
    have "free_to_start st (r_id r) r" using r assms(4-6) unique_ids_find by (simp add: free_to_start_def unique_ids_def)
    with True r retries_running [OF assms(1), of ?ids "r_id r" st r os] marked [OF r] assms(6) none show ?thesis
      by (simp add: restore_rules_def idle_def distinct_map_filter)
  next
    case False
    with retries_rest(3) [OF assms(1), of "r_id r" ?ids os st] marked [OF r] none show ?thesis
      by (simp add: restore_rules_def)
  qed
  moreover have "running_of (restore_rules env os st) i = None" if "i \<notin> r_id ` set (dm_rules st)" for i
    using that retries_rest(3) [OF assms(1), of i ?ids os st] none by (auto simp: restore_rules_def)
  moreover have "me_process env" using assms(1) by (simp add: lawful_def)
  then have "same_config st (restore_rules env os st)"
    using retries_frame by (simp add: restore_rules_def)
  ultimately show ?thesis by blast
qed

text \<open>Three rules: one that starts, one whose port is taken, and one that is not marked.\<close>

definition marked_rules :: "rule list" where
  "marked_rules = [(listener_rule 1 (lit ''a'') (lit ''127.0.0.1'') 3000)\<lparr>r_auto_start := True\<rparr>,
     (listener_rule 2 (lit ''b'') (lit ''127.0.0.1'') 3001)\<lparr>r_auto_start := True\<rparr>,
     listener_rule 3 (lit ''c'') (lit ''127.0.0.1'') 3002]"

theorem marked_rules_come_up_witness:
  "map (running_of (restore_rules sample_env (\<lambda>i. if i = 2 then taken_port else sample_oracle)
     (sample_opened\<lparr>dm_rules := marked_rules\<rparr>))) [1, 2, 3, 4] = [Some (AActive sample_attempt), None, None, None]"
proof -
  let ?st = "sample_opened\<lparr>dm_rules := marked_rules\<rparr>"
  let ?os = "\<lambda>i :: uuid. if i = 2 then taken_port else sample_oracle"
  have st: "dm_running ?st = []" "dm_diagnostics ?st = []" "dm_editing ?st = {}" "dm_manually_stopped ?st = {}"
    "distinct (map r_id (dm_rules ?st))" by code_simp+
  have r: "marked_rules ! 0 \<in> set (dm_rules ?st)" "marked_rules ! 1 \<in> set (dm_rules ?st)"
    "marked_rules ! 2 \<in> set (dm_rules ?st)" "4 \<notin> r_id ` set (dm_rules ?st)"
    by (simp_all add: marked_rules_def listener_rule_def)
  have ids: "r_id (marked_rules ! 0) = 1" "r_id (marked_rules ! 1) = 2" "r_id (marked_rules ! 2) = 3"
    "r_auto_start (marked_rules ! 0)" "r_auto_start (marked_rules ! 1)" "\<not> r_auto_start (marked_rules ! 2)"
    by (simp_all add: marked_rules_def listener_rule_def)
  have "started_as (?os 1) (marked_rules ! 0) 0 = Some (AActive sample_attempt)"
    "started_as (?os 2) (marked_rules ! 1) 0 = None" by code_simp+
  with marked_rules_come_up [OF sample_env_lawful st, of ?os] r ids show ?thesis by force
qed

end
