(* ===== verification/Paths_Model.thy ===== *)
theory Paths_Model
  imports Private_Fs Net_Addr
begin

text \<open>
  Paths as text and the choice of the application's paths,
  \<open>src/src/platform/paths.rs\<close>. The runtime override is checked against the directory
  tree of \<open>Private_Fs\<close>; nothing is created.
\<close>

section \<open>Paths as text\<close>

text \<open>\<open>Path::is_absolute\<close>, \<open>Path::join\<close> and \<open>Path::parent\<close>.\<close>

definition path_absolute :: "rstr \<Rightarrow> bool" where
  "path_absolute p = (case p of c # _ \<Rightarrow> c = 47 | [] \<Rightarrow> False)"

definition path_join :: "rstr \<Rightarrow> rstr \<Rightarrow> rstr" where
  "path_join base p =
     (if path_absolute p then p
      else if base = [] \<or> last base = 47 then base @ p else base @ 47 # p)"

text \<open>On the reversed text: what \<open>parent\<close> skips at the end of a path.\<close>

fun skip_trailing :: "rstr \<Rightarrow> rstr" where
  "skip_trailing [] = []"
| "skip_trailing [c] = [c]"
| "skip_trailing (c # d # r) =
     (if c = 47 then skip_trailing (d # r)
      else if c = 46 \<and> d = 47 then skip_trailing (d # r) else c # d # r)"

definition path_parent :: "rstr \<Rightarrow> rstr option" where
  "path_parent p =
     (let r = skip_trailing (rev p) in
      if r = [] \<or> r = [47] then None
      else Some (rev (skip_trailing (dropWhile (\<lambda>c. c \<noteq> 47) r))))"

fun split_on :: "rchar \<Rightarrow> rstr \<Rightarrow> rstr list" where
  "split_on sep [] = [[]]"
| "split_on sep (c # s) =
     (if c = sep then [] # split_on sep s
      else (case split_on sep s of w # ws \<Rightarrow> (c # w) # ws | [] \<Rightarrow> [[c]]))"

text \<open>The components of an absolute path, as the tree counts them.\<close>

definition path_parts :: "rstr \<Rightarrow> path" where
  "path_parts p = rev (filter (\<lambda>c. c \<noteq> [] \<and> c \<noteq> lit ''.'') (split_on 47 p))"

lemma path_join_absolute: "path_absolute base \<Longrightarrow> path_absolute (path_join base p)"
  by (cases base) (auto simp: path_absolute_def path_join_def)

lemma path_absolute_lit [simp]: "path_absolute (lit (c # s)) \<longleftrightarrow> of_char c = (47 :: nat)"
  by (simp add: path_absolute_def lit_def)

section \<open>The application's paths\<close>

datatype platform = Linux | MacOs

record app_paths =
  pa_config :: rstr
  pa_log :: rstr
  pa_runtime :: rstr

record xdg_overrides =
  xo_config :: "rstr option"
  xo_state :: "rstr option"
  xo_runtime :: "rstr option"

definition overridden :: "rstr option \<Rightarrow> rstr \<Rightarrow> rstr" where
  "overridden over fallback =
     (case over of
        None \<Rightarrow> fallback
      | Some p \<Rightarrow> if path_absolute p then path_join p (lit ''tunnel-deck'') else fallback)"

definition default_runtime :: "platform \<Rightarrow> nat \<Rightarrow> rstr" where
  "default_runtime platform uid =
     path_join (case platform of Linux \<Rightarrow> lit ''/tmp'' | MacOs \<Rightarrow> lit ''/private/tmp'')
       (lit ''tunnel-deck-'' @ show_nat uid)"

definition runtime_dir :: "platform \<Rightarrow> nat \<Rightarrow> rstr option \<Rightarrow> (tree, io_kind, rstr) st" where
  "runtime_dir platform uid over =
     (case over of
        None \<Rightarrow> st_return (default_runtime platform uid)
      | Some p \<Rightarrow>
          if \<not> path_absolute p then st_return (default_runtime platform uid)
          else st_try (validate_directory (path_parts p) uid) (\<lambda>r. case r of
              Inr _ \<Rightarrow> st_return (path_join p (lit ''tunnel-deck''))
            | Inl _ \<Rightarrow> st_return (default_runtime platform uid)))"

definition paths_resolve ::
  "platform \<Rightarrow> rstr \<Rightarrow> nat \<Rightarrow> xdg_overrides \<Rightarrow> (tree, io_kind, app_paths) st" where
  "paths_resolve platform home uid xdg =
     (if \<not> path_absolute home then st_lift (Err IoInvalidInput)
      else
        let config = overridden (xo_config xdg) (path_join home
              (case platform of Linux \<Rightarrow> lit ''.config/tunnel-deck''
                 | MacOs \<Rightarrow> lit ''Library/Application Support/TunnelDeck''));
            state = overridden (xo_state xdg) (path_join home
              (case platform of Linux \<Rightarrow> lit ''.local/state/tunnel-deck''
                 | MacOs \<Rightarrow> lit ''Library/Logs/TunnelDeck''))
        in st_bind (runtime_dir platform uid (xo_runtime xdg)) (\<lambda>runtime.
           st_return \<lparr>pa_config = path_join config (lit ''config.toml''),
             pa_log = path_join state (lit ''tunnel-deck.log''), pa_runtime = runtime\<rparr>))"

definition socket_path :: "app_paths \<Rightarrow> platform \<Rightarrow> io_kind + rstr" where
  "socket_path paths platform =
     (let path = path_join (pa_runtime paths) (lit ''tdeck.sock'');
          limit = (case platform of Linux \<Rightarrow> 108 | MacOs \<Rightarrow> 104)
      in if limit \<le> str_len path then Err IoInvalidInput else Ok path)"

section \<open>Properties\<close>

lemma overridden_absolute: "path_absolute fallback \<Longrightarrow> path_absolute (overridden over fallback)"
  by (auto simp: overridden_def path_join_absolute split: option.splits)

lemma default_runtime_absolute: "path_absolute (default_runtime platform uid)"
  unfolding default_runtime_def by (cases platform) (simp_all add: path_join_absolute)

lemma validate_directory_tree:
  assumes "validate_directory p uid t = (r, t')"
  shows "tr_nodes t' = tr_nodes t \<and>
    (r = Ok () \<longrightarrow> (\<exists>m. map_of (tr_nodes t) p = Some m \<and> private_directory uid m))"
  using assms
  by (auto simp: validate_directory_def tree_stat_def tree_sys_def st_lift_def fs_check_Ok
      private_directory_def elim!: st_bind_cases split: list.splits option.splits)

lemma runtime_dir_cases:
  assumes "runtime_dir platform uid over t = (r, t')"
  shows "tr_nodes t' = tr_nodes t \<and> (\<exists>d. r = Ok d \<and> path_absolute d \<and>
    (d = default_runtime platform uid \<or>
     (\<exists>p m. over = Some p \<and> path_absolute p \<and> d = path_join p (lit ''tunnel-deck'') \<and>
        map_of (tr_nodes t) (path_parts p) = Some m \<and> private_directory uid m)))"
proof (cases "\<exists>p. over = Some p \<and> path_absolute p")
  case False
  with assms show ?thesis
    by (auto simp: runtime_dir_def st_return_def default_runtime_absolute split: option.splits)
next
  case True
  then obtain p where p: "over = Some p" "path_absolute p" by blast
  obtain v t1 where v: "validate_directory (path_parts p) uid t = (v, t1)" by fastforce
  with assms p validate_directory_tree [OF v] show ?thesis
    by (cases v)
      (auto simp: runtime_dir_def st_try_def st_return_def default_runtime_absolute
        path_join_absolute)
qed

text \<open>the paths are resolved exactly for an absolute home, are all absolute, and resolving
  changes nothing. The runtime directory is a child of the directory given as override
  only where that directory is the user's own with mode 0700; otherwise it is the
  per-user directory under /tmp.\<close>

theorem resolved_paths_are_safe:
  "case paths_resolve platform home uid xdg t of (res, t') \<Rightarrow>
     tr_nodes t' = tr_nodes t \<and>
     (case res of
        Inl e \<Rightarrow> e = IoInvalidInput \<and> \<not> path_absolute home
      | Inr paths \<Rightarrow> path_absolute home \<and> path_absolute (pa_config paths) \<and>
          path_absolute (pa_log paths) \<and> path_absolute (pa_runtime paths) \<and>
          (pa_runtime paths = default_runtime platform uid \<or>
           (\<exists>p m. xo_runtime xdg = Some p \<and> pa_runtime paths = path_join p (lit ''tunnel-deck'') \<and>
              map_of (tr_nodes t) (path_parts p) = Some m \<and> private_directory uid m)))"
proof (cases "path_absolute home")
  case False
  then show ?thesis by (simp add: paths_resolve_def st_lift_def)
next
  case True
  obtain r t1 where r: "runtime_dir platform uid (xo_runtime xdg) t = (r, t1)" by fastforce
  from runtime_dir_cases [OF r] True r show ?thesis
    by (auto simp: paths_resolve_def st_bind_def st_return_def Let_def
        intro!: path_join_absolute overridden_absolute)
qed

end
