(* ===== verification/Ssh_Import.thy ===== *)
theory Ssh_Import
  imports Config_Model Utf8
begin

text \<open>
  The preview of forwardings that \<open>ssh -G\<close> reports and the rules saved from it,
  \<open>src/src/application/import.rs\<close>. The command's output is an argument, and so are the
  fresh rule ids.
\<close>

section \<open>Lines and words\<close>

text \<open>\<open>str::lines\<close>: a line ends with a newline, and then a carriage return before it goes too.\<close>

definition strip_cr :: "rstr \<Rightarrow> rstr" where
  "strip_cr s = (if s \<noteq> [] \<and> last s = 13 then butlast s else s)"

fun lines_from :: "rstr \<Rightarrow> rstr \<Rightarrow> rstr list" where
  "lines_from acc [] = (if acc = [] then [] else [acc])"
| "lines_from acc (c # s) =
     (if c = 10 then strip_cr acc # lines_from [] s else lines_from (acc @ [c]) s)"

definition str_lines :: "rstr \<Rightarrow> rstr list" where
  "str_lines s = lines_from [] s"

text \<open>\<open>str::split_whitespace\<close> and \<open>split_once(char::is_whitespace)\<close>.\<close>

fun words_from :: "rstr \<Rightarrow> rstr \<Rightarrow> rstr list" where
  "words_from acc [] = (if acc = [] then [] else [acc])"
| "words_from acc (c # s) =
     (if is_whitespace c then (if acc = [] then [] else [acc]) @ words_from [] s
      else words_from (acc @ [c]) s)"

definition split_whitespace :: "rstr \<Rightarrow> rstr list" where
  "split_whitespace s = words_from [] s"

definition split_once_space :: "rstr \<Rightarrow> (rstr \<times> rstr) option" where
  "split_once_space s =
     (case dropWhile (\<lambda>c. \<not> is_whitespace c) s of
        [] \<Rightarrow> None
      | _ # rest \<Rightarrow> Some (takeWhile (\<lambda>c. \<not> is_whitespace c) s, rest))"

section \<open>Candidates\<close>

datatype import_forwarding =
    ImportLocal rstr u16 rstr u16
  | ImportRemote rstr u16 rstr u16
  | ImportDynamic rstr u16

datatype directive_kind = LocalKind | RemoteKind | DynamicKind

datatype unsupported_reason = UnixSocket | RemoteDynamic

datatype invalid_reason =
    ReasonSyntax | ReasonBindAddress | ReasonDestinationHost | ReasonPort | NonUtf8Output

datatype import_classification =
    Supported
  | DuplicateDirective nat
  | DuplicateRule rule_id bool
  | ImportConflict "rule_id option" bool
  | ImportUnsupported unsupported_reason
  | ImportInvalid invalid_reason

record import_candidate =
  ic_kind :: directive_kind
  ic_forwarding :: "import_forwarding option"
  ic_classification :: import_classification

record import_preview =
  ip_alias :: rstr
  ip_candidates :: "import_candidate list"

datatype parse_failure = ParseUnsupported unsupported_reason | ParseInvalid invalid_reason

section \<open>Parsing a directive\<close>

definition parse_port :: "rstr \<Rightarrow> parse_failure + u16" where
  "parse_port value =
     (case parse_u16 value of
        Some n \<Rightarrow> if n \<noteq> 0 then Ok (of_nat n) else Err (ParseInvalid ReasonPort)
      | None \<Rightarrow> Err (ParseInvalid ReasonPort))"

definition split_host_port :: "rstr \<Rightarrow> parse_failure + rstr \<times> rstr" where
  "split_host_port value =
     (case value of
        c # rest \<Rightarrow>
          if c = 91
          then and_then (ok_or (ParseInvalid ReasonSyntax) (split_once 93 rest)) (\<lambda>(host, after).
            case after of
              d # port \<Rightarrow> if d = 58 then Ok (host, port) else Err (ParseInvalid ReasonSyntax)
            | [] \<Rightarrow> Err (ParseInvalid ReasonSyntax))
          else ok_or (ParseInvalid ReasonSyntax) (rsplit_once 58 value)
      | [] \<Rightarrow> ok_or (ParseInvalid ReasonSyntax) (rsplit_once 58 value))"

definition split_endpoint :: "rstr \<Rightarrow> parse_failure + rstr \<times> u16" where
  "split_endpoint value =
     and_then (split_host_port value) (\<lambda>(host, port).
       if host = [] then Err (ParseInvalid ReasonSyntax)
       else map_ok (\<lambda>p. (host, p)) (parse_port port))"

definition parse_listener :: "rstr \<Rightarrow> rstr \<Rightarrow> parse_failure + rstr \<times> u16" where
  "parse_listener value default_bind =
     (if list_all is_ascii_digit value then map_ok (\<lambda>p. (default_bind, p)) (parse_port value)
      else and_then (split_endpoint value) (\<lambda>(address, port).
        map_ok (\<lambda>_. (address, port))
          (map_err (\<lambda>_. ParseInvalid ReasonBindAddress) (bind_address_new address))))"

definition parse_destination :: "rstr \<Rightarrow> parse_failure + rstr \<times> u16" where
  "parse_destination value =
     and_then (split_endpoint value) (\<lambda>(host, port).
       map_ok (\<lambda>_. (host, port))
         (map_err (\<lambda>_. ParseInvalid ReasonDestinationHost) (destination_host_new host)))"

definition looks_like_socket :: "rstr \<Rightarrow> bool" where
  "looks_like_socket value \<longleftrightarrow> 47 \<in> set value"

definition parse_forward :: "directive_kind \<Rightarrow> rstr \<Rightarrow> rstr \<Rightarrow> parse_failure + import_forwarding" where
  "parse_forward kind value local_default_bind =
     (let words = split_whitespace value in
      if list_ex looks_like_socket words then Err (ParseUnsupported UnixSocket)
      else case (kind, words) of
        (LocalKind, [listen, destination]) \<Rightarrow>
          and_then (parse_listener listen local_default_bind) (\<lambda>(b, bp).
          and_then (parse_destination destination) (\<lambda>(d, dp). Ok (ImportLocal b bp d dp)))
      | (RemoteKind, [listen, destination]) \<Rightarrow>
          and_then (parse_listener listen (lit ''localhost'')) (\<lambda>(b, bp).
          and_then (parse_destination destination) (\<lambda>(d, dp). Ok (ImportRemote b bp d dp)))
      | (RemoteKind, [listen]) \<Rightarrow>
          and_then (parse_listener listen (lit ''localhost'')) (\<lambda>_. Err (ParseUnsupported RemoteDynamic))
      | (DynamicKind, [listen]) \<Rightarrow>
          and_then (parse_listener listen local_default_bind) (\<lambda>(b, bp). Ok (ImportDynamic b bp))
      | _ \<Rightarrow> Err (ParseInvalid ReasonSyntax))"

definition gateway_ports :: "rstr \<Rightarrow> bool" where
  "gateway_ports line =
     (case split_once_space line of
        None \<Rightarrow> False
      | Some (key, value) \<Rightarrow> eq_ignore_ascii_case key (lit ''gatewayports'') \<and> trim value = lit ''yes'')"

definition effective_local_default_bind :: "rstr \<Rightarrow> rstr" where
  "effective_local_default_bind output =
     (if list_ex gateway_ports (str_lines output) then lit ''*'' else lit ''localhost'')"

section \<open>Classification\<close>

fun import_bind :: "import_forwarding \<Rightarrow> rstr \<times> u16" where
  "import_bind (ImportLocal b p d q) = (b, p)"
| "import_bind (ImportRemote b p d q) = (b, p)"
| "import_bind (ImportDynamic b p) = (b, p)"

definition import_listener :: "import_forwarding \<Rightarrow> (bind_address \<times> u16) option" where
  "import_listener f =
     (case bind_address_new (fst (import_bind f)) of
        Inl _ \<Rightarrow> None
      | Inr b \<Rightarrow> Some (b, snd (import_bind f)))"

definition listeners_conflict :: "import_forwarding \<Rightarrow> import_forwarding \<Rightarrow> bool" where
  "listeners_conflict left right =
     (case (import_listener left, import_listener right) of
        (Some (la, lp), Some (ra, rp)) \<Rightarrow> lp = rp \<and> bind_addresses_overlap la ra
      | _ \<Rightarrow> False)"

fun is_remote :: "import_forwarding \<Rightarrow> bool" where
  "is_remote (ImportRemote b p d q) = True"
| "is_remote _ = False"

definition forwards_conflict :: "import_forwarding \<Rightarrow> import_forwarding \<Rightarrow> bool" where
  "forwards_conflict left right =
     (if is_remote left \<and> is_remote right then listeners_conflict left right
      else if is_remote left \<or> is_remote right then False
      else listeners_conflict left right)"

fun forwarding_matches_rule :: "import_forwarding \<Rightarrow> rule \<Rightarrow> bool" where
  "forwarding_matches_rule (ImportLocal b bp d dp) r =
     (case r_forwarding r of
        Local v \<Rightarrow> b = bind_str (lf_bind_address v) \<and> bp = port_get (lf_bind_port v) \<and>
          d = dest_str (lf_destination_host v) \<and> dp = port_get (lf_destination_port v)
      | _ \<Rightarrow> False)"
| "forwarding_matches_rule (ImportRemote b bp d dp) r =
     (case r_forwarding r of
        Remote v \<Rightarrow> b = bind_str (rf_bind_address v) \<and> bp = port_get (rf_bind_port v) \<and>
          d = dest_str (rf_destination_host v) \<and> dp = port_get (rf_destination_port v)
      | _ \<Rightarrow> False)"
| "forwarding_matches_rule (ImportDynamic b bp) r =
     (case r_forwarding r of
        Dynamic v \<Rightarrow> b = bind_str (df_bind_address v) \<and> bp = port_get (df_bind_port v)
      | _ \<Rightarrow> False)"

definition forwarding_conflicts_rule :: "rstr \<Rightarrow> import_forwarding \<Rightarrow> rule \<Rightarrow> bool" where
  "forwarding_conflicts_rule alias f r =
     (case f of
        ImportRemote b bp d dp \<Rightarrow>
          alias_str (r_alias r) = alias \<and>
          (case r_forwarding r of
             Remote v \<Rightarrow> port_get (rf_bind_port v) = bp \<and>
               (case bind_address_new b of
                  Inr c \<Rightarrow> bind_addresses_overlap c (rf_bind_address v) | Inl _ \<Rightarrow> False)
           | _ \<Rightarrow> False)
      | _ \<Rightarrow>
          (case local_listener r of
             None \<Rightarrow> False
           | Some (address, port) \<Rightarrow>
               (case import_listener f of
                  None \<Rightarrow> False
                | Some (ca, cp) \<Rightarrow> cp = port_get port \<and> bind_addresses_overlap ca address)))"

definition classify ::
  "rstr \<Rightarrow> import_forwarding \<Rightarrow> (import_forwarding \<times> nat) list \<Rightarrow> import_forwarding list \<Rightarrow>
   rule list \<Rightarrow> rule_id set \<Rightarrow> import_classification" where
  "classify alias f seen accepted existing running =
     (case map_of seen f of
        Some first_index \<Rightarrow> DuplicateDirective first_index
      | None \<Rightarrow>
     (case find (forwarding_matches_rule f) (filter (\<lambda>r. alias_str (r_alias r) = alias) existing) of
        Some r \<Rightarrow> DuplicateRule (r_id r) (r_id r \<in> running)
      | None \<Rightarrow>
     (if list_ex (forwards_conflict f) accepted then ImportConflict None False
      else case find (forwarding_conflicts_rule alias f) existing of
        Some r \<Rightarrow> ImportConflict (Some (r_id r)) (r_id r \<in> running)
      | None \<Rightarrow> Supported)))"

section \<open>The preview\<close>

definition directive_of :: "rstr \<Rightarrow> (directive_kind \<times> rstr) option" where
  "directive_of line =
     (case split_once_space line of
        None \<Rightarrow> None
      | Some (keyword, value) \<Rightarrow>
          (let k = to_ascii_lowercase keyword in
           if k = lit ''localforward'' then Some (LocalKind, value)
           else if k = lit ''remoteforward'' then Some (RemoteKind, value)
           else if k = lit ''dynamicforward'' then Some (DynamicKind, value)
           else None))"

text \<open>The loop's variables.\<close>

record preview_state =
  ps_seen :: "(import_forwarding \<times> nat) list"
  ps_accepted :: "import_forwarding list"
  ps_candidates :: "import_candidate list"

definition preview_line ::
  "rstr \<Rightarrow> rstr \<Rightarrow> rule list \<Rightarrow> rule_id set \<Rightarrow> rstr \<Rightarrow> preview_state \<Rightarrow> preview_state" where
  "preview_line alias default_bind existing running line s =
     (case directive_of line of
        None \<Rightarrow> s
      | Some (kind, value) \<Rightarrow>
          (case parse_forward kind (trim value) default_bind of
             Inl (ParseUnsupported reason) \<Rightarrow> s\<lparr>ps_candidates := ps_candidates s @
               [\<lparr>ic_kind = kind, ic_forwarding = None, ic_classification = ImportUnsupported reason\<rparr>]\<rparr>
           | Inl (ParseInvalid reason) \<Rightarrow> s\<lparr>ps_candidates := ps_candidates s @
               [\<lparr>ic_kind = kind, ic_forwarding = None, ic_classification = ImportInvalid reason\<rparr>]\<rparr>
           | Inr f \<Rightarrow>
               (let c = classify alias f (ps_seen s) (ps_accepted s) existing running in
                \<lparr>ps_seen = (if map_of (ps_seen s) f = None
                   then ps_seen s @ [(f, length (ps_candidates s))] else ps_seen s),
                 ps_accepted = (if c = Supported then ps_accepted s @ [f] else ps_accepted s),
                 ps_candidates = ps_candidates s @
                   [\<lparr>ic_kind = kind, ic_forwarding = Some f, ic_classification = c\<rparr>]\<rparr>)))"

definition preview_effective_forwards ::
  "rstr \<Rightarrow> bytes \<Rightarrow> rule list \<Rightarrow> rule_id list \<Rightarrow> invalid_reason + import_preview" where
  "preview_effective_forwards alias output existing running_ids =
     (case host_alias_new alias of
        Inl _ \<Rightarrow> Err ReasonSyntax
      | Inr _ \<Rightarrow>
     (case utf8_decode output of
        None \<Rightarrow> Err NonUtf8Output
      | Some text \<Rightarrow>
          Ok \<lparr>ip_alias = alias, ip_candidates = ps_candidates
            (fold (preview_line alias (effective_local_default_bind text) existing (set running_ids))
              (str_lines text) \<lparr>ps_seen = [], ps_accepted = [], ps_candidates = []\<rparr>)\<rparr>))"

section \<open>Rules from the selection\<close>

definition numbered :: "rstr \<Rightarrow> nat \<Rightarrow> rstr" where
  "numbered base n = base @ 45 # show_nat n"

lemma show_nat_inj: "show_nat a = show_nat b \<Longrightarrow> a = b"
  by (metis digits_value_show)

lemma numbered_inj [simp]: "numbered base a = numbered base b \<longleftrightarrow> a = b"
  by (auto simp: numbered_def dest: show_nat_inj)

text \<open>The loop that counts a suffix up; the names are finitely many, so it ends.\<close>

function free_name :: "rstr \<Rightarrow> rstr list \<Rightarrow> nat \<Rightarrow> rstr" where
  "free_name base names n =
     (if numbered base n \<in> set names then free_name base names (n + 1)
      else numbered base n)"
  by pat_completeness auto

lemma taken_suffixes_finite: "finite {k. n \<le> k \<and> numbered base k \<in> set names}"
proof (rule finite_subset)
  show "{k. n \<le> k \<and> numbered base k \<in> set names} \<subseteq> numbered base -` set names" by auto
  show "finite (numbered base -` set names)"
    by (rule finite_vimageI) (auto simp: inj_on_def)
qed

termination free_name
proof (relation "measure (\<lambda>(base, names, n). card {k. n \<le> k \<and> numbered base k \<in> set names})")
  fix base names n assume taken: "numbered base n \<in> set names"
  have "n \<in> {k. n \<le> k \<and> numbered base k \<in> set names}" using taken by simp
  moreover have "n \<notin> {k. n + 1 \<le> k \<and> numbered base k \<in> set names}" by simp
  moreover have "{k. n + 1 \<le> k \<and> numbered base k \<in> set names} \<subseteq> {k. n \<le> k \<and> numbered base k \<in> set names}"
    by auto
  ultimately have "{k. n + 1 \<le> k \<and> numbered base k \<in> set names} \<subset> {k. n \<le> k \<and> numbered base k \<in> set names}"
    by (metis psubsetI)
  then show "((base, names, n + 1), base, names, n)
      \<in> measure (\<lambda>(base, names, n). card {k. n \<le> k \<and> numbered base k \<in> set names})"
    using psubset_card_mono [OF taken_suffixes_finite] by simp
qed simp

declare free_name.simps [simp del]

lemma free_name_fresh: "free_name base names n \<notin> set names"
  by (induction base names n rule: free_name.induct) (subst free_name.simps, simp)

lemma free_name_numbered: "\<exists>k. free_name base names n = numbered base k"
  by (induction base names n rule: free_name.induct) (subst free_name.simps, auto)

definition import_base_name :: "import_forwarding \<Rightarrow> rstr" where
  "import_base_name f =
     (case f of
        ImportLocal b p d q \<Rightarrow> lit ''import-local-'' @ show_nat (unat p)
      | ImportRemote b p d q \<Rightarrow> lit ''import-remote-'' @ show_nat (unat p)
      | ImportDynamic b p \<Rightarrow> lit ''import-dynamic-'' @ show_nat (unat p))"

definition import_rule_name :: "import_forwarding \<Rightarrow> nat \<Rightarrow> rstr list \<Rightarrow> rstr \<times> rstr list" where
  "import_rule_name f candidate_id names =
     (let base = import_base_name f;
          name = (if base \<in> set names then free_name base names candidate_id else base)
      in (name, name # names))"

definition import_rule ::
  "rule_id \<Rightarrow> rstr \<Rightarrow> rstr \<Rightarrow> import_forwarding \<Rightarrow> validation_error + rule" where
  "import_rule i name alias f =
     (case f of
        ImportLocal b p d q \<Rightarrow> and_then (rule_local i name alias p d q) (\<lambda>r. with_bind_address r b)
      | ImportRemote b p d q \<Rightarrow> and_then (rule_remote i name alias p d q) (\<lambda>r. with_bind_address r b)
      | ImportDynamic b p \<Rightarrow> and_then (rule_dynamic i name alias p) (\<lambda>r. with_bind_address r b))"

datatype selection_error =
    NothingSelected | NoSuchCandidate | CandidateUnavailable nat | CandidateEmpty nat
  | CandidateInvalid validation_error

text \<open>\<open>new_id\<close> draws the rule id for a candidate.\<close>

fun select_loop ::
  "(nat \<Rightarrow> rule_id) \<Rightarrow> rstr \<Rightarrow> nat list \<Rightarrow> bool \<Rightarrow> bool \<Rightarrow> nat \<Rightarrow> import_candidate list \<Rightarrow> rstr list \<Rightarrow>
   selection_error + rule list" where
  "select_loop new_id alias selected auto_start reconnect candidate_id [] names = Ok []"
| "select_loop new_id alias selected auto_start reconnect candidate_id (c # cs) names =
     (if candidate_id \<notin> set selected
      then select_loop new_id alias selected auto_start reconnect (candidate_id + 1) cs names
      else if ic_classification c \<noteq> Supported then Err (CandidateUnavailable candidate_id)
      else case ic_forwarding c of
        None \<Rightarrow> Err (CandidateEmpty candidate_id)
      | Some f \<Rightarrow>
          (let (name, names') = import_rule_name f candidate_id names in
           and_then (map_err CandidateInvalid (map_ok (\<lambda>r. with_policy r auto_start reconnect)
               (import_rule (new_id candidate_id) name alias f))) (\<lambda>r.
             map_ok (\<lambda>rs. r # rs)
               (select_loop new_id alias selected auto_start reconnect (candidate_id + 1) cs names'))))"

definition selected_rules ::
  "(nat \<Rightarrow> rule_id) \<Rightarrow> import_preview \<Rightarrow> nat list \<Rightarrow> rule list \<Rightarrow> bool \<Rightarrow> bool \<Rightarrow>
   selection_error + rule list" where
  "selected_rules new_id preview selected existing auto_start reconnect =
     (if selected = [] \<or> 0 \<in> set selected then Err NothingSelected
      else if list_ex (\<lambda>i. length (ip_candidates preview) < i) selected then Err NoSuchCandidate
      else select_loop new_id (ip_alias preview) selected auto_start reconnect 1 (ip_candidates preview)
        (map (\<lambda>r. rule_name_str (r_name r)) existing))"

section \<open>What is accepted is free of clashes\<close>

lemma listeners_conflict_commute: "listeners_conflict a b = listeners_conflict b a"
  by (auto simp: listeners_conflict_def bind_addresses_overlap_commute split: option.splits)

lemma forwards_conflict_commute: "forwards_conflict a b = forwards_conflict b a"
  by (simp add: forwards_conflict_def listeners_conflict_commute)

interpretation candidates: conflict_relation forwards_conflict
  by unfold_locales (simp add: forwards_conflict_commute)

text \<open>A forwarding the parser returns can be built into a rule.\<close>

fun valid_import :: "import_forwarding \<Rightarrow> bool" where
  "valid_import (ImportLocal b p d q) \<longleftrightarrow> is_ok (bind_address_new b) \<and> p \<noteq> 0 \<and>
     is_ok (destination_host_new d) \<and> q \<noteq> 0"
| "valid_import (ImportRemote b p d q) \<longleftrightarrow> is_ok (bind_address_new b) \<and> p \<noteq> 0 \<and>
     is_ok (destination_host_new d) \<and> q \<noteq> 0"
| "valid_import (ImportDynamic b p) \<longleftrightarrow> is_ok (bind_address_new b) \<and> p \<noteq> 0"

lemma parse_port_Ok: "parse_port v = Ok p \<Longrightarrow> p \<noteq> 0"
proof -
  assume "parse_port v = Ok p"
  then obtain n where n: "parse_u16 v = Some n" "n \<noteq> 0" "p = of_nat n"
    by (auto simp: parse_port_def split: option.splits if_splits)
  have "unat p = n" using parse_u16_bound [OF n(1)] n(3) by (simp add: unat_of_nat take_bit_eq_mod)
  with n(2) show "p \<noteq> 0" by auto
qed

lemma parse_listener_Ok:
  assumes "parse_listener v d = Ok (b, p)" "is_ok (bind_address_new d)"
  shows "is_ok (bind_address_new b) \<and> p \<noteq> 0"
  using assms parse_port_Ok
  by (auto simp: parse_listener_def split_endpoint_def is_ok_iff split: if_splits)

lemma parse_destination_Ok:
  "parse_destination v = Ok (h, p) \<Longrightarrow> is_ok (destination_host_new h) \<and> p \<noteq> 0"
  using parse_port_Ok
  by (auto simp: parse_destination_def split_endpoint_def is_ok_iff split: if_splits)

lemma default_binds_ok [simp]:
  "is_ok (bind_address_new (lit ''localhost''))" "is_ok (bind_address_new (lit ''*''))"
  by (simp_all add: bind_address_new_def)

lemma parse_forward_valid:
  "parse_forward kind v d = Ok f \<Longrightarrow> is_ok (bind_address_new d) \<Longrightarrow> valid_import f"
  using parse_listener_Ok parse_destination_Ok
  by (auto simp: parse_forward_def Let_def split: if_splits directive_kind.splits list.splits)

section \<open>The preview keeps its candidates apart\<close>

definition accepted_of :: "import_candidate list \<Rightarrow> import_forwarding list" where
  "accepted_of cs = map (\<lambda>c. the (ic_forwarding c)) (filter (\<lambda>c. ic_classification c = Supported) cs)"

lemma accepted_of_append [simp]: "accepted_of (cs @ ds) = accepted_of cs @ accepted_of ds"
  by (simp add: accepted_of_def)

definition preview_ok :: "rstr \<Rightarrow> rule list \<Rightarrow> preview_state \<Rightarrow> bool" where
  "preview_ok alias existing s \<longleftrightarrow> ps_accepted s = accepted_of (ps_candidates s) \<and>
     (\<forall>c \<in> set (ps_candidates s). ic_classification c = Supported \<longrightarrow>
        (\<exists>f. ic_forwarding c = Some f \<and> valid_import f)) \<and>
     clash_free forwards_conflict (ps_accepted s) \<and>
     (\<forall>f \<in> set (ps_accepted s). \<forall>r \<in> set existing. \<not> forwarding_conflicts_rule alias f r)"

lemma classify_Supported:
  assumes "classify alias f seen accepted existing running = Supported"
  shows "\<forall>g \<in> set accepted. \<not> forwards_conflict f g"
    "\<forall>r \<in> set existing. \<not> forwarding_conflicts_rule alias f r"
  using assms
  by (auto simp: classify_def list_ex_iff find_None_iff split: option.splits if_splits)

lemma preview_line_ok:
  assumes "preview_ok alias existing s" "is_ok (bind_address_new d)"
  shows "preview_ok alias existing (preview_line alias d existing running line s)"
proof (cases "directive_of line")
  case (Some kv)
  obtain kind v where kv: "kv = (kind, v)" by fastforce
  show ?thesis
  proof (cases "parse_forward kind (trim v) d")
    case (Inl e)
    with Some kv assms(1) show ?thesis
      by (cases e) (auto simp: preview_line_def preview_ok_def accepted_of_def)
  next
    case (Inr f)
    let ?c = "classify alias f (ps_seen s) (ps_accepted s) existing running"
    from Inr assms(2) have "valid_import f" by (rule parse_forward_valid)
    with Some kv Inr assms(1) classify_Supported [where accepted = "ps_accepted s"]
    show ?thesis
      by (cases "?c = Supported")
        (auto simp: preview_line_def preview_ok_def accepted_of_def Let_def candidates.free_snoc
          forwards_conflict_commute)
  qed
qed (use assms in \<open>simp add: preview_line_def\<close>)

lemma preview_fold_ok:
  "preview_ok alias existing s \<Longrightarrow> is_ok (bind_address_new d) \<Longrightarrow>
   preview_ok alias existing (fold (preview_line alias d existing running) ls s)"
  by (induction ls arbitrary: s) (auto intro: preview_line_ok)

lemma preview_candidates:
  assumes "preview_effective_forwards alias out existing running = Ok p"
  shows "is_ok (host_alias_new (ip_alias p))"
    "\<forall>c \<in> set (ip_candidates p). ic_classification c = Supported \<longrightarrow>
       (\<exists>f. ic_forwarding c = Some f \<and> valid_import f)"
    "clash_free forwards_conflict (accepted_of (ip_candidates p))"
    "\<forall>f \<in> set (accepted_of (ip_candidates p)). \<forall>r \<in> set existing.
       \<not> forwarding_conflicts_rule (ip_alias p) f r"
proof -
  obtain a text' where a: "host_alias_new alias = Ok a" "utf8_decode out = Some text'"
    and p: "p = \<lparr>ip_alias = alias, ip_candidates = ps_candidates
        (fold (preview_line alias (effective_local_default_bind text') existing (set running))
          (str_lines text') \<lparr>ps_seen = [], ps_accepted = [], ps_candidates = []\<rparr>)\<rparr>"
    using assms by (auto simp: preview_effective_forwards_def split: sum.splits option.splits)
  have "preview_ok alias existing (fold
      (preview_line alias (effective_local_default_bind text') existing (set running))
      (str_lines text') \<lparr>ps_seen = [], ps_accepted = [], ps_candidates = []\<rparr>)" (is "preview_ok _ _ ?s")
    by (rule preview_fold_ok)
      (simp_all add: preview_ok_def accepted_of_def effective_local_default_bind_def)
  moreover have "ip_alias p = alias" "ip_candidates p = ps_candidates ?s" by (simp_all add: p)
  ultimately show "is_ok (host_alias_new (ip_alias p))"
    "\<forall>c \<in> set (ip_candidates p). ic_classification c = Supported \<longrightarrow>
       (\<exists>f. ic_forwarding c = Some f \<and> valid_import f)"
    "clash_free forwards_conflict (accepted_of (ip_candidates p))"
    "\<forall>f \<in> set (accepted_of (ip_candidates p)). \<forall>r \<in> set existing.
       \<not> forwarding_conflicts_rule (ip_alias p) f r"
    using a(1) by (auto simp: preview_ok_def)
qed

section \<open>What a selection builds\<close>

definition built :: "rstr \<Rightarrow> import_forwarding \<Rightarrow> rule \<Rightarrow> bool" where
  "built alias f r \<longleftrightarrow> (\<exists>i n r0 a c. import_rule i n alias f = Ok r0 \<and> r = with_policy r0 a c)"

lemma import_rule_valid: "import_rule i n alias f = Ok r \<Longrightarrow> valid_rule r"
  by (cases f) (auto simp: import_rule_def intro: with_bind_address_valid
      dest: rule_local_valid rule_remote_valid rule_dynamic_valid)

lemma import_rule_names:
  "import_rule i n alias f = Ok r \<Longrightarrow> rule_name_str (r_name r) = n \<and> alias_str (r_alias r) = alias"
  by (cases f) (auto simp: import_rule_def rule_local_def rule_remote_def rule_dynamic_def
      with_bind_address_def rule_name_new_Ok host_alias_new_Ok)

lemma import_rule_listener:
  "import_rule i n alias f = Ok r \<Longrightarrow> local_listener r = (if is_remote f then None
       else map_option (\<lambda>(b, p). (b, Port p)) (import_listener f))"
  by (cases f) (auto simp: import_rule_def rule_local_def rule_remote_def rule_dynamic_def
      with_bind_address_def local_listener_def import_listener_def)

lemma built_listener:
  "built alias f r \<Longrightarrow> local_listener r = (if is_remote f then None
     else map_option (\<lambda>(b, p). (b, Port p)) (import_listener f))"
  by (auto simp: built_def import_rule_listener)

lemma built_clash:
  assumes "built alias f r" "built alias g s" "same_listener r s"
  shows "forwards_conflict f g"
  using assms built_listener [OF assms(1)] built_listener [OF assms(2)]
  by (auto simp: same_listener_def forwards_conflict_def listeners_conflict_def
      split: option.splits if_splits)

lemma built_clash_existing:
  assumes "built alias f r" "same_listener r s"
  shows "forwarding_conflicts_rule alias f s"
  using assms(2) built_listener [OF assms(1)]
  by (cases f) (auto simp: same_listener_def forwarding_conflicts_rule_def split: option.splits if_splits)

lemma import_rule_name_fresh:
  "import_rule_name f k names = (name, names') \<Longrightarrow> name \<notin> set names \<and> names' = name # names"
  using free_name_fresh by (auto simp: import_rule_name_def Let_def split: if_splits)

lemma with_policy_fields [simp]:
  "r_name (with_policy r a c) = r_name r" "r_alias (with_policy r a c) = r_alias r"
  "r_auto_start (with_policy r a c) = a" "r_reconnect (with_policy r a c) = c"
  by (simp_all add: with_policy_def)

lemma accepted_of_Cons:
  "accepted_of (c # cs) =
   (if ic_classification c = Supported then the (ic_forwarding c) # accepted_of cs else accepted_of cs)"
  by (simp add: accepted_of_def)

lemma select_loop_built:
  assumes "select_loop new_id alias sel a p k cs names = Ok rs"
    and "clash_free forwards_conflict (accepted_of cs)"
  shows "list_all valid_rule rs \<and> clash_free rule_clash rs \<and>
    (\<forall>r \<in> set rs. rule_name_str (r_name r) \<notin> set names \<and> alias_str (r_alias r) = alias \<and>
       r_auto_start r = a \<and> r_reconnect r = p \<and>
       (\<exists>f \<in> set (accepted_of cs). built alias f r))"
  using assms
proof (induction cs arbitrary: k names rs)
  case Nil
  then show ?case by simp
next
  case (Cons c cs)
  have tail: "clash_free forwards_conflict (accepted_of cs)"
    using Cons.prems(2) by (auto simp: accepted_of_Cons split: if_splits)
  have sub: "set (accepted_of cs) \<subseteq> set (accepted_of (c # cs))" by (auto simp: accepted_of_Cons)
  show ?case
  proof (cases "k \<in> set sel")
    case False
    with Cons.prems(1) have "select_loop new_id alias sel a p (k + 1) cs names = Ok rs" by simp
    with Cons.IH [OF this tail] sub show ?thesis by blast
  next
    case True
    with Cons.prems(1) obtain f where c: "ic_classification c = Supported" "ic_forwarding c = Some f"
      by (auto split: if_splits option.splits)
    obtain name names' where nm: "import_rule_name f k names = (name, names')" by fastforce
    note fresh = import_rule_name_fresh [OF nm]
    from Cons.prems(1) True c nm obtain r0 rs' where
      r0: "import_rule (new_id k) name alias f = Ok r0"
      and rest: "select_loop new_id alias sel a p (k + 1) cs names' = Ok rs'"
      and rs: "rs = with_policy r0 a p # rs'"
      by auto
    have r: "built alias f (with_policy r0 a p)" unfolding built_def using r0 by blast
    from Cons.IH [OF rest tail] have IH: "list_all valid_rule rs'" "clash_free rule_clash rs'"
      "\<forall>r \<in> set rs'. rule_name_str (r_name r) \<notin> set names' \<and> alias_str (r_alias r) = alias \<and>
         r_auto_start r = a \<and> r_reconnect r = p \<and> (\<exists>f \<in> set (accepted_of cs). built alias f r)"
      by blast+
    have apart: "\<not> rule_clash s (with_policy r0 a p)" if s: "s \<in> set rs'" for s
    proof -
      from IH(3) s obtain g where g: "g \<in> set (accepted_of cs)" "built alias g s" by blast
      then have "\<not> forwards_conflict g f"
        using Cons.prems(2) c by (auto simp: accepted_of_Cons)
      with built_clash [OF g(2) r] have "\<not> same_listener s (with_policy r0 a p)" by blast
      moreover have "rule_name_str (r_name s) \<noteq> name" using IH(3) s fresh by auto
      then have "\<not> same_name s (with_policy r0 a p)"
        using import_rule_names [OF r0] by (auto simp: same_name_def)
      ultimately show ?thesis by (simp add: rule_clash_def)
    qed
    show ?thesis
      using IH apart r r0 fresh c import_rule_valid [OF r0] import_rule_names [OF r0]
      unfolding rs by (auto simp: accepted_of_Cons)
  qed
qed

lemma select_loop_ids:
  "select_loop new_id alias sel a p k cs names = Ok rs \<Longrightarrow>
   map r_id rs = map new_id (filter (\<lambda>j. j \<in> set sel) [k ..< k + length cs])"
proof (induction cs arbitrary: k names rs)
  case Nil
  then show ?case by simp
next
  case (Cons c cs)
  have range: "[k ..< k + length (c # cs)] = k # [k + 1 ..< (k + 1) + length cs]"
    using upt_conv_Cons [of k "k + Suc (length cs)"] by (simp del: upt_Suc)
  show ?case
  proof (cases "k \<in> set sel")
    case False
    with Cons.prems have "select_loop new_id alias sel a p (k + 1) cs names = Ok rs" by simp
    from Cons.IH [OF this] False range show ?thesis by simp
  next
    case True
    with Cons.prems obtain f name names' r0 rs' where r0: "import_rule (new_id k) name alias f = Ok r0"
      and rest: "select_loop new_id alias sel a p (k + 1) cs names' = Ok rs'"
      and rs: "rs = with_policy r0 a p # rs'"
      by (auto split: if_splits option.splits prod.splits)
    have "r_id r0 = new_id k"
      using r0 by (cases f) (auto simp: import_rule_def rule_local_def rule_remote_def rule_dynamic_def
          with_bind_address_def)
    then have "r_id (with_policy r0 a p) = new_id k" by (simp add: with_policy_def)
    with Cons.IH [OF rest] True range rs show ?thesis by simp
  qed
qed

section \<open>Properties\<close>

lemma imported_rules_well_formed:
  assumes "preview_effective_forwards alias output existing running = Ok preview"
    and "well_formed_rules existing"
    and "selected_rules new_id preview selected existing auto_start reconnect = Ok rules"
  shows "well_formed_rules (existing @ rules) \<and>
    (\<forall>r \<in> set rules. alias_str (r_alias r) = alias \<and> r_auto_start r = auto_start \<and> r_reconnect r = reconnect)"
proof -
  note pre = preview_candidates [OF assms(1)]
  have al: "ip_alias preview = alias"
    using assms(1) by (auto simp: preview_effective_forwards_def split: sum.splits option.splits)
  have loop: "select_loop new_id alias selected auto_start reconnect 1 (ip_candidates preview)
      (map (\<lambda>r. rule_name_str (r_name r)) existing) = Ok rules"
    using assms(3) al by (auto simp: selected_rules_def split: if_splits)
  note built = select_loop_built [OF loop pre(3)]
  have "\<not> rule_clash r s" if r: "r \<in> set rules" and s: "s \<in> set existing" for r s
  proof -
    from built r obtain f where f: "f \<in> set (accepted_of (ip_candidates preview))" "built alias f r"
      by blast
    with pre(4) al s built_clash_existing have "\<not> same_listener r s" by blast
    moreover have "rule_name_str (r_name r) \<notin> set (map (\<lambda>r. rule_name_str (r_name r)) existing)"
      using built r by blast
    then have "r_name s \<noteq> r_name r" using s by (metis (no_types, lifting) image_eqI set_map)
    ultimately show ?thesis by (simp add: rule_clash_def same_name_def)
  qed
  then show ?thesis
    using built assms(2) by (auto simp: well_formed_rules_def validate_rule_set_Ok clash_free_append)
qed

text \<open>C19: an import never breaks the configuration: the rules built from any selection of a
  preview's candidates, added to the rules the preview was made against, form a valid rule
  set again: fresh names, no overlapping local listeners, every part well formed; and they
  all belong to the previewed host with the chosen policy.\<close>

theorem imported_rules_fit:
  assumes "preview_effective_forwards alias output existing running = Ok preview"
    and "well_formed_rules existing"
    and "selected_rules new_id preview selected existing auto_start reconnect = Ok rules"
  shows "well_formed_rules (existing @ rules) \<and>
    (\<forall>r \<in> set rules. alias_str (r_alias r) = alias \<and> r_auto_start r = auto_start \<and> r_reconnect r = reconnect)"
  using assms by (rule imported_rules_well_formed)

definition sample_output :: bytes where
  "sample_output = utf8_encode (lit ''hostname web'' @ [10] @ lit ''LocalForward 8080 [localhost]:80'' @ [10] @
     lit ''dynamicforward [127.0.0.1]:3000'' @ [10] @ lit ''remoteforward 9000 [db]:5432'' @ [10])"

definition sample_preview :: import_preview where
  "sample_preview = projr (preview_effective_forwards (lit ''web'') sample_output
     [listener_rule 1 (lit ''a'') (lit ''127.0.0.1'') 3000] [])"

definition sample_selection :: "selection_error + rule list" where
  "sample_selection = selected_rules (\<lambda>k. of_nat (100 + k)) sample_preview [1, 3]
     [listener_rule 1 (lit ''a'') (lit ''127.0.0.1'') 3000] False True"

lemma sample_preview_Ok:
  "preview_effective_forwards (lit ''web'') sample_output
     [listener_rule 1 (lit ''a'') (lit ''127.0.0.1'') 3000] [] = Ok sample_preview \<and>
   map ic_classification (ip_candidates sample_preview) =
     [Supported, DuplicateRule 1 False, Supported]"
proof
  have "is_ok (preview_effective_forwards (lit ''web'') sample_output
     [listener_rule 1 (lit ''a'') (lit ''127.0.0.1'') 3000] [])" by code_simp
  then show "preview_effective_forwards (lit ''web'') sample_output
     [listener_rule 1 (lit ''a'') (lit ''127.0.0.1'') 3000] [] = Ok sample_preview"
    by (auto simp: sample_preview_def is_ok_iff)
  show "map ic_classification (ip_candidates sample_preview) =
     [Supported, DuplicateRule 1 False, Supported]" by code_simp
qed

theorem imported_rules_fit_witness:
  "\<exists>rules. sample_selection = Ok rules \<and> length rules = 2 \<and>
     well_formed_rules (listener_rule 1 (lit ''a'') (lit ''127.0.0.1'') 3000 # rules)"
proof -
  have ok: "is_ok sample_selection" and len: "length (projr sample_selection) = 2" by code_simp+
  from ok obtain rules where "sample_selection = Ok rules" by (auto simp: is_ok_iff)
  moreover from this len have "length rules = 2" by (metis sum.sel(2))
  ultimately have rules: "sample_selection = Ok rules" "length rules = 2" by simp_all
  have "well_formed_rules [listener_rule 1 (lit ''a'') (lit ''127.0.0.1'') 3000]"
    unfolding well_formed_rules_def by code_simp
  from imported_rules_fit [OF conjunct1 [OF sample_preview_Ok] this, of "\<lambda>k. of_nat (100 + k)" "[1, 3]"
      False True rules] rules show ?thesis by (simp add: sample_selection_def)
qed

text \<open>How long a name can get.\<close>

lemma length_show_nat: "n < 10 ^ d \<Longrightarrow> 0 < d \<Longrightarrow> length (show_nat n) \<le> d"
proof (induction n arbitrary: d rule: show_nat.induct)
  case (1 n)
  show ?case
  proof (cases "n < 10")
    case True
    with 1(3) show ?thesis by (subst show_nat.simps) simp
  next
    case False
    then obtain e where d: "d = Suc e" "0 < e" using 1(2) by (cases d; cases "d - 1") auto
    have "n div 10 < 10 ^ e" using 1(2) d(1) by (simp add: div_less_iff_less_mult mult.commute)
    with 1(1) [OF False, of e] d False show ?thesis by (subst show_nat.simps) simp
  qed
qed

lemma taken_suffixes_card: "card {k. n \<le> k \<and> numbered base k \<in> set names} \<le> length names"
proof -
  have "card {k. n \<le> k \<and> numbered base k \<in> set names} \<le> card (set names)"
    by (rule card_inj_on_le [where f = "numbered base"]) (auto simp: inj_on_def)
  with card_length [of names] show ?thesis by linarith
qed

lemma free_name_bound:
  "\<exists>k. free_name base names n = numbered base k \<and>
     k \<le> n + card {k. n \<le> k \<and> numbered base k \<in> set names}"
proof (induction base names n rule: free_name.induct)
  case (1 base names n)
  show ?case
  proof (cases "numbered base n \<in> set names")
    case False
    then show ?thesis by (subst free_name.simps) auto
  next
    case True
    let ?A = "\<lambda>n. {k. n \<le> k \<and> numbered base k \<in> set names}"
    have "?A n = insert n (?A (n + 1))" using True by (auto simp: le_eq_less_or_eq)
    moreover have "n \<notin> ?A (n + 1)" by simp
    ultimately have "card (?A n) = Suc (card (?A (n + 1)))"
      by (metis card_insert_disjoint taken_suffixes_finite)
    with 1 [OF True] True show ?thesis by (subst free_name.simps) auto
  qed
qed

definition name_char :: "rchar \<Rightarrow> bool" where
  "name_char c \<longleftrightarrow> c = 45 \<or> is_ascii_digit c \<or> (97 \<le> c \<and> c \<le> 122)"

lemma name_chars_text: "list_all name_char s \<Longrightarrow> s \<noteq> [] \<Longrightarrow> length s \<le> 128 \<Longrightarrow> rule_name_new s = Ok (RuleName s)"
proof -
  assume s: "list_all name_char s" "s \<noteq> []" "length s \<le> 128"
  have "\<not> is_whitespace c \<and> \<not> is_control c" if "name_char c" for c
    using that by (auto simp: name_char_def is_ascii_digit_def is_whitespace_def is_control_def)
  with s(1) have "\<not> list_ex is_whitespace s" "\<not> list_ex is_control s"
    by (auto simp: list_all_iff list_ex_iff)
  with s(2,3) show ?thesis by (simp add: rule_name_new_Ok trim_no_whitespace)
qed

lemma show_nat_name: "list_all name_char (show_nat n)"
  using show_nat_digits [of n] by (auto simp: name_char_def list_all_iff)

lemma import_base_name_ok:
  "list_all name_char (import_base_name f) \<and> length (import_base_name f) \<le> 20 \<and> import_base_name f \<noteq> []"
proof -
  have port: "length (show_nat (unat (p :: u16))) \<le> 5" for p
    by (rule length_show_nat) (use unsigned_less [of p, where ?'a = nat] in auto)
  have "list_all name_char (lit ''import-local-'')" "list_all name_char (lit ''import-remote-'')"
    "list_all name_char (lit ''import-dynamic-'')" by code_simp+
  then show ?thesis
    by (cases f) (auto simp: import_base_name_def show_nat_name lit_def intro: order_trans [OF port])
qed

lemma import_rule_name_ok:
  assumes "import_rule_name f k names = (name, names')" "k + length names < 10 ^ 100"
  shows "rule_name_new name = Ok (RuleName name)"
proof -
  let ?base = "import_base_name f"
  consider "name = ?base" | "name = free_name ?base names k"
    using assms(1) by (auto simp: import_rule_name_def Let_def split: if_splits)
  then have "list_all name_char name \<and> name \<noteq> [] \<and> length name \<le> 128"
  proof cases
    case 1
    then show ?thesis using import_base_name_ok [of f] by auto
  next
    case 2
    obtain j where j: "name = numbered ?base j" "j \<le> k + length names"
      using 2 free_name_bound [of ?base names k] taken_suffixes_card [of k ?base names] by fastforce
    then have "length (show_nat j) \<le> 100" using assms(2) by (intro length_show_nat) linarith+
    then show ?thesis
      using j(1) import_base_name_ok [of f] show_nat_name [of j] by (simp add: numbered_def name_char_def)
  qed
  then show ?thesis by (simp add: name_chars_text)
qed

lemma import_rule_ok:
  assumes "valid_import f" "is_ok (host_alias_new alias)" "rule_name_new n = Ok (RuleName n)"
  shows "is_ok (import_rule i n alias f)"
proof -
  obtain a where "host_alias_new alias = Ok a" using assms(2) by (auto simp: is_ok_iff)
  with assms(1,3) show ?thesis
    by (cases f) (auto simp: is_ok_iff import_rule_def rule_local_def rule_remote_def rule_dynamic_def
        with_bind_address_def port_new_def)
qed

lemma select_loop_ok:
  assumes "\<And>j. j < length cs \<Longrightarrow> k + j \<in> set sel \<Longrightarrow> ic_classification (cs ! j) = Supported"
    and "\<forall>c \<in> set cs. ic_classification c = Supported \<longrightarrow> (\<exists>f. ic_forwarding c = Some f \<and> valid_import f)"
    and "is_ok (host_alias_new alias)" "k + 2 * length cs + length names < 10 ^ 100"
  shows "\<exists>rs. select_loop new_id alias sel a p k cs names = Ok rs \<and>
    length rs = length (filter (\<lambda>j. j \<in> set sel) [k ..< k + length cs])"
  using assms
proof (induction cs arbitrary: k names)
  case Nil
  then show ?case by simp
next
  case (Cons c cs)
  have range: "[k ..< k + length (c # cs)] = k # [k + 1 ..< (k + 1) + length cs]"
    using upt_conv_Cons [of k "k + Suc (length cs)"] by (simp del: upt_Suc)
  have cls: "j < length cs \<Longrightarrow> k + 1 + j \<in> set sel \<Longrightarrow> ic_classification (cs ! j) = Supported" for j
    using Cons.prems(1) [of "Suc j"] by simp
  have valid: "\<forall>c \<in> set cs. ic_classification c = Supported \<longrightarrow> (\<exists>f. ic_forwarding c = Some f \<and> valid_import f)"
    using Cons.prems(2) by simp
  show ?case
  proof (cases "k \<in> set sel")
    case False
    with Cons.IH [of "k + 1" names, OF cls valid Cons.prems(3)] Cons.prems(4) range show ?thesis
      by simp
  next
    case True
    then have "ic_classification c = Supported" using Cons.prems(1) [of 0] by simp
    moreover from this obtain f where f: "ic_forwarding c = Some f" "valid_import f"
      using Cons.prems(2) by auto
    moreover obtain name names' where nm: "import_rule_name f k names = (name, names')" by fastforce
    moreover from nm have "rule_name_new name = Ok (RuleName name)"
      by (rule import_rule_name_ok) (use Cons.prems(4) in simp)
    from import_rule_ok [OF f(2) Cons.prems(3) this] obtain r
      where "import_rule (new_id k) name alias f = Ok r" by (auto simp: is_ok_iff)
    moreover have "names' = name # names" using import_rule_name_fresh [OF nm] by simp
    moreover from this obtain rs where "select_loop new_id alias sel a p (k + 1) cs names' = Ok rs"
      "length rs = length (filter (\<lambda>j. j \<in> set sel) [k + 1 ..< (k + 1) + length cs])"
      using Cons.IH [of "k + 1" names', OF cls valid Cons.prems(3)] Cons.prems(4) by auto
    ultimately show ?thesis using True range by simp
  qed
qed

text \<open>Whatever the preview marks as supported can be saved: a selection of supported candidates
  only is never refused, whatever rules there are when it is saved, and yields one rule per
  selected candidate.\<close>

lemma supported_candidates_are_saved:
  assumes "preview_effective_forwards alias output old running = Ok preview"
    and "selected \<noteq> []"
    and "\<forall>i \<in> set selected. 1 \<le> i \<and> i \<le> length (ip_candidates preview) \<and>
       ic_classification (ip_candidates preview ! (i - 1)) = Supported"
    and "2 * length (ip_candidates preview) + length existing < 10 ^ 99"
  shows "\<exists>rules. selected_rules new_id preview selected existing auto_start reconnect = Ok rules \<and>
    length rules = card (set selected)"
proof -
  note pre = preview_candidates [OF assms(1)]
  let ?n = "length (ip_candidates preview)"
  have cls: "ic_classification (ip_candidates preview ! j) = Supported"
    if "j < ?n" "1 + j \<in> set selected" for j
    using assms(3) that by (metis add_diff_cancel_left')
  have "(10 :: nat) ^ 99 \<le> 10 ^ 100 - 1" by simp
  with assms(4) have "1 + 2 * ?n + length (map (\<lambda>r. rule_name_str (r_name r)) existing) < 10 ^ 100"
    by simp
  from select_loop_ok [OF cls pre(2,1) this] obtain rs where
    rs: "select_loop new_id (ip_alias preview) selected auto_start reconnect 1
      (ip_candidates preview) (map (\<lambda>r. rule_name_str (r_name r)) existing) = Ok rs"
    "length rs = length (filter (\<lambda>j. j \<in> set selected) [1 ..< 1 + ?n])" by blast
  have "length (filter (\<lambda>j. j \<in> set selected) [1 ..< 1 + ?n]) = card (set (filter (\<lambda>j. j \<in> set selected) [1 ..< 1 + ?n]))"
    by (rule distinct_card [symmetric]) simp
  also have "set (filter (\<lambda>j. j \<in> set selected) [1 ..< 1 + ?n]) = set selected"
    using assms(3) by auto
  finally have "length rs = card (set selected)" using rs(2) by simp
  moreover have "0 \<notin> set selected" "\<not> list_ex (\<lambda>i. ?n < i) selected"
    using assms(3) by (auto simp: list_ex_iff not_less)
  ultimately show ?thesis using rs(1) assms(2) by (simp add: selected_rules_def)
qed

end
