(* ===== verification/Ssh_Hosts.thy ===== *)
theory Ssh_Hosts
  imports Paths_Model Ssh_Import Ssh_Process "HOL-Library.List_Lexorder"
begin

text \<open>
  SSH hosts, \<open>src/src/application/hosts.rs\<close>: the discovery of aliases in the SSH
  configuration and the files it includes, the effective settings that \<open>ssh -G\<close> reports,
  and the connection test. The file system's answers and the \<open>glob\<close> crate are the fields
  of \<open>config_world\<close>; processes are arguments.
\<close>

section \<open>Lines and words of a configuration file\<close>

fun logical_from :: "rstr \<Rightarrow> rstr list \<Rightarrow> rstr list" where
  "logical_from current [] = (if current = [] then [] else [current])"
| "logical_from current (l # ls) =
     (let cur = current @ l in
      if cur \<noteq> [] \<and> last cur = 92 then logical_from (butlast cur) ls
      else cur # logical_from [] ls)"

definition logical_lines :: "rstr \<Rightarrow> rstr list" where
  "logical_lines text = logical_from [] (str_lines text)"

text \<open>The loop of \<open>split_words\<close>: the word so far, the open quote, a pending escape.\<close>

fun split_from :: "rstr \<Rightarrow> rchar option \<Rightarrow> bool \<Rightarrow> rstr \<Rightarrow> rstr list" where
  "split_from word quote escaped [] =
     (let word' = (if escaped then word @ [92] else word) in if word' = [] then [] else [word'])"
| "split_from word quote escaped (c # s) =
     (if escaped then split_from (word @ [c]) quote False s
      else if c = 92 then split_from word quote True s
      else if quote = Some c then split_from word None False s
      else if quote = None \<and> (c = 39 \<or> c = 34) then split_from word (Some c) False s
      else if quote = None \<and> c = 35 then split_from word quote False []
      else if quote = None \<and> (is_whitespace c \<or> c = 61)
      then (if word = [] then split_from [] quote False s else word # split_from [] quote False s)
      else split_from (word @ [c]) quote False s)"

definition split_words :: "rstr \<Rightarrow> rstr list" where
  "split_words line = split_from [] None False line"

section \<open>Discovery\<close>

definition MAX_CONFIG_FILES :: nat where "MAX_CONFIG_FILES = 256"
definition MAX_INCLUDE_DEPTH :: nat where "MAX_INCLUDE_DEPTH = 32"
definition QUERY_TIMEOUT :: nat where "QUERY_TIMEOUT = 5000"
definition CONNECTION_TIMEOUT :: nat where "CONNECTION_TIMEOUT = 15000"

datatype warning_kind = Missing | Unreadable | InvalidIncludePattern

record discovery_warning =
  dw_path :: rstr
  dw_kind :: warning_kind

record host_discovery =
  hd_aliases :: "rstr list"
  hd_warnings :: "discovery_warning list"

datatype host_error =
    InvalidAlias validation_error
  | TraversalLimit string nat
  | SpawnFailed io_error
  | QueryTimedOut
  | QueryFailed
  | InvalidEffectiveConfiguration

text \<open>
  \<open>canonicalize\<close>, \<open>read_to_string\<close> of a canonical path, and \<open>glob_with\<close>: a bad pattern,
  or the paths and the errors met on the way.
\<close>

record config_world =
  cw_canonical :: "rstr \<Rightarrow> io_kind + rstr"
  cw_text :: "rstr \<Rightarrow> io_kind + rstr"
  cw_glob :: "rstr \<Rightarrow> unit + (io_kind + rstr) list"

record walker =
  wk_visited :: "rstr list"
  wk_aliases :: "rstr list"
  wk_warnings :: "discovery_warning list"

fun walk :: "('a \<Rightarrow> 's \<Rightarrow> 'e + 's) \<Rightarrow> 'a list \<Rightarrow> 's \<Rightarrow> 'e + 's" where
  "walk f [] s = Ok s"
| "walk f (x # xs) s = and_then (f x s) (walk f xs)"

definition warn :: "rstr \<Rightarrow> warning_kind \<Rightarrow> walker \<Rightarrow> walker" where
  "warn path kind w = w\<lparr>wk_warnings := wk_warnings w @ [\<lparr>dw_path = path, dw_kind = kind\<rparr>]\<rparr>"

definition has_pattern :: "rstr \<Rightarrow> bool" where
  "has_pattern value \<longleftrightarrow> list_ex (\<lambda>c. c = 42 \<or> c = 63 \<or> c = 91) value"

definition literal_alias :: "rstr \<Rightarrow> bool" where
  "literal_alias value \<longleftrightarrow>
     (value = [] \<or> hd value \<noteq> 33) \<and> \<not> has_pattern value \<and> is_ok (host_alias_new value)"

definition expand_include :: "rstr \<Rightarrow> rstr \<Rightarrow> rstr" where
  "expand_include ssh_home value =
     (let base = (case path_parent ssh_home of Some p \<Rightarrow> p | None \<Rightarrow> ssh_home) in
      if value = lit ''~'' then base
      else if take 2 value = lit ''~/'' then path_join base (drop 2 value)
      else if path_absolute value then value else path_join ssh_home value)"

text \<open>The paths an \<open>Include\<close> value leads to; \<open>None\<close> is a pattern glob refuses.\<close>

definition include_paths :: "config_world \<Rightarrow> rstr \<Rightarrow> rstr \<Rightarrow> rstr list option" where
  "include_paths world ssh_home value =
     (let expanded = expand_include ssh_home value in
      case cw_glob world expanded of
        Inl _ \<Rightarrow> None
      | Inr items \<Rightarrow>
          (let found = concat (map (\<lambda>i. case i of Inl _ \<Rightarrow> [] | Inr p \<Rightarrow> [p]) items) in
           Some (if found = [] \<and> \<not> has_pattern value then [expanded] else found)))"

definition include_value ::
  "config_world \<Rightarrow> rstr \<Rightarrow> (rstr \<Rightarrow> walker \<Rightarrow> host_error + walker) \<Rightarrow> rstr \<Rightarrow> walker \<Rightarrow>
   host_error + walker" where
  "include_value world ssh_home visit value w =
     (case include_paths world ssh_home value of
        None \<Rightarrow> Ok (warn (expand_include ssh_home value) InvalidIncludePattern w)
      | Some paths \<Rightarrow> walk visit paths w)"

definition keyword_is :: "string \<Rightarrow> rstr \<Rightarrow> bool" where
  "keyword_is k word \<longleftrightarrow> eq_ignore_ascii_case word (lit k)"

definition visit_line ::
  "config_world \<Rightarrow> rstr \<Rightarrow> (rstr \<Rightarrow> walker \<Rightarrow> host_error + walker) \<Rightarrow> rstr \<Rightarrow> walker \<Rightarrow>
   host_error + walker" where
  "visit_line world ssh_home visit line w =
     (case split_words line of
        [] \<Rightarrow> Ok w
      | keyword # values \<Rightarrow>
          if keyword_is ''host'' keyword
          then Ok (w\<lparr>wk_aliases := fold insort_insert (filter literal_alias values) (wk_aliases w)\<rparr>)
          else if keyword_is ''include'' keyword
          then walk (include_value world ssh_home visit) values w
          else Ok w)"

text \<open>\<open>visit_at n\<close> visits with \<open>n\<close> levels left: depth \<open>d\<close> is \<open>n = MAX_INCLUDE_DEPTH + 1 - d\<close>.\<close>

primrec visit_at :: "config_world \<Rightarrow> rstr \<Rightarrow> nat \<Rightarrow> rstr \<Rightarrow> walker \<Rightarrow> host_error + walker" where
  "visit_at world ssh_home 0 = (\<lambda>path w. Err (TraversalLimit ''include-depth'' MAX_INCLUDE_DEPTH))"
| "visit_at world ssh_home (Suc n) = (\<lambda>path w.
     case cw_canonical world path of
       Inl e \<Rightarrow> Ok (warn path (if e = IoNotFound then Missing else Unreadable) w)
     | Inr c \<Rightarrow>
         if c \<in> set (wk_visited w) then Ok w
         else let w1 = w\<lparr>wk_visited := c # wk_visited w\<rparr> in
           if MAX_CONFIG_FILES < length (wk_visited w1)
           then Err (TraversalLimit ''file-count'' MAX_CONFIG_FILES)
           else case cw_text world c of
             Inl _ \<Rightarrow> Ok (warn c Unreadable w1)
           | Inr text \<Rightarrow>
               walk (visit_line world ssh_home (visit_at world ssh_home n)) (logical_lines text) w1)"

definition discover_hosts :: "config_world \<Rightarrow> rstr \<Rightarrow> rstr \<Rightarrow> host_error + host_discovery" where
  "discover_hosts world config_path ssh_home =
     map_ok (\<lambda>w. \<lparr>hd_aliases = wk_aliases w, hd_warnings = wk_warnings w\<rparr>)
       (visit_at world ssh_home (MAX_INCLUDE_DEPTH + 1) config_path
         \<lparr>wk_visited = [], wk_aliases = [], wk_warnings = []\<rparr>)"

section \<open>Effective settings\<close>

record effective_host =
  eh_alias :: rstr
  eh_hostname :: rstr
  eh_user :: rstr
  eh_port :: nat
  eh_identity_files :: "rstr list"
  eh_proxy_jump :: "rstr option"
  eh_proxy_command :: "rstr option"

definition effective_entry :: "rstr \<Rightarrow> (rstr \<times> rstr) list" where
  "effective_entry line =
     (case split_once_space line of None \<Rightarrow> [] | Some (key, value) \<Rightarrow> [(key, trim_start value)])"

definition values_of :: "(rstr \<times> rstr) list \<Rightarrow> string \<Rightarrow> rstr list" where
  "values_of entries key = map snd (filter (\<lambda>e. fst e = lit key) entries)"

definition one_value :: "(rstr \<times> rstr) list \<Rightarrow> string \<Rightarrow> rstr option" where
  "one_value entries key =
     (case values_of entries key of [] \<Rightarrow> None | v # _ \<Rightarrow> if v = [] then None else Some v)"

definition optional_value :: "(rstr \<times> rstr) list \<Rightarrow> string \<Rightarrow> rstr option" where
  "optional_value entries key =
     (case one_value entries key of None \<Rightarrow> None | Some v \<Rightarrow> if v = lit ''none'' then None else Some v)"

definition effective_port :: "(rstr \<times> rstr) list \<Rightarrow> nat option" where
  "effective_port entries =
     (case Option.bind (one_value entries ''port'') parse_u16 of
        None \<Rightarrow> None | Some p \<Rightarrow> if p = 0 then None else Some p)"

definition parse_effective :: "rstr \<Rightarrow> bytes \<Rightarrow> host_error + effective_host" where
  "parse_effective alias bs =
     and_then (ok_or InvalidEffectiveConfiguration (utf8_decode bs)) (\<lambda>text.
       let entries = concat (map effective_entry (str_lines text)) in
       and_then (ok_or InvalidEffectiveConfiguration (effective_port entries)) (\<lambda>port.
       and_then (ok_or InvalidEffectiveConfiguration (one_value entries ''hostname'')) (\<lambda>hostname.
       and_then (ok_or InvalidEffectiveConfiguration (one_value entries ''user'')) (\<lambda>user.
         Ok \<lparr>eh_alias = alias, eh_hostname = hostname, eh_user = user, eh_port = port,
             eh_identity_files = values_of entries ''identityfile'',
             eh_proxy_jump = optional_value entries ''proxyjump'',
             eh_proxy_command = optional_value entries ''proxycommand''\<rparr>))))"

section \<open>Running OpenSSH\<close>

record process_output =
  po_status :: exit_status
  po_stdout :: bytes
  po_stderr :: bytes
  po_timed_out :: bool

text \<open>
  The spawned child: its polls, the wait after a kill, and what its pipes deliver.
\<close>

record running_child =
  rc_poll :: child
  rc_wait :: "io_error + exit_status"
  rc_stdout :: "bytes list"
  rc_stderr :: "bytes list"

text \<open>The second component tells whether the child's process group was killed.\<close>

definition run_bounded ::
  "io_error + running_child \<Rightarrow> (nat \<Rightarrow> nat) \<Rightarrow> nat \<Rightarrow> nat \<Rightarrow>
   ((host_error + process_output) \<times> bool) option" where
  "run_bounded spawned clock start timeout =
     (case spawned of
        Inl e \<Rightarrow> Some (Err (SpawnFailed e), False)
      | Inr c \<Rightarrow>
          (let output = (\<lambda>status late. \<lparr>po_status = status, po_stdout = bounded_read (rc_stdout c),
                 po_stderr = bounded_read (rc_stderr c), po_timed_out = late\<rparr>) in
           map_option (\<lambda>res. case res of
               Inl e \<Rightarrow> (Err (SpawnFailed e), False)
             | Inr (Some status) \<Rightarrow> (Ok (output status False), False)
             | Inr None \<Rightarrow> (map_err SpawnFailed (map_ok (\<lambda>status. output status True) (rc_wait c)), True))
           (poll_loop (rc_poll c) clock (start + timeout) 0)))"

section \<open>The catalog\<close>

datatype connection_outcome =
    ConnSuccess | AuthenticationFailed | HostKeyVerificationFailed | NetworkFailed | ConnTimedOut
  | ConnFailed

fun outcome_diagnostic :: "connection_outcome \<Rightarrow> rstr" where
  "outcome_diagnostic ConnSuccess = lit ''connection succeeded''"
| "outcome_diagnostic AuthenticationFailed =
     lit ''authentication failed; check the configured key or SSH agent''"
| "outcome_diagnostic HostKeyVerificationFailed =
     lit ''host-key verification failed; establish or repair trust with OpenSSH outside TunnelDeck''"
| "outcome_diagnostic NetworkFailed = lit ''the SSH host could not be reached''"
| "outcome_diagnostic ConnTimedOut = lit ''the SSH connection test timed out''"
| "outcome_diagnostic ConnFailed =
     lit ''the SSH connection test failed; run OpenSSH directly for more detail''"

record host_catalog =
  hc_config_path :: rstr
  hc_ssh_home :: rstr
  hc_ssh_executable :: rstr
  hc_aliases :: "rstr list"

definition catalog_new :: "rstr \<Rightarrow> rstr \<Rightarrow> rstr \<Rightarrow> host_catalog" where
  "catalog_new config_path ssh_home ssh = \<lparr>hc_config_path = config_path, hc_ssh_home = ssh_home,
     hc_ssh_executable = ssh, hc_aliases = []\<rparr>"

definition catalog_refresh ::
  "config_world \<Rightarrow> host_catalog \<Rightarrow> (host_error + host_discovery) \<times> host_catalog" where
  "catalog_refresh world cat =
     (case discover_hosts world (hc_config_path cat) (hc_ssh_home cat) of
        Inl e \<Rightarrow> (Err e, cat)
      | Inr d \<Rightarrow> (Ok d, cat\<lparr>hc_aliases := hd_aliases d\<rparr>))"

text \<open>A runner executes an OpenSSH command line within a timeout, as \<open>run_bounded\<close> does.\<close>

type_synonym runner = "rstr \<Rightarrow> rstr list \<Rightarrow> nat \<Rightarrow> host_error + process_output"

definition query_arguments :: "host_catalog \<Rightarrow> host_alias \<Rightarrow> rstr list" where
  "query_arguments cat alias =
     [lit ''-F'', hc_config_path cat, lit ''-G'', lit ''--'', alias_str alias]"

definition effective_output :: "runner \<Rightarrow> host_catalog \<Rightarrow> host_alias \<Rightarrow> host_error + bytes" where
  "effective_output runner cat alias =
     and_then (runner (hc_ssh_executable cat) (query_arguments cat alias) QUERY_TIMEOUT) (\<lambda>output.
       if po_timed_out output then Err QueryTimedOut
       else if \<not> status_success (po_status output) then Err QueryFailed
       else Ok (po_stdout output))"

definition catalog_effective :: "runner \<Rightarrow> host_catalog \<Rightarrow> rstr \<Rightarrow> host_error + effective_host" where
  "catalog_effective runner cat name =
     and_then (map_err InvalidAlias (host_alias_new name)) (\<lambda>alias.
       and_then (effective_output runner cat alias) (parse_effective (alias_str alias)))"

definition catalog_import_preview ::
  "runner \<Rightarrow> host_catalog \<Rightarrow> rstr \<Rightarrow> rule list \<Rightarrow> rule_id list \<Rightarrow> host_error + import_preview" where
  "catalog_import_preview runner cat name existing running =
     and_then (map_err InvalidAlias (host_alias_new name)) (\<lambda>alias.
       and_then (effective_output runner cat alias) (\<lambda>output.
         map_err (\<lambda>_. InvalidEffectiveConfiguration)
           (preview_effective_forwards (alias_str alias) output existing running)))"

definition test_arguments :: "host_catalog \<Rightarrow> host_alias \<Rightarrow> rstr list" where
  "test_arguments cat alias =
     [lit ''-F'', hc_config_path cat] @
     map lit [''-T'', ''-n'', ''-o'', ''BatchMode=yes'', ''-o'', ''ClearAllForwardings=yes'',
       ''-o'', ''ConnectTimeout=10'', ''-o'', ''ConnectionAttempts=1'', ''--''] @
     [alias_str alias, lit ''true'']"

definition stderr_outcome :: "rstr \<Rightarrow> connection_outcome" where
  "stderr_outcome stderr =
     (let has = (\<lambda>s. str_contains stderr (lit s)) in
      if has ''permission denied'' \<or> has ''authentication failed'' \<or>
         has ''no supported authentication methods'' then AuthenticationFailed
      else if has ''host key verification failed'' \<or>
         has ''remote host identification has changed'' then HostKeyVerificationFailed
      else if has ''connection refused'' \<or> has ''no route to host'' \<or>
         has ''could not resolve hostname'' \<or> has ''operation timed out'' \<or>
         has ''connection timed out'' then NetworkFailed
      else ConnFailed)"

definition test_connection :: "runner \<Rightarrow> host_catalog \<Rightarrow> rstr \<Rightarrow> host_error + connection_outcome" where
  "test_connection runner cat name =
     and_then (map_err InvalidAlias (host_alias_new name)) (\<lambda>alias.
       map_ok (\<lambda>output.
         if po_timed_out output then ConnTimedOut
         else if status_success (po_status output) then ConnSuccess
         else stderr_outcome (to_ascii_lowercase (utf8_lossy (po_stderr output))))
       (runner (hc_ssh_executable cat) (test_arguments cat alias) CONNECTION_TIMEOUT))"

section \<open>What discovery should find\<close>

definition host_values :: "rstr \<Rightarrow> rstr list" where
  "host_values line =
     (case split_words line of [] \<Rightarrow> []
      | keyword # values \<Rightarrow> if keyword_is ''host'' keyword then filter literal_alias values else [])"

definition include_values :: "rstr \<Rightarrow> rstr list" where
  "include_values line =
     (case split_words line of [] \<Rightarrow> []
      | keyword # values \<Rightarrow> if keyword_is ''include'' keyword then values else [])"

text \<open>The alias \<open>a\<close> stands in a \<open>Host\<close> line of the text; an \<open>Include\<close> line leads to \<open>c\<close>.\<close>

definition names_host :: "rstr \<Rightarrow> rstr \<Rightarrow> bool" where
  "names_host text a \<longleftrightarrow> (\<exists>line \<in> set (logical_lines text). a \<in> set (host_values line))"

definition leads_to :: "config_world \<Rightarrow> rstr \<Rightarrow> rstr \<Rightarrow> rstr \<Rightarrow> bool" where
  "leads_to world ssh_home text c \<longleftrightarrow>
     (\<exists>line \<in> set (logical_lines text). \<exists>v \<in> set (include_values line). \<exists>paths p.
        include_paths world ssh_home v = Some paths \<and> p \<in> set paths \<and> cw_canonical world p = Inr c)"

text \<open>The files of a configuration: the root and whatever a file of it includes.\<close>

inductive included :: "config_world \<Rightarrow> rstr \<Rightarrow> rstr \<Rightarrow> rstr \<Rightarrow> bool"
  for world ssh_home config_path where
  included_root: "cw_canonical world config_path = Inr c \<Longrightarrow> included world ssh_home config_path c"
| included_file: "included world ssh_home config_path c \<Longrightarrow> cw_text world c = Inr text \<Longrightarrow>
    leads_to world ssh_home text c' \<Longrightarrow> included world ssh_home config_path c'"

section \<open>The walk\<close>

text \<open>A walk under a preorder that every step respects reaches every step's goal.\<close>

locale walking =
  fixes le :: "'s \<Rightarrow> 's \<Rightarrow> bool"
  assumes le_refl: "le s s"
    and le_trans: "le s t \<Longrightarrow> le t u \<Longrightarrow> le s u"
begin

lemma walk_reaches:
  assumes "walk f xs s = Inr s'"
    and "\<And>x s s'. x \<in> set xs \<Longrightarrow> f x s = Inr s' \<Longrightarrow> le s s' \<and> goal x s'"
    and "\<And>x s s'. goal x s \<Longrightarrow> le s s' \<Longrightarrow> goal x s'"
  shows "le s s' \<and> (\<forall>x \<in> set xs. goal x s')"
  using assms(1,2)
proof (induction xs arbitrary: s)
  case Nil
  then show ?case by (simp add: le_refl)
next
  case (Cons x xs)
  then obtain s1 where s1: "f x s = Inr s1" "walk f xs s1 = Inr s'" by auto
  with Cons.prems(2) [of x s s1] have "le s s1" "goal x s1" by auto
  moreover have "le s1 s' \<and> (\<forall>x \<in> set xs. goal x s')"
    using s1(2) Cons.prems(2) by (intro Cons.IH) auto
  ultimately show ?case using assms(3) le_trans by auto
qed

end

lemma walk_keeps:
  "walk f xs s = Inr s' \<Longrightarrow> P s \<Longrightarrow> (\<And>x s s'. x \<in> set xs \<Longrightarrow> f x s = Inr s' \<Longrightarrow> P s \<Longrightarrow> P s') \<Longrightarrow> P s'"
  by (induction xs arbitrary: s) auto

text \<open>
  A file is done when its aliases are collected and what it includes is visited; a stretch
  of the walk leaves every file it newly visits done.
\<close>

definition file_done :: "config_world \<Rightarrow> rstr \<Rightarrow> walker \<Rightarrow> rstr \<Rightarrow> bool" where
  "file_done world ssh_home w c \<longleftrightarrow>
     (case cw_text world c of Inl _ \<Rightarrow> True
      | Inr text \<Rightarrow> {a. names_host text a} \<subseteq> set (wk_aliases w) \<and>
          {c'. leads_to world ssh_home text c'} \<subseteq> set (wk_visited w))"

definition walked :: "config_world \<Rightarrow> rstr \<Rightarrow> walker \<Rightarrow> walker \<Rightarrow> bool" where
  "walked world ssh_home w w' \<longleftrightarrow>
     set (wk_visited w) \<subseteq> set (wk_visited w') \<and> set (wk_aliases w) \<subseteq> set (wk_aliases w') \<and>
     (\<forall>c \<in> set (wk_visited w') - set (wk_visited w). file_done world ssh_home w' c)"

lemma file_done_mono:
  "file_done world ssh_home w c \<Longrightarrow> walked world ssh_home w w' \<Longrightarrow> file_done world ssh_home w' c"
  unfolding file_done_def walked_def by (cases "cw_text world c") auto

interpretation visits: walking "walked world ssh_home" for world ssh_home
proof
  show "walked world ssh_home w w" for w by (simp add: walked_def)
  show "walked world ssh_home w w'" if "walked world ssh_home w v" "walked world ssh_home v w'" for w v w'
    using that file_done_mono [OF _ that(2)] unfolding walked_def by blast
qed

definition reaches :: "config_world \<Rightarrow> rstr \<Rightarrow> walker \<Rightarrow> bool" where
  "reaches world p w \<longleftrightarrow> (\<forall>c. cw_canonical world p = Inr c \<longrightarrow> c \<in> set (wk_visited w))"

definition line_done :: "config_world \<Rightarrow> rstr \<Rightarrow> rstr \<Rightarrow> walker \<Rightarrow> bool" where
  "line_done world ssh_home line w \<longleftrightarrow>
     set (host_values line) \<subseteq> set (wk_aliases w) \<and>
     (\<forall>v \<in> set (include_values line). \<forall>paths. include_paths world ssh_home v = Some paths \<longrightarrow>
        (\<forall>p \<in> set paths. reaches world p w))"

lemma reaches_mono: "reaches world p w \<Longrightarrow> walked world ssh_home w w' \<Longrightarrow> reaches world p w'"
  unfolding reaches_def walked_def by blast

lemma line_done_mono:
  "line_done world ssh_home line w \<Longrightarrow> walked world ssh_home w w' \<Longrightarrow> line_done world ssh_home line w'"
  using reaches_mono unfolding line_done_def walked_def by blast

lemma lines_done:
  "\<forall>line \<in> set (logical_lines text). line_done world ssh_home line w \<Longrightarrow> cw_text world c = Inr text \<Longrightarrow>
   file_done world ssh_home w c"
  unfolding file_done_def line_done_def names_host_def leads_to_def reaches_def by fastforce

lemma walked_warn [simp]: "walked world ssh_home w (warn p k w)"
  by (simp add: walked_def warn_def)

lemma set_fold_insort: "set (fold insort_insert xs ys) = set xs \<union> set ys"
  by (induction xs arbitrary: ys) (auto simp: set_insort_insert)

lemma keywords_differ: "keyword_is ''host'' k \<Longrightarrow> \<not> keyword_is ''include'' k"
proof -
  have "to_ascii_lowercase (lit ''host'') \<noteq> to_ascii_lowercase (lit ''include'')" by code_simp
  then show "keyword_is ''host'' k \<Longrightarrow> \<not> keyword_is ''include'' k"
    by (simp add: keyword_is_def eq_ignore_ascii_case_def)
qed

text \<open>A line is done once its values are visited.\<close>

lemma visit_line_walked:
  assumes "visit_line world ssh_home visit line w = Inr w'"
    and visit: "\<And>p w w'. visit p w = Inr w' \<Longrightarrow> walked world ssh_home w w' \<and> reaches world p w'"
  shows "walked world ssh_home w w' \<and> line_done world ssh_home line w'"
proof -
  have inc: "walked world ssh_home w w' \<and>
      (\<forall>paths. include_paths world ssh_home v = Some paths \<longrightarrow> (\<forall>p \<in> set paths. reaches world p w'))"
    if "include_value world ssh_home visit v w = Inr w'" for v w w'
  proof (cases "include_paths world ssh_home v")
    case None
    with that show ?thesis by (auto simp: include_value_def)
  next
    case (Some paths)
    with that have "walk visit paths w = Inr w'" by (simp add: include_value_def)
    then have "walked world ssh_home w w' \<and> (\<forall>p \<in> set paths. reaches world p w')"
      by (rule visits.walk_reaches) (use visit reaches_mono in blast)+
    with Some show ?thesis by simp
  qed
  show ?thesis
  proof (cases "split_words line")
    case Nil
    with assms(1) show ?thesis
      by (simp add: visit_line_def line_done_def host_values_def include_values_def visits.le_refl)
  next
    case (Cons k vs)
    consider "keyword_is ''host'' k" | "\<not> keyword_is ''host'' k" "keyword_is ''include'' k"
      | "\<not> keyword_is ''host'' k" "\<not> keyword_is ''include'' k" by blast
    then show ?thesis
    proof cases
      case 2
      with assms(1) Cons have "walk (include_value world ssh_home visit) vs w = Inr w'"
        by (simp add: visit_line_def)
      then have "walked world ssh_home w w' \<and> (\<forall>v \<in> set vs. \<forall>paths.
          include_paths world ssh_home v = Some paths \<longrightarrow> (\<forall>p \<in> set paths. reaches world p w'))"
        by (rule visits.walk_reaches) (use inc reaches_mono in blast)+
      with 2 Cons show ?thesis
        by (simp add: line_done_def host_values_def include_values_def)
    qed (use assms(1) Cons in \<open>auto simp: visit_line_def line_done_def host_values_def include_values_def
          walked_def set_fold_insort dest: keywords_differ\<close>)
  qed
qed

lemma visit_at_walked:
  "visit_at world ssh_home n path w = Inr w' \<Longrightarrow>
   walked world ssh_home w w' \<and> reaches world path w'"
proof (induction n arbitrary: path w w')
  case (Suc n)
  show ?case
  proof (cases "cw_canonical world path")
    case (Inl e)
    with Suc.prems show ?thesis by (auto simp: reaches_def)
  next
    case (Inr c)
    show ?thesis
    proof (cases "c \<in> set (wk_visited w)")
      case True
      with Suc.prems Inr show ?thesis by (auto simp: reaches_def visits.le_refl)
    next
      case False
      let ?w1 = "w\<lparr>wk_visited := c # wk_visited w\<rparr>"
      show ?thesis
      proof (cases "cw_text world c")
        case unread: (Inl e)
        with Suc.prems Inr False show ?thesis
          by (auto simp: Let_def reaches_def walked_def warn_def file_done_def split: if_splits)
      next
        case body: (Inr body)
        then have "walk (visit_line world ssh_home (visit_at world ssh_home n)) (logical_lines body) ?w1 = Inr w'"
          using Suc.prems Inr False by (simp add: Let_def split: if_splits)
        then have "walked world ssh_home ?w1 w' \<and>
            (\<forall>line \<in> set (logical_lines body). line_done world ssh_home line w')"
          by (rule visits.walk_reaches) (use visit_line_walked Suc.IH line_done_mono in blast)+
        with lines_done [OF _ body] Inr show ?thesis by (auto simp: walked_def reaches_def)
      qed
    qed
  qed
qed simp

section \<open>The walk stays inside\<close>

definition walker_ok :: "config_world \<Rightarrow> rstr \<Rightarrow> rstr \<Rightarrow> walker \<Rightarrow> bool" where
  "walker_ok world ssh_home root w \<longleftrightarrow>
     (\<forall>c \<in> set (wk_visited w). included world ssh_home root c) \<and>
     (\<forall>a \<in> set (wk_aliases w). \<exists>c text. included world ssh_home root c \<and>
        cw_text world c = Inr text \<and> names_host text a) \<and>
     distinct (wk_visited w) \<and> length (wk_visited w) \<le> MAX_CONFIG_FILES \<and>
     sorted (wk_aliases w) \<and> distinct (wk_aliases w)"

lemma walker_ok_warn [simp]: "walker_ok world ssh_home root (warn p k w) = walker_ok world ssh_home root w"
  by (simp add: walker_ok_def warn_def)

lemma fold_insort_sorted:
  "sorted ys \<Longrightarrow> distinct ys \<Longrightarrow>
   sorted (fold insort_insert xs ys) \<and> distinct (fold insort_insert xs ys)"
  by (induction xs arbitrary: ys) (auto simp: sorted_insort_insert distinct_insort_insert)

text \<open>Where the walk may go from a line of an included file.\<close>

definition may_visit :: "config_world \<Rightarrow> rstr \<Rightarrow> rstr \<Rightarrow> rstr \<Rightarrow> bool" where
  "may_visit world ssh_home root p \<longleftrightarrow>
     (\<forall>c. cw_canonical world p = Inr c \<longrightarrow> included world ssh_home root c)"

lemma may_visit_include:
  assumes "included world ssh_home root c" "cw_text world c = Inr text" "line \<in> set (logical_lines text)"
    "v \<in> set (include_values line)" "include_paths world ssh_home v = Some paths" "p \<in> set paths"
  shows "may_visit world ssh_home root p"
proof -
  have "leads_to world ssh_home text c'" if "cw_canonical world p = Inr c'" for c'
    using assms(3-) that unfolding leads_to_def by blast
  with included_file [OF assms(1,2)] show ?thesis by (simp add: may_visit_def)
qed

lemma visit_line_ok:
  assumes "visit_line world ssh_home visit line w = Inr w'" "walker_ok world ssh_home root w"
    and c: "included world ssh_home root c" "cw_text world c = Inr text" "line \<in> set (logical_lines text)"
    and visit: "\<And>p w w'. visit p w = Inr w' \<Longrightarrow> walker_ok world ssh_home root w \<Longrightarrow>
        may_visit world ssh_home root p \<Longrightarrow> walker_ok world ssh_home root w'"
  shows "walker_ok world ssh_home root w'"
proof (cases "split_words line")
  case Nil
  with assms(1,2) show ?thesis by (simp add: visit_line_def)
next
  case (Cons k vs)
  consider "keyword_is ''host'' k" | "\<not> keyword_is ''host'' k" "keyword_is ''include'' k"
    | "\<not> keyword_is ''host'' k" "\<not> keyword_is ''include'' k" by blast
  then show ?thesis
  proof cases
    case 1
    then have hv: "host_values line = filter literal_alias vs" by (simp add: host_values_def Cons)
    have "\<exists>c text. included world ssh_home root c \<and> cw_text world c = Inr text \<and> names_host text a"
      if "a \<in> set vs" "literal_alias a" for a
    proof -
      have "a \<in> set (host_values line)" using hv that by simp
      with c show ?thesis unfolding names_host_def by blast
    qed
    with assms(1,2) 1 Cons fold_insort_sorted [of "wk_aliases w"] show ?thesis
      by (auto simp: visit_line_def walker_ok_def set_fold_insort)
  next
    case 2
    then have vs: "include_values line = vs" by (simp add: include_values_def Cons)
    have "walk (include_value world ssh_home visit) vs w = Inr w'"
      using assms(1) 2 Cons by (simp add: visit_line_def)
    then show ?thesis
    proof (rule walk_keeps)
      fix v s s' assume v: "v \<in> set vs" "include_value world ssh_home visit v s = Inr s'"
        and s: "walker_ok world ssh_home root s"
      show "walker_ok world ssh_home root s'"
      proof (cases "include_paths world ssh_home v")
        case (Some paths)
        with v have "walk visit paths s = Inr s'" by (simp add: include_value_def)
        then show ?thesis
          by (rule walk_keeps)
            (use s visit may_visit_include [OF c, of v paths] Some v vs in auto)
      qed (use v s in \<open>auto simp: include_value_def\<close>)
    qed (rule assms(2))
  next
    case 3
    with assms(1,2) Cons show ?thesis by (simp add: visit_line_def)
  qed
qed

lemma visit_at_ok:
  "visit_at world ssh_home n path w = Inr w' \<Longrightarrow> walker_ok world ssh_home root w \<Longrightarrow>
   may_visit world ssh_home root path \<Longrightarrow> walker_ok world ssh_home root w'"
proof (induction n arbitrary: path w w')
  case (Suc n)
  show ?case
  proof (cases "\<exists>c. cw_canonical world path = Inr c \<and> c \<notin> set (wk_visited w)")
    case False
    with Suc.prems show ?thesis by (auto split: sum.splits)
  next
    case True
    then obtain c where c: "cw_canonical world path = Inr c" "c \<notin> set (wk_visited w)" by blast
    let ?w1 = "w\<lparr>wk_visited := c # wk_visited w\<rparr>"
    have R: "included world ssh_home root c" using Suc.prems(3) c by (simp add: may_visit_def)
    then have ok1: "length (wk_visited ?w1) \<le> MAX_CONFIG_FILES \<Longrightarrow> walker_ok world ssh_home root ?w1"
      using Suc.prems(2) c by (simp add: walker_ok_def)
    show ?thesis
    proof (cases "cw_text world c")
      case (Inl e)
      with Suc.prems c ok1 show ?thesis by (auto simp: Let_def split: if_splits)
    next
      case (Inr body)
      then have "walk (visit_line world ssh_home (visit_at world ssh_home n)) (logical_lines body) ?w1 = Inr w'"
        and l: "length (wk_visited ?w1) \<le> MAX_CONFIG_FILES"
        using Suc.prems c by (simp_all add: Let_def split: if_splits)
      then show ?thesis
        by (elim walk_keeps) (use ok1 l visit_line_ok [OF _ _ R Inr] Suc.IH in blast)+
    qed
  qed
qed simp

section \<open>The walk returns\<close>

lemma walk_returns:
  "P s \<Longrightarrow> (\<And>x s. x \<in> set xs \<Longrightarrow> P s \<Longrightarrow> \<exists>s'. f x s = Inr s' \<and> P s') \<Longrightarrow> \<exists>s'. walk f xs s = Inr s' \<and> P s'"
proof (induction xs arbitrary: s)
  case (Cons x xs)
  then obtain s1 where s1: "f x s = Inr s1" "P s1" by fastforce
  with Cons.IH [of s1] Cons.prems(2) obtain s' where "walk f xs s1 = Inr s'" "P s'" by auto
  with s1 show ?case by auto
qed simp

text \<open>The walker is inside a configuration of at most \<open>m\<close> files and has passed \<open>k\<close> of them.\<close>

definition passed :: "config_world \<Rightarrow> rstr \<Rightarrow> rstr \<Rightarrow> nat \<Rightarrow> walker \<Rightarrow> bool" where
  "passed world ssh_home root k w \<longleftrightarrow> walker_ok world ssh_home root w \<and> k \<le> length (wk_visited w)"

lemma passed_limit:
  assumes "passed world ssh_home root k w" "finite {c. included world ssh_home root c}"
  shows "k \<le> card {c. included world ssh_home root c}"
proof -
  have "card (set (wk_visited w)) \<le> card {c. included world ssh_home root c}"
    using assms by (intro card_mono) (auto simp: passed_def walker_ok_def)
  with assms(1) show ?thesis by (simp add: passed_def walker_ok_def distinct_card)
qed

lemma passed_step:
  "visit_at world ssh_home n path w = Inr w' \<Longrightarrow> passed world ssh_home root k w \<Longrightarrow>
   may_visit world ssh_home root path \<Longrightarrow> passed world ssh_home root k w'"
  using visit_at_ok [of world ssh_home n path w w' root] visit_at_walked [of world ssh_home n path w w']
    card_mono [of "set (wk_visited w')" "set (wk_visited w)"]
  by (auto simp: passed_def walked_def walker_ok_def distinct_card)

lemma passed_fields:
  "passed world ssh_home root k (warn p wk w) = passed world ssh_home root k w"
  by (simp add: passed_def warn_def walker_ok_def)

lemma visit_line_returns:
  assumes w: "passed world ssh_home root k w"
    and c: "included world ssh_home root c" "cw_text world c = Inr text" "line \<in> set (logical_lines text)"
    and visit: "\<And>p w. passed world ssh_home root k w \<Longrightarrow> may_visit world ssh_home root p \<Longrightarrow>
        \<exists>w'. visit p w = Inr w' \<and> passed world ssh_home root k w'"
  shows "\<exists>w'. visit_line world ssh_home visit line w = Inr w'"
proof (cases "split_words line")
  case (Cons kw vs)
  show ?thesis
  proof (cases "\<not> keyword_is ''host'' kw \<and> keyword_is ''include'' kw")
    case True
    then have vs: "include_values line = vs" by (simp add: include_values_def Cons)
    have "\<exists>w'. include_value world ssh_home visit v s = Inr w' \<and> passed world ssh_home root k w'"
      if "v \<in> set vs" "passed world ssh_home root k s" for v s
    proof (cases "include_paths world ssh_home v")
      case (Some paths)
      have "\<exists>w'. walk visit paths s = Inr w' \<and> passed world ssh_home root k w'"
        by (rule walk_returns) (use that vs visit may_visit_include [OF c _ Some] in auto)
      with Some show ?thesis by (simp add: include_value_def)
    qed (use that in \<open>simp add: include_value_def passed_fields\<close>)
    then have "\<exists>w'. walk (include_value world ssh_home visit) vs w = Inr w' \<and> passed world ssh_home root k w'"
      by (intro walk_returns [where P = "passed world ssh_home root k"] w) blast
    with True Cons show ?thesis by (auto simp: visit_line_def)
  qed (use Cons in \<open>auto simp: visit_line_def\<close>)
qed (simp add: visit_line_def)

lemma visit_at_returns:
  assumes fin: "finite {c. included world ssh_home root c}"
    and small: "card {c. included world ssh_home root c} \<le> MAX_INCLUDE_DEPTH"
  shows "passed world ssh_home root (MAX_INCLUDE_DEPTH + 1 - n) w \<Longrightarrow> may_visit world ssh_home root path \<Longrightarrow>
    \<exists>w'. visit_at world ssh_home n path w = Inr w'"
proof (induction n arbitrary: path w)
  case 0
  from passed_limit [OF 0(1) fin] small show ?case by simp
next
  case (Suc n)
  show ?case
  proof (cases "\<exists>c text. cw_canonical world path = Inr c \<and> c \<notin> set (wk_visited w) \<and> cw_text world c = Inr text")
    case False
    have len: "length (wk_visited w) + 1 \<le> MAX_CONFIG_FILES"
      using passed_limit [of world ssh_home root "length (wk_visited w)" w, OF _ fin] Suc.prems(1) small
      by (simp add: passed_def MAX_CONFIG_FILES_def MAX_INCLUDE_DEPTH_def)
    with False show ?thesis by (auto simp: Let_def split: sum.splits)
  next
    case True
    then obtain c body where c: "cw_canonical world path = Inr c" "c \<notin> set (wk_visited w)"
      "cw_text world c = Inr body" by blast
    let ?w1 = "w\<lparr>wk_visited := c # wk_visited w\<rparr>"
    have R: "included world ssh_home root c" using Suc.prems(2) c by (simp add: may_visit_def)
    have "length (wk_visited w) \<le> MAX_INCLUDE_DEPTH"
      using passed_limit [of world ssh_home root "length (wk_visited w)" w, OF _ fin] Suc.prems(1) small
      by (simp add: passed_def)
    then have len: "length (wk_visited ?w1) \<le> MAX_CONFIG_FILES"
      by (simp add: MAX_CONFIG_FILES_def MAX_INCLUDE_DEPTH_def)
    then have p1: "passed world ssh_home root (MAX_INCLUDE_DEPTH + 1 - n) ?w1"
      using Suc.prems(1) R c by (auto simp: passed_def walker_ok_def)
    have visit: "\<exists>w'. visit_at world ssh_home n p s = Inr w' \<and>
        passed world ssh_home root (MAX_INCLUDE_DEPTH + 1 - n) w'"
      if "passed world ssh_home root (MAX_INCLUDE_DEPTH + 1 - n) s" "may_visit world ssh_home root p" for p s
      using Suc.IH [OF that] passed_step [OF _ that] by blast
    have "\<exists>w'. walk (visit_line world ssh_home (visit_at world ssh_home n)) (logical_lines body) ?w1 = Inr w' \<and>
        passed world ssh_home root (MAX_INCLUDE_DEPTH + 1 - n) w'"
    proof (rule walk_returns [where P = "passed world ssh_home root (MAX_INCLUDE_DEPTH + 1 - n)"])
      show "passed world ssh_home root (MAX_INCLUDE_DEPTH + 1 - n) ?w1" by (rule p1)
    next
      fix line s assume l: "line \<in> set (logical_lines body)"
        and s: "passed world ssh_home root (MAX_INCLUDE_DEPTH + 1 - n) s"
      have "\<exists>s'. visit_line world ssh_home (visit_at world ssh_home n) line s = Inr s'"
        by (rule visit_line_returns [OF s R c(3) l]) (rule visit)
      then obtain s' where s': "visit_line world ssh_home (visit_at world ssh_home n) line s = Inr s'"
        by blast
      have "walker_ok world ssh_home root s'"
        using visit_line_ok [OF s' _ R c(3) l visit_at_ok] s by (simp add: passed_def)
      moreover have "walked world ssh_home s s'"
        by (rule conjunct1 [OF visit_line_walked [OF s']]) (rule visit_at_walked)
      ultimately have "passed world ssh_home root (MAX_INCLUDE_DEPTH + 1 - n) s'"
        using s card_mono [of "set (wk_visited s')" "set (wk_visited s)"]
        by (auto simp: passed_def walked_def walker_ok_def distinct_card)
      with s' show "\<exists>s'. visit_line world ssh_home (visit_at world ssh_home n) line s = Inr s' \<and>
          passed world ssh_home root (MAX_INCLUDE_DEPTH + 1 - n) s'" by blast
    qed
    then show ?thesis using c len by (auto simp: Let_def)
  qed
qed

section \<open>Properties\<close>

text \<open>The walk as a whole, from the empty state.\<close>

definition start_walker :: walker where
  "start_walker = \<lparr>wk_visited = [], wk_aliases = [], wk_warnings = []\<rparr>"

lemma discover_hosts_eq:
  "discover_hosts world config_path ssh_home =
   map_ok (\<lambda>w. \<lparr>hd_aliases = wk_aliases w, hd_warnings = wk_warnings w\<rparr>)
     (visit_at world ssh_home (MAX_INCLUDE_DEPTH + 1) config_path start_walker)"
  by (simp only: discover_hosts_def start_walker_def)

lemma start_ok: "walker_ok world ssh_home root start_walker" "may_visit world ssh_home root root"
  by (auto simp: walker_ok_def start_walker_def may_visit_def intro: included_root)

lemma visited_all:
  assumes "visit_at world ssh_home n root start_walker = Inr w" "included world ssh_home root c"
  shows "c \<in> set (wk_visited w)"
  using assms(2)
proof (induction rule: included.induct)
  case (included_root c)
  with visit_at_walked [OF assms(1)] show ?case by (simp add: reaches_def)
next
  case (included_file c body c')
  with visit_at_walked [OF assms(1)] show ?case
    by (fastforce simp: walked_def start_walker_def file_done_def)
qed

text \<open>C34: discovery finds exactly the hosts of the configuration: the aliases it lists are the
  valid literal names in Host lines of the files reachable from the root over Include
  lines, sorted and without duplicates, and no more than 256 files were reachable.\<close>

theorem discovery_is_exact:
  assumes "discover_hosts world config_path ssh_home = Ok d"
  shows "set (hd_aliases d) = {a. \<exists>c text. included world ssh_home config_path c \<and>
      cw_text world c = Ok text \<and> names_host text a} \<and>
    sorted (hd_aliases d) \<and> distinct (hd_aliases d) \<and>
    card {c. included world ssh_home config_path c} \<le> 256"
proof -
  obtain w where w: "visit_at world ssh_home (MAX_INCLUDE_DEPTH + 1) config_path start_walker = Ok w"
    and d: "d = \<lparr>hd_aliases = wk_aliases w, hd_warnings = wk_warnings w\<rparr>"
    using assms by (auto simp only: discover_hosts_eq map_ok_Inr)
  note ok = visit_at_ok [OF w start_ok]
  have all: "set (wk_visited w) = {c. included world ssh_home config_path c}"
    using ok visited_all [OF w] by (auto simp: walker_ok_def)
  have "a \<in> set (wk_aliases w)" if "included world ssh_home config_path c" "cw_text world c = Ok body"
    "names_host body a" for a c body
    using that visit_at_walked [OF w] all by (fastforce simp: walked_def start_walker_def file_done_def)
  moreover have "card {c. included world ssh_home config_path c} \<le> 256"
    using ok card_length [of "wk_visited w"] by (simp add: all walker_ok_def MAX_CONFIG_FILES_def)
  ultimately show ?thesis using ok d by (auto simp: walker_ok_def)
qed

text \<open>Two files that include each other.\<close>

definition sample_files :: "(rstr \<times> rstr) list" where
  "sample_files =
    [(lit ''/h/.ssh/config'', lit ''Host web *.net'' @ [10] @ lit ''Include extra'' @ [10]),
     (lit ''/h/.ssh/extra'', lit ''Host db web'' @ [10] @ lit ''Include config'')]"

definition sample_world :: config_world where
  "sample_world = \<lparr>
     cw_canonical = (\<lambda>p. if map_of sample_files p = None then Err IoNotFound else Ok p),
     cw_text = (\<lambda>p. ok_or IoNotFound (map_of sample_files p)),
     cw_glob = (\<lambda>p. Ok (if map_of sample_files p = None then [] else [Ok p]))\<rparr>"

lemma sample_discovery:
  "discover_hosts sample_world (lit ''/h/.ssh/config'') (lit ''/h/.ssh'') =
   Ok \<lparr>hd_aliases = [lit ''db'', lit ''web''], hd_warnings = []\<rparr>"
  by code_simp

theorem discovery_is_exact_witness:
  "set [lit ''db'', lit ''web''] = {a. \<exists>c text.
      included sample_world (lit ''/h/.ssh'') (lit ''/h/.ssh/config'') c \<and>
      cw_text sample_world c = Ok text \<and> names_host text a}"
  using discovery_is_exact [OF sample_discovery] by simp

text \<open>include cycles are harmless: however the files include each other, discovery of a
  configuration of at most 32 files returns and reaches neither of its limits.\<close>

theorem small_configurations_are_discovered:
  assumes "finite {c. included world ssh_home config_path c}"
    and "card {c. included world ssh_home config_path c} \<le> 32"
  shows "\<exists>d. discover_hosts world config_path ssh_home = Ok d"
proof -
  have "passed world ssh_home config_path (MAX_INCLUDE_DEPTH + 1 - (MAX_INCLUDE_DEPTH + 1)) start_walker"
    using start_ok(1) by (simp add: passed_def)
  from visit_at_returns [OF assms(1) _ this start_ok(2)] assms(2)
  show ?thesis by (auto simp: discover_hosts_eq MAX_INCLUDE_DEPTH_def)
qed

lemma sample_included:
  "included sample_world h r c \<Longrightarrow> c \<in> set (map fst sample_files)"
proof -
  have canon: "c \<in> set (map fst sample_files)" if "cw_canonical sample_world p = Ok c" for p
    using that by (auto simp: sample_world_def map_of_eq_None_iff image_iff split: if_splits)
  assume "included sample_world h r c"
  then show "c \<in> set (map fst sample_files)"
  proof cases
    case included_root
    then show ?thesis by (rule canon)
  next
    case (included_file c1 body)
    then show ?thesis using canon unfolding leads_to_def by blast
  qed
qed

theorem small_configurations_are_discovered_witness:
  "\<exists>d. discover_hosts sample_world (lit ''/h/.ssh/config'') (lit ''/h/.ssh'') = Ok d"
proof (rule small_configurations_are_discovered)
  have sub: "{c. included sample_world (lit ''/h/.ssh'') (lit ''/h/.ssh/config'') c} \<subseteq> set (map fst sample_files)"
    using sample_included by blast
  then show "finite {c. included sample_world (lit ''/h/.ssh'') (lit ''/h/.ssh/config'') c}"
    by (rule finite_subset) simp
  have "card (set (map fst sample_files)) \<le> 2"
    using card_length [of "map fst sample_files"] by (simp add: sample_files_def)
  with card_mono [OF _ sub] show "card {c. included sample_world (lit ''/h/.ssh'') (lit ''/h/.ssh/config'') c} \<le> 32"
    by simp
qed

text \<open>no OpenSSH command keeps TunnelDeck waiting: a started command is polled at most
  once per 10 ms of its timeout and then its process group is killed and reaped; what is
  kept of either pipe is the start of it, at most 64 KiB.\<close>

theorem commands_are_bounded:
  assumes "ticking 10 clock" "start \<le> clock 0" "timeout \<le> k * 10"
  shows "\<exists>res killed. run_bounded (Ok c) clock start timeout = Some (res, killed) \<and>
    (\<exists>j \<le> k. (case rc_poll c j of
        Inl e \<Rightarrow> res = Err (SpawnFailed e) \<and> \<not> killed
      | Inr (Some status) \<Rightarrow> \<not> killed \<and> is_ok res
      | Inr None \<Rightarrow> killed \<and> start + timeout \<le> clock j \<and> is_ok res = is_ok (rc_wait c))) \<and>
    (case res of Inl _ \<Rightarrow> True
     | Inr out \<Rightarrow> po_timed_out out = killed \<and>
         length (po_stdout out) \<le> 65536 \<and> length (po_stderr out) \<le> 65536 \<and>
         prefix (po_stdout out) (concat (takeWhile (\<lambda>b. b \<noteq> []) (rc_stdout c))) \<and>
         prefix (po_stderr out) (concat (takeWhile (\<lambda>b. b \<noteq> []) (rc_stderr c))))"
proof -
  obtain j where j: "j \<le> k" "poll_loop (rc_poll c) clock (start + timeout) 0 = Some (rc_poll c j)"
    "rc_poll c j \<noteq> Inr None \<or> start + timeout \<le> clock j"
    by (rule poll_loop_ticking [OF assms, of "rc_poll c"]) blast
  have keep: "length (bounded_read bs) \<le> 65536" "prefix (bounded_read bs) (concat (takeWhile (\<lambda>b. b \<noteq> []) bs))"
    for bs by (simp_all add: bounded_read_take take_is_prefix MAX_STDERR_BYTES_def)
  have "run_bounded (Ok c) clock start timeout \<noteq> None" by (simp add: run_bounded_def j(2) Let_def)
  then obtain res killed where run: "run_bounded (Ok c) clock start timeout = Some (res, killed)"
    by auto
  have "case rc_poll c j of
        Inl e \<Rightarrow> res = Err (SpawnFailed e) \<and> \<not> killed
      | Inr (Some status) \<Rightarrow> \<not> killed \<and> is_ok res
      | Inr None \<Rightarrow> killed \<and> start + timeout \<le> clock j \<and> is_ok res = is_ok (rc_wait c)"
    using run j(3) unfolding run_bounded_def
    by (cases "rc_wait c") (auto simp: j(2) Let_def split: sum.splits option.splits)
  moreover have "case res of Inl _ \<Rightarrow> True
     | Inr out \<Rightarrow> po_timed_out out = killed \<and> po_stdout out = bounded_read (rc_stdout c) \<and>
         po_stderr out = bounded_read (rc_stderr c)"
    using run unfolding run_bounded_def
    by (cases "rc_wait c") (auto simp: j(2) Let_def split: sum.splits option.splits)
  ultimately show ?thesis
    using run j(1) keep by (intro exI [of _ res] exI [of _ killed] conjI exI [of _ j]) (auto split: sum.splits)
qed

definition stuck_child :: running_child where
  "stuck_child = \<lparr>rc_poll = (\<lambda>_. Ok None), rc_wait = Ok (Signaled (lit ''9'')),
     rc_stdout = [lit ''a'', lit ''b''], rc_stderr = []\<rparr>"

theorem commands_are_bounded_witness:
  "\<exists>res killed. run_bounded (Ok stuck_child) (\<lambda>i. 10 * i) 0 5000 = Some (res, killed) \<and>
    (\<exists>j \<le> (500 :: nat). (case rc_poll stuck_child j of
        Inl e \<Rightarrow> res = Err (SpawnFailed e) \<and> \<not> killed
      | Inr (Some status) \<Rightarrow> \<not> killed \<and> is_ok res
      | Inr None \<Rightarrow> killed \<and> 0 + 5000 \<le> 10 * j \<and> is_ok res = is_ok (rc_wait stuck_child))) \<and>
    (case res of Inl _ \<Rightarrow> True
     | Inr out \<Rightarrow> po_timed_out out = killed \<and>
         length (po_stdout out) \<le> 65536 \<and> length (po_stderr out) \<le> 65536 \<and>
         prefix (po_stdout out) (concat (takeWhile (\<lambda>b. b \<noteq> []) (rc_stdout stuck_child))) \<and>
         prefix (po_stderr out) (concat (takeWhile (\<lambda>b. b \<noteq> []) (rc_stderr stuck_child))))"
  by (rule commands_are_bounded) (simp_all add: ticking_def)

section \<open>What ssh -G prints\<close>

text \<open>The output for some settings, one \<open>keyword value\<close> line each.\<close>

definition setting_line :: "string \<Rightarrow> rstr \<Rightarrow> rstr" where
  "setting_line key value = lit key @ 32 # value @ [10]"

definition render_effective :: "effective_host \<Rightarrow> rstr" where
  "render_effective h =
     setting_line ''hostname'' (eh_hostname h) @ setting_line ''user'' (eh_user h) @
     setting_line ''port'' (show_nat (eh_port h)) @
     concat (map (setting_line ''identityfile'') (eh_identity_files h)) @
     (case eh_proxy_jump h of None \<Rightarrow> [] | Some v \<Rightarrow> setting_line ''proxyjump'' v) @
     (case eh_proxy_command h of None \<Rightarrow> [] | Some v \<Rightarrow> setting_line ''proxycommand'' v)"

text \<open>A value that a line can carry: no newline, no space before and no return after it.\<close>

definition plain_value :: "rstr \<Rightarrow> bool" where
  "plain_value v \<longleftrightarrow> valid_str v \<and> 10 \<notin> set v \<and> (v \<noteq> [] \<longrightarrow> \<not> is_whitespace (hd v) \<and> last v \<noteq> 13)"

definition plain_setting :: "rstr option \<Rightarrow> bool" where
  "plain_setting x \<longleftrightarrow> (case x of None \<Rightarrow> True
     | Some v \<Rightarrow> plain_value v \<and> v \<noteq> [] \<and> v \<noteq> lit ''none'')"

definition plain_host :: "effective_host \<Rightarrow> bool" where
  "plain_host h \<longleftrightarrow> plain_value (eh_hostname h) \<and> eh_hostname h \<noteq> [] \<and>
     plain_value (eh_user h) \<and> eh_user h \<noteq> [] \<and> 0 < eh_port h \<and> eh_port h < 65536 \<and>
     list_all plain_value (eh_identity_files h) \<and>
     plain_setting (eh_proxy_jump h) \<and> plain_setting (eh_proxy_command h)"

lemma lines_from_line:
  "10 \<notin> set l \<Longrightarrow> lines_from acc (l @ 10 # s) = strip_cr (acc @ l) # lines_from [] s"
  by (induction l arbitrary: acc) auto

lemma str_lines_line: "10 \<notin> set l \<Longrightarrow> str_lines (l @ 10 # s) = strip_cr l # str_lines s"
  by (simp add: str_lines_def lines_from_line)

text \<open>The entries of a text, line by line.\<close>

definition entries_of :: "rstr \<Rightarrow> (rstr \<times> rstr) list" where
  "entries_of text = concat (map effective_entry (str_lines text))"

lemma entries_of_Nil [simp]: "entries_of [] = []"
  by (simp add: entries_of_def str_lines_def)

lemma entries_of_line:
  assumes "plain_value v" "list_all (\<lambda>c. \<not> is_whitespace c) (lit key)"
  shows "entries_of (setting_line key v @ s) = (lit key, v) # entries_of s"
proof -
  have sp: "is_whitespace 32" and nl: "is_whitespace 10" by (simp_all add: is_whitespace_def)
  then have "10 \<notin> set (lit key @ 32 # v)" using assms by (auto simp: plain_value_def list_all_iff)
  then have "str_lines (setting_line key v @ s) = strip_cr (lit key @ 32 # v) # str_lines s"
    using str_lines_line [of "lit key @ 32 # v" s] by (simp add: setting_line_def)
  moreover have "strip_cr (lit key @ 32 # v) = lit key @ 32 # v"
    using assms(1) by (auto simp: strip_cr_def plain_value_def)
  moreover have "split_once_space (lit key @ 32 # v) = Some (lit key, v)"
    using assms(2) sp by (simp add: split_once_space_def list_all_iff dropWhile_append3 takeWhile_append)
  moreover have "trim_start v = v"
    using assms(1) by (cases v) (simp_all add: trim_start_def plain_value_def)
  ultimately show ?thesis by (simp add: entries_of_def effective_entry_def)
qed

lemma keys_plain:
  "list_all (\<lambda>c. \<not> is_whitespace c) (lit ''hostname'')" "list_all (\<lambda>c. \<not> is_whitespace c) (lit ''user'')"
  "list_all (\<lambda>c. \<not> is_whitespace c) (lit ''port'')" "list_all (\<lambda>c. \<not> is_whitespace c) (lit ''identityfile'')"
  "list_all (\<lambda>c. \<not> is_whitespace c) (lit ''proxyjump'')" "list_all (\<lambda>c. \<not> is_whitespace c) (lit ''proxycommand'')"
  by code_simp+

lemma entries_of_identities:
  "list_all plain_value ids \<Longrightarrow>
   entries_of (concat (map (setting_line ''identityfile'') ids) @ s) =
   map (\<lambda>v. (lit ''identityfile'', v)) ids @ entries_of s"
  by (induction ids) (simp_all add: entries_of_line keys_plain)

lemma plain_show_nat: "plain_value (show_nat n)"
proof -
  have "list_all is_ascii_digit (show_nat n)" by (rule show_nat_digits)
  moreover have "is_ascii_digit c \<Longrightarrow> scalar_value c \<and> c \<noteq> 10 \<and> \<not> is_whitespace c \<and> c \<noteq> 13" for c
    by (auto simp: is_ascii_digit_def scalar_value_def is_whitespace_def)
  ultimately show ?thesis
    by (auto simp: plain_value_def valid_str_def list_all_iff)
qed

lemma entries_of_setting:
  "plain_setting x \<Longrightarrow> list_all (\<lambda>c. \<not> is_whitespace c) (lit key) \<Longrightarrow>
   entries_of ((case x of None \<Rightarrow> [] | Some v \<Rightarrow> setting_line key v) @ s) =
   (case x of None \<Rightarrow> [] | Some v \<Rightarrow> [(lit key, v)]) @ entries_of s"
  by (cases x) (simp_all add: plain_setting_def entries_of_line)

lemma entries_of_render:
  assumes "plain_host h"
  shows "entries_of (render_effective h) =
    [(lit ''hostname'', eh_hostname h), (lit ''user'', eh_user h), (lit ''port'', show_nat (eh_port h))] @
    map (\<lambda>v. (lit ''identityfile'', v)) (eh_identity_files h) @
    (case eh_proxy_jump h of None \<Rightarrow> [] | Some v \<Rightarrow> [(lit ''proxyjump'', v)]) @
    (case eh_proxy_command h of None \<Rightarrow> [] | Some v \<Rightarrow> [(lit ''proxycommand'', v)])"
proof -
  have "entries_of (case eh_proxy_command h of None \<Rightarrow> [] | Some v \<Rightarrow> setting_line ''proxycommand'' v) =
      (case eh_proxy_command h of None \<Rightarrow> [] | Some v \<Rightarrow> [(lit ''proxycommand'', v)])"
    using entries_of_setting [of "eh_proxy_command h" "''proxycommand''" "[]"] assms keys_plain
    by (simp add: plain_host_def)
  then show ?thesis
    using assms
    by (simp add: render_effective_def plain_host_def entries_of_line keys_plain plain_show_nat
        entries_of_identities entries_of_setting)
qed

lemma setting_line_valid:
  "plain_value v \<Longrightarrow> valid_str (lit key) \<Longrightarrow> valid_str (setting_line key v)"
  by (simp add: setting_line_def plain_value_def valid_str_def scalar_value_def)

lemma keys_valid:
  "valid_str (lit ''hostname'')" "valid_str (lit ''user'')" "valid_str (lit ''port'')"
  "valid_str (lit ''identityfile'')" "valid_str (lit ''proxyjump'')" "valid_str (lit ''proxycommand'')"
  by code_simp+

lemma valid_str_append: "valid_str (s @ t) \<longleftrightarrow> valid_str s \<and> valid_str t"
  by (simp add: valid_str_def)

lemma valid_str_concat: "valid_str (concat ss) \<longleftrightarrow> list_all valid_str ss"
  by (induction ss) (simp_all add: valid_str_append, simp add: valid_str_def)

lemma render_valid: "plain_host h \<Longrightarrow> valid_str (render_effective h)"
  unfolding render_effective_def plain_host_def plain_setting_def valid_str_append valid_str_concat
  using plain_show_nat [of "eh_port h"] keys_valid
  by (auto simp: setting_line_valid list_all_iff valid_str_def [of "[]"] split: option.split)

text \<open>the effective settings shown for a host are those OpenSSH printed: parsing the
  lines that \<open>ssh -G\<close> prints for some settings gives these settings back.\<close>

theorem effective_settings_round_trip:
  assumes "plain_host h"
  shows "parse_effective (eh_alias h) (utf8_encode (render_effective h)) = Ok h"
proof -
  let ?es = "entries_of (render_effective h)"
  have vals: "values_of ?es ''hostname'' = [eh_hostname h]" "values_of ?es ''user'' = [eh_user h]"
    "values_of ?es ''port'' = [show_nat (eh_port h)]" "values_of ?es ''identityfile'' = eh_identity_files h"
    "values_of ?es ''proxyjump'' = (case eh_proxy_jump h of None \<Rightarrow> [] | Some v \<Rightarrow> [v])"
    "values_of ?es ''proxycommand'' = (case eh_proxy_command h of None \<Rightarrow> [] | Some v \<Rightarrow> [v])"
    unfolding entries_of_render [OF assms] values_of_def
    by (simp_all add: comp_def filter_map split: option.split)
  have opt: "optional_value ?es ''proxyjump'' = eh_proxy_jump h"
    "optional_value ?es ''proxycommand'' = eh_proxy_command h"
    using assms by (auto simp: optional_value_def one_value_def vals plain_host_def plain_setting_def
        split: option.splits)
  have "effective_port ?es = Some (eh_port h)"
    using assms by (simp add: effective_port_def one_value_def vals parse_u16_show plain_host_def)
  moreover have "one_value ?es ''hostname'' = Some (eh_hostname h)" "one_value ?es ''user'' = Some (eh_user h)"
    using assms by (simp_all add: one_value_def vals plain_host_def)
  ultimately show ?thesis
    using opt vals(4) utf8_round_trip [OF render_valid [OF assms]]
    by (simp add: parse_effective_def entries_of_def [symmetric])
qed

theorem effective_settings_round_trip_witness:
  "parse_effective (lit ''web'') (utf8_encode (render_effective
     \<lparr>eh_alias = lit ''web'', eh_hostname = lit ''10.0.0.1'', eh_user = lit ''me'', eh_port = 22,
       eh_identity_files = [lit ''~/.ssh/id''], eh_proxy_jump = Some (lit ''gw''), eh_proxy_command = None\<rparr>)) =
   Ok \<lparr>eh_alias = lit ''web'', eh_hostname = lit ''10.0.0.1'', eh_user = lit ''me'', eh_port = 22,
       eh_identity_files = [lit ''~/.ssh/id''], eh_proxy_jump = Some (lit ''gw''), eh_proxy_command = None\<rparr>"
  by (rule effective_settings_round_trip [of "\<lparr>eh_alias = lit ''web'', eh_hostname = lit ''10.0.0.1'',
       eh_user = lit ''me'', eh_port = 22, eh_identity_files = [lit ''~/.ssh/id''],
       eh_proxy_jump = Some (lit ''gw''), eh_proxy_command = None\<rparr>", simplified]) code_simp

end
