(* ===== verification/Rotating_Log.thy ===== *)
theory Rotating_Log
  imports Private_Fs Net_Addr Utf8
begin

text \<open>
  The application log, \<open>src/src/logging/mod.rs\<close>: one active file of bounded size and a
  fixed number of rotated ones, in a private directory. The lock around a write is not
  modelled: writes run one after the other.
\<close>

section \<open>The log\<close>

record rlog =
  lg_name :: rstr
  lg_max_bytes :: nat
  lg_backups :: nat

definition DEFAULT_MAX_BYTES :: nat where "DEFAULT_MAX_BYTES = 1024 * 1024"
definition DEFAULT_BACKUPS :: nat where "DEFAULT_BACKUPS = 3"

definition rotated_name :: "rstr \<Rightarrow> nat \<Rightarrow> rstr" where
  "rotated_name name n = name @ lit ''.'' @ show_nat n"

definition single_line :: "rstr \<Rightarrow> rstr" where
  "single_line s = map (\<lambda>c. if c = 10 \<or> c = 13 \<or> c = 9 then 32 else c) s"

definition log_record :: "rstr \<Rightarrow> rstr \<Rightarrow> bytes" where
  "log_record level msg = utf8_encode (single_line level @ [9] @ single_line msg @ [10])"

text \<open>The recurring match: a missing file is no error.\<close>

definition or_missing :: "'a dir_op \<Rightarrow> unit dir_op" where
  "or_missing m = st_try m (\<lambda>r. case r of
       Inr _ \<Rightarrow> st_return ()
     | Inl e \<Rightarrow> if e = IoNotFound then st_return () else st_lift (Err e))"

definition validate_log :: "rstr \<Rightarrow> unit dir_op" where
  "validate_log name = or_missing (fs_read name)"

fun validate_rotated :: "rstr \<Rightarrow> nat list \<Rightarrow> unit dir_op" where
  "validate_rotated name [] = st_return ()"
| "validate_rotated name (i # is) =
     st_bind (validate_log (rotated_name name i)) (\<lambda>_. validate_rotated name is)"

definition rlog_validate :: "rlog \<Rightarrow> unit dir_op" where
  "rlog_validate lg =
     st_bind (validate_log (lg_name lg)) (\<lambda>_.
       validate_rotated (lg_name lg) [1 ..< lg_backups lg + 1])"

text \<open>A path is its components, the last one first; \<open>opened\<close> is \<open>PrivateDirectory::open\<close>.\<close>

definition rlog_open ::
  "(rstr list \<Rightarrow> io_kind + pdir) \<Rightarrow> rstr list \<Rightarrow> nat \<Rightarrow> nat \<Rightarrow> io_kind + (rlog \<times> pdir)" where
  "rlog_open opened path max_bytes backups =
     (case path of
        [] \<Rightarrow> Err IoInvalidInput
      | name # parent \<Rightarrow>
          if name = [] then Err IoInvalidInput
          else and_then (opened parent) (\<lambda>d.
            let lg = \<lparr>lg_name = name, lg_max_bytes = max_bytes, lg_backups = backups\<rparr>;
                (r, d') = rlog_validate lg d
            in map_ok (\<lambda>_. (lg, d')) r))"

section \<open>Rotation\<close>

text \<open>\<open>shift_logs n\<close> is the loop over \<open>(1..n+1).rev()\<close>.\<close>

primrec shift_logs :: "rstr \<Rightarrow> nat \<Rightarrow> unit dir_op" where
  "shift_logs name 0 = st_return ()"
| "shift_logs name (Suc n) =
     st_bind (or_missing (fs_rename (rotated_name name (Suc n)) (rotated_name name (Suc n + 1))))
       (\<lambda>_. shift_logs name n)"

definition rlog_rotate :: "rlog \<Rightarrow> unit dir_op" where
  "rlog_rotate lg =
     (if lg_backups lg = 0 then or_missing (fs_remove (lg_name lg))
      else
        st_bind (or_missing (fs_remove (rotated_name (lg_name lg) (lg_backups lg)))) (\<lambda>_.
        st_bind (shift_logs (lg_name lg) (lg_backups lg - 1)) (\<lambda>_.
        st_bind (or_missing (fs_rename (lg_name lg) (rotated_name (lg_name lg) 1))) (\<lambda>_. fs_sync))))"

text \<open>\<open>metadata\<close> is one more system call; \<open>flush\<close> on a file does nothing.\<close>

definition should_rotate :: "rlog \<Rightarrow> bytes \<Rightarrow> bool dir_op" where
  "should_rotate lg line = st_try (fs_read (lg_name lg)) (\<lambda>r. case r of
       Inr file \<Rightarrow> st_bind sys (\<lambda>_.
         st_return (lg_max_bytes lg < length (en_data file) + length line))
     | Inl e \<Rightarrow> if e = IoNotFound then st_return False else st_lift (Err e))"

definition rlog_write :: "rlog \<Rightarrow> rstr \<Rightarrow> rstr \<Rightarrow> unit dir_op" where
  "rlog_write lg level msg =
     (let line = log_record level msg in
      if lg_max_bytes lg < length line then st_lift (Err IoInvalidInput)
      else
        st_bind (rlog_validate lg) (\<lambda>_.
        st_bind (should_rotate lg line) (\<lambda>rotate.
        st_bind (if rotate then rlog_rotate lg else st_return ()) (\<lambda>_.
        st_bind (fs_append (lg_name lg)) (\<lambda>_. fs_write_all (lg_name lg) line)))))"

section \<open>File names\<close>

text \<open>Slot 0 is the active file, slot \<open>n\<close> the \<open>n\<close>-th rotated one.\<close>

definition slot_name :: "rstr \<Rightarrow> nat \<Rightarrow> rstr" where
  "slot_name name n = (if n = 0 then name else rotated_name name n)"

lemma slot_name_inj [simp]: "slot_name name i = slot_name name j \<longleftrightarrow> i = j"
  by (auto simp: slot_name_def rotated_name_def lit_def) (metis digits_value_show)

definition slot :: "rlog \<Rightarrow> pdir \<Rightarrow> nat \<Rightarrow> entry option" where
  "slot lg d n = dir_lookup d (slot_name (lg_name lg) n)"

lemma rotated_is_slot: "0 < n \<Longrightarrow> rotated_name name n = slot_name name n" "name = slot_name name 0"
  by (simp_all add: slot_name_def)

section \<open>What each step does\<close>

lemma honest_put_drop [simp]:
  "honest_faults (dir_put n e d) = honest_faults d" "honest_faults (dir_drop n d) = honest_faults d"
  by (simp_all add: honest_faults_def)

lemma honest_openat: "openat n mode d = (r, d') \<Longrightarrow> honest_faults d' = honest_faults d"
  by (auto simp: openat_def split: option.splits open_mode.splits if_splits)

lemma honest_open: "open_file n mode d = (r, d') \<Longrightarrow> honest_faults d \<Longrightarrow> honest_faults d'"
  by (auto simp: open_file_def st_lift_def elim!: st_bind_cases
      dest!: honest_sys dest: honest_openat)

lemma honest_read: "fs_read n d = (r, d') \<Longrightarrow> honest_faults d \<Longrightarrow> honest_faults d'"
  by (auto simp: fs_read_def check_entry_def st_return_def elim!: st_bind_cases
      dest!: honest_sys dest: honest_open)

lemma honest_sys_step:
  "sys d = (r, d') \<Longrightarrow> honest_faults d \<Longrightarrow>
   honest_faults d' \<and> r \<noteq> Inl IoNotFound \<and> dir_lookup d' = dir_lookup d"
  using honest_sys sys_lookup by blast

lemma honest_rename:
  "fs_rename s t d = (r, d') \<Longrightarrow> honest_faults d \<Longrightarrow>
   honest_faults d' \<and> (r = Inl IoNotFound \<longrightarrow> dir_lookup d s = None)"
  by (auto simp: fs_rename_def st_lift_def file_component_def renameat_def elim!: st_bind_cases
      dest!: honest_sys_step split: option.splits if_splits)

lemma honest_remove:
  "fs_remove n d = (r, d') \<Longrightarrow> honest_faults d \<Longrightarrow>
   honest_faults d' \<and> (r = Inl IoNotFound \<longrightarrow> dir_lookup d n = None)"
  by (auto simp: fs_remove_def st_lift_def file_component_def unlinkat_def elim!: st_bind_cases
      dest!: honest_sys_step split: option.splits if_splits)

lemma or_missing_cases:
  assumes "or_missing m d = (q, d')"
  obtains u where "m d = (Inr u, d')" "q = Inr ()"
  | "m d = (Inl IoNotFound, d')" "q = Inr ()"
  | e where "m d = (Inl e, d')" "q = Inl e" "e \<noteq> IoNotFound"
  using assms
  by (cases "m d"; cases "fst (m d)")
    (auto simp: or_missing_def st_try_def Let_def st_return_def st_lift_def split: if_splits)

text \<open>Moving or removing a file that may be missing.\<close>

lemma or_missing_rename:
  assumes "or_missing (fs_rename s t) d = (q, d')" "honest_faults d" "s \<noteq> t"
  shows "honest_faults d' \<and>
    (q = Inr () \<longrightarrow> dir_lookup d' = (if dir_lookup d s = None then dir_lookup d
       else (dir_lookup d)(s := None, t := dir_lookup d s))) \<and>
    (q \<noteq> Inr () \<longrightarrow> dir_lookup d' = dir_lookup d)"
  using assms(1)
proof (rule or_missing_cases)
  fix u assume "fs_rename s t d = (Inr u, d')" "q = Inr ()"
  with fs_rename_Ok [OF this(1)] honest_rename [OF this(1) assms(2)] show ?thesis by auto
next
  assume "fs_rename s t d = (Inl IoNotFound, d')" "q = Inr ()"
  with fs_rename_Err [OF this(1)] honest_rename [OF this(1) assms(2)] show ?thesis by auto
next
  fix e assume "fs_rename s t d = (Inl e, d')" "q = Inl e"
  with fs_rename_Err [OF this(1)] honest_rename [OF this(1) assms(2)] show ?thesis by auto
qed

lemma or_missing_remove:
  assumes "or_missing (fs_remove n) d = (q, d')" "honest_faults d"
  shows "honest_faults d' \<and>
    (q = Inr () \<longrightarrow> dir_lookup d' = (dir_lookup d)(n := None)) \<and>
    (q \<noteq> Inr () \<longrightarrow> dir_lookup d' = dir_lookup d)"
  using assms(1)
proof (rule or_missing_cases)
  fix u assume "fs_remove n d = (Inr u, d')" "q = Inr ()"
  with fs_remove_Ok [OF this(1)] honest_remove [OF this(1) assms(2)] show ?thesis by auto
next
  assume "fs_remove n d = (Inl IoNotFound, d')" "q = Inr ()"
  with fs_remove_Err [OF this(1)] honest_remove [OF this(1) assms(2)] show ?thesis by auto
next
  fix e assume "fs_remove n d = (Inl e, d')" "q = Inl e"
  with fs_remove_Err [OF this(1)] honest_remove [OF this(1) assms(2)] show ?thesis by auto
qed

lemma validate_log_frame:
  "validate_log n d = (r, d') \<Longrightarrow> honest_faults d \<Longrightarrow> honest_faults d' \<and> dir_lookup d' = dir_lookup d"
  unfolding validate_log_def
  by (erule or_missing_cases) (auto dest: honest_read fs_read_unchanged)

lemma validate_rotated_frame:
  "validate_rotated n is d = (r, d') \<Longrightarrow> honest_faults d \<Longrightarrow> honest_faults d' \<and> dir_lookup d' = dir_lookup d"
  by (induction "is" arbitrary: d)
    (auto simp: st_return_def elim!: st_bind_cases dest!: validate_log_frame)

lemma rlog_validate_frame:
  "rlog_validate lg d = (r, d') \<Longrightarrow> honest_faults d \<Longrightarrow> honest_faults d' \<and> dir_lookup d' = dir_lookup d"
  unfolding rlog_validate_def
  by (auto elim!: st_bind_cases dest!: validate_log_frame validate_rotated_frame)

text \<open>One move between neighbouring slots, and the loop of moves.\<close>

lemma move_slot:
  assumes "or_missing (fs_rename (slot_name (lg_name lg) n) (slot_name (lg_name lg) (n + 1))) d = (q, d')"
    "honest_faults d"
  shows "honest_faults d' \<and>
    (q = Inr () \<longrightarrow> slot lg d' = (if slot lg d n = None then slot lg d
       else (slot lg d)(n := None, n + 1 := slot lg d n))) \<and>
    (q \<noteq> Inr () \<longrightarrow> slot lg d' = slot lg d) \<and>
    (\<forall>m. m \<notin> range (slot_name (lg_name lg)) \<longrightarrow> dir_lookup d' m = dir_lookup d m)"
proof -
  have "slot_name (lg_name lg) n \<noteq> slot_name (lg_name lg) (n + 1)" by simp
  from or_missing_rename [OF assms this] show ?thesis
    by (auto simp: slot_def fun_eq_iff split: if_splits)
qed

lemma shift_logs_slots:
  assumes "shift_logs (lg_name lg) n d = (q, d')" "honest_faults d" "slot lg d (n + 1) = None"
  shows "honest_faults d' \<and> slot lg d' 0 = slot lg d 0 \<and>
    (\<forall>j > n + 1. slot lg d' j = slot lg d j) \<and>
    (\<forall>m. m \<notin> range (slot_name (lg_name lg)) \<longrightarrow> dir_lookup d' m = dir_lookup d m) \<and>
    (q = Inr () \<longrightarrow> slot lg d' 1 = None \<and> (\<forall>j. 1 \<le> j \<and> j \<le> n \<longrightarrow> slot lg d' (j + 1) = slot lg d j)) \<and>
    (\<forall>j e. slot lg d' j = Some e \<longrightarrow> (\<exists>i. slot lg d i = Some e))"
  using assms
proof (induction n arbitrary: d)
  case 0
  then show ?case by (auto simp: st_return_def)
next
  case (Suc n)
  let ?m = "or_missing (fs_rename (slot_name (lg_name lg) (Suc n)) (slot_name (lg_name lg) (Suc n + 1)))"
  obtain w d1 where m: "?m d = (w, d1)" by fastforce
  note mv = move_slot [OF m Suc.prems(2)]
  show ?case
  proof (cases w)
    case (Inl e)
    with Suc.prems(1) m mv show ?thesis
      by (auto simp: rotated_is_slot(1) st_bind_def)
  next
    case (Inr u)
    then have rest: "shift_logs (lg_name lg) n d1 = (q, d')"
      using Suc.prems(1) m by (simp add: rotated_is_slot(1) st_bind_def)
    have s1: "slot lg d1 = (if slot lg d (Suc n) = None then slot lg d
        else (slot lg d)(Suc n := None, Suc n + 1 := slot lg d (Suc n)))" and h1: "honest_faults d1"
      and o1: "\<forall>m. m \<notin> range (slot_name (lg_name lg)) \<longrightarrow> dir_lookup d1 m = dir_lookup d m"
      using mv Inr by auto
    have "slot lg d1 (n + 1) = None" unfolding s1 by auto
    note IH = Suc.IH [OF rest h1 this]
    have "slot lg d' (j + 1) = slot lg d j" if "q = Inr ()" "1 \<le> j" "j \<le> Suc n" for j
      using IH that Suc.prems(3) by (cases "j = Suc n") (auto simp: s1 split: if_splits)
    moreover have "\<exists>i. slot lg d i = Some e" if le: "slot lg d' j = Some e" for j e
    proof -
      obtain i where "slot lg d1 i = Some e" using IH le by blast
      then show ?thesis by (auto simp: s1 split: if_splits)
    qed
    moreover have "slot lg d1 0 = slot lg d 0" by (simp add: s1)
    moreover have "\<forall>j > Suc n + 1. slot lg d1 j = slot lg d j" by (simp add: s1)
    ultimately show ?thesis using IH o1 by auto
  qed
qed

text \<open>A rotation that succeeds is a shift of the slots.\<close>

lemma fs_sync_frame:
  "fs_sync d = (r, d') \<Longrightarrow> honest_faults d \<Longrightarrow> honest_faults d' \<and> dir_lookup d' = dir_lookup d"
  unfolding fs_sync_def using honest_sys_step by blast

definition inherits :: "rlog \<Rightarrow> pdir \<Rightarrow> pdir \<Rightarrow> bool" where
  "inherits lg d d' \<longleftrightarrow>
     (\<forall>j e. slot lg d' j = Some e \<longrightarrow> (\<exists>i. slot lg d i = Some e)) \<and>
     (\<forall>m. m \<notin> range (slot_name (lg_name lg)) \<longrightarrow> dir_lookup d' m = dir_lookup d m)"

lemma inherits_trans: "inherits lg d d1 \<Longrightarrow> inherits lg d1 d2 \<Longrightarrow> inherits lg d d2"
  unfolding inherits_def by metis

text \<open>An operation that only moves entries among the slots, or drops them.\<close>

definition moves :: "rlog \<Rightarrow> 'a dir_op \<Rightarrow> bool" where
  "moves lg m \<longleftrightarrow> (\<forall>d q d'. m d = (q, d') \<longrightarrow> honest_faults d \<longrightarrow> honest_faults d' \<and> inherits lg d d')"

lemma moves_bind [intro]: "moves lg m \<Longrightarrow> (\<And>x. moves lg (f x)) \<Longrightarrow> moves lg (st_bind m f)"
  unfolding moves_def by (auto elim!: st_bind_cases) (metis inherits_trans)+

lemma moves_unchanged:
  "(\<And>d q d'. m d = (q, d') \<Longrightarrow> honest_faults d \<Longrightarrow> honest_faults d' \<and> dir_lookup d' = dir_lookup d) \<Longrightarrow>
   moves lg m"
  by (force simp: moves_def inherits_def slot_def)

lemma moves_rename [intro]:
  "moves lg (or_missing (fs_rename (slot_name (lg_name lg) n) (slot_name (lg_name lg) (Suc n))))"
  unfolding moves_def inherits_def
proof (intro allI impI)
  fix d q d'
  assume "or_missing (fs_rename (slot_name (lg_name lg) n) (slot_name (lg_name lg) (Suc n))) d = (q, d')"
    "honest_faults d"
  from move_slot [of lg n, simplified, OF this]
  show "honest_faults d' \<and> (\<forall>j e. slot lg d' j = Some e \<longrightarrow> (\<exists>i. slot lg d i = Some e)) \<and>
      (\<forall>m. m \<notin> range (slot_name (lg_name lg)) \<longrightarrow> dir_lookup d' m = dir_lookup d m)"
    by (cases "q = Ok ()") (auto split: if_splits)
qed

lemma remove_slot:
  assumes "or_missing (fs_remove (slot_name (lg_name lg) n)) d = (q, d')" "honest_faults d"
  shows "honest_faults d' \<and> slot lg d' = (if q = Inr () then (slot lg d)(n := None) else slot lg d) \<and>
    (\<forall>m. m \<notin> range (slot_name (lg_name lg)) \<longrightarrow> dir_lookup d' m = dir_lookup d m)"
  using or_missing_remove [OF assms] by (cases "q = Ok ()") (auto simp: slot_def fun_eq_iff)

lemma moves_remove [intro]: "moves lg (or_missing (fs_remove (slot_name (lg_name lg) n)))"
  unfolding moves_def inherits_def by (auto dest!: remove_slot split: if_splits)

lemma moves_return [intro]: "moves lg (st_return x)" "moves lg fs_sync" "moves lg sys"
  by (rule moves_unchanged; auto simp: st_return_def fs_sync_def dest: honest_sys_step)+

lemma moves_shift [intro]: "moves lg (shift_logs (lg_name lg) n)"
  by (induction n) (auto simp: rotated_is_slot(1))

lemma moves_rotate: "moves lg (rlog_rotate lg)"
proof -
  have "moves lg (or_missing (fs_remove (lg_name lg)))"
    "moves lg (or_missing (fs_rename (lg_name lg) (rotated_name (lg_name lg) 1)))"
    using moves_remove [of lg 0] moves_rename [of lg 0] by (simp_all add: slot_name_def)
  then show ?thesis
    unfolding rlog_rotate_def by (auto simp: rotated_is_slot(1))
qed

text \<open>A rotation that succeeds is a shift of the slots.\<close>

lemma rotate_Ok:
  assumes r: "rlog_rotate lg d = (Inr u, d')" and h: "honest_faults d"
  shows "slot lg d' 0 = None \<and>
    (\<forall>i. 1 \<le> i \<and> i \<le> lg_backups lg \<longrightarrow> slot lg d' i = slot lg d (i - 1)) \<and>
    (\<forall>i > lg_backups lg. slot lg d' i = slot lg d i)"
proof (cases "lg_backups lg")
  case 0
  then have "or_missing (fs_remove (slot_name (lg_name lg) 0)) d = (Inr u, d')"
    using r by (simp add: rlog_rotate_def slot_name_def)
  from remove_slot [OF this h] 0 show ?thesis by auto
next
  case (Suc n)
  then obtain d1 d2 d3 where
    s1: "or_missing (fs_remove (slot_name (lg_name lg) (n + 1))) d = (Inr (), d1)" and
    s2: "shift_logs (lg_name lg) n d1 = (Inr (), d2)" and
    s3: "or_missing (fs_rename (slot_name (lg_name lg) 0) (slot_name (lg_name lg) (0 + 1))) d2 = (Inr (), d3)" and
    s4: "fs_sync d3 = (Inr u, d')"
    using r by (auto simp: rlog_rotate_def slot_name_def st_bind_Inr)
  from remove_slot [OF s1 h] have h1: "honest_faults d1" and l1: "slot lg d1 = (slot lg d)(n + 1 := None)"
    by auto
  then have "slot lg d1 (n + 1) = None" by simp
  from shift_logs_slots [OF s2 h1 this] have h2: "honest_faults d2" and
    l2: "slot lg d2 0 = slot lg d 0" "slot lg d2 1 = None"
      "\<And>j. j > n + 1 \<Longrightarrow> slot lg d2 j = slot lg d j"
      "\<And>j. 1 \<le> j \<Longrightarrow> j \<le> n \<Longrightarrow> slot lg d2 (j + 1) = slot lg d j"
    by (auto simp: l1)
  from move_slot [OF s3 h2] fs_sync_unchanged [OF s4]
  have l3: "slot lg d' = (if slot lg d2 0 = None then slot lg d2
      else (slot lg d2)(0 := None, 1 := slot lg d2 0))" by (simp add: slot_def fun_eq_iff)
  have "slot lg d' i = slot lg d (i - 1)" if "1 \<le> i" "i \<le> Suc n" for i
    using that l2(1,2) l2(4) [of "i - 1"] by (cases "i = 1") (auto simp: l3)
  moreover have "slot lg d' i = slot lg d i" if "i > Suc n" for i
    using that l2(3) [of i] by (auto simp: l3)
  ultimately show ?thesis using Suc by (auto simp: l3)
qed

text \<open>Validating and measuring change nothing.\<close>

lemma moves_validate: "moves lg (rlog_validate lg)"
  by (rule moves_unchanged) (rule rlog_validate_frame)

lemma should_rotate_frame:
  "should_rotate lg line d = (r, d') \<Longrightarrow> honest_faults d \<Longrightarrow>
   honest_faults d' \<and> dir_lookup d' = dir_lookup d \<and>
   (r = Inr False \<longrightarrow> (\<forall>e. slot lg d 0 = Some e \<longrightarrow> length (en_data e) + length line \<le> lg_max_bytes lg))"
  by (cases "fs_read (lg_name lg) d"; cases "fst (fs_read (lg_name lg) d)")
    (auto simp: should_rotate_def st_try_def st_lift_def st_return_def slot_def slot_name_def
      elim!: st_bind_cases dest!: honest_sys_step dest: honest_read fs_read_unchanged fs_read_Ok
      fs_read_not_missing split: if_splits)

text \<open>Appending creates an empty file at most, and writing adds a prefix of the line.\<close>

lemma open_append_own:
  assumes "open_file n OpenAppend d = (r, d')"
  shows "(\<forall>e. r = Inr e \<longrightarrow> dir_lookup d' n = Some e) \<and>
    (\<forall>e. dir_lookup d' n = Some e \<longrightarrow> dir_lookup d n = Some e \<or> dir_lookup d n = None \<and> en_data e = [])"
  using assms
  by (rule open_file_cases) (auto simp: openat_def new_entry_def split: option.splits if_splits)

lemma fs_append_own:
  "fs_append n d = (r, d') \<Longrightarrow>
   (\<forall>e. r = Inr e \<longrightarrow> dir_lookup d' n = Some e) \<and>
   (\<forall>e. dir_lookup d' n = Some e \<longrightarrow> dir_lookup d n = Some e \<or> dir_lookup d n = None \<and> en_data e = [])"
  by (auto simp: fs_append_def check_entry_def st_return_def elim!: st_bind_cases
      dest: open_append_own dest!: sys_lookup)

lemma fs_write_all_own:
  "fs_write_all n bs d = (r, d') \<Longrightarrow> dir_lookup d n = Some e \<Longrightarrow>
   \<exists>k e'. dir_lookup d' n = Some e' \<and> en_data e' = en_data e @ take k bs \<and> (r = Inr u \<longrightarrow> en_data e' = en_data e @ bs)"
  by (auto simp: fs_write_all_def split: prod.splits option.splits) (metis append.right_neutral take_all_iff order.refl)

text \<open>The last two steps of a write.\<close>

definition log_within :: "rlog \<Rightarrow> pdir \<Rightarrow> bool" where
  "log_within lg d \<longleftrightarrow> (\<forall>n e. slot lg d n = Some e \<longrightarrow> length (en_data e) \<le> lg_max_bytes lg)"

lemma append_line:
  assumes "st_bind (fs_append (lg_name lg)) (\<lambda>_. fs_write_all (lg_name lg) line) d = (r, d')"
    "log_within lg d" "length line \<le> lg_max_bytes lg"
    "\<forall>e. slot lg d 0 = Some e \<longrightarrow> length (en_data e) + length line \<le> lg_max_bytes lg"
  shows "log_within lg d' \<and> (\<forall>n \<noteq> lg_name lg. dir_lookup d' n = dir_lookup d n) \<and>
    (r = Inr () \<longrightarrow> (\<exists>e. slot lg d' 0 = Some e \<and>
       en_data e = (case slot lg d 0 of None \<Rightarrow> [] | Some e0 \<Rightarrow> en_data e0) @ line))"
proof -
  have s0: "slot lg d1 0 = dir_lookup d1 (lg_name lg)" for d1 by (simp add: slot_def slot_name_def)
  have other: "slot lg d2 n = slot lg d n" if "\<forall>m \<noteq> lg_name lg. dir_lookup d2 m = dir_lookup d m" "n \<noteq> 0" for d2 n
    using that slot_name_inj [of "lg_name lg" n 0] by (auto simp: slot_def slot_name_def)
  have bound: "log_within lg d2"
    if "\<forall>m \<noteq> lg_name lg. dir_lookup d2 m = dir_lookup d m"
      "\<forall>e. slot lg d2 0 = Some e \<longrightarrow> length (en_data e) \<le> lg_max_bytes lg" for d2
    unfolding log_within_def using that other [OF that(1)] assms(2) by (metis log_within_def)
  from assms(1) show ?thesis
  proof (rule st_bind_cases)
    fix x assume "fs_append (lg_name lg) d = (Inl x, d')" "r = Inl x"
    have o': "\<forall>m \<noteq> lg_name lg. dir_lookup d' m = dir_lookup d m"
      using fs_append_other [OF \<open>fs_append (lg_name lg) d = (Inl x, d')\<close>] by simp
    have "length (en_data e) \<le> lg_max_bytes lg" if "slot lg d' 0 = Some e" for e
      using fs_append_own [OF \<open>fs_append (lg_name lg) d = (Inl x, d')\<close>] that assms(2)
      unfolding log_within_def s0 [symmetric] by fastforce
    with o' bound [OF o'] \<open>r = Inl x\<close> show ?thesis by simp
  next
    fix e d1 assume a: "fs_append (lg_name lg) d = (Inr e, d1)" and w: "fs_write_all (lg_name lg) line d1 = (r, d')"
    from fs_append_own [OF a] have own: "dir_lookup d1 (lg_name lg) = Some e"
      "en_data e = (case slot lg d 0 of None \<Rightarrow> [] | Some e0 \<Rightarrow> en_data e0)"
      by (auto simp: s0)
    from fs_write_all_own [OF w own(1)] obtain k e' where e': "dir_lookup d' (lg_name lg) = Some e'"
      "en_data e' = en_data e @ take k line" "r = Inr () \<longrightarrow> en_data e' = en_data e @ line" by blast
    have "length (en_data e) + length line \<le> lg_max_bytes lg"
      using own(2) assms(3,4) by (auto split: option.splits)
    then have "length (en_data e') \<le> lg_max_bytes lg" using e'(2) by simp
    moreover have o': "\<forall>m \<noteq> lg_name lg. dir_lookup d' m = dir_lookup d m"
      using fs_append_other [OF a] fs_write_all_other [OF w] by simp
    ultimately have "log_within lg d'" using e'(1) by (intro bound) (simp_all add: s0)
    with o' e' own(2) show ?thesis by (simp add: s0)
  qed
qed

lemma within_inherited: "log_within lg d \<Longrightarrow> inherits lg d d' \<Longrightarrow> log_within lg d'"
  unfolding log_within_def inherits_def by metis

lemma append_line_Ok:
  assumes "st_bind (fs_append (lg_name lg)) (\<lambda>_. fs_write_all (lg_name lg) line) d = (Inr u, d')"
  shows "(\<exists>e. slot lg d' 0 = Some e \<and>
      en_data e = (case slot lg d 0 of None \<Rightarrow> [] | Some e0 \<Rightarrow> en_data e0) @ line) \<and>
    (\<forall>n > 0. slot lg d' n = slot lg d n)"
proof -
  from assms obtain e d1 where a: "fs_append (lg_name lg) d = (Inr e, d1)"
    and w: "fs_write_all (lg_name lg) line d1 = (Inr u, d')" by (auto simp: st_bind_Inr)
  from fs_append_own [OF a] have own: "dir_lookup d1 (lg_name lg) = Some e"
    "en_data e = (case slot lg d 0 of None \<Rightarrow> [] | Some e0 \<Rightarrow> en_data e0)"
    by (auto simp: slot_def slot_name_def)
  from fs_write_all_own [OF w own(1)] own(2)
  have "\<exists>e'. slot lg d' 0 = Some e' \<and>
      en_data e' = (case slot lg d 0 of None \<Rightarrow> [] | Some e0 \<Rightarrow> en_data e0) @ line"
    by (auto simp: slot_def slot_name_def)
  moreover have "slot lg d' n = slot lg d n" if "n > 0" for n
    using fs_append_other [OF a] fs_write_all_other [OF w] slot_name_inj [of "lg_name lg" n 0] that
    by (auto simp: slot_def slot_name_def)
  ultimately show ?thesis by blast
qed

text \<open>The phases of a write.\<close>

lemma write_steps:
  assumes "rlog_write lg level msg d = (r, d')" "honest_faults d"
  obtains x where "r = Inl x" "inherits lg d d'"
  | d1 where "inherits lg d d1" "length (log_record level msg) \<le> lg_max_bytes lg"
      "st_bind (fs_append (lg_name lg)) (\<lambda>_. fs_write_all (lg_name lg) (log_record level msg)) d1 = (r, d')"
      "slot lg d1 = slot lg d \<and>
         (\<forall>e. slot lg d 0 = Some e \<longrightarrow> length (en_data e) + length (log_record level msg) \<le> lg_max_bytes lg) \<or>
       slot lg d1 0 = None \<and> (\<forall>i. 1 \<le> i \<and> i \<le> lg_backups lg \<longrightarrow> slot lg d1 i = slot lg d (i - 1)) \<and>
         (\<forall>i > lg_backups lg. slot lg d1 i = slot lg d i)"
proof (cases "lg_max_bytes lg < length (log_record level msg)")
  case True
  with assms(1) have "r = Inl IoInvalidInput" "d' = d" by (auto simp: rlog_write_def st_lift_def)
  with that(1) show ?thesis by (auto simp: inherits_def)
next
  case False
  let ?line = "log_record level msg"
  let ?put = "st_bind (fs_append (lg_name lg)) (\<lambda>_. fs_write_all (lg_name lg) ?line)"
  obtain v da where a: "rlog_validate lg d = (v, da)" by fastforce
  note fa = rlog_validate_frame [OF a assms(2)]
  obtain b db where b: "should_rotate lg ?line da = (b, db)" by fastforce
  note fb = should_rotate_frame [OF b conjunct1 [OF fa]]
  have same: "slot lg da = slot lg d" "slot lg db = slot lg d" using fa fb by (auto simp: slot_def fun_eq_iff)
  have inh: "inherits lg d da" "inherits lg d db" using fa fb same by (auto simp: inherits_def)
  show ?thesis
  proof (cases "v = Ok () \<and> is_ok b")
    case False
    with assms(1) a b \<open>\<not> lg_max_bytes lg < length ?line\<close>
    have "(\<exists>x. r = Inl x) \<and> (d' = da \<or> d' = db)"
      by (cases v; cases b) (auto simp: rlog_write_def st_bind_def Let_def)
    with that(1) inh show ?thesis by blast
  next
    case True
    then obtain rot where ok: "v = Ok ()" "b = Ok rot" by (auto simp: is_ok_iff)
    with assms(1) a b \<open>\<not> lg_max_bytes lg < length ?line\<close>
    have rest: "st_bind (if rot then rlog_rotate lg else st_return ()) (\<lambda>_. ?put) db = (r, d')"
      by (simp add: rlog_write_def st_bind_Inr [symmetric] st_bind_def Let_def)
    show ?thesis
    proof (cases rot)
      case False
      with rest have "?put db = (r, d')" by (simp add: st_bind_def st_return_def)
      then show ?thesis
        using that(2) [of db] inh(2) same fb ok False \<open>\<not> lg_max_bytes lg < length ?line\<close> by (simp add: slot_def)
    next
      case True
      obtain w dc where c: "rlog_rotate lg db = (w, dc)" by fastforce
      have i: "inherits lg d dc"
        using moves_rotate [of lg] c fb inherits_trans [OF inh(2)] unfolding moves_def by blast
      show ?thesis
      proof (cases w)
        case (Inl x)
        with rest True c have "r = Inl x" "dc = d'" by (simp_all add: st_bind_def)
        with i that(1) show ?thesis by blast
      next
        case (Inr u)
        with rest True c have "?put dc = (r, d')" by (simp add: st_bind_def)
        with rotate_Ok [OF c [unfolded Inr]] fb same i that(2) [of dc]
          \<open>\<not> lg_max_bytes lg < length ?line\<close> show ?thesis by simp
      qed
    qed
  qed
qed

lemma record_is_one_line:
  "last (log_record level msg) = 10" "10 \<notin> set (butlast (log_record level msg))"
proof -
  have e: "log_record level msg = utf8_encode (single_line level @ [9] @ single_line msg) @ [10]"
    by (simp add: log_record_def utf8_encode_append utf8_char_def)
  show "last (log_record level msg) = 10" by (simp add: e)
  show "10 \<notin> set (butlast (log_record level msg))"
    using utf8_encode_low [of 10 "single_line level @ [9] @ single_line msg"]
    by (auto simp: e single_line_def)
qed

section \<open>Properties\<close>

text \<open>C22: a log never outgrows its limit: if every file of the log is within
  \<open>max_bytes\<close>, it is so after a write, whether the write succeeds or fails half-way, and
  no other name of the directory is touched.\<close>

theorem log_stays_bounded:
  assumes "rlog_write lg level msg d = (r, d')" "honest_faults d" "log_within lg d"
  shows "log_within lg d' \<and> (\<forall>m. m \<in> range (slot_name (lg_name lg)) \<or> dir_lookup d' m = dir_lookup d m)"
  using assms(1,2)
proof (rule write_steps)
  fix x assume "inherits lg d d'"
  then show ?thesis using within_inherited [OF assms(3)] unfolding inherits_def by blast
next
  fix d1
  assume i: "inherits lg d d1" and l: "length (log_record level msg) \<le> lg_max_bytes lg"
    and put: "st_bind (fs_append (lg_name lg)) (\<lambda>_. fs_write_all (lg_name lg) (log_record level msg)) d1 = (r, d')"
    and alt: "slot lg d1 = slot lg d \<and>
         (\<forall>e. slot lg d 0 = Some e \<longrightarrow> length (en_data e) + length (log_record level msg) \<le> lg_max_bytes lg) \<or>
       slot lg d1 0 = None \<and> (\<forall>i. 1 \<le> i \<and> i \<le> lg_backups lg \<longrightarrow> slot lg d1 i = slot lg d (i - 1)) \<and>
         (\<forall>i > lg_backups lg. slot lg d1 i = slot lg d i)"
  have "\<forall>e. slot lg d1 0 = Some e \<longrightarrow> length (en_data e) + length (log_record level msg) \<le> lg_max_bytes lg"
    using alt by (elim disjE) simp_all
  note a = append_line [OF put within_inherited [OF assms(3) i] l this]
  have "dir_lookup d' m = dir_lookup d m" if "m \<notin> range (slot_name (lg_name lg))" for m
  proof -
    have "m \<noteq> lg_name lg" using that rangeI [of "slot_name (lg_name lg)" 0] by (auto simp: slot_name_def)
    with a i that show ?thesis by (simp add: inherits_def)
  qed
  with a show ?thesis by blast
qed

definition sample_log :: rlog where
  "sample_log = \<lparr>lg_name = lit ''app.log'', lg_max_bytes = 8, lg_backups = 2\<rparr>"

definition log_file :: "string \<Rightarrow> entry" where
  "log_file s = \<lparr>en_meta = private_meta Regular, en_data = lit s, en_synced = False\<rparr>"

definition full_log_dir :: pdir where
  "full_log_dir = sample_dir [(lit ''app.log'', log_file ''D_old''), (lit ''app.log.1'', log_file ''C_old'')]"

lemma full_log_dir_facts: "honest_faults full_log_dir" "log_within sample_log full_log_dir"
proof -
  show "honest_faults full_log_dir" by (simp add: honest_faults_def full_log_dir_def sample_dir_def)
  have "length (en_data e) \<le> 8" if "dir_lookup full_log_dir m = Some e" for m e
    using that by (auto simp: full_log_dir_def sample_dir_def dir_lookup_def log_file_def lit_def
        split: if_splits)
  then show "log_within sample_log full_log_dir" by (simp add: log_within_def slot_def sample_log_def)
qed

definition sample_write :: "(io_kind + unit) \<times> pdir" where
  "sample_write = rlog_write sample_log (lit ''I'') (lit ''m'') full_log_dir"

lemma sample_write_Ok: "fst sample_write = Ok ()"
  by code_simp

theorem log_stays_bounded_witness:
  "log_within sample_log (snd sample_write) \<and>
   (\<forall>m. m \<in> range (slot_name (lg_name sample_log)) \<or>
      dir_lookup (snd sample_write) m = dir_lookup full_log_dir m)"
  by (rule log_stays_bounded [of _ "lit ''I''" "lit ''m''" full_log_dir "fst sample_write"])
    (simp_all add: sample_write_def full_log_dir_facts)

text \<open>a successful write puts one record, a single line, at the end of the active file:
  either after what was there, the rotated files as they were, or into a fresh file after a
  rotation that moved every file one place on and lost only the oldest.\<close>

theorem written_record_is_last:
  assumes "rlog_write lg level msg d = (Inr u, d')" "honest_faults d"
  shows "\<exists>e old. slot lg d' 0 = Some e \<and> en_data e = old @ log_record level msg \<and>
    last (log_record level msg) = 10 \<and> 10 \<notin> set (butlast (log_record level msg)) \<and>
    (old = (case slot lg d 0 of None \<Rightarrow> [] | Some e0 \<Rightarrow> en_data e0) \<and>
       (\<forall>n > 0. slot lg d' n = slot lg d n) \<or>
     old = [] \<and> (\<forall>n. 1 \<le> n \<and> n \<le> lg_backups lg \<longrightarrow> slot lg d' n = slot lg d (n - 1)) \<and>
       (\<forall>n > lg_backups lg. n > 0 \<longrightarrow> slot lg d' n = slot lg d n))"
  using assms
proof (rule write_steps)
  fix d1
  assume "st_bind (fs_append (lg_name lg)) (\<lambda>_. fs_write_all (lg_name lg) (log_record level msg)) d1 = (Inr u, d')"
    and alt: "slot lg d1 = slot lg d \<and>
         (\<forall>e. slot lg d 0 = Some e \<longrightarrow> length (en_data e) + length (log_record level msg) \<le> lg_max_bytes lg) \<or>
       slot lg d1 0 = None \<and> (\<forall>i. 1 \<le> i \<and> i \<le> lg_backups lg \<longrightarrow> slot lg d1 i = slot lg d (i - 1)) \<and>
         (\<forall>i > lg_backups lg. slot lg d1 i = slot lg d i)"
  from append_line_Ok [OF this(1)] obtain e where e: "slot lg d' 0 = Some e"
    "en_data e = (case slot lg d1 0 of None \<Rightarrow> [] | Some e0 \<Rightarrow> en_data e0) @ log_record level msg"
    "\<forall>n > 0. slot lg d' n = slot lg d1 n" by blast
  let ?old = "case slot lg d1 0 of None \<Rightarrow> [] | Some e0 \<Rightarrow> en_data e0"
  from alt have "?old = (case slot lg d 0 of None \<Rightarrow> [] | Some e0 \<Rightarrow> en_data e0) \<and>
       (\<forall>n > 0. slot lg d' n = slot lg d n) \<or>
     ?old = [] \<and> (\<forall>n. 1 \<le> n \<and> n \<le> lg_backups lg \<longrightarrow> slot lg d' n = slot lg d (n - 1)) \<and>
       (\<forall>n > lg_backups lg. n > 0 \<longrightarrow> slot lg d' n = slot lg d n)"
    using e(3) by (elim disjE) simp_all
  with e(1,2) record_is_one_line show ?thesis by blast
qed simp

theorem written_record_is_last_witness:
  "\<exists>e old. slot sample_log (snd sample_write) 0 = Some e \<and>
    en_data e = old @ log_record (lit ''I'') (lit ''m'') \<and>
    last (log_record (lit ''I'') (lit ''m'')) = 10 \<and>
    10 \<notin> set (butlast (log_record (lit ''I'') (lit ''m'')))"
proof -
  have "rlog_write sample_log (lit ''I'') (lit ''m'') full_log_dir = (Ok (), snd sample_write)"
    using sample_write_Ok by (cases sample_write) (simp add: sample_write_def)
  from written_record_is_last [OF this full_log_dir_facts(1)] show ?thesis by blast
qed

end
