(* ===== verification/Daemon_Endpoint.thy ===== *)
theory Daemon_Endpoint
  imports Ipc_Model Private_Fs
begin

text \<open>
  Ownership of the daemon's endpoint, \<open>DaemonEndpoint\<close> and \<open>ensure_running\<close> of
  \<open>src/src/daemon/lifecycle.rs\<close>. Binding is cut at the lock: what happens before it is
  not protected, what happens after it is. \<open>rt_step\<close> interleaves the sections of any
  number of processes, their guardians and their crashes over one directory tree.
\<close>

section \<open>Binding\<close>

datatype daemon_error =
    DaemonIo io_kind
  | AlreadyRunning
  | UnsafeSocket
  | DaemonTransport transport_error

text \<open>Where the daemon runs, and the modes the kernel gives a new lock file and socket.\<close>

record runtime_env =
  re_absolute :: bool
  re_runtime :: path
  re_socket :: path
  re_lock_mode :: nat
  re_socket_mode :: nat

type_synonym 'a tree_op = "(tree, io_kind, 'a) st"

definition lock_path :: "runtime_env \<Rightarrow> path" where
  "lock_path env = lit ''daemon.lock'' # re_runtime env"

definition tree_put :: "path \<Rightarrow> meta \<Rightarrow> tree \<Rightarrow> tree" where
  "tree_put p m t = t\<lparr>tr_nodes := AList.update p m (tr_nodes t)\<rparr>"

definition tree_drop :: "path \<Rightarrow> tree \<Rightarrow> tree" where
  "tree_drop p t = t\<lparr>tr_nodes := AList.delete p (tr_nodes t)\<rparr>"

text \<open>\<open>O_RDWR | O_CREAT | O_NOFOLLOW\<close>, and \<open>fstat\<close> of what was opened.\<close>

definition open_lock :: "runtime_env \<Rightarrow> meta tree_op" where
  "open_lock env =
     st_bind tree_sys (\<lambda>_.
     st_bind (\<lambda>t. case map_of (tr_nodes t) (lock_path env) of
         None \<Rightarrow>
           (let m = \<lparr>mt_kind = Regular, mt_uid = tr_uid t, mt_mode = re_lock_mode env, mt_nlink = 1\<rparr>
            in (Ok m, tree_put (lock_path env) m t))
       | Some m \<Rightarrow> if mt_kind m = Symlink \<or> mt_kind m = Directory then (Err IoOther, t) else (Ok m, t))
     (\<lambda>m. st_bind tree_sys (\<lambda>_. st_return m)))"

text \<open>\<open>contended\<close> says that another open file description holds the lock.\<close>

definition take_lock :: "bool \<Rightarrow> (tree, daemon_error, unit) st" where
  "take_lock contended = st_try tree_sys (\<lambda>r. case r of
       Inl k \<Rightarrow> st_lift (Err (if k = IoWouldBlock then AlreadyRunning else DaemonIo k))
     | Inr _ \<Rightarrow> st_lift (if contended then Err AlreadyRunning else Ok ()))"

definition safe_lock :: "meta \<Rightarrow> nat \<Rightarrow> bool" where
  "safe_lock m uid \<longleftrightarrow> mt_uid m = uid \<and> permission_bits (mt_mode m) = 384 \<and>
     mt_kind m = Regular \<and> mt_nlink m = 1"

definition bind_lock :: "runtime_env \<Rightarrow> bool \<Rightarrow> (tree, daemon_error, unit) st" where
  "bind_lock env contended =
     st_bind (st_map_err DaemonIo (private_open (re_absolute env) (re_runtime env))) (\<lambda>_.
     st_bind (st_map_err DaemonIo (open_lock env)) (\<lambda>m.
     st_bind (\<lambda>t. (if safe_lock m (tr_uid t) then Ok () else Err UnsafeSocket, t)) (\<lambda>_.
     take_lock contended)))"

definition remove_socket :: "runtime_env \<Rightarrow> unit tree_op" where
  "remove_socket env = st_bind tree_sys (\<lambda>_ t.
     case map_of (tr_nodes t) (re_socket env) of
       None \<Rightarrow> (Err IoNotFound, t)
     | Some m \<Rightarrow> if mt_kind m = Directory then (Err IoOther, t)
         else (Ok (), tree_drop (re_socket env) t))"

definition clear_socket :: "runtime_env \<Rightarrow> (tree, daemon_error, unit) st" where
  "clear_socket env = st_try (tree_stat (re_socket env)) (\<lambda>r. case r of
       Inl k \<Rightarrow> if k = IoNotFound then st_return () else st_lift (Err (DaemonIo k))
     | Inr m \<Rightarrow> st_bind (\<lambda>t. (Ok (tr_uid t), t)) (\<lambda>uid.
         if mt_uid m \<noteq> uid \<or> mt_kind m \<noteq> Socket then st_lift (Err UnsafeSocket)
         else st_map_err DaemonIo (remove_socket env)))"

text \<open>\<open>UnixListener::bind\<close> refuses a name that exists.\<close>

definition create_socket :: "runtime_env \<Rightarrow> unit tree_op" where
  "create_socket env = st_bind tree_sys (\<lambda>_ t.
     case map_of (tr_nodes t) (re_socket env) of
       Some _ \<Rightarrow> (Err IoAddrInUse, t)
     | None \<Rightarrow> (Ok (), tree_put (re_socket env)
         \<lparr>mt_kind = Socket, mt_uid = tr_uid t, mt_mode = re_socket_mode env, mt_nlink = 1\<rparr> t))"

definition set_mode :: "path \<Rightarrow> nat \<Rightarrow> unit tree_op" where
  "set_mode p mode = st_bind tree_sys (\<lambda>_ t.
     case map_of (tr_nodes t) p of
       None \<Rightarrow> (Err IoNotFound, t)
     | Some m \<Rightarrow> (Ok (), tree_put p (m\<lparr>mt_mode := mode\<rparr>) t))"

definition bind_socket :: "runtime_env \<Rightarrow> (tree, daemon_error, unit) st" where
  "bind_socket env =
     st_bind (clear_socket env) (\<lambda>_.
     st_bind (st_map_err DaemonIo (create_socket env)) (\<lambda>_.
     st_map_err DaemonIo (set_mode (re_socket env) 384)))"

text \<open>\<open>DaemonEndpoint::bind\<close>, and its \<open>Drop\<close>, which ignores a failure.\<close>

definition endpoint_bind :: "runtime_env \<Rightarrow> bool \<Rightarrow> (tree, daemon_error, unit) st" where
  "endpoint_bind env contended = st_bind (bind_lock env contended) (\<lambda>_. bind_socket env)"

definition endpoint_drop :: "runtime_env \<Rightarrow> tree \<Rightarrow> tree" where
  "endpoint_drop env t = snd (remove_socket env t)"

section \<open>Waiting for a daemon\<close>

text \<open>
  \<open>connects i\<close> is the outcome of the \<open>i\<close>-th attempt to connect, the first one before the
  spawn; the clock is read after each later one. The flag tells whether a daemon process
  was spawned.
\<close>

definition ensure_running ::
  "(nat \<Rightarrow> bool) \<Rightarrow> io_kind option \<Rightarrow> (nat \<Rightarrow> nat) \<Rightarrow> nat \<Rightarrow> nat \<Rightarrow> ((daemon_error + unit) \<times> bool) option" where
  "ensure_running connects spawn clock start timeout =
     (if connects 0 then Some (Ok (), False)
      else case spawn of
        Some e \<Rightarrow> Some (Err (DaemonIo e), False)
      | None \<Rightarrow> map_option (\<lambda>res. case res of
            Inl e \<Rightarrow> (Err e, True)
          | Inr (Some _) \<Rightarrow> (Ok (), True)
          | Inr None \<Rightarrow> (Err (DaemonIo IoTimedOut), True))
          (poll_loop (\<lambda>i. Ok (if connects (i + 1) then Some () else None)) clock (start + timeout) 0))"

section \<open>What the steps do to the tree\<close>

text \<open>Only the socket's name changes or goes.\<close>

definition tree_grows :: "tree \<Rightarrow> tree \<Rightarrow> bool" where
  "tree_grows t t' \<longleftrightarrow> map_of (tr_nodes t) \<subseteq>\<^sub>m map_of (tr_nodes t') \<and> tr_uid t' = tr_uid t"

lemma grows_refl [simp]: "tree_grows t t"
  by (simp add: tree_grows_def)

lemma grows_trans: "tree_grows t u \<Longrightarrow> tree_grows u v \<Longrightarrow> tree_grows t v"
  unfolding tree_grows_def by (metis map_le_trans)

lemma keeps_grows: "tree_keeps t t' \<Longrightarrow> tree_grows t t'"
  by (simp add: tree_keeps_def tree_grows_def)

lemma tree_put_drop [simp]:
  "map_of (tr_nodes (tree_put p m t)) = (map_of (tr_nodes t))(p \<mapsto> m)"
  "map_of (tr_nodes (tree_drop p t)) = (map_of (tr_nodes t))(p := None)"
  "tr_uid (tree_put p m t) = tr_uid t" "tr_uid (tree_drop p t) = tr_uid t"
  "tr_faults (tree_put p m t) = tr_faults t"
  by (simp_all add: tree_put_def tree_drop_def update_conv' delete_conv')

lemma tree_sys_nodes: "tree_sys t = (r, t') \<Longrightarrow> tr_nodes t' = tr_nodes t \<and> tr_uid t' = tr_uid t"
  by (auto simp: tree_sys_def split: list.splits option.splits)

lemma private_open_keeps: "private_open a p t = (r, t') \<Longrightarrow> tree_keeps t t'"
  by (auto simp: private_open_def st_lift_def st_return_def elim!: st_bind_cases split: if_splits
      dest!: create_directories_keeps tree_stat_keeps) (meson tree_keeps_trans)+

lemma open_lock_grows: "open_lock env t = (r, t') \<Longrightarrow> tree_grows t t'"
  by (auto simp: open_lock_def st_return_def Let_def tree_grows_def map_le_def
      elim!: st_bind_cases dest!: tree_sys_nodes split: option.splits if_splits)

lemma take_lock_cases:
  "take_lock contended t = (r, t') \<Longrightarrow> tree_grows t t' \<and> (r = Ok () \<longrightarrow> \<not> contended)"
  by (cases "tree_sys t")
    (auto simp: take_lock_def st_try_def st_lift_def tree_grows_def split: sum.splits if_splits
      dest!: tree_sys_nodes)

lemma st_map_err_pair: "st_map_err f m s = (r, t) \<longleftrightarrow> (\<exists>q. m s = (q, t) \<and> r = map_err f q)"
  by (auto simp: st_map_err_def split: prod.splits)

lemma bind_lock_cases:
  assumes "bind_lock env contended t = (r, t')"
  shows "tree_grows t t' \<and> (r = Ok () \<longrightarrow> \<not> contended)"
  using assms unfolding bind_lock_def
  by (auto simp: st_map_err_pair elim!: st_bind_cases split: if_splits
      dest!: private_open_keeps keeps_grows open_lock_grows take_lock_cases) (meson grows_trans)+

text \<open>Outside the socket's name the second half changes nothing; when it succeeds, the
  socket is there and private.\<close>

definition socket_ready :: "runtime_env \<Rightarrow> tree \<Rightarrow> bool" where
  "socket_ready env t \<longleftrightarrow> (\<exists>m. map_of (tr_nodes t) (re_socket env) = Some m \<and>
     mt_kind m = Socket \<and> mt_uid m = tr_uid t \<and> mt_mode m = 384)"

definition same_elsewhere :: "runtime_env \<Rightarrow> tree \<Rightarrow> tree \<Rightarrow> bool" where
  "same_elsewhere env t t' \<longleftrightarrow> tr_uid t' = tr_uid t \<and>
     (\<forall>p. p \<noteq> re_socket env \<longrightarrow> map_of (tr_nodes t') p = map_of (tr_nodes t) p)"

lemma elsewhere_trans: "same_elsewhere env t u \<Longrightarrow> same_elsewhere env u v \<Longrightarrow> same_elsewhere env t v"
  by (simp add: same_elsewhere_def)

lemma remove_socket_elsewhere: "remove_socket env t = (r, t') \<Longrightarrow> same_elsewhere env t t'"
  by (auto simp: remove_socket_def same_elsewhere_def elim!: st_bind_cases dest!: tree_sys_nodes
      split: option.splits if_splits)

lemma clear_socket_elsewhere: "clear_socket env t = (r, t') \<Longrightarrow> same_elsewhere env t t'"
proof -
  assume c: "clear_socket env t = (r, t')"
  obtain v t1 where v: "tree_stat (re_socket env) t = (v, t1)" by fastforce
  then have k: "same_elsewhere env t t1"
    by (auto simp: tree_stat_def same_elsewhere_def elim!: st_bind_cases dest!: tree_sys_nodes)
  have "t' = t1 \<or> (\<exists>q. remove_socket env t1 = (q, t'))"
    using c v by (auto simp: clear_socket_def st_try_def st_defs split: sum.splits if_splits prod.splits)
  with k remove_socket_elsewhere show ?thesis by (meson elsewhere_trans)
qed

lemma create_socket_Ok:
  "create_socket env t = (r, t') \<Longrightarrow> same_elsewhere env t t' \<and> (r = Ok () \<longrightarrow>
   (\<exists>m. map_of (tr_nodes t') (re_socket env) = Some m \<and> mt_kind m = Socket \<and> mt_uid m = tr_uid t'))"
  by (auto simp: create_socket_def same_elsewhere_def elim!: st_bind_cases dest!: tree_sys_nodes
      split: option.splits)

lemma set_mode_Ok:
  "set_mode (re_socket env) mode t = (r, t') \<Longrightarrow> same_elsewhere env t t' \<and> (r = Ok () \<longrightarrow>
   (\<exists>m. map_of (tr_nodes t) (re_socket env) = Some m \<and>
      map_of (tr_nodes t') (re_socket env) = Some (m\<lparr>mt_mode := mode\<rparr>)))"
  by (auto simp: set_mode_def same_elsewhere_def elim!: st_bind_cases dest!: tree_sys_nodes
      split: option.splits)

lemma bind_socket_cases:
  assumes "bind_socket env t = (r, t')"
  shows "same_elsewhere env t t' \<and> (r = Ok () \<longrightarrow> socket_ready env t')"
proof -
  obtain v t1 where v: "clear_socket env t = (v, t1)" by fastforce
  obtain w t2 where w: "create_socket env t1 = (w, t2)" by fastforce
  obtain x t3 where x: "set_mode (re_socket env) 384 t2 = (x, t3)" by fastforce
  note e = clear_socket_elsewhere [OF v] create_socket_Ok [OF w] set_mode_Ok [OF x]
  show ?thesis
  proof (cases "v = Ok () \<and> w = Ok ()")
    case False
    with assms v w have "r \<noteq> Ok () \<and> (t' = t1 \<or> t' = t2)"
      by (cases v; cases w) (auto simp: bind_socket_def st_bind_def st_map_err_def)
    with e show ?thesis by (meson elsewhere_trans)
  next
    case True
    with assms v w x have r: "r = map_err DaemonIo x" "t' = t3"
      by (auto simp: bind_socket_def st_bind_def st_map_err_def)
    have "same_elsewhere env t t3" using e by (meson elsewhere_trans)
    moreover have "socket_ready env t3" if "x = Ok ()"
      using e True that by (auto simp: socket_ready_def same_elsewhere_def)
    ultimately show ?thesis using r by auto
  qed
qed

lemma endpoint_drop_elsewhere: "same_elsewhere env t (endpoint_drop env t)"
  unfolding endpoint_drop_def by (cases "remove_socket env t") (simp add: remove_socket_elsewhere)

section \<open>Processes\<close>

text \<open>
  The lock belongs to an open file description, shared by a daemon and the clones its
  guardians hold. A process claims the socket after it got the lock and then serves.
\<close>

datatype holder = DaemonHolds nat | GuardianHolds nat nat

record rt_state =
  rt_tree :: tree
  rt_holders :: "holder set"
  rt_claiming :: "nat set"
  rt_serving :: "nat set"

inductive rt_step :: "runtime_env \<Rightarrow> rt_state \<Rightarrow> rt_state \<Rightarrow> bool" for env where
  refused: "bind_lock env (rt_holders s \<noteq> {}) (rt_tree s) = (Inl e, t') \<Longrightarrow>
    rt_step env s (s\<lparr>rt_tree := t'\<rparr>)"
| locked: "bind_lock env (rt_holders s \<noteq> {}) (rt_tree s) = (Inr u, t') \<Longrightarrow>
    rt_step env s (s\<lparr>rt_tree := t', rt_holders := insert (DaemonHolds i) (rt_holders s),
      rt_claiming := insert i (rt_claiming s)\<rparr>)"
| unclaimed: "i \<in> rt_claiming s \<Longrightarrow> bind_socket env (rt_tree s) = (Inl e, t') \<Longrightarrow>
    rt_step env s (s\<lparr>rt_tree := t', rt_holders := rt_holders s - {DaemonHolds i},
      rt_claiming := rt_claiming s - {i}\<rparr>)"
| claimed: "i \<in> rt_claiming s \<Longrightarrow> bind_socket env (rt_tree s) = (Inr u, t') \<Longrightarrow>
    rt_step env s (s\<lparr>rt_tree := t', rt_claiming := rt_claiming s - {i},
      rt_serving := insert i (rt_serving s)\<rparr>)"
| guarded: "i \<in> rt_serving s \<Longrightarrow>
    rt_step env s (s\<lparr>rt_holders := insert (GuardianHolds i g) (rt_holders s)\<rparr>)"
| released: "rt_step env s (s\<lparr>rt_holders := rt_holders s - {GuardianHolds i g}\<rparr>)"
| dropped: "i \<in> rt_serving s \<Longrightarrow>
    rt_step env s (s\<lparr>rt_tree := endpoint_drop env (rt_tree s),
      rt_holders := rt_holders s - {DaemonHolds i}, rt_serving := rt_serving s - {i}\<rparr>)"
| crashed: "i \<in> rt_claiming s \<union> rt_serving s \<Longrightarrow>
    rt_step env s (s\<lparr>rt_holders := rt_holders s - {DaemonHolds i},
      rt_claiming := rt_claiming s - {i}, rt_serving := rt_serving s - {i}\<rparr>)"

inductive_cases rt_stepE: "rt_step env s s'"

inductive rt_reachable :: "runtime_env \<Rightarrow> tree \<Rightarrow> rt_state \<Rightarrow> bool" for env t0 where
  idle: "rt_reachable env t0 \<lparr>rt_tree = t0, rt_holders = {}, rt_claiming = {}, rt_serving = {}\<rparr>"
| after_step: "rt_reachable env t0 s \<Longrightarrow> rt_step env s s' \<Longrightarrow> rt_reachable env t0 s'"

text \<open>All holders are one daemon and its guardians; whoever claims or serves is that daemon.\<close>

definition rt_inv :: "runtime_env \<Rightarrow> rt_state \<Rightarrow> bool" where
  "rt_inv env s \<longleftrightarrow>
     (\<exists>i. rt_holders s \<subseteq> insert (DaemonHolds i) (range (GuardianHolds i))) \<and>
     (\<forall>j \<in> rt_claiming s \<union> rt_serving s. DaemonHolds j \<in> rt_holders s) \<and>
     rt_claiming s \<inter> rt_serving s = {} \<and>
     (rt_serving s \<noteq> {} \<longrightarrow> socket_ready env (rt_tree s))"

lemma socket_ready_grows: "socket_ready env t \<Longrightarrow> tree_grows t t' \<Longrightarrow> socket_ready env t'"
  unfolding socket_ready_def tree_grows_def map_le_def by (metis domI)

lemma rt_inv_step: "rt_step env s s' \<Longrightarrow> rt_inv env s \<Longrightarrow> rt_inv env s'"
proof (induction rule: rt_step.induct)
  case (refused s e t')
  with bind_lock_cases [OF refused(1)] show ?case by (auto simp: rt_inv_def intro: socket_ready_grows)
next
  case (locked s u t' i)
  from bind_lock_cases [OF locked(1)] have "rt_holders s = {}" by simp
  with locked(2) have "rt_claiming s = {}" "rt_serving s = {}" by (auto simp: rt_inv_def)
  with \<open>rt_holders s = {}\<close> show ?case by (auto simp: rt_inv_def)
next
  case (unclaimed i s e t')
  then have "DaemonHolds i \<in> rt_holders s" "rt_serving s = {}" "rt_claiming s = {i}"
    unfolding rt_inv_def by auto
  with unclaimed(3) show ?case by (auto simp: rt_inv_def)
next
  case (claimed i s u t')
  with bind_socket_cases [OF claimed(2)] show ?case unfolding rt_inv_def by auto
next
  case (guarded i s g)
  then show ?case unfolding rt_inv_def by auto
next
  case (dropped i s)
  then show ?case unfolding rt_inv_def by auto
qed (unfold rt_inv_def, auto)

lemma rt_reachable_inv: "rt_reachable env t0 s \<Longrightarrow> rt_inv env s"
  by (induction rule: rt_reachable.induct) (simp add: rt_inv_def, rule rt_inv_step)

lemma rt_inv_same:
  "rt_inv env s \<Longrightarrow> i \<in> rt_claiming s \<union> rt_serving s \<Longrightarrow> j \<in> rt_claiming s \<union> rt_serving s \<Longrightarrow> i = j"
  unfolding rt_inv_def by blast

section \<open>Properties\<close>

text \<open>C23: at most one process owns the endpoint, however processes that bind, serve, crash and
  leave guardians behind are interleaved; and while a daemon serves, the socket is in
  place, its own and private.\<close>

theorem one_daemon_serves:
  assumes "rt_reachable env t0 s" "i \<in> rt_serving s"
  shows "rt_serving s \<union> rt_claiming s = {i} \<and> DaemonHolds i \<in> rt_holders s \<and>
    rt_holders s \<subseteq> insert (DaemonHolds i) (range (GuardianHolds i)) \<and>
    socket_ready env (rt_tree s)"
  using rt_reachable_inv [OF assms(1)] rt_inv_same [OF rt_reachable_inv [OF assms(1)]] assms(2)
  unfolding rt_inv_def by blast

text \<open>C24: a process gets to claim the endpoint only when the previous daemon is gone and the
  last of its guardians has finished cleaning up.\<close>

theorem takeover_waits_for_guardians:
  assumes "rt_reachable env t0 s" "rt_step env s s'" "j \<in> rt_claiming s'" "j \<notin> rt_claiming s"
  shows "rt_holders s = {} \<and> rt_serving s = {} \<and> rt_claiming s = {} \<and> rt_holders s' = {DaemonHolds j}"
  using assms(2)
proof (cases rule: rt_step.cases)
  case (locked u t' i)
  from bind_lock_cases [OF locked(2)] have h: "rt_holders s = {}" by simp
  with rt_reachable_inv [OF assms(1)] have "rt_serving s = {}" "rt_claiming s = {}"
    by (auto simp: rt_inv_def)
  with h locked(1) assms(3) show ?thesis by auto
qed (use assms(3,4) in auto)

text \<open>What the second half does to a foreign file.\<close>

lemma bind_socket_foreign:
  assumes "bind_socket env t = (r, t')"
    and m: "map_of (tr_nodes t) (re_socket env) = Some m" "mt_kind m \<noteq> Socket \<or> mt_uid m \<noteq> tr_uid t"
  shows "r \<noteq> Ok () \<and> map_of (tr_nodes t') (re_socket env) = Some m"
proof -
  obtain w t2 where w: "tree_stat (re_socket env) t = (w, t2)" by fastforce
  then have same: "tr_nodes t2 = tr_nodes t" "tr_uid t2 = tr_uid t" and wm: "\<And>x. w = Inr x \<Longrightarrow> x = m"
    using m by (auto simp: tree_stat_def elim!: st_bind_cases dest!: tree_sys_nodes)
  show ?thesis
  proof (cases "w = Inl IoNotFound")
    case True
    with assms(1) w have "st_bind (st_map_err DaemonIo (create_socket env)) (\<lambda>_.
        st_map_err DaemonIo (set_mode (re_socket env) 384)) t2 = (r, t')"
      by (simp add: bind_socket_def clear_socket_def st_try_def st_bind_def st_return_def)
    moreover obtain q t3 where c: "create_socket env t2 = (q, t3)" by fastforce
    moreover have "q \<noteq> Ok () \<and> tr_nodes t3 = tr_nodes t2"
      using c m same by (auto simp: create_socket_def elim!: st_bind_cases dest!: tree_sys_nodes)
    ultimately show ?thesis using m same
      by (cases q) (auto simp: st_bind_def st_map_err_def)
  next
    case False
    then have "\<exists>x. clear_socket env t = (Inl x, t2)"
      using w wm m same by (cases w) (auto simp: clear_socket_def st_try_def st_bind_def st_lift_def)
    with assms(1) m same show ?thesis by (auto simp: bind_socket_def st_bind_def)
  qed
qed

text \<open>binding never removes what is not this user's socket: any other file at the socket's
  path, or another user's socket, makes it fail and stays.\<close>

theorem foreign_socket_is_kept:
  assumes "endpoint_bind env contended t = (r, t')"
    and "map_of (tr_nodes t) (re_socket env) = Some m" "mt_kind m \<noteq> Socket \<or> mt_uid m \<noteq> tr_uid t"
  shows "r \<noteq> Ok () \<and> map_of (tr_nodes t') (re_socket env) = Some m"
proof -
  obtain v t1 where v: "bind_lock env contended t = (v, t1)" by fastforce
  from bind_lock_cases [OF v] assms(2) have m1: "map_of (tr_nodes t1) (re_socket env) = Some m"
    "tr_uid t1 = tr_uid t"
    by (auto simp: tree_grows_def map_le_def dom_def)
  show ?thesis
  proof (cases v)
    case (Inl e)
    with assms(1) v m1 show ?thesis by (auto simp: endpoint_bind_def st_bind_def)
  next
    case (Inr u)
    with assms(1) v have "bind_socket env t1 = (r, t')" by (simp add: endpoint_bind_def st_bind_def)
    from bind_socket_foreign [OF this m1(1)] assms(3) m1(2) show ?thesis by simp
  qed
qed

section \<open>A daemon after a crash\<close>

definition sample_runtime :: runtime_env where
  "sample_runtime = \<lparr>re_absolute = True, re_runtime = [lit ''td''],
     re_socket = [lit ''tdeck.sock'', lit ''td''], re_lock_mode = 384, re_socket_mode = 493\<rparr>"

text \<open>A private runtime directory that holds the given nodes.\<close>

definition runtime_tree :: "(path \<times> meta) list \<Rightarrow> tree" where
  "runtime_tree nodes = \<lparr>tr_nodes = nodes @ [([lit ''td''], private_meta Directory)] @ tr_nodes sample_tree,
     tr_race = (\<lambda>_. None), tr_uid = 1000, tr_made = private_meta Directory, tr_faults = []\<rparr>"

definition locked_tree :: tree where
  "locked_tree = snd (bind_lock sample_runtime False (runtime_tree []))"

definition bound_tree :: tree where
  "bound_tree = snd (bind_socket sample_runtime locked_tree)"

lemma sample_lock: "bind_lock sample_runtime False (runtime_tree []) = (Ok (), locked_tree)"
proof -
  have "fst (bind_lock sample_runtime False (runtime_tree [])) = Ok ()" by code_simp
  then show ?thesis unfolding locked_tree_def by (metis prod.collapse)
qed

lemma sample_claim: "bind_socket sample_runtime locked_tree = (Ok (), bound_tree)"
proof -
  have "fst (bind_socket sample_runtime locked_tree) = Ok ()" by code_simp
  then show ?thesis unfolding bound_tree_def by (metis prod.collapse)
qed

text \<open>The two steps of the first process.\<close>

definition claiming_state :: rt_state where
  "claiming_state = \<lparr>rt_tree = locked_tree,
     rt_holders = {DaemonHolds 1}, rt_claiming = {1}, rt_serving = {}\<rparr>"

definition serving_state :: rt_state where
  "serving_state = \<lparr>rt_tree = bound_tree, rt_holders = {DaemonHolds 1}, rt_claiming = {}, rt_serving = {1}\<rparr>"

lemma sample_first_step:
  "rt_step sample_runtime \<lparr>rt_tree = runtime_tree [], rt_holders = {}, rt_claiming = {}, rt_serving = {}\<rparr> claiming_state"
  using locked [of sample_runtime "\<lparr>rt_tree = runtime_tree [], rt_holders = {}, rt_claiming = {}, rt_serving = {}\<rparr>"
      "()" _ 1] sample_lock
  by (simp add: claiming_state_def)

lemma serving_reachable: "rt_reachable sample_runtime (runtime_tree []) serving_state"
proof -
  have "rt_step sample_runtime claiming_state serving_state"
    using claimed [of 1 claiming_state sample_runtime "()" bound_tree] sample_claim
    by (simp add: claiming_state_def serving_state_def)
  with after_step [OF after_step [OF idle sample_first_step]] show ?thesis by blast
qed

theorem one_daemon_serves_witness:
  "rt_serving serving_state \<union> rt_claiming serving_state = {1} \<and> socket_ready sample_runtime (rt_tree serving_state)"
  using one_daemon_serves [OF serving_reachable, of 1] by (simp add: serving_state_def)

theorem takeover_waits_for_guardians_witness:
  "rt_holders claiming_state = {DaemonHolds 1}"
  using takeover_waits_for_guardians [OF idle sample_first_step, of 1] by (simp add: claiming_state_def)

definition planted_file :: meta where
  "planted_file = private_meta Symlink"

theorem foreign_socket_is_kept_witness:
  "map_of (tr_nodes (snd (endpoint_bind sample_runtime False
      (runtime_tree [(re_socket sample_runtime, planted_file)])))) (re_socket sample_runtime) = Some planted_file"
proof -
  let ?b = "endpoint_bind sample_runtime False (runtime_tree [(re_socket sample_runtime, planted_file)])"
  have "?b = (fst ?b, snd ?b)" by simp
  from foreign_socket_is_kept [OF this, of planted_file] show ?thesis
    by (simp add: runtime_tree_def planted_file_def private_meta_def)
qed

text \<open>a crash does not lock the user out: with the lock free, a private runtime directory
  and either no socket or the stale one of a daemon that died, binding succeeds and
  leaves a fresh private socket.\<close>

theorem stale_socket_is_replaced:
  assumes "tr_faults t = []" "re_absolute env" "re_lock_mode env = 384"
    and "map_of (tr_nodes t) (re_runtime env) = Some d" "private_directory (tr_uid t) d"
    and "case map_of (tr_nodes t) (lock_path env) of None \<Rightarrow> True | Some m \<Rightarrow> safe_lock m (tr_uid t)"
    and "case map_of (tr_nodes t) (re_socket env) of None \<Rightarrow> True
         | Some m \<Rightarrow> mt_kind m = Socket \<and> mt_uid m = tr_uid t"
    and "re_socket env \<noteq> lock_path env"
  shows "\<exists>t'. endpoint_bind env False t = (Ok (), t') \<and> socket_ready env t'"
proof -
  have sys: "tree_sys u = (Ok (), u)" if "tr_faults u = []" for u using that by (simp add: tree_sys_def)
  have dir: "mt_kind d = Directory" "fs_check d (tr_uid t) True = Ok ()"
    using assms(5) by (auto simp: private_directory_def fs_check_Ok)
  have opened: "private_open True (re_runtime env) t = (Ok d, t)"
    using dir assms(1,4)
    by (simp add: private_open_def create_directories.simps tree_stat_def sys st_defs ok_or_def)
  obtain t1 m where lock: "open_lock env t = (Ok m, t1)" "safe_lock m (tr_uid t1)" "tr_faults t1 = []"
    "tr_uid t1 = tr_uid t" "map_of (tr_nodes t1) (re_socket env) = map_of (tr_nodes t) (re_socket env)"
  proof (cases "map_of (tr_nodes t) (lock_path env)")
    case None
    let ?m = "\<lparr>mt_kind = Regular, mt_uid = tr_uid t, mt_mode = 384, mt_nlink = 1\<rparr>"
    have "open_lock env t = (Ok ?m, tree_put (lock_path env) ?m t)"
      using None assms(1,3) by (simp add: open_lock_def st_bind_def st_return_def Let_def sys)
    with that [of ?m "tree_put (lock_path env) ?m t"] assms(1,8) show ?thesis
      by (simp add: safe_lock_def permission_bits_def)
  next
    case (Some m)
    have "open_lock env t = (Ok m, t)"
      using Some assms(1,6) by (simp add: open_lock_def st_bind_def st_return_def sys safe_lock_def)
    with that [of m t] assms(1,6) Some show ?thesis by simp
  qed
  have b1: "bind_lock env False t = (Ok (), t1)"
    using opened lock assms(2)
    by (simp add: bind_lock_def st_defs take_lock_def sys)
  obtain t2 where clear: "clear_socket env t1 = (Ok (), t2)" "tr_faults t2 = []" "tr_uid t2 = tr_uid t"
    "map_of (tr_nodes t2) (re_socket env) = None"
    using lock(3,4,5) assms(7)
    by (cases "map_of (tr_nodes t) (re_socket env)")
      (auto simp: clear_socket_def tree_stat_def st_defs sys ok_or_def remove_socket_def tree_drop_def delete_conv')
  let ?m = "\<lparr>mt_kind = Socket, mt_uid = tr_uid t2, mt_mode = re_socket_mode env, mt_nlink = 1\<rparr>"
  let ?t3 = "tree_put (re_socket env) ?m t2"
  have "create_socket env t2 = (Ok (), ?t3)"
    by (simp add: create_socket_def st_bind_def sys clear(2,4))
  moreover have "set_mode (re_socket env) 384 ?t3 = (Ok (), tree_put (re_socket env) (?m\<lparr>mt_mode := 384\<rparr>) ?t3)"
    by (simp add: set_mode_def st_bind_def sys clear(2))
  ultimately have "bind_socket env t1 = (Ok (), tree_put (re_socket env) (?m\<lparr>mt_mode := 384\<rparr>) ?t3)"
    by (simp add: bind_socket_def st_bind_def st_map_err_def clear(1))
  with b1 bind_socket_cases [OF this] show ?thesis by (simp add: endpoint_bind_def st_bind_def)
qed

theorem stale_socket_is_replaced_witness:
  "\<exists>t'. endpoint_bind sample_runtime False
      (runtime_tree [(re_socket sample_runtime, (private_meta Socket)\<lparr>mt_mode := 493\<rparr>)]) = (Ok (), t') \<and>
    socket_ready sample_runtime t'"
  by (rule stale_socket_is_replaced [of _ _ "private_meta Directory"])
    (simp_all add: runtime_tree_def sample_runtime_def sample_tree_def lock_path_def private_directory_def
      private_meta_def permission_bits_def)

text \<open>Waiting for the daemon ends: at most one daemon is spawned, only when nothing
  answers, and within the timeout (polled every 20 ms) the wait ends with a connection or
  a timeout.\<close>

theorem ensure_running_returns:
  assumes "ticking 20 clock" "start \<le> clock 0" "timeout \<le> k * 20"
  shows "\<exists>res spawned. ensure_running connects spawn clock start timeout = Some (res, spawned) \<and>
    spawned = (\<not> connects 0 \<and> spawn = None) \<and>
    (case res of
       Inr _ \<Rightarrow> \<exists>i \<le> k + 1. connects i
     | Inl e \<Rightarrow> \<not> connects 0 \<and> (case spawn of Some x \<Rightarrow> e = DaemonIo x
         | None \<Rightarrow> e = DaemonIo IoTimedOut \<and> (\<exists>j \<le> k. start + timeout \<le> clock j \<and> \<not> connects (j + 1))))"
proof (cases "connects 0 \<or> spawn \<noteq> None")
  case True
  then show ?thesis by (cases spawn) (auto simp: ensure_running_def)
next
  case False
  let ?poll = "\<lambda>i. Ok (if connects (i + 1) then Some () else None) :: daemon_error + unit option"
  obtain j where j: "j \<le> k" "poll_loop ?poll clock (start + timeout) 0 = Some (?poll j)"
    "?poll j \<noteq> Inr None \<or> start + timeout \<le> clock j"
    by (rule poll_loop_ticking [OF assms, of ?poll]) blast
  show ?thesis
  proof (cases "connects (j + 1)")
    case True
    with False j show ?thesis by (auto simp: ensure_running_def intro!: exI [of _ "j + 1"])
  next
    case ne: False
    with False j show ?thesis by (auto simp: ensure_running_def intro!: exI [of _ j])
  qed
qed

theorem ensure_running_returns_witness:
  "\<exists>res spawned. ensure_running (\<lambda>i. i = 3) None (\<lambda>i. 20 * i) 0 5000 = Some (res, spawned) \<and>
    spawned = (\<not> (0 :: nat) = 3 \<and> (None :: io_kind option) = None) \<and>
    (case res of
       Inr _ \<Rightarrow> \<exists>i \<le> (250 :: nat) + 1. i = 3
     | Inl e \<Rightarrow> \<not> (0 :: nat) = 3 \<and> (case (None :: io_kind option) of Some x \<Rightarrow> e = DaemonIo x
         | None \<Rightarrow> e = DaemonIo IoTimedOut \<and> (\<exists>j \<le> (250 :: nat). 0 + 5000 \<le> 20 * j \<and> \<not> j + 1 = 3)))"
  by (rule ensure_running_returns) (simp_all add: ticking_def)

end
