(* ===== verification/Daemon_Connection.thy ===== *)
theory Daemon_Connection
  imports Daemon_Endpoint Daemon_Manager
begin

text \<open>
  One connection of the daemon, \<open>serve_connection\<close> of \<open>src/src/daemon/lifecycle.rs\<close>. The
  interface \<open>request_handler\<close> is the trait of that name with the law its clients rely on;
  the daemon's manager is its instance. \<open>run\<close> serves each accepted connection in a
  thread of its own.
\<close>

section \<open>The loop\<close>

text \<open>
  A handler gets the number of the request on the connection, which selects the outcomes of
  what it does outside the daemon; \<open>None\<close> is a panic. \<open>cn_faults\<close> gives the failure of each
  write, \<open>cn_events\<close> the events a subscription delivers until the hub drops it.
\<close>

type_synonym 's server = "nat \<Rightarrow> request \<Rightarrow> 's \<Rightarrow> (response \<times> 's) option"

record connection =
  cn_codec :: codec_io
  cn_faults :: "nat \<Rightarrow> io_kind option"
  cn_events :: "event list option"

definition version_refusal :: "request \<Rightarrow> response" where
  "version_refusal req = ipc_failure (rq_request_id req) UnsupportedVersion
     [Txt (lit ''protocol version ''), ShowNat (rq_protocol_version req),
      Txt (lit '' is unsupported; expected ''), ShowNat PROTOCOL_VERSION]"

definition answer :: "'s server \<Rightarrow> 's server" where
  "answer h n req st =
     (if rq_protocol_version req \<noteq> PROTOCOL_VERSION then Some (version_refusal req, st) else h n req st)"

definition oversized_frame :: response where
  "oversized_frame = ipc_failure 0 MessageTooLargeCode
     [Txt (lit ''message exceeds 1 MiB or is not newline terminated'')]"

definition malformed_frame :: response where
  "malformed_frame = ipc_failure 0 InvalidRequest [Txt (lit ''malformed request'')]"

fun send_events :: "(event \<Rightarrow> bytes option) \<Rightarrow> (nat \<Rightarrow> io_kind option) \<Rightarrow> nat \<Rightarrow> event list \<Rightarrow> bytes" where
  "send_events encode faults n [] = []"
| "send_events encode faults n (e # es) =
     (case write_frame encode (faults n) e of
        (Inl _, out) \<Rightarrow> out
      | (Inr _, out) \<Rightarrow> out @ send_events encode faults (n + 1) es)"

function serve ::
  "connection \<Rightarrow> 's server \<Rightarrow> nat \<Rightarrow> stream \<Rightarrow> 's \<Rightarrow> ((daemon_error + unit) \<times> bytes \<times> 's) option" where
  "serve c h n s st =
     (case read_frame (dec_request (cn_codec c)) s of
        (Inl e, _) \<Rightarrow>
          if e = Disconnected then Some (Ok (), [], st)
          else if e = MessageTooLarge
          then Some (Ok (), snd (write_frame (enc_response (cn_codec c)) (cn_faults c n) oversized_frame), st)
          else if e = InvalidMessage
          then Some (Ok (), snd (write_frame (enc_response (cn_codec c)) (cn_faults c n) malformed_frame), st)
          else Some (Err (DaemonTransport e), [], st)
      | (Inr req, s') \<Rightarrow>
          (case answer h n req st of
             None \<Rightarrow> None
           | Some (resp, st') \<Rightarrow>
               (case write_frame (enc_response (cn_codec c)) (cn_faults c n) resp of
                  (Inl e, out) \<Rightarrow> Some (Err (DaemonTransport e), out, st')
                | (Inr _, out) \<Rightarrow>
                    if rq_operation req = Subscribe
                    then Some (Ok (), out @ (case cn_events c of None \<Rightarrow> []
                      | Some es \<Rightarrow> send_events (enc_event (cn_codec c)) (cn_faults c) (n + 1) es), st')
                    else map_option (\<lambda>(res, out', st''). (res, out @ out', st''))
                      (serve c h (n + 1) s' st'))))"
  by pat_completeness auto

termination serve
proof (relation "measure (\<lambda>(c, h, n, s, st). length (in_bytes s))", goal_cases)
  case 1
  show ?case by simp
next
  case (2 c h n s st x s' req)
  then show ?case using read_frame_Ok [of "dec_request (cn_codec c)" s req s'] by auto
qed

declare serve.simps [simp del]

text \<open>
  What the requests of a conversation are due, one after the other: a request of this
  version is given to the handler, one of another version is refused and has no effect.
\<close>

definition due :: "'s server \<Rightarrow> 's server" where
  "due h n req st =
     (if rq_protocol_version req = PROTOCOL_VERSION then h n req st
      else Some (ipc_failure (rq_request_id req) UnsupportedVersion
        [Txt (lit ''protocol version ''), ShowNat (rq_protocol_version req),
         Txt (lit '' is unsupported; expected ''), ShowNat PROTOCOL_VERSION], st))"

fun respond_all :: "'s server \<Rightarrow> nat \<Rightarrow> request list \<Rightarrow> 's \<Rightarrow> (response list \<times> 's) option" where
  "respond_all h n [] st = Some ([], st)"
| "respond_all h n (r # rs) st =
     (case due h n r st of
        None \<Rightarrow> None
      | Some (resp, st1) \<Rightarrow>
          map_option (\<lambda>(resps, st2). (resp # resps, st2)) (respond_all h (n + 1) rs st1))"

lemma due_answer [simp]: "due h n req st = answer h n req st"
  by (simp add: due_def answer_def version_refusal_def)

text \<open>
  How a connection may end, stated over the list of its requests and their answers. A
  response goes out under the number of its request; the connection stays open over
  requests that are no subscription and whose responses were written. \<open>connection_end\<close>:
  either it stayed open over all of them and the next frame could not be read, which an
  oversized or malformed frame is told before the end; or the last response could not be
  written; or the last request was a subscription, whose events follow.
\<close>

definition reply :: "connection \<Rightarrow> nat \<Rightarrow> response \<Rightarrow> (transport_error + unit) \<times> bytes" where
  "reply c n resp = write_frame (enc_response (cn_codec c)) (cn_faults c n) resp"

fun replied :: "connection \<Rightarrow> nat \<Rightarrow> response list \<Rightarrow> bytes" where
  "replied c n [] = []"
| "replied c n (resp # resps) = snd (reply c n resp) @ replied c (n + 1) resps"

fun stays_open :: "connection \<Rightarrow> nat \<Rightarrow> (request \<times> response) list \<Rightarrow> bool" where
  "stays_open c n [] = True"
| "stays_open c n ((req, resp) # steps) \<longleftrightarrow>
     rq_operation req \<noteq> Subscribe \<and> is_ok (fst (reply c n resp)) \<and> stays_open c (n + 1) steps"

definition farewell :: "connection \<Rightarrow> nat \<Rightarrow> transport_error \<Rightarrow> (daemon_error + unit) \<times> bytes" where
  "farewell c n e =
     (case e of
        Disconnected \<Rightarrow> (Ok (), [])
      | MessageTooLarge \<Rightarrow> (Ok (), snd (reply c n oversized_frame))
      | InvalidMessage \<Rightarrow> (Ok (), snd (reply c n malformed_frame))
      | _ \<Rightarrow> (Err (DaemonTransport e), []))"

definition subscribed :: "connection \<Rightarrow> nat \<Rightarrow> bytes" where
  "subscribed c n = (case cn_events c of None \<Rightarrow> []
     | Some es \<Rightarrow> send_events (enc_event (cn_codec c)) (cn_faults c) n es)"

definition connection_end ::
  "connection \<Rightarrow> nat \<Rightarrow> stream \<Rightarrow> request list \<Rightarrow> response list \<Rightarrow>
    (daemon_error + unit) \<Rightarrow> bytes \<Rightarrow> bool" where
  "connection_end c n s reqs resps res out \<longleftrightarrow>
     (let dec = dec_request (cn_codec c); steps = zip reqs resps; m = n + length reqs in
      if stays_open c n steps
      then (case fst (read_frame dec (snd (read_frames dec (length reqs) s))) of
              Inl e \<Rightarrow> res = fst (farewell c m e) \<and> out = replied c n resps @ snd (farewell c m e)
            | Inr _ \<Rightarrow> False)
      else stays_open c n (butlast steps) \<and>
        (case fst (reply c (m - 1) (last resps)) of
           Inl e \<Rightarrow> res = Err (DaemonTransport e) \<and> out = replied c n resps
         | Inr _ \<Rightarrow> res = Ok () \<and> out = replied c n resps @ subscribed c m))"

text \<open>
  The end of a conversation of whole requests. A response the transport does not carry,
  because it has no JSON or has more than 1 MiB of it, ends the conversation unanswered.
\<close>

definition unsendable :: "connection \<Rightarrow> response \<Rightarrow> transport_error option" where
  "unsendable c resp =
     (case enc_response (cn_codec c) resp of
        None \<Rightarrow> Some InvalidMessage
      | Some bs \<Rightarrow> if MAX_MESSAGE_BYTES < length bs then Some MessageTooLarge else None)"

definition conversation_end ::
  "connection \<Rightarrow> request list \<Rightarrow> response list \<Rightarrow> (daemon_error + unit) \<Rightarrow> bytes \<Rightarrow> bool" where
  "conversation_end c reqs resps res out \<longleftrightarrow>
     (if list_all (\<lambda>resp. unsendable c resp = None) resps
      then length resps = length reqs \<and> res = Ok () \<and>
        out = write_frames (enc_response (cn_codec c)) resps
      else list_all (\<lambda>resp. unsendable c resp = None) (butlast resps) \<and>
        res = Err (DaemonTransport (the (unsendable c (last resps)))) \<and>
        out = write_frames (enc_response (cn_codec c)) (butlast resps))"

lemma connection_end_Nil:
  "read_frame (dec_request (cn_codec c)) s = (Err e, s') \<Longrightarrow>
   connection_end c n s [] [] (fst (farewell c n e)) (snd (farewell c n e))"
  by (simp add: connection_end_def)

lemma connection_end_single:
  "reply c n resp = (r, out) \<Longrightarrow> \<not> is_ok r \<or> rq_operation req = Subscribe \<Longrightarrow>
   connection_end c n s [req] [resp]
     (case r of Inl e \<Rightarrow> Err (DaemonTransport e) | Inr _ \<Rightarrow> Ok ())
     (case r of Inl e \<Rightarrow> out | Inr _ \<Rightarrow> out @ subscribed c (n + 1))"
  by (cases r) (auto simp: connection_end_def)

lemma connection_end_Cons:
  assumes "read_frame (dec_request (cn_codec c)) s = (Ok req, s')"
    and "reply c n resp = (Ok u, out)" and "rq_operation req \<noteq> Subscribe"
    and "length resps = length reqs"
    and "connection_end c (n + 1) s' reqs resps res out'"
  shows "connection_end c n s (req # reqs) (resp # resps) res (out @ out')"
  using assms
  by (cases "reqs = []"; cases "resps = []")
    (auto simp: connection_end_def Let_def case_prod_unfold split: if_splits sum.splits)

section \<open>Handlers\<close>

locale request_handler =
  fixes handler :: "nat \<Rightarrow> request \<Rightarrow> 's \<Rightarrow> (response \<times> 's) option"
  assumes handler_answers: "\<exists>resp st'. handler n req st = Some (resp, st') \<and> response_id resp = rq_request_id req"
begin

lemma answer_ok:
  "\<exists>resp st'. answer handler n req st = Some (resp, st') \<and> response_id resp = rq_request_id req"
  using handler_answers by (simp add: answer_def version_refusal_def)

text \<open>Whatever arrives, the handler is applied to the whole frames at the start of the stream,
  up to the point the connection ends at.\<close>

lemma serve_ends:
  "\<exists>res out st' reqs resps. serve c handler n s st = Some (res, out, st') \<and>
     fst (read_frames (dec_request (cn_codec c)) (length reqs) s) = map Ok reqs \<and>
     respond_all handler n reqs st = Some (resps, st') \<and>
     map response_id resps = map rq_request_id reqs \<and>
     connection_end c n s reqs resps res out"
proof (induction "length (in_bytes s)" arbitrary: n s st rule: less_induct)
  case less
  obtain r s' where r: "read_frame (dec_request (cn_codec c)) s = (r, s')" by fastforce
  show ?case
  proof (cases r)
    case (Inl e)
    with r have "serve c handler n s st = Some (fst (farewell c n e), snd (farewell c n e), st)"
      by (simp add: serve.simps [of c handler n s st] farewell_def reply_def split: transport_error.splits)
    with connection_end_Nil [of c s e s'] r Inl show ?thesis
      by (intro exI [of _ "fst (farewell c n e)"] exI [of _ "snd (farewell c n e)"] exI [of _ st]
          exI [of _ "[]"] exI [of _ "[]"]) simp
  next
    case (Inr req)
    obtain resp st1 where a: "answer handler n req st = Some (resp, st1)" "response_id resp = rq_request_id req"
      using answer_ok by blast
    obtain w out where w: "reply c n resp = (w, out)" by fastforce
    show ?thesis
    proof (cases "\<not> is_ok w \<or> rq_operation req = Subscribe")
      case True
      with r Inr a w have "serve c handler n s st = Some
          (case w of Inl e \<Rightarrow> Err (DaemonTransport e) | Inr _ \<Rightarrow> Ok (),
           case w of Inl e \<Rightarrow> out | Inr _ \<Rightarrow> out @ subscribed c (n + 1), st1)"
        by (auto simp: serve.simps [of c handler n s st] reply_def subscribed_def split: sum.splits option.splits)
      with connection_end_single [OF w True, of s] r Inr a show ?thesis
        by (intro exI [of _ "case w of Inl e \<Rightarrow> Err (DaemonTransport e) | Inr _ \<Rightarrow> Ok ()"]
            exI [of _ "case w of Inl e \<Rightarrow> out | Inr _ \<Rightarrow> out @ subscribed c (n + 1)"]
            exI [of _ st1] exI [of _ "[req]"] exI [of _ "[resp]"]) simp
    next
      case False
      then obtain u where u: "w = Ok u" "rq_operation req \<noteq> Subscribe" by (cases w) auto
      have "length (in_bytes s') < length (in_bytes s)"
        using read_frame_Ok [of "dec_request (cn_codec c)" s req s'] r Inr by auto
      from less [OF this, of "n + 1" st1] obtain res out' st' reqs resps where n:
        "serve c handler (n + 1) s' st1 = Some (res, out', st')"
        "fst (read_frames (dec_request (cn_codec c)) (length reqs) s') = map Ok reqs"
        "respond_all handler (n + 1) reqs st1 = Some (resps, st')"
        "map response_id resps = map rq_request_id reqs"
        "connection_end c (n + 1) s' reqs resps res out'" by blast
      from n(1) r Inr a w u have "serve c handler n s st = Some (res, out @ out', st')"
        by (simp add: serve.simps [of c handler n s st] reply_def)
      moreover have "connection_end c n s (req # reqs) (resp # resps) res (out @ out')"
        using r Inr w u n map_eq_imp_length_eq [OF n(4)] by (intro connection_end_Cons) auto
      ultimately show ?thesis using r Inr a n
        by (intro exI [of _ res] exI [of _ "out @ out'"] exI [of _ st'] exI [of _ "req # reqs"]
            exI [of _ "resp # resps"]) (simp add: case_prod_unfold)
    qed
  qed
qed

text \<open>A clean conversation, request by request.\<close>

lemma serve_conversation:
  assumes "list_all (frameable (enc_request (cn_codec c)) (dec_request (cn_codec c))) reqs"
    and "list_all (\<lambda>r. rq_operation r \<noteq> Subscribe) reqs"
    and "\<And>i. cn_faults c i = None"
  shows "\<exists>resps res out st'.
    serve c handler n \<lparr>in_bytes = write_frames (enc_request (cn_codec c)) reqs, in_fault = None\<rparr> st =
      Some (res, out, st') \<and>
    respond_all handler n (take (length resps) reqs) st = Some (resps, st') \<and>
    map response_id resps = map rq_request_id (take (length resps) reqs) \<and>
    conversation_end c reqs resps res out"
  using assms(1,2)
proof (induction reqs arbitrary: n st)
  case Nil
  have "read_frame (dec_request (cn_codec c)) \<lparr>in_bytes = [], in_fault = None\<rparr> =
      (Err Disconnected, \<lparr>in_bytes = [], in_fault = None\<rparr>)"
    by (simp add: read_frame_def)
  then show ?case
    by (intro exI [of _ "[]"] exI [of _ "Ok ()"]) (simp add: serve.simps conversation_end_def)
next
  case (Cons req reqs)
  let ?s = "\<lparr>in_bytes = write_frames (enc_request (cn_codec c)) reqs, in_fault = None\<rparr>"
  obtain bs where t: "enc_request (cn_codec c) req = Some bs" "10 \<notin> set bs"
    "length bs \<le> MAX_MESSAGE_BYTES" "dec_request (cn_codec c) bs = Some req"
    using Cons.prems(1) by (auto simp: frameable_def split: option.splits)
  then have w: "write_frame (enc_request (cn_codec c)) None req = (Ok (), bs @ [10])"
    by (simp add: write_frame_def)
  have r: "read_frame (dec_request (cn_codec c))
      \<lparr>in_bytes = (bs @ [10]) @ write_frames (enc_request (cn_codec c)) reqs, in_fault = None\<rparr> = (Ok req, ?s)"
    using w t by (intro read_frame_written)
  obtain resp st1 where a: "answer handler n req st = Some (resp, st1)" "response_id resp = rq_request_id req"
    using answer_ok by blast
  show ?case
  proof (cases "unsendable c resp")
    case None
    then obtain rb where rb: "write_frame (enc_response (cn_codec c)) None resp = (Ok (), rb)"
      by (auto simp: write_frame_def unsendable_def split: option.splits if_splits)
    obtain resps res out st' where IH: "serve c handler (n + 1) ?s st1 = Some (res, out, st')"
      "respond_all handler (n + 1) (take (length resps) reqs) st1 = Some (resps, st')"
      "map response_id resps = map rq_request_id (take (length resps) reqs)"
      "conversation_end c reqs resps res out"
      using Cons.IH [of "n + 1" st1] Cons.prems by auto
    have "conversation_end c (req # reqs) (resp # resps) res (rb @ out)"
      using IH(4) None rb by (cases "resps = []") (auto simp: conversation_end_def split: if_splits)
    with w r rb IH a Cons.prems(2) show ?thesis
      by (intro exI [of _ "resp # resps"] exI [of _ res] exI [of _ "rb @ out"] exI [of _ st'])
        (simp add: serve.simps [of c handler n] assms(3))
  next
    case (Some e)
    then have "write_frame (enc_response (cn_codec c)) None resp = (Err e, [])"
      by (auto simp: write_frame_def unsendable_def split: option.splits if_splits)
    with w r a Some show ?thesis
      by (intro exI [of _ "[resp]"] exI [of _ "Err (DaemonTransport e)"] exI [of _ "[]"] exI [of _ st1])
        (simp add: serve.simps [of c handler n] assms(3) conversation_end_def)
  qed
qed

end

section \<open>The daemon as a handler\<close>

definition daemon_server :: "manager_env \<Rightarrow> (nat \<Rightarrow> request_oracle) \<Rightarrow> daemon server" where
  "daemon_server env orcs n req st = handle env (orcs n) req st"

interpretation manager: request_handler "daemon_server env orcs" for env orcs
  by unfold_locales (unfold daemon_server_def, rule handle_answers)

section \<open>Properties\<close>

text \<open>C26: a conversation with the daemon is answered in order: for requests that are no
  subscription, sent one after the other, the daemon writes one response frame per request,
  in the same order and with the same ids, and its state is the one the answered requests
  lead to. It ends the connection cleanly after the last; only a response that has no JSON
  or more than 1 MiB of it is not written, and then the connection ends with that error
  although the request had its effect, and the later requests have none.\<close>

theorem conversation_is_answered:
  assumes "list_all (frameable (enc_request (cn_codec c)) (dec_request (cn_codec c))) reqs"
    and "list_all (\<lambda>r. rq_operation r \<noteq> Subscribe) reqs"
    and "\<And>i. cn_faults c i = None"
  shows "\<exists>resps res out st'.
    serve c (daemon_server env orcs) 0
      \<lparr>in_bytes = write_frames (enc_request (cn_codec c)) reqs, in_fault = None\<rparr> st = Some (res, out, st') \<and>
    respond_all (daemon_server env orcs) 0 (take (length resps) reqs) st = Some (resps, st') \<and>
    map response_id resps = map rq_request_id (take (length resps) reqs) \<and>
    conversation_end c reqs resps res out"
  using assms by (rule manager.serve_conversation)

definition list_request :: request where
  "list_request = request_new 7 ForwardList JNull"

definition old_request :: request where
  "old_request = (request_new 9 ForwardList JNull)\<lparr>rq_protocol_version := 0\<rparr>"

definition sample_connection :: connection where
  "sample_connection = \<lparr>cn_codec = echo_codec
       \<lparr>enc_request := (\<lambda>req. if rq_request_id req = 7 then Some [1] else Some [3]),
        dec_request := (\<lambda>bs. if bs = [1] then Some list_request else if bs = [3] then Some old_request else None),
        enc_response := (\<lambda>resp. case resp of Success r \<Rightarrow> Some [2] | Failure e \<Rightarrow> None)\<rparr>,
     cn_faults = (\<lambda>_. None), cn_events = None\<rparr>"

theorem conversation_is_answered_witness:
  "\<forall>env orcs st. \<exists>resps res out st'.
    serve sample_connection (daemon_server env orcs) 0
      \<lparr>in_bytes = write_frames (enc_request (cn_codec sample_connection)) [list_request, old_request, list_request],
       in_fault = None\<rparr> st = Some (res, out, st') \<and>
    respond_all (daemon_server env orcs) 0 (take (length resps) [list_request, old_request, list_request]) st =
      Some (resps, st') \<and>
    map response_id resps =
      map rq_request_id (take (length resps) [list_request, old_request, list_request]) \<and>
    conversation_end sample_connection [list_request, old_request, list_request] resps res out"
  by (intro allI, rule conversation_is_answered)
    (simp_all add: sample_connection_def echo_codec_def frameable_def MAX_MESSAGE_BYTES_def
      list_request_def old_request_def request_new_def)

text \<open>C27: whatever bytes a client sends and whichever write fails, a connection ends, and what
  it did to the daemon is what the well-formed frames at the start of its stream asked
  for, one after the other, those of another protocol version refused without effect and each
  answered under its own id. It stops exactly at the first frame that cannot be read, which
  has no effect, at the first response that cannot be written, or after a subscription; the
  bytes the client gets are the answers up to there, and its result tells which it was.\<close>

theorem connection_is_safe:
  "\<exists>res out st' reqs resps. serve c (daemon_server env orcs) n s st = Some (res, out, st') \<and>
     fst (read_frames (dec_request (cn_codec c)) (length reqs) s) = map Ok reqs \<and>
     respond_all (daemon_server env orcs) n reqs st = Some (resps, st') \<and>
     map response_id resps = map rq_request_id reqs \<and> connection_end c n s reqs resps res out"
  by (rule manager.serve_ends)

section \<open>Accepting connections\<close>

text \<open>
  \<open>run\<close>: the connections that get a thread, and the error it ends with. The first \<open>accept\<close> that
  fails, for whatever reason, ends the daemon.
\<close>

fun accept_loop :: "(io_kind + 'c) list \<Rightarrow> 'c list \<times> daemon_error option" where
  "accept_loop [] = ([], None)"
| "accept_loop (Inl e # rest) = ([], Some (DaemonIo e))"
| "accept_loop (Inr c # rest) = (let (served, r) = accept_loop rest in (c # served, r))"

lemma accept_loop_ends:
  "accept_loop accepts = (served, Some err) \<Longrightarrow>
   \<exists>e rest. accepts = map Ok served @ Err e # rest \<and> err = DaemonIo e"
  by (induction accepts arbitrary: served rule: accept_loop.induct) (auto split: prod.splits)

end
