(* ===== verification/Wire_Json.thy ===== *)
theory Wire_Json
  imports Ipc_Model
begin

text \<open>
  Wire rules as JSON: what serde makes of the attributes on \<open>Rule\<close> in
  \<open>src/src/config/mod.rs\<close> (tagged by \<open>kind\<close>, lower-case tags, no unknown fields), and
  the \<open>Value\<close> accessors the clients read answers with. How a UUID is written is an
  argument.
\<close>

section \<open>Reading values\<close>

text \<open>\<open>value["key"]\<close>, which is null where the key is missing, and the \<open>as_\<close> readers.\<close>

definition json_at :: "json \<Rightarrow> string \<Rightarrow> json" where
  "json_at j key = (case json_get j key of Some v \<Rightarrow> v | None \<Rightarrow> JNull)"

fun as_str :: "json \<Rightarrow> rstr option" where
  "as_str (JStr s) = Some s"
| "as_str _ = None"

fun as_u64 :: "json \<Rightarrow> nat option" where
  "as_u64 (JNat n) = Some n"
| "as_u64 _ = None"

fun as_array :: "json \<Rightarrow> json list option" where
  "as_array (JArr vs) = Some vs"
| "as_array _ = None"

text \<open>\<open>value["key"] = v\<close> on an object.\<close>

fun json_set :: "json \<Rightarrow> string \<Rightarrow> json \<Rightarrow> json" where
  "json_set (JObj kvs) key v = JObj (AList.update key v kvs)"
| "json_set j key v = j"

section \<open>Rules\<close>

definition json_u16 :: "u16 \<Rightarrow> json" where
  "json_u16 p = JNat (unat p)"

definition endpoints_json :: "(uuid \<Rightarrow> json) \<Rightarrow> string \<Rightarrow> wire_endpoints \<Rightarrow> json" where
  "endpoints_json ser kind w = JObj [(''kind'', JStr (lit kind)), (''id'', ser (w_id w)),
     (''name'', JStr (w_name w)), (''ssh_host_alias'', JStr (w_ssh_host_alias w)),
     (''bind_address'', JStr (w_bind_address w)), (''bind_port'', json_u16 (w_bind_port w)),
     (''destination_host'', JStr (w_destination_host w)),
     (''destination_port'', json_u16 (w_destination_port w)),
     (''auto_start'', JBool (w_auto_start w)), (''reconnect'', JBool (w_reconnect w))]"

primrec rule_to_json :: "(uuid \<Rightarrow> json) \<Rightarrow> wire_rule \<Rightarrow> json" where
  "rule_to_json ser (WLocal w) = endpoints_json ser ''local'' w"
| "rule_to_json ser (WRemote w) = endpoints_json ser ''remote'' w"
| "rule_to_json ser (WDynamic w) = JObj [(''kind'', JStr (lit ''dynamic'')), (''id'', ser (wd_id w)),
     (''name'', JStr (wd_name w)), (''ssh_host_alias'', JStr (wd_ssh_host_alias w)),
     (''bind_address'', JStr (wd_bind_address w)), (''bind_port'', json_u16 (wd_bind_port w)),
     (''auto_start'', JBool (wd_auto_start w)), (''reconnect'', JBool (wd_reconnect w))]"

lemma rule_to_json_hosts:
  "json_at (rule_to_json ser (WLocal w)) ''kind'' = JStr (lit ''local'')"
  "json_at (rule_to_json ser (WRemote w)) ''kind'' = JStr (lit ''remote'')"
  "json_at (rule_to_json ser (WDynamic l)) ''kind'' = JStr (lit ''dynamic'')"
  "json_at (rule_to_json ser (WLocal w)) ''bind_address'' = JStr (w_bind_address w)"
  "json_at (rule_to_json ser (WRemote w)) ''bind_address'' = JStr (w_bind_address w)"
  "json_at (rule_to_json ser (WDynamic l)) ''bind_address'' = JStr (wd_bind_address l)"
  "json_at (rule_to_json ser (WLocal w)) ''destination_host'' = JStr (w_destination_host w)"
  "json_at (rule_to_json ser (WRemote w)) ''destination_host'' = JStr (w_destination_host w)"
  by (simp_all add: json_at_def endpoints_json_def)

definition u16_at :: "json \<Rightarrow> string \<Rightarrow> u16 option" where
  "u16_at j key =
     (case as_u64 (json_at j key) of
        Some n \<Rightarrow> if n < 65536 then Some (of_nat n) else None
      | None \<Rightarrow> None)"

definition listener_keys :: "string list" where
  "listener_keys = [''kind'', ''id'', ''name'', ''ssh_host_alias'', ''bind_address'', ''bind_port'',
     ''auto_start'', ''reconnect'']"

definition destination_keys :: "string list" where
  "destination_keys = [''destination_host'', ''destination_port'']"

fun only_keys :: "string list \<Rightarrow> json \<Rightarrow> bool" where
  "only_keys keys (JObj kvs) \<longleftrightarrow> set (map fst kvs) \<subseteq> set keys"
| "only_keys keys _ \<longleftrightarrow> False"

definition listener_from_json :: "(json \<Rightarrow> uuid option) \<Rightarrow> json \<Rightarrow> wire_listener option" where
  "listener_from_json de j =
     Option.bind (Option.bind (json_get j ''id'') de) (\<lambda>i.
     Option.bind (as_str (json_at j ''name'')) (\<lambda>name.
     Option.bind (as_str (json_at j ''ssh_host_alias'')) (\<lambda>alias.
     Option.bind (as_str (json_at j ''bind_address'')) (\<lambda>address.
     Option.bind (u16_at j ''bind_port'') (\<lambda>bport.
     Option.bind (as_bool (json_at j ''auto_start'')) (\<lambda>auto_start.
     Option.bind (as_bool (json_at j ''reconnect'')) (\<lambda>reconnect.
       Some \<lparr>wd_id = i, wd_name = name, wd_ssh_host_alias = alias, wd_bind_address = address,
         wd_bind_port = bport, wd_auto_start = auto_start, wd_reconnect = reconnect\<rparr>)))))))"

definition endpoints_from_json :: "(json \<Rightarrow> uuid option) \<Rightarrow> json \<Rightarrow> wire_endpoints option" where
  "endpoints_from_json de j =
     Option.bind (listener_from_json de j) (\<lambda>l.
     Option.bind (as_str (json_at j ''destination_host'')) (\<lambda>host.
     Option.bind (u16_at j ''destination_port'') (\<lambda>dport.
       Some \<lparr>w_id = wd_id l, w_name = wd_name l, w_ssh_host_alias = wd_ssh_host_alias l,
         w_bind_address = wd_bind_address l, w_bind_port = wd_bind_port l,
         w_destination_host = host, w_destination_port = dport,
         w_auto_start = wd_auto_start l, w_reconnect = wd_reconnect l\<rparr>)))"

definition rule_from_json :: "(json \<Rightarrow> uuid option) \<Rightarrow> json \<Rightarrow> wire_rule option" where
  "rule_from_json de j =
     (let kind = as_str (json_at j ''kind'') in
      if kind = Some (lit ''local'') \<and> only_keys (listener_keys @ destination_keys) j
      then map_option WLocal (endpoints_from_json de j)
      else if kind = Some (lit ''remote'') \<and> only_keys (listener_keys @ destination_keys) j
      then map_option WRemote (endpoints_from_json de j)
      else if kind = Some (lit ''dynamic'') \<and> only_keys listener_keys j
      then map_option WDynamic (listener_from_json de j)
      else None)"

lemma u16_at_json: "json_get j key = Some (json_u16 p) \<Longrightarrow> u16_at j key = Some p"
  using unsigned_less [of p] by (simp add: u16_at_def json_at_def json_u16_def)

lemmas rule_json_defs = rule_from_json_def endpoints_from_json_def listener_from_json_def
  endpoints_json_def listener_keys_def destination_keys_def json_at_def

lemma rule_json_inverse:
  assumes "\<And>i. de (ser i) = Some i"
  shows "rule_from_json de (rule_to_json ser w) = Some w"
  using assms by (cases w) (simp_all add: rule_json_defs u16_at_json)

end
