(* ===== verification/Tui_Model.thy ===== *)
theory Tui_Model
  imports Ssh_Hosts Paths_Model Wire_Json
begin

text \<open>
  The terminal client, \<open>src/src/tui/mod.rs\<close>: its state and what a key, a mouse event or a
  daemon event does to it and asks of the daemon. Drawing is not modelled. The daemon, the
  port probe, serde and the layout library are the fields of \<open>ui_env\<close>; the texts shown to
  the user are the constructors of \<open>notice\<close> and \<open>form_error\<close>.
\<close>

section \<open>Data\<close>

datatype ui_page = Dashboard | Hosts | Detail | SettingsPage | Help

record rule_view =
  rv_id :: uuid
  rv_name :: rstr
  rv_host :: rstr
  rv_bind_address :: rstr
  rv_bind_port :: u16
  rv_destination_port :: "u16 option"
  rv_destination_host :: "rstr option"
  rv_state :: rstr
  rv_kind :: string
  rv_auto_start :: bool
  rv_reconnect :: bool
  rv_uptime_seconds :: nat
  rv_reconnect_count :: nat
  rv_last_error :: "rstr option"

definition view_from_wire :: "wire_rule \<Rightarrow> rule_view" where
  "view_from_wire wire =
     (let view = (\<lambda>kind i name host bind port dport dhost auto_start reconnect.
        \<lparr>rv_id = i, rv_name = name, rv_host = host, rv_bind_address = bind, rv_bind_port = port,
         rv_destination_port = dport, rv_destination_host = dhost, rv_state = lit ''stopped'',
         rv_kind = kind, rv_auto_start = auto_start, rv_reconnect = reconnect,
         rv_uptime_seconds = 0, rv_reconnect_count = 0, rv_last_error = None\<rparr>)
      in case wire of
        WLocal w \<Rightarrow> view ''local'' (w_id w) (w_name w) (w_ssh_host_alias w) (w_bind_address w)
          (w_bind_port w) (Some (w_destination_port w)) (Some (w_destination_host w))
          (w_auto_start w) (w_reconnect w)
      | WRemote w \<Rightarrow> view ''remote'' (w_id w) (w_name w) (w_ssh_host_alias w) (w_bind_address w)
          (w_bind_port w) (Some (w_destination_port w)) (Some (w_destination_host w))
          (w_auto_start w) (w_reconnect w)
      | WDynamic w \<Rightarrow> view ''dynamic'' (wd_id w) (wd_name w) (wd_ssh_host_alias w)
          (wd_bind_address w) (wd_bind_port w) None None (wd_auto_start w) (wd_reconnect w))"

definition view_endpoints :: "rule_view \<Rightarrow> wire_endpoints" where
  "view_endpoints v = \<lparr>w_id = rv_id v, w_name = rv_name v, w_ssh_host_alias = rv_host v,
     w_bind_address = rv_bind_address v, w_bind_port = rv_bind_port v,
     w_destination_host = (case rv_destination_host v of Some h \<Rightarrow> h | None \<Rightarrow> []),
     w_destination_port = (case rv_destination_port v of Some p \<Rightarrow> p | None \<Rightarrow> 0),
     w_auto_start = rv_auto_start v, w_reconnect = rv_reconnect v\<rparr>"

definition view_to_wire :: "rule_view \<Rightarrow> wire_rule" where
  "view_to_wire v =
     (if rv_kind v = ''remote'' then WRemote (view_endpoints v)
      else if rv_kind v = ''dynamic''
      then WDynamic \<lparr>wd_id = rv_id v, wd_name = rv_name v, wd_ssh_host_alias = rv_host v,
        wd_bind_address = rv_bind_address v, wd_bind_port = rv_bind_port v,
        wd_auto_start = rv_auto_start v, wd_reconnect = rv_reconnect v\<rparr>
      else WLocal (view_endpoints v))"

definition view_url :: "rule_view \<Rightarrow> rstr \<Rightarrow> rstr" where
  "view_url v scheme =
     (let address = (if 58 \<in> set (rv_bind_address v) then [91] @ rv_bind_address v @ [93]
            else rv_bind_address v)
      in scheme @ lit ''://'' @ address @ [58] @ show_nat (unat (rv_bind_port v)))"

datatype import_problem =
    RuleProblem validation_error
  | HostProblem host_error
  | ServiceProblem message

record import_panel =
  im_host :: rstr
  im_preview :: "import_preview option"
  im_error :: "import_problem option"
  im_cursor :: nat
  im_selected :: "nat list"
  im_confirming :: bool

definition panel_preview :: "import_preview \<Rightarrow> import_panel" where
  "panel_preview p = \<lparr>im_host = ip_alias p, im_preview = Some p, im_error = None, im_cursor = 0,
     im_selected = [], im_confirming = False\<rparr>"

definition panel_error :: "rstr \<Rightarrow> import_problem \<Rightarrow> import_panel" where
  "panel_error host e = \<lparr>im_host = host, im_preview = None, im_error = Some e, im_cursor = 0,
     im_selected = [], im_confirming = False\<rparr>"

datatype form_error =
    FormInvalid validation_error
  | PortInUse nat
  | SavedNotStarted message
  | FormRefused message

record ui_form =
  fm_id :: uuid
  fm_editing :: bool
  fm_active_original :: "wire_rule option"
  fm_host :: rstr
  fm_name :: rstr
  fm_remote_port :: rstr
  fm_local_port :: rstr
  fm_field :: nat
  fm_suggestion :: "nat option"
  fm_error :: "form_error option"
  fm_kind :: string
  fm_auto_start :: bool
  fm_reconnect :: bool

datatype notice =
    Welcome
  | Plain message
  | HostNotice host_error
  | RuleNotice validation_error
  | SelectionNotice selection_error
  | ImportSaved nat
  | StopNotConfirmed message
  | RuleDeleted
  | RemoveFailed message
  | RuleVanished message
  | RemoveUnknown message message
  | EditSaved
  | EditUncertain message
  | DisplayStale message
  | EditUnknown message message
  | AddedAndStarted
  | SettingsSaved
  | ChooseHost
  | HostsRefreshed
  | EditLater
  | BrowserOpened rstr
  | BrowserFailed rstr io_kind

record delete_confirmation =
  dc_id :: uuid
  dc_stop_first :: bool

record ui_app =
  ap_page :: ui_page
  ap_hosts_return :: "ui_page option"
  ap_hosts :: "rstr list"
  ap_rules :: "rule_view list"
  ap_selected_host :: nat
  ap_selected_rule :: nat
  ap_host_offset :: nat
  ap_rule_offset :: nat
  ap_selected_id :: "uuid option"
  ap_form :: "ui_form option"
  ap_confirm_delete :: "delete_confirmation option"
  ap_import :: "import_panel option"
  ap_message :: notice
  ap_settings :: settings
  ap_settings_field :: nat
  ap_quit :: bool

definition app_default :: ui_app where
  "app_default = \<lparr>ap_page = Dashboard, ap_hosts_return = None, ap_hosts = [], ap_rules = [],
     ap_selected_host = 0, ap_selected_rule = 0, ap_host_offset = 0, ap_rule_offset = 0,
     ap_selected_id = None, ap_form = None, ap_confirm_delete = None, ap_import = None,
     ap_message = Welcome, ap_settings = default_settings, ap_settings_field = 0, ap_quit = False\<rparr>"

datatype key_code =
    KChar rchar | KEnter | KEsc | KTab | KBackTab | KUp | KDown | KLeft | KRight | KBackspace
  | KF nat | KOther

record key_event =
  ke_code :: key_code
  ke_control :: bool

text \<open>Screen coordinates; a rectangle holds the cells from \<open>rc_x\<close> up to \<open>rc_right\<close>, excluded.\<close>

record rect =
  rc_x :: nat
  rc_y :: nat
  rc_width :: nat
  rc_height :: nat

definition rc_right :: "rect \<Rightarrow> nat" where "rc_right r = rc_x r + rc_width r"
definition rc_bottom :: "rect \<Rightarrow> nat" where "rc_bottom r = rc_y r + rc_height r"

definition rc_contains :: "rect \<Rightarrow> nat \<Rightarrow> nat \<Rightarrow> bool" where
  "rc_contains r column row \<longleftrightarrow>
     rc_x r \<le> column \<and> column < rc_right r \<and> rc_y r \<le> row \<and> row < rc_bottom r"

datatype mouse_kind = LeftDown | ScrollDown | ScrollUp | OtherMouse

record mouse_event =
  ms_kind :: mouse_kind
  ms_column :: nat
  ms_row :: nat

section \<open>The environment\<close>

text \<open>
  \<open>ui_areas\<close> is how the layout library splits a screen into tabs, content and footer and
  \<open>ui_title_widths\<close> how wide it draws the five tab titles.
\<close>

record 'd ui_env =
  ui_call :: "operation \<Rightarrow> json \<Rightarrow> ('d, message, json) st"
  ui_ser_uuid :: "uuid \<Rightarrow> json"
  ui_show_uuid :: "uuid \<Rightarrow> rstr"
  ui_parse_uuid :: "rstr \<Rightarrow> uuid option"
  ui_de_rules :: "json \<Rightarrow> wire_rule list option"
  ui_de_settings :: "json \<Rightarrow> settings option"
  ui_ser_settings :: "settings \<Rightarrow> json"
  ui_binds :: "rstr \<Rightarrow> nat \<Rightarrow> bool"
  ui_platform :: platform
  ui_spawn :: "rstr list \<Rightarrow> io_kind + unit"
  ui_world :: config_world
  ui_runner :: runner
  ui_areas :: "rect \<Rightarrow> rect \<times> rect \<times> rect"
  ui_title_widths :: "nat list"

definition LOOPBACK :: rstr where "LOOPBACK = lit ''127.0.0.1''"

section \<open>The daemon's answers\<close>

definition no_payload :: json where "no_payload = JObj []"

definition status_of_rule :: "'d ui_env \<Rightarrow> json list \<Rightarrow> rule_view \<Rightarrow> message + rule_view" where
  "status_of_rule env states v =
     (case find (\<lambda>s. as_str (json_at s ''rule_id'') = Some (ui_show_uuid env (rv_id v))) states of
        None \<Rightarrow> Err [Txt (lit ''daemon status did not include a listed rule'')]
      | Some s \<Rightarrow> (case as_str (json_at s ''state'') of
          None \<Rightarrow> Err [Txt (lit ''daemon status did not include a rule state'')]
        | Some state \<Rightarrow> Ok (v\<lparr>rv_state := state,
            rv_uptime_seconds := (case as_u64 (json_at s ''uptime_seconds'') of Some n \<Rightarrow> n | None \<Rightarrow> 0),
            rv_reconnect_count := (case as_u64 (json_at s ''reconnect_count'') of Some n \<Rightarrow> n | None \<Rightarrow> 0),
            rv_last_error := as_str (json_at s ''last_error'')\<rparr>)))"

definition apply_runtime_status ::
  "'d ui_env \<Rightarrow> rule_view list \<Rightarrow> json \<Rightarrow> message + rule_view list" where
  "apply_runtime_status env rules status =
     (case as_array (json_at status ''forwards'') of
        None \<Rightarrow> Err [Txt (lit ''daemon status did not include forwarding states'')]
      | Some states \<Rightarrow> collect_results (status_of_rule env states) rules)"

definition ui_load_rules :: "'d ui_env \<Rightarrow> ('d, message, rule_view list) st" where
  "ui_load_rules env =
     st_bind (ui_call env ForwardList no_payload) (\<lambda>listed.
     st_bind (st_lift (ok_or [ShowSerde] (ui_de_rules env listed))) (\<lambda>wires.
     st_bind (ui_call env Status no_payload) (\<lambda>status.
     st_lift (apply_runtime_status env (map view_from_wire wires) status))))"

definition load_settings :: "'d ui_env \<Rightarrow> ('d, message, settings) st" where
  "load_settings env =
     st_bind (ui_call env SettingsGet no_payload) (\<lambda>v. st_lift (ok_or [ShowSerde] (ui_de_settings env v)))"

definition save_settings :: "'d ui_env \<Rightarrow> settings \<Rightarrow> ('d, message, settings) st" where
  "save_settings env s =
     st_bind (ui_call env SettingsUpdate (ui_ser_settings env s)) (\<lambda>v.
       st_lift (ok_or [ShowSerde] (ui_de_settings env v)))"

definition rule_payload :: "'d ui_env \<Rightarrow> uuid \<Rightarrow> json" where
  "rule_payload env i = JObj [(''rule_id'', ui_ser_uuid env i)]"

section \<open>Selections\<close>

definition show_page :: "ui_page \<Rightarrow> ui_app \<Rightarrow> ui_app" where
  "show_page page a =
     (let a' = (if ap_page a = Hosts \<and> page \<noteq> Hosts then a\<lparr>ap_hosts_return := None\<rparr> else a)
      in a'\<lparr>ap_page := page\<rparr>)"

definition selected_view :: "ui_app \<Rightarrow> rule_view option" where
  "selected_view a =
     (if ap_selected_rule a < length (ap_rules a) then Some (ap_rules a ! ap_selected_rule a) else None)"

definition note_selected :: "ui_app \<Rightarrow> ui_app" where
  "note_selected a = a\<lparr>ap_selected_id := map_option rv_id (selected_view a)\<rparr>"

definition clamp_move :: "nat \<Rightarrow> nat \<Rightarrow> int \<Rightarrow> nat" where
  "clamp_move sel len delta =
     (if len = 0 then sel else nat (min (max 0 (int sel + delta)) (int len - 1)))"

definition move_selection :: "int \<Rightarrow> ui_app \<Rightarrow> ui_app" where
  "move_selection delta a = note_selected
     (if ap_page a = Hosts
      then a\<lparr>ap_selected_host := clamp_move (ap_selected_host a) (length (ap_hosts a)) delta\<rparr>
      else a\<lparr>ap_selected_rule := clamp_move (ap_selected_rule a) (length (ap_rules a)) delta\<rparr>)"

definition position :: "('a \<Rightarrow> bool) \<Rightarrow> 'a list \<Rightarrow> nat option" where
  "position P xs = (if list_ex P xs then Some (length (takeWhile (\<lambda>x. \<not> P x) xs)) else None)"

definition replace_rules :: "rule_view list \<Rightarrow> ui_app \<Rightarrow> ui_app" where
  "replace_rules rules a =
     (let keep = (case ap_selected_id a of Some i \<Rightarrow> Some i | None \<Rightarrow> map_option rv_id (selected_view a));
          sel = (case Option.bind keep (\<lambda>i. position (\<lambda>r. rv_id r = i) rules) of
              Some n \<Rightarrow> n | None \<Rightarrow> min (ap_selected_rule a) (length rules - 1))
      in note_selected (a\<lparr>ap_rules := rules, ap_selected_rule := sel\<rparr>))"

definition replace_hosts :: "rstr list \<Rightarrow> ui_app \<Rightarrow> ui_app" where
  "replace_hosts hosts a =
     (let sel = min (ap_selected_host a) (length hosts - 1)
      in a\<lparr>ap_hosts := hosts, ap_selected_host := sel, ap_host_offset := min (ap_host_offset a) sel\<rparr>)"

definition refresh :: "'d ui_env \<Rightarrow> ui_app \<Rightarrow> 'd \<Rightarrow> ui_app \<times> 'd" where
  "refresh env a d =
     (let (r, d1) = ui_load_rules env d;
          a1 = (case r of Inr rules \<Rightarrow> replace_rules rules a | Inl e \<Rightarrow> a\<lparr>ap_message := Plain e\<rparr>);
          (s, d2) = load_settings env d1
      in (case s of Inr settings \<Rightarrow> a1\<lparr>ap_settings := settings\<rparr> | Inl _ \<Rightarrow> a1, d2))"

section \<open>The form\<close>

definition port_available :: "'d ui_env \<Rightarrow> rstr \<Rightarrow> nat \<Rightarrow> bool" where
  "port_available env address port \<longleftrightarrow> port \<noteq> 0 \<and> ui_binds env address port"

definition next_available_port :: "'d ui_env \<Rightarrow> rstr \<Rightarrow> nat \<Rightarrow> nat option" where
  "next_available_port env address port =
     find (port_available env address) (take 100 [min (port + 1) 65535..<65536])"

definition form_new :: "uuid \<Rightarrow> rstr \<Rightarrow> ui_form" where
  "form_new i host = \<lparr>fm_id = i, fm_editing = False, fm_active_original = None, fm_host = host,
     fm_name = [], fm_remote_port = [], fm_local_port = [], fm_field = 0, fm_suggestion = None,
     fm_error = None, fm_kind = ''local'', fm_auto_start = False, fm_reconnect = False\<rparr>"

definition form_edit :: "rule_view \<Rightarrow> ui_form" where
  "form_edit v =
     (let bind = show_nat (unat (rv_bind_port v));
          destination = (case rv_destination_port v of Some p \<Rightarrow> show_nat (unat p) | None \<Rightarrow> [])
      in \<lparr>fm_id = rv_id v, fm_editing = True,
          fm_active_original = (if rv_state v = lit ''active'' then Some (view_to_wire v) else None),
          fm_host = rv_host v, fm_name = rv_name v,
          fm_remote_port = (if rv_kind v = ''remote'' then bind else destination),
          fm_local_port = (if rv_kind v = ''remote'' then destination else bind),
          fm_field = 0, fm_suggestion = None, fm_error = None, fm_kind = rv_kind v,
          fm_auto_start = rv_auto_start v, fm_reconnect = rv_reconnect v\<rparr>)"

definition form_duplicate :: "uuid \<Rightarrow> rule_view \<Rightarrow> ui_form" where
  "form_duplicate i v =
     (let f = form_edit v
      in f\<lparr>fm_id := i, fm_editing := False, fm_active_original := None,
           fm_name := fm_name f @ lit '' copy''\<rparr>)"

text \<open>\<open>value_mut\<close> with what the caller does to the string.\<close>

definition update_value :: "(rstr \<Rightarrow> rstr) \<Rightarrow> ui_form \<Rightarrow> ui_form" where
  "update_value g f =
     (if fm_field f = 0 then f\<lparr>fm_name := g (fm_name f)\<rparr>
      else if fm_field f = 1 then f\<lparr>fm_remote_port := g (fm_remote_port f)\<rparr>
      else f\<lparr>fm_local_port := g (fm_local_port f)\<rparr>)"

definition own_active_port :: "ui_form \<Rightarrow> nat \<Rightarrow> bool" where
  "own_active_port f port \<longleftrightarrow>
     (case fm_active_original f of
        Some (WLocal w) \<Rightarrow> unat (w_bind_port w) = port
      | Some (WDynamic w) \<Rightarrow> unat (wd_bind_port w) = port
      | _ \<Rightarrow> False) \<and> fm_kind f \<noteq> ''remote''"

definition wildcard_probe :: "rstr \<Rightarrow> rstr" where
  "wildcard_probe address = (if address = lit ''*'' then lit ''0.0.0.0'' else address)"

definition probe_address :: "ui_form \<Rightarrow> rstr" where
  "probe_address f =
     (case fm_active_original f of
        Some (WLocal w) \<Rightarrow>
          if fm_kind f = ''local'' then wildcard_probe (w_bind_address w) else LOOPBACK
      | Some (WDynamic w) \<Rightarrow>
          if fm_kind f = ''dynamic'' then wildcard_probe (wd_bind_address w) else LOOPBACK
      | _ \<Rightarrow> LOOPBACK)"

definition recheck :: "'d ui_env \<Rightarrow> ui_form \<Rightarrow> ui_form" where
  "recheck env f =
     (case parse_u16 (fm_local_port f) of
        None \<Rightarrow> f\<lparr>fm_error := None, fm_suggestion := None\<rparr>
      | Some port \<Rightarrow> f\<lparr>fm_error := None, fm_suggestion :=
          (if port \<noteq> 0 \<and> fm_kind f \<noteq> ''remote'' \<and> \<not> own_active_port f port \<and>
              \<not> port_available env (probe_address f) port
           then next_available_port env (probe_address f) port else None)\<rparr>)"

definition copy_remote_port :: "ui_form \<Rightarrow> ui_form" where
  "copy_remote_port f = (if fm_field f = 1 then f\<lparr>fm_local_port := fm_remote_port f\<rparr> else f)"

definition form_input :: "'d ui_env \<Rightarrow> rchar \<Rightarrow> ui_form \<Rightarrow> ui_form" where
  "form_input env ch f =
     recheck env (copy_remote_port
       (if fm_field f = 0 \<or> is_ascii_digit ch then update_value (\<lambda>s. s @ [ch]) f else f))"

definition form_backspace :: "'d ui_env \<Rightarrow> ui_form \<Rightarrow> ui_form" where
  "form_backspace env f = recheck env (copy_remote_port (update_value butlast f))"

definition accept_suggestion :: "ui_form \<Rightarrow> ui_form" where
  "accept_suggestion f =
     (case fm_suggestion f of
        Some port \<Rightarrow> f\<lparr>fm_suggestion := None, fm_local_port := show_nat port\<rparr>
      | None \<Rightarrow> f)"

definition port_or_zero :: "rstr \<Rightarrow> nat" where
  "port_or_zero s = (case parse_u16 s of Some n \<Rightarrow> n | None \<Rightarrow> 0)"

definition form_rule :: "ui_form \<Rightarrow> validation_error + rule" where
  "form_rule f =
     (let remote = of_nat (port_or_zero (fm_remote_port f));
          local = of_nat (port_or_zero (fm_local_port f))
      in if fm_kind f = ''remote''
         then rule_remote (fm_id f) (fm_name f) (fm_host f) remote LOOPBACK local
         else if fm_kind f = ''dynamic''
         then rule_dynamic (fm_id f) (fm_name f) (fm_host f) local
         else rule_local (fm_id f) (fm_name f) (fm_host f) local LOOPBACK remote)"

definition loopback_value :: "'d ui_env \<Rightarrow> ui_form \<Rightarrow> json" where
  "loopback_value env f =
     (let remote = port_or_zero (fm_remote_port f);
          local = port_or_zero (fm_local_port f);
          value = JObj [(''kind'', JStr (lit (fm_kind f))), (''id'', ui_ser_uuid env (fm_id f)),
            (''name'', JStr (fm_name f)), (''ssh_host_alias'', JStr (fm_host f)),
            (''bind_address'', JStr LOOPBACK),
            (''bind_port'', JNat (if fm_kind f = ''remote'' then remote else local)),
            (''auto_start'', JBool (fm_auto_start f)), (''reconnect'', JBool (fm_reconnect f))]
      in if fm_kind f = ''dynamic'' then value
         else json_set (json_set value ''destination_host'' (JStr LOOPBACK)) ''destination_port''
           (JNat (if fm_kind f = ''remote'' then local else remote)))"

definition keep_original_hosts :: "'d ui_env \<Rightarrow> ui_form \<Rightarrow> json \<Rightarrow> json" where
  "keep_original_hosts env f value =
     (case fm_active_original f of
        None \<Rightarrow> value
      | Some w \<Rightarrow>
          (let original = rule_to_json (ui_ser_uuid env) w in
           if json_at original ''kind'' = json_at value ''kind''
           then (let bound = json_set value ''bind_address'' (json_at original ''bind_address'')
                 in if fm_kind f = ''dynamic'' then bound
                    else json_set bound ''destination_host'' (json_at original ''destination_host''))
           else value))"

definition form_payload :: "'d ui_env \<Rightarrow> ui_form \<Rightarrow> ui_form \<times> json option" where
  "form_payload env f =
     (let local = port_or_zero (fm_local_port f) in
      case form_rule f of
        Inl e \<Rightarrow> (f\<lparr>fm_error := Some (FormInvalid e)\<rparr>, None)
      | Inr _ \<Rightarrow>
          if fm_kind f \<noteq> ''remote'' \<and> \<not> own_active_port f local \<and>
             \<not> port_available env (probe_address f) local
          then (f\<lparr>fm_suggestion := next_available_port env (probe_address f) local,
                  fm_error := Some (PortInUse local)\<rparr>, None)
          else (f, Some (keep_original_hosts env f (loopback_value env f))))"

section \<open>The import panel\<close>

definition rule_snapshots :: "ui_app \<Rightarrow> validation_error + rule list \<times> rule_id list" where
  "rule_snapshots a =
     map_ok (\<lambda>rules. (rules, map rv_id (filter (\<lambda>v. rv_state v \<noteq> lit ''stopped'') (ap_rules a))))
       (collect_results (\<lambda>v. domain_of_wire (view_to_wire v)) (ap_rules a))"

definition open_import :: "'d ui_env \<Rightarrow> host_catalog \<Rightarrow> rstr \<Rightarrow> ui_app \<Rightarrow> ui_app" where
  "open_import env cat host a =
     a\<lparr>ap_import := Some
       (case and_then (map_err RuleProblem (rule_snapshots a)) (\<lambda>(rules, running).
           map_err HostProblem (catalog_import_preview (ui_runner env) cat host rules running)) of
          Inr p \<Rightarrow> panel_preview p
        | Inl e \<Rightarrow> panel_error host e)\<rparr>"

definition fail_import :: "message \<Rightarrow> import_panel \<Rightarrow> import_panel" where
  "fail_import e panel = panel\<lparr>im_confirming := False, im_error := Some (ServiceProblem e)\<rparr>"

definition import_payload :: "'d ui_env \<Rightarrow> rule list \<Rightarrow> json" where
  "import_payload env rules =
     JObj [(''rules'', JArr (map (\<lambda>r. rule_to_json (ui_ser_uuid env) (wire_of_domain r)) rules))]"

text \<open>\<open>ids\<close> draws the ids of the rules that are made.\<close>

definition save_import ::
  "(nat \<Rightarrow> uuid) \<Rightarrow> 'd ui_env \<Rightarrow> ui_app \<Rightarrow> 'd \<Rightarrow> ui_app \<times> 'd" where
  "save_import ids env a d =
     (case ap_import a of
        None \<Rightarrow> (a, d)
      | Some panel \<Rightarrow>
     (case im_preview panel of
        None \<Rightarrow> (a, d)
      | Some preview \<Rightarrow>
     (case rule_snapshots a of
        Inl e \<Rightarrow> (a\<lparr>ap_message := RuleNotice e\<rparr>, d)
      | Inr (existing, _) \<Rightarrow>
     (case load_settings env d of
        (Inl e, d1) \<Rightarrow> (a\<lparr>ap_message := Plain e, ap_import := Some (fail_import e panel)\<rparr>, d1)
      | (Inr settings, d1) \<Rightarrow>
     (case selected_rules ids preview (im_selected panel) existing
             (s_default_auto_start settings) (s_default_reconnect settings) of
        Inl e \<Rightarrow> (a\<lparr>ap_message := SelectionNotice e\<rparr>, d1)
      | Inr rules \<Rightarrow>
     (case ui_call env ForwardImport (import_payload env rules) d1 of
        (Inr _, d2) \<Rightarrow>
          refresh env (a\<lparr>ap_import := None, ap_message := ImportSaved (length (im_selected panel))\<rparr>) d2
      | (Inl e, d2) \<Rightarrow> (a\<lparr>ap_import := Some (fail_import e panel)\<rparr>, d2)))))))"

definition candidate_count :: "import_panel \<Rightarrow> nat" where
  "candidate_count panel =
     (case im_preview panel of Some p \<Rightarrow> length (ip_candidates p) | None \<Rightarrow> 0)"

definition cursor_selectable :: "import_panel \<Rightarrow> bool" where
  "cursor_selectable panel \<longleftrightarrow>
     (case im_preview panel of
        Some p \<Rightarrow> ic_classification (ip_candidates p ! im_cursor panel) = Supported
      | None \<Rightarrow> False)"

definition toggle_candidate :: "import_panel \<Rightarrow> import_panel" where
  "toggle_candidate panel =
     (let i = im_cursor panel + 1 in
      if \<not> cursor_selectable panel then panel
      else if i \<in> set (im_selected panel)
      then panel\<lparr>im_selected := removeAll i (im_selected panel)\<rparr>
      else panel\<lparr>im_selected := i # im_selected panel\<rparr>)"

definition is_char :: "key_event \<Rightarrow> char \<Rightarrow> bool" where
  "is_char key c \<longleftrightarrow> ke_code key = KChar (of_char c)"

text \<open>What a key does to the panel itself, and whether it closes it or saves.\<close>

datatype panel_action = StayOpen | CloseImport | SaveImport

definition import_panel_key :: "key_event \<Rightarrow> import_panel \<Rightarrow> import_panel \<times> panel_action" where
  "import_panel_key key panel =
     (let len = candidate_count panel in
      if im_confirming panel then
        (if ke_code key = KEnter \<or> is_char key CHR ''y'' then (panel, SaveImport)
         else if ke_code key = KEsc \<or> is_char key CHR ''n''
         then (panel\<lparr>im_confirming := False\<rparr>, StayOpen)
         else (panel, StayOpen))
      else if ke_code key = KEsc then (panel, CloseImport)
      else if (ke_code key = KDown \<or> is_char key CHR ''j'') \<and> len \<noteq> 0
      then (panel\<lparr>im_cursor := min (im_cursor panel + 1) (len - 1)\<rparr>, StayOpen)
      else if (ke_code key = KUp \<or> is_char key CHR ''k'') \<and> len \<noteq> 0
      then (panel\<lparr>im_cursor := im_cursor panel - 1\<rparr>, StayOpen)
      else if is_char key CHR '' '' \<and> len \<noteq> 0 then (toggle_candidate panel, StayOpen)
      else if ke_code key = KEnter \<and> im_selected panel \<noteq> []
      then (panel\<lparr>im_confirming := True\<rparr>, StayOpen)
      else (panel, StayOpen))"

definition handle_import_key ::
  "(nat \<Rightarrow> uuid) \<Rightarrow> 'd ui_env \<Rightarrow> key_event \<Rightarrow> ui_app \<Rightarrow> 'd \<Rightarrow> ui_app \<times> 'd" where
  "handle_import_key ids env key a d =
     (case ap_import a of
        None \<Rightarrow> (a, d)
      | Some panel \<Rightarrow>
          (case import_panel_key key panel of
             (panel', StayOpen) \<Rightarrow> (a\<lparr>ap_import := Some panel'\<rparr>, d)
           | (panel', CloseImport) \<Rightarrow> (a\<lparr>ap_import := None\<rparr>, d)
           | (panel', SaveImport) \<Rightarrow> save_import ids env (a\<lparr>ap_import := Some panel'\<rparr>) d))"

section \<open>Keys\<close>

definition handle_confirm_key ::
  "'d ui_env \<Rightarrow> key_event \<Rightarrow> delete_confirmation \<Rightarrow> ui_app \<Rightarrow> 'd \<Rightarrow> ui_app \<times> 'd" where
  "handle_confirm_key env key c a d =
     (if is_char key CHR ''y'' \<or> ke_code key = KEnter then
        (let a1 = a\<lparr>ap_confirm_delete := None\<rparr>;
             payload = rule_payload env (dc_id c);
             (stopped, d1) =
               (if dc_stop_first c then ui_call env ForwardStop payload d else (Ok JNull, d))
         in case stopped of
              Inl e \<Rightarrow>
                (let (a2, d2) = refresh env a1 d1 in (a2\<lparr>ap_message := StopNotConfirmed e\<rparr>, d2))
            | Inr _ \<Rightarrow>
                (case ui_call env ForwardRemove payload d1 of
                   (Inr _, d2) \<Rightarrow>
                     (let (a2, d3) = refresh env a1 d2 in (a2\<lparr>ap_message := RuleDeleted\<rparr>, d3))
                 | (Inl e, d2) \<Rightarrow>
                     (case ui_load_rules env d2 of
                        (Inr rules, d3) \<Rightarrow>
                          ((replace_rules rules a1)\<lparr>ap_message :=
                             (if list_ex (\<lambda>v. rv_id v = dc_id c) rules then RemoveFailed e
                              else RuleVanished e)\<rparr>, d3)
                      | (Inl r, d3) \<Rightarrow> (a1\<lparr>ap_message := RemoveUnknown e r\<rparr>, d3))))
      else if is_char key CHR ''n'' \<or> ke_code key = KEsc then (a\<lparr>ap_confirm_delete := None\<rparr>, d)
      else (a, d))"

text \<open>Saving the form: an active rule is edited in place, any other rule is added and started.\<close>

definition save_active_edit ::
  "'d ui_env \<Rightarrow> wire_rule \<Rightarrow> json \<Rightarrow> ui_app \<Rightarrow> 'd \<Rightarrow> ui_app \<times> 'd" where
  "save_active_edit env expected payload a d =
     (let (outcome, d1) = ui_call env ForwardEditActive
            (JObj [(''expected'', rule_to_json (ui_ser_uuid env) expected), (''replacement'', payload)]) d;
          a1 = a\<lparr>ap_form := None\<rparr>;
          (refreshed, d2) = ui_load_rules env d1;
          a2 = (case refreshed of Inr rules \<Rightarrow> replace_rules rules a1 | Inl _ \<Rightarrow> a1);
          (s, d3) = load_settings env d2;
          a3 = (case s of Inr settings \<Rightarrow> a2\<lparr>ap_settings := settings\<rparr> | Inl _ \<Rightarrow> a2)
      in (a3\<lparr>ap_message :=
            (case (outcome, refreshed) of
               (Inr _, Inr _) \<Rightarrow> EditSaved
             | (Inl e, Inr _) \<Rightarrow> EditUncertain e
             | (Inr _, Inl r) \<Rightarrow> DisplayStale r
             | (Inl e, Inl r) \<Rightarrow> EditUnknown e r)\<rparr>, d3))"

definition added_id :: "'d ui_env \<Rightarrow> uuid \<Rightarrow> json \<Rightarrow> uuid" where
  "added_id env i v =
     (case Option.bind (as_str (json_at v ''rule_id'')) (ui_parse_uuid env) of
        Some j \<Rightarrow> j | None \<Rightarrow> i)"

definition save_new_rule ::
  "'d ui_env \<Rightarrow> ui_form \<Rightarrow> json \<Rightarrow> ui_app \<Rightarrow> 'd \<Rightarrow> ui_app \<times> 'd" where
  "save_new_rule env f payload a d =
     (case ui_call env ForwardAdd payload d of
        (Inl e, d1) \<Rightarrow> (a\<lparr>ap_form := Some (f\<lparr>fm_error := Some (FormRefused e)\<rparr>)\<rparr>, d1)
      | (Inr v, d1) \<Rightarrow>
          (case ui_call env ForwardStart (rule_payload env (added_id env (fm_id f) v)) d1 of
             (Inr _, d2) \<Rightarrow> refresh env (a\<lparr>ap_message := AddedAndStarted, ap_form := None\<rparr>) d2
           | (Inl e, d2) \<Rightarrow> (a\<lparr>ap_form := Some (f\<lparr>fm_error := Some (SavedNotStarted e)\<rparr>)\<rparr>, d2)))"

definition save_form :: "'d ui_env \<Rightarrow> ui_form \<Rightarrow> ui_app \<Rightarrow> 'd \<Rightarrow> ui_app \<times> 'd" where
  "save_form env f a d =
     (case form_payload env f of
        (f', None) \<Rightarrow> (a\<lparr>ap_form := Some f'\<rparr>, d)
      | (f', Some payload) \<Rightarrow>
          (case fm_active_original f' of
             Some expected \<Rightarrow> save_active_edit env expected payload a d
           | None \<Rightarrow> save_new_rule env f' payload a d))"

definition next_kind :: "string \<Rightarrow> string" where
  "next_kind kind =
     (if kind = ''local'' then ''remote'' else if kind = ''remote'' then ''dynamic'' else ''local'')"

text \<open>The keys that only change the form.\<close>

definition edit_form_key :: "'d ui_env \<Rightarrow> key_code \<Rightarrow> ui_form \<Rightarrow> ui_form" where
  "edit_form_key env code f =
     (if code = KTab \<or> code = KDown then f\<lparr>fm_field := (fm_field f + 1) mod 3\<rparr>
      else if code = KBackTab \<or> code = KUp then f\<lparr>fm_field := (fm_field f + 2) mod 3\<rparr>
      else if code = KBackspace then form_backspace env f
      else if code = KChar (of_char CHR ''a'') \<and> fm_field f \<noteq> 0 \<and> fm_suggestion f \<noteq> None
      then accept_suggestion f
      else if code = KF 2 then f\<lparr>fm_kind := next_kind (fm_kind f)\<rparr>
      else if code = KF 3 then f\<lparr>fm_auto_start := \<not> fm_auto_start f\<rparr>
      else if code = KF 4 then f\<lparr>fm_reconnect := \<not> fm_reconnect f\<rparr>
      else case code of KChar ch \<Rightarrow> form_input env ch f | _ \<Rightarrow> f)"

definition handle_form_key ::
  "'d ui_env \<Rightarrow> key_event \<Rightarrow> ui_form \<Rightarrow> ui_app \<Rightarrow> 'd \<Rightarrow> ui_app \<times> 'd" where
  "handle_form_key env key f a d =
     (if ke_code key = KEsc then (a\<lparr>ap_form := None\<rparr>, d)
      else if ke_code key = KEnter then save_form env f a d
      else (a\<lparr>ap_form := Some (edit_form_key env (ke_code key) f)\<rparr>, d))"

primrec next_page :: "ui_page \<Rightarrow> ui_page" where
  "next_page Dashboard = Hosts"
| "next_page Hosts = Detail"
| "next_page Detail = SettingsPage"
| "next_page SettingsPage = Help"
| "next_page Help = Dashboard"

primrec next_theme :: "theme \<Rightarrow> theme" where
  "next_theme System = Dark"
| "next_theme Dark = Light"
| "next_theme Light = System"

primrec next_level :: "log_level \<Rightarrow> log_level" where
  "next_level LvError = LvWarn"
| "next_level LvWarn = LvInfo"
| "next_level LvInfo = LvDebug"
| "next_level LvDebug = LvTrace"
| "next_level LvTrace = LvError"

definition change_setting :: "nat \<Rightarrow> settings \<Rightarrow> settings" where
  "change_setting field s =
     (if field = 0 then s\<lparr>s_theme := next_theme (s_theme s)\<rparr>
      else if field = 1 then s\<lparr>s_log_level := next_level (s_log_level s)\<rparr>
      else if field = 2 then s\<lparr>s_default_reconnect := \<not> s_default_reconnect s\<rparr>
      else s\<lparr>s_default_auto_start := \<not> s_default_auto_start s\<rparr>)"

definition change_settings :: "'d ui_env \<Rightarrow> ui_app \<Rightarrow> 'd \<Rightarrow> ui_app \<times> 'd" where
  "change_settings env a d =
     (case save_settings env (change_setting (ap_settings_field a) (ap_settings a)) d of
        (Inr s, d1) \<Rightarrow> (a\<lparr>ap_settings := s, ap_message := SettingsSaved\<rparr>, d1)
      | (Inl e, d1) \<Rightarrow> (a\<lparr>ap_message := Plain e\<rparr>, d1))"

definition selected_host :: "ui_app \<Rightarrow> rstr option" where
  "selected_host a =
     (if ap_selected_host a < length (ap_hosts a) then Some (ap_hosts a ! ap_selected_host a) else None)"

definition new_rule_form :: "uuid \<Rightarrow> ui_app \<Rightarrow> ui_app" where
  "new_rule_form i a =
     (case selected_host a of
        None \<Rightarrow> a
      | Some host \<Rightarrow> a\<lparr>ap_form := Some ((form_new i host)
          \<lparr>fm_auto_start := s_default_auto_start (ap_settings a),
           fm_reconnect := s_default_reconnect (ap_settings a)\<rparr>)\<rparr>)"

definition refresh_hosts :: "'d ui_env \<Rightarrow> host_catalog \<Rightarrow> ui_app \<Rightarrow> ui_app \<times> host_catalog" where
  "refresh_hosts env cat a =
     (case catalog_refresh (ui_world env) cat of
        (Inr found, cat') \<Rightarrow>
          ((replace_hosts (hd_aliases found) a)\<lparr>ap_message := HostsRefreshed\<rparr>, cat')
      | (Inl e, cat') \<Rightarrow> (a\<lparr>ap_message := HostNotice e\<rparr>, cat'))"

definition edit_selected :: "ui_app \<Rightarrow> ui_app" where
  "edit_selected a =
     (case selected_view a of
        None \<Rightarrow> a
      | Some v \<Rightarrow>
          if rv_state v = lit ''stopped'' \<or> rv_state v = lit ''active''
          then a\<lparr>ap_form := Some (form_edit v)\<rparr> else a\<lparr>ap_message := EditLater\<rparr>)"

definition duplicate_selected :: "uuid \<Rightarrow> ui_app \<Rightarrow> ui_app" where
  "duplicate_selected i a =
     (case selected_view a of
        None \<Rightarrow> a | Some v \<Rightarrow> a\<lparr>ap_form := Some (form_duplicate i v)\<rparr>)"

definition ask_delete :: "ui_app \<Rightarrow> ui_app" where
  "ask_delete a =
     (case selected_view a of
        None \<Rightarrow> a
      | Some v \<Rightarrow> a\<lparr>ap_confirm_delete := Some \<lparr>dc_id = rv_id v,
          dc_stop_first = (rv_state v \<noteq> lit ''stopped'')\<rparr>\<rparr>)"

definition toggle_selected :: "'d ui_env \<Rightarrow> ui_app \<Rightarrow> 'd \<Rightarrow> ui_app \<times> 'd" where
  "toggle_selected env a d =
     (case selected_view a of
        None \<Rightarrow> (a, d)
      | Some v \<Rightarrow>
          (case ui_call env (if rv_state v = lit ''stopped'' then ForwardStart else ForwardStop)
                  (rule_payload env (rv_id v)) d of
             (Inr _, d1) \<Rightarrow> refresh env a d1
           | (Inl e, d1) \<Rightarrow> (a\<lparr>ap_message := Plain e\<rparr>, d1)))"

definition browser_command :: "platform \<Rightarrow> rstr \<Rightarrow> rstr list" where
  "browser_command platform url =
     [case platform of Linux \<Rightarrow> lit ''xdg-open'' | MacOs \<Rightarrow> lit ''open'', url]"

definition browser_open :: "'d ui_env \<Rightarrow> rstr \<Rightarrow> io_kind + unit" where
  "browser_open env url = ui_spawn env (browser_command (ui_platform env) url)"

definition open_selected :: "'d ui_env \<Rightarrow> rstr \<Rightarrow> ui_app \<Rightarrow> ui_app" where
  "open_selected env scheme a =
     (case selected_view a of
        None \<Rightarrow> a
      | Some v \<Rightarrow>
          (let url = view_url v scheme in
           a\<lparr>ap_message := (case browser_open env url of
              Inr _ \<Rightarrow> BrowserOpened url | Inl e \<Rightarrow> BrowserFailed url e)\<rparr>))"

definition open_import_for ::
  "'d ui_env \<Rightarrow> host_catalog \<Rightarrow> rstr option \<Rightarrow> ui_app \<Rightarrow> ui_app" where
  "open_import_for env cat host a =
     (case host of None \<Rightarrow> a | Some h \<Rightarrow> open_import env cat h a)"

definition leave_hosts :: "ui_app \<Rightarrow> ui_app" where
  "leave_hosts a =
     (case ap_hosts_return a of
        None \<Rightarrow> a | Some page \<Rightarrow> show_page page (a\<lparr>ap_hosts_return := None\<rparr>))"

definition choose_host :: "ui_app \<Rightarrow> ui_app" where
  "choose_host a =
     (let a' = (if ap_page a \<noteq> Hosts then a\<lparr>ap_hosts_return := Some (ap_page a)\<rparr> else a)
      in a'\<lparr>ap_page := Hosts, ap_message := ChooseHost\<rparr>)"

text \<open>A key on a page, with no overlay open; the arms are in the order of the source.\<close>

definition handle_page_key ::
  "uuid \<Rightarrow> 'd ui_env \<Rightarrow> key_event \<Rightarrow> ui_app \<Rightarrow> 'd \<Rightarrow> host_catalog \<Rightarrow> ui_app \<times> 'd \<times> host_catalog" where
  "handle_page_key new_id env key a d cat =
     (let code = ke_code key; page = ap_page a;
          down = code = KDown \<or> is_char key CHR ''j''; up = code = KUp \<or> is_char key CHR ''k''
      in if is_char key CHR ''q'' then (a\<lparr>ap_quit := True\<rparr>, d, cat)
         else if is_char key CHR ''?'' then (show_page Help a, d, cat)
         else if code = KEsc \<and> page = Hosts then (leave_hosts a, d, cat)
         else if code = KTab then (show_page (next_page page) a, d, cat)
         else if down \<and> page = SettingsPage
         then (a\<lparr>ap_settings_field := (ap_settings_field a + 1) mod 4\<rparr>, d, cat)
         else if up \<and> page = SettingsPage
         then (a\<lparr>ap_settings_field := (ap_settings_field a + 3) mod 4\<rparr>, d, cat)
         else if (code = KLeft \<or> code = KRight \<or> code = KEnter \<or> is_char key CHR '' '') \<and>
           page = SettingsPage
         then (let (a', d') = change_settings env a d in (a', d', cat))
         else if down then (move_selection 1 a, d, cat)
         else if up then (move_selection (- 1) a, d, cat)
         else if code = KEnter \<and> page = Hosts then (new_rule_form new_id a, d, cat)
         else if code = KEnter \<and> page = Dashboard then (show_page Detail a, d, cat)
         else if is_char key CHR ''n'' then (choose_host a, d, cat)
         else if is_char key CHR ''r'' \<and> page = Hosts
         then (let (a', cat') = refresh_hosts env cat a in (a', d, cat'))
         else if is_char key CHR ''i'' \<and> page = Hosts
         then (open_import_for env cat (selected_host a) a, d, cat)
         else if is_char key CHR ''i'' \<and> (page = Dashboard \<or> page = Detail)
         then (open_import_for env cat (map_option rv_host (selected_view a)) a, d, cat)
         else if is_char key CHR ''e'' then (edit_selected a, d, cat)
         else if is_char key CHR ''c'' then (duplicate_selected new_id a, d, cat)
         else if is_char key CHR ''d'' \<and> (page = Dashboard \<or> page = Detail) then (ask_delete a, d, cat)
         else if is_char key CHR '' ''
         then (let (a', d') = toggle_selected env a d in (a', d', cat))
         else if is_char key CHR ''h'' \<and> page = Detail then (open_selected env (lit ''http'') a, d, cat)
         else if is_char key CHR ''s'' \<and> page = Detail then (open_selected env (lit ''https'') a, d, cat)
         else (a, d, cat))"

definition handle_key ::
  "(nat \<Rightarrow> uuid) \<Rightarrow> 'd ui_env \<Rightarrow> key_event \<Rightarrow> ui_app \<Rightarrow> 'd \<Rightarrow> host_catalog \<Rightarrow>
   ui_app \<times> 'd \<times> host_catalog" where
  "handle_key ids env key a d cat =
     (let keep = (\<lambda>(a', d'). (a', d', cat)) in
      if ke_control key \<and> is_char key CHR ''c'' then (a\<lparr>ap_quit := True\<rparr>, d, cat)
      else if ap_import a \<noteq> None then keep (handle_import_key ids env key a d)
      else case ap_confirm_delete a of
        Some c \<Rightarrow> keep (handle_confirm_key env key c a d)
      | None \<Rightarrow>
          (case ap_form a of
             Some f \<Rightarrow> keep (handle_form_key env key f a d)
           | None \<Rightarrow> handle_page_key (ids 0) env key a d cat))"

section \<open>The mouse\<close>

definition screen_areas :: "'d ui_env \<Rightarrow> rect \<Rightarrow> (rect \<times> rect \<times> rect) option" where
  "screen_areas env screen =
     (if rc_width screen < 42 \<or> rc_height screen < 10 then None else Some (ui_areas env screen))"

definition list_offset :: "nat \<Rightarrow> nat \<Rightarrow> nat \<Rightarrow> nat" where
  "list_offset selected visible offset =
     (if selected < offset then selected
      else if offset + visible \<le> selected then selected - (visible - 1)
      else offset)"

definition tab_pages :: "ui_page list" where
  "tab_pages = [Dashboard, Hosts, Detail, SettingsPage, Help]"

text \<open>The loop over the titles; each but the last is followed by a divider.\<close>

fun clicked_tab :: "nat \<Rightarrow> nat \<Rightarrow> nat \<Rightarrow> (nat \<times> ui_page) list \<Rightarrow> ui_page option" where
  "clicked_tab column limit left [] = None"
| "clicked_tab column limit left ((width, page) # tabs) =
     (let right = min (left + (width + (if tabs = [] then 2 else 3))) limit in
      if left \<le> column \<and> column < right then Some page else clicked_tab column limit right tabs)"

definition tab_at :: "'d ui_env \<Rightarrow> rect \<Rightarrow> mouse_event \<Rightarrow> ui_page option" where
  "tab_at env tabs m =
     (if ms_row m = rc_y tabs + 1 \<and> rc_x tabs < ms_column m \<and> ms_column m < rc_right tabs - 1
      then clicked_tab (ms_column m) (rc_right tabs - 1) (rc_x tabs + 1)
        (zip (ui_title_widths env) tab_pages)
      else None)"

definition inside_border :: "rect \<Rightarrow> mouse_event \<Rightarrow> bool" where
  "inside_border r m \<longleftrightarrow> rc_x r < ms_column m \<and> ms_column m < rc_right r - 1 \<and>
     rc_y r < ms_row m \<and> ms_row m < rc_bottom r - 1"

definition dashboard_offset :: "rect \<Rightarrow> ui_app \<Rightarrow> nat" where
  "dashboard_offset content a = list_offset (ap_selected_rule a) (rc_height content - 3) (ap_rule_offset a)"

definition hosts_offset :: "rect \<Rightarrow> ui_app \<Rightarrow> nat" where
  "hosts_offset content a = list_offset (ap_selected_host a) (rc_height content - 2) (ap_host_offset a)"

text \<open>The rules \<open>render_dashboard\<close> draws below the border and the header.\<close>

definition dashboard_rows :: "rect \<Rightarrow> ui_app \<Rightarrow> rule_view list" where
  "dashboard_rows content a =
     take (rc_height content - 3) (drop (dashboard_offset content a) (ap_rules a))"

definition click_row :: "rect \<Rightarrow> mouse_event \<Rightarrow> ui_app \<Rightarrow> ui_app" where
  "click_row content m a =
     (if \<not> inside_border content m then a
      else if ap_page a = Dashboard \<and> rc_y content + 1 < ms_row m
      then (let offset = dashboard_offset content a; index = offset + (ms_row m - rc_y content - 2) in
            if index < length (ap_rules a)
            then a\<lparr>ap_selected_rule := index, ap_selected_id := Some (rv_id (ap_rules a ! index)),
                   ap_rule_offset := offset\<rparr>
            else a)
      else if ap_page a = Hosts
      then (let offset = hosts_offset content a; index = offset + (ms_row m - rc_y content - 1) in
            if index < length (ap_hosts a)
            then a\<lparr>ap_selected_host := index, ap_host_offset := offset\<rparr> else a)
      else a)"

definition scroll :: "rect \<Rightarrow> int \<Rightarrow> ui_app \<Rightarrow> ui_app" where
  "scroll content delta a =
     (let a1 = move_selection delta a in
      if ap_page a = Dashboard then a1\<lparr>ap_rule_offset := dashboard_offset content a1\<rparr>
      else if ap_page a = Hosts then a1\<lparr>ap_host_offset := hosts_offset content a1\<rparr>
      else a)"

definition handle_mouse :: "'d ui_env \<Rightarrow> mouse_event \<Rightarrow> rect \<Rightarrow> ui_app \<Rightarrow> ui_app" where
  "handle_mouse env m screen a =
     (if ap_form a \<noteq> None \<or> ap_confirm_delete a \<noteq> None \<or> ap_import a \<noteq> None then a
      else case screen_areas env screen of
        None \<Rightarrow> a
      | Some (tabs, content, footer) \<Rightarrow>
          (case ms_kind m of
             LeftDown \<Rightarrow>
               (case tab_at env tabs m of
                  Some page \<Rightarrow> show_page page a | None \<Rightarrow> click_row content m a)
           | ScrollDown \<Rightarrow>
               (if rc_contains content (ms_column m) (ms_row m) then scroll content 1 a else a)
           | ScrollUp \<Rightarrow>
               (if rc_contains content (ms_column m) (ms_row m) then scroll content (- 1) a else a)
           | OtherMouse \<Rightarrow> a))"

section \<open>The loop\<close>

text \<open>What \<open>run\<close> loads before the loop starts.\<close>

definition app_start :: "'d ui_env \<Rightarrow> host_catalog \<Rightarrow> 'd \<Rightarrow> ui_app \<times> 'd \<times> host_catalog" where
  "app_start env cat d =
     (let (found, cat') = catalog_refresh (ui_world env) cat;
          a1 = (case found of
             Inr h \<Rightarrow> replace_hosts (hd_aliases h) app_default
           | Inl e \<Rightarrow> app_default\<lparr>ap_message := HostNotice e\<rparr>);
          (r, d1) = ui_load_rules env d;
          a2 = (case r of Inr rules \<Rightarrow> replace_rules rules a1 | Inl e \<Rightarrow> a1\<lparr>ap_message := Plain e\<rparr>);
          (s, d2) = load_settings env d1;
          a3 = (case s of Inr settings \<Rightarrow> a2\<lparr>ap_settings := settings\<rparr>
             | Inl e \<Rightarrow> a2\<lparr>ap_message := Plain e\<rparr>)
      in (a3, d2, cat'))"

text \<open>
  One turn of \<open>run_loop\<close>, or a change at the daemon that the interface has not seen yet.
\<close>

inductive ui_step ::
  "'d ui_env \<Rightarrow> ui_app \<times> 'd \<times> host_catalog \<Rightarrow> ui_app \<times> 'd \<times> host_catalog \<Rightarrow> bool" for env where
  Event_Refresh: "\<not> ap_quit a \<Longrightarrow> refresh env a d = (a', d') \<Longrightarrow> ui_step env (a, d, cat) (a', d', cat)"
| Key_Pressed: "\<not> ap_quit a \<Longrightarrow> ui_step env (a, d, cat) (handle_key ids env key a d cat)"
| Mouse_Moved: "\<not> ap_quit a \<Longrightarrow> ui_step env (a, d, cat) (handle_mouse env m screen a, d, cat)"
| Daemon_Moved: "ui_step env (a, d, cat) (a, d', cat)"

inductive ui_reaches ::
  "'d ui_env \<Rightarrow> host_catalog \<Rightarrow> ui_app \<times> 'd \<times> host_catalog \<Rightarrow> bool" for env cat where
  Started: "app_start env cat d = s \<Longrightarrow> ui_reaches env cat s"
| Stepped: "ui_reaches env cat s \<Longrightarrow> ui_step env s t \<Longrightarrow> ui_reaches env cat t"

end
