(* ===== verification/Tui_Sample.thy ===== *)
theory Tui_Sample
  imports Tui_Model
begin

text \<open>A concrete daemon and catalogue on which the terminal client runs in the witnesses.\<close>

section \<open>A client to run\<close>

text \<open>A daemon with two rules, the first active on every interface and the second stopped, that
  accepts every request; its state is the list of the requests it got.\<close>

definition sample_rule :: "uuid \<Rightarrow> string \<Rightarrow> u16 \<Rightarrow> wire_rule" where
  "sample_rule i name p = WLocal \<lparr>w_id = i, w_name = lit name, w_ssh_host_alias = lit ''web'',
     w_bind_address = lit ''0.0.0.0'', w_bind_port = p, w_destination_host = lit ''db'',
     w_destination_port = 5432, w_auto_start = False, w_reconnect = True\<rparr>"

definition sample_status :: json where
  "sample_status = JObj [(''forwards'', JArr
     [JObj [(''rule_id'', JStr (lit ''1'')), (''state'', JStr (lit ''active''))],
      JObj [(''rule_id'', JStr (lit ''2'')), (''state'', JStr (lit ''stopped''))]])]"

definition client_world :: config_world where
  "client_world = \<lparr>cw_canonical = (\<lambda>p. Ok p), cw_text = (\<lambda>p. Ok (lit ''Host db'')),
     cw_glob = (\<lambda>p. Ok [])\<rparr>"

definition client_output :: bytes where
  "client_output = utf8_encode (lit ''localforward 8080 [db]:80'')"

definition sample_client :: "operation list ui_env" where
  "sample_client = \<lparr>
     ui_call = (\<lambda>op p d. (Ok (if op = Status then sample_status else JNull), d @ [op])),
     ui_ser_uuid = (\<lambda>i. JNat (unat i)), ui_show_uuid = (\<lambda>i. if i = 1 then lit ''1'' else lit ''2''),
     ui_parse_uuid = (\<lambda>_. None),
     ui_de_rules = (\<lambda>_. Some [sample_rule 1 ''a'' 3000, sample_rule 2 ''b'' 3001]),
     ui_de_settings = (\<lambda>_. Some default_settings), ui_ser_settings = (\<lambda>_. JNull),
     ui_binds = (\<lambda>_ p. p \<noteq> 3000), ui_platform = Linux, ui_spawn = (\<lambda>_. Ok ()),
     ui_world = client_world,
     ui_runner = (\<lambda>_ _ _. Ok \<lparr>po_status = Exited 0, po_stdout = client_output, po_stderr = [],
       po_timed_out = False\<rparr>),
     ui_areas = (\<lambda>r. (r\<lparr>rc_height := 3\<rparr>, r\<lparr>rc_y := 3, rc_height := rc_height r - 5\<rparr>,
       r\<lparr>rc_y := rc_height r - 2, rc_height := 2\<rparr>)),
     ui_title_widths = [14, 6, 4, 4, 6]\<rparr>"

definition sample_catalog :: host_catalog where
  "sample_catalog = catalog_new (lit ''/h/.ssh/config'') (lit ''/h/.ssh'') (lit ''ssh'')"

definition press :: "key_code \<Rightarrow> key_event" where
  "press code = \<lparr>ke_code = code, ke_control = False\<rparr>"

text \<open>Keys pressed one after the other from the start.\<close>

definition pressed :: "key_code list \<Rightarrow> ui_app \<times> operation list \<times> host_catalog" where
  "pressed codes = fold (\<lambda>code (a, d, cat). handle_key (\<lambda>n. of_nat (100 + n)) sample_client (press code) a d cat)
     codes (app_start sample_client sample_catalog [])"

lemma pressed_snoc:
  "pressed (codes @ [code]) = (case pressed codes of (a, d, cat) \<Rightarrow>
     handle_key (\<lambda>n. of_nat (100 + n)) sample_client (press code) a d cat)"
  by (simp add: pressed_def)

lemma pressed_Nil_reached: "ui_reaches sample_client sample_catalog (pressed [])"
  by (rule ui_reaches.Started [of _ _ "[]"]) (simp add: pressed_def)

lemma pressed_reached:
  assumes "ui_reaches sample_client sample_catalog (pressed codes)" "\<not> ap_quit (fst (pressed codes))"
  shows "ui_reaches sample_client sample_catalog (pressed (codes @ [code]))"
proof -
  obtain a d cat where p: "pressed codes = (a, d, cat)" by (cases "pressed codes") auto
  with assms(2) have "ui_step sample_client (a, d, cat)
      (handle_key (\<lambda>n. of_nat (100 + n)) sample_client (press code) a d cat)"
    by (intro Key_Pressed) simp
  with assms(1) p show ?thesis by (simp add: pressed_snoc) (rule ui_reaches.Stepped)
qed

text \<open>The keys that open the import panel for the first host, select its first candidate and
  ask to save it.\<close>

definition import_keys :: "key_code list" where
  "import_keys = [KTab, KChar 105, KChar 32, KEnter]"

lemma import_keys_reached: "ui_reaches sample_client sample_catalog (pressed import_keys)"
proof -
  have "\<not> ap_quit (fst (pressed []))" "\<not> ap_quit (fst (pressed [KTab]))"
    "\<not> ap_quit (fst (pressed [KTab, KChar 105]))"
    "\<not> ap_quit (fst (pressed [KTab, KChar 105, KChar 32]))"
    by code_simp+
  then show ?thesis
    using pressed_reached [of "[]" KTab, OF pressed_Nil_reached]
      pressed_reached [of "[KTab]" "KChar 105"] pressed_reached [of "[KTab, KChar 105]" "KChar 32"]
      pressed_reached [of "[KTab, KChar 105, KChar 32]" KEnter]
    by (simp add: import_keys_def)
qed

end
