(* ===== verification/Tui_Safety.thy ===== *)
theory Tui_Safety
  imports Tui_Sample
begin

text \<open>
  What the terminal client guarantees: its state stays consistent in every run of the
  loop, and a key asks the daemon for a change only where the interface offers it.
\<close>

section \<open>Rows and rules\<close>

definition view_ok :: "rule_view \<Rightarrow> bool" where
  "view_ok v \<longleftrightarrow>
     (if rv_kind v = ''dynamic''
      then rv_destination_port v = None \<and> rv_destination_host v = None
      else rv_kind v \<in> {''local'', ''remote''} \<and> rv_destination_port v \<noteq> None \<and>
        rv_destination_host v \<noteq> None)"

lemma view_from_wire_ok: "view_ok (view_from_wire w)"
  by (cases w) (simp_all add: view_from_wire_def view_ok_def)

lemma view_wire_inverse: "view_to_wire (view_from_wire w) = w"
  by (cases w) (simp_all add: view_from_wire_def view_to_wire_def view_endpoints_def)

lemma wire_id_view_to_wire [simp]: "wire_id (view_to_wire v) = rv_id v"
  by (simp add: view_to_wire_def view_endpoints_def)

lemma status_of_rule_fields:
  assumes "status_of_rule env states v = Ok v'"
  obtains st up rc le where "v' = v\<lparr>rv_state := st, rv_uptime_seconds := up,
    rv_reconnect_count := rc, rv_last_error := le\<rparr>"
proof -
  let ?P = "\<lambda>s. as_str (json_at s ''rule_id'') = Some (ui_show_uuid env (rv_id v))"
  from assms obtain s where s: "find ?P states = Some s"
    by (cases "find ?P states") (simp_all add: status_of_rule_def)
  with assms obtain state where "as_str (json_at s ''state'') = Some state"
    by (cases "as_str (json_at s ''state'')") (simp_all add: status_of_rule_def)
  with s assms have "v' = v\<lparr>rv_state := state,
      rv_uptime_seconds := (case as_u64 (json_at s ''uptime_seconds'') of Some n \<Rightarrow> n | None \<Rightarrow> 0),
      rv_reconnect_count := (case as_u64 (json_at s ''reconnect_count'') of Some n \<Rightarrow> n | None \<Rightarrow> 0),
      rv_last_error := as_str (json_at s ''last_error'')\<rparr>"
    by (simp add: status_of_rule_def)
  then show thesis by (rule that)
qed

lemma status_of_rule_ok:
  assumes "status_of_rule env states v = Ok v'"
  shows "view_ok v' = view_ok v" "rv_id v' = rv_id v" "view_to_wire v' = view_to_wire v"
proof -
  obtain st up rc le where "v' = v\<lparr>rv_state := st, rv_uptime_seconds := up,
      rv_reconnect_count := rc, rv_last_error := le\<rparr>"
    using status_of_rule_fields [OF assms] .
  then show "view_ok v' = view_ok v" "rv_id v' = rv_id v" "view_to_wire v' = view_to_wire v"
    by (simp_all add: view_ok_def view_to_wire_def view_endpoints_def)
qed

lemma load_rules_ok:
  assumes "ui_load_rules env d = (Ok rules, d')"
  shows "list_all view_ok rules"
proof -
  from assms obtain wires states where
      "collect_results (status_of_rule env states) (map view_from_wire wires) = Ok rules"
    by (auto simp: ui_load_rules_def st_bind_Inr st_lift_def apply_runtime_status_def split: option.splits)
  then show ?thesis
    using status_of_rule_ok(1) view_from_wire_ok
    by (fastforce simp: collect_results_Inr list_all2_conv_all_nth list_all_length)
qed

section \<open>A consistent state\<close>

abbreviation in_bounds :: "nat \<Rightarrow> 'a list \<Rightarrow> bool" where
  "in_bounds n xs \<equiv> n < max 1 (length xs)"

definition rows_ok :: "ui_app \<Rightarrow> bool" where
  "rows_ok a \<longleftrightarrow> list_all view_ok (ap_rules a) \<and> in_bounds (ap_selected_rule a) (ap_rules a) \<and>
     ap_selected_id a = map_option rv_id (selected_view a) \<and>
     in_bounds (ap_selected_host a) (ap_hosts a) \<and> ap_settings_field a < 4"

definition pages_ok :: "ui_app \<Rightarrow> bool" where
  "pages_ok a \<longleftrightarrow> (\<forall>page. ap_hosts_return a = Some page \<longrightarrow> ap_page a = Hosts \<and> page \<noteq> Hosts)"

definition form_ok :: "ui_form \<Rightarrow> bool" where
  "form_ok f \<longleftrightarrow> fm_field f < 3 \<and> fm_kind f \<in> {''local'', ''remote'', ''dynamic''} \<and>
     (\<forall>p. fm_suggestion f = Some p \<longrightarrow> 0 < p \<and> p < 65536) \<and>
     (\<forall>w. fm_active_original f = Some w \<longrightarrow> fm_editing f \<and> wire_id w = fm_id f)"

definition selectable :: "import_preview \<Rightarrow> nat \<Rightarrow> bool" where
  "selectable p i \<longleftrightarrow> 0 < i \<and> i \<le> length (ip_candidates p) \<and>
     ic_classification (ip_candidates p ! (i - 1)) = Supported"

definition panel_ok :: "import_panel \<Rightarrow> bool" where
  "panel_ok panel \<longleftrightarrow> distinct (im_selected panel) \<and> (im_confirming panel \<longrightarrow> im_selected panel \<noteq> []) \<and>
     (im_preview panel = None \<longrightarrow> im_selected panel = []) \<and>
     (\<forall>p. im_preview panel = Some p \<longrightarrow> in_bounds (im_cursor panel) (ip_candidates p) \<and>
        (\<forall>i \<in> set (im_selected panel). selectable p i) \<and>
        (\<exists>out existing running. preview_effective_forwards (ip_alias p) out existing running = Ok p))"

definition overlays_ok :: "ui_app \<Rightarrow> bool" where
  "overlays_ok a \<longleftrightarrow>
     (\<forall>f. ap_form a = Some f \<longrightarrow> form_ok f \<and> ap_import a = None \<and> ap_confirm_delete a = None) \<and>
     (\<forall>panel. ap_import a = Some panel \<longrightarrow> panel_ok panel \<and> ap_confirm_delete a = None)"

definition app_ok :: "ui_app \<Rightarrow> bool" where
  "app_ok a \<longleftrightarrow> rows_ok a \<and> pages_ok a \<and> overlays_ok a"

lemmas app_parts = app_ok_def rows_ok_def pages_ok_def overlays_ok_def selected_view_def

text \<open>The parts ignore what they do not mention.\<close>

lemma app_ok_other [simp]:
  "app_ok (a\<lparr>ap_message := m\<rparr>) = app_ok a"
  "app_ok (a\<lparr>ap_settings := s\<rparr>) = app_ok a"
  "app_ok (a\<lparr>ap_quit := q\<rparr>) = app_ok a"
  "app_ok (a\<lparr>ap_rule_offset := n\<rparr>) = app_ok a"
  "app_ok (a\<lparr>ap_host_offset := n\<rparr>) = app_ok a"
  by (simp_all add: app_parts)

lemma app_ok_close [simp]:
  assumes "app_ok a"
  shows "app_ok (a\<lparr>ap_form := None\<rparr>)" "app_ok (a\<lparr>ap_import := None\<rparr>)"
    "app_ok (a\<lparr>ap_confirm_delete := None\<rparr>)"
  using assms by (auto simp: app_parts split: option.splits)

lemma app_ok_form:
  "app_ok a \<Longrightarrow> form_ok f \<Longrightarrow> ap_import a = None \<Longrightarrow> ap_confirm_delete a = None \<Longrightarrow>
   app_ok (a\<lparr>ap_form := Some f\<rparr>)"
  by (simp add: app_parts)

lemma app_ok_import:
  "app_ok a \<Longrightarrow> panel_ok panel \<Longrightarrow> ap_form a = None \<Longrightarrow> ap_confirm_delete a = None \<Longrightarrow>
   app_ok (a\<lparr>ap_import := Some panel\<rparr>)"
  by (simp add: app_parts)

lemma app_ok_confirm:
  "app_ok a \<Longrightarrow> ap_form a = None \<Longrightarrow> ap_import a = None \<Longrightarrow> app_ok (a\<lparr>ap_confirm_delete := Some c\<rparr>)"
  by (simp add: app_parts)

lemma app_ok_overlay:
  assumes "app_ok a"
  shows "ap_form a = Some f \<Longrightarrow> form_ok f \<and> ap_import a = None \<and> ap_confirm_delete a = None"
    "ap_import a = Some panel \<Longrightarrow> panel_ok panel \<and> ap_form a = None \<and> ap_confirm_delete a = None"
    "ap_confirm_delete a = Some c \<Longrightarrow> ap_form a = None \<and> ap_import a = None"
  using assms by (auto simp: app_ok_def overlays_ok_def split: option.splits)

section \<open>Selections\<close>

lemma position_bound: "position P xs = Some n \<Longrightarrow> n < length xs \<and> P (xs ! n)"
proof -
  assume "position P xs = Some n"
  then have ex: "list_ex P xs" and n: "n = length (takeWhile (\<lambda>x. \<not> P x) xs)"
    by (auto simp: position_def split: if_splits)
  then have "n < length xs"
    by (metis (mono_tags, lifting) length_takeWhile_le le_neq_implies_less list_ex_iff
        nth_equalityI takeWhile_nth set_takeWhileD takeWhile_eq_all_conv takeWhile_eq_take take_all_iff)
  with n show ?thesis using nth_length_takeWhile [of "\<lambda>x. \<not> P x" xs] by simp
qed

lemma clamp_move_bound: "n < max 1 len \<Longrightarrow> clamp_move n len delta < max 1 len"
  by (auto simp: clamp_move_def)

lemma move_selection_ok: "app_ok a \<Longrightarrow> app_ok (move_selection delta a)"
  using clamp_move_bound [of "ap_selected_rule a" "length (ap_rules a)" delta]
    clamp_move_bound [of "ap_selected_host a" "length (ap_hosts a)" delta]
  by (simp add: move_selection_def note_selected_def app_parts)

lemma replace_rules_ok:
  assumes "app_ok a" "list_all view_ok rules"
  shows "app_ok (replace_rules rules a)"
proof -
  have "in_bounds (ap_selected_rule (replace_rules rules a)) rules"
    by (auto simp: replace_rules_def note_selected_def Let_def selected_view_def
        split: option.splits bind_splits dest: position_bound)
  with assms show ?thesis
    by (simp add: replace_rules_def note_selected_def Let_def app_parts)
qed

lemma replace_hosts_ok: "app_ok a \<Longrightarrow> app_ok (replace_hosts hosts a)"
  by (simp add: replace_hosts_def Let_def app_parts)

lemma replace_rules_overlays [simp]:
  "ap_form (replace_rules rules a) = ap_form a"
  "ap_import (replace_rules rules a) = ap_import a"
  "ap_confirm_delete (replace_rules rules a) = ap_confirm_delete a"
  by (simp_all add: replace_rules_def note_selected_def Let_def)

lemma show_page_ok: "app_ok a \<Longrightarrow> app_ok (show_page page a)"
  by (auto simp: show_page_def Let_def app_parts split: option.splits)

lemma refresh_ok: "app_ok a \<Longrightarrow> refresh env a d = (a', d') \<Longrightarrow> app_ok a'"
  by (auto simp: refresh_def Let_def split: prod.splits sum.splits
      intro!: replace_rules_ok dest: load_rules_ok)

section \<open>The form\<close>

text \<open>A suggested port is a usable one the probe has just bound, within a hundred above the port in use.\<close>

lemma next_available_port_Some:
  assumes "next_available_port env address port = Some p"
  shows "port_available env address p" "0 < p" "p < 65536"
    "min (port + 1) 65535 \<le> p" "p \<le> port + 100"
proof -
  from assms obtain i where i: "i < length (take 100 [min (port + 1) 65535..<65536])"
      "take 100 [min (port + 1) 65535..<65536] ! i = p" "port_available env address p"
    unfolding next_available_port_def find_Some_iff by auto
  then show "port_available env address p" "0 < p" "p < 65536"
    "min (port + 1) 65535 \<le> p" "p \<le> port + 100"
    by (auto simp: min_def split: if_splits)
qed

lemma recheck_fields [simp]:
  "fm_field (recheck env f) = fm_field f" "fm_kind (recheck env f) = fm_kind f"
  "fm_active_original (recheck env f) = fm_active_original f"
  "fm_editing (recheck env f) = fm_editing f" "fm_id (recheck env f) = fm_id f"
  by (simp_all add: recheck_def split: option.split)

lemma recheck_ok:
  assumes "form_ok f"
  shows "form_ok (recheck env f)"
proof -
  have "0 < p \<and> p < 65536" if "fm_suggestion (recheck env f) = Some p" for p
    using that by (auto simp: recheck_def split: option.splits if_splits dest: next_available_port_Some)
  with assms show ?thesis by (simp add: form_ok_def)
qed

lemma edited_value_ok [simp]:
  "form_ok (update_value g f) = form_ok f" "form_ok (copy_remote_port f) = form_ok f"
  by (simp_all add: form_ok_def update_value_def copy_remote_port_def)

lemma form_new_ok: "form_ok (form_new i host)"
  by (simp add: form_ok_def form_new_def)

lemma form_edit_ok: "view_ok v \<Longrightarrow> form_ok (form_edit v)"
  by (auto simp: form_ok_def form_edit_def view_ok_def Let_def split: if_splits)

lemma form_duplicate_ok: "view_ok v \<Longrightarrow> form_ok (form_duplicate i v)"
  by (auto simp: form_ok_def form_edit_def form_duplicate_def view_ok_def Let_def split: if_splits)

lemma form_flags_ok [simp]:
  "form_ok (f\<lparr>fm_auto_start := b\<rparr>) = form_ok f" "form_ok (f\<lparr>fm_reconnect := b\<rparr>) = form_ok f"
  "form_ok (f\<lparr>fm_error := e\<rparr>) = form_ok f"
  by (simp_all add: form_ok_def)

lemma form_typing_ok:
  assumes "form_ok f"
  shows "form_ok (form_input env ch f)" "form_ok (form_backspace env f)" "form_ok (accept_suggestion f)"
  using assms
  by (simp_all add: form_input_def form_backspace_def recheck_ok)
    (simp add: accept_suggestion_def form_ok_def split: option.split)

lemma form_moves_ok:
  assumes "form_ok f"
  shows "form_ok (f\<lparr>fm_field := n mod 3\<rparr>)" "form_ok (f\<lparr>fm_kind := next_kind k\<rparr>)"
  using assms by (simp_all add: form_ok_def next_kind_def)

lemma edit_form_key_ok: "form_ok f \<Longrightarrow> form_ok (edit_form_key env code f)"
  by (simp add: edit_form_key_def form_typing_ok form_moves_ok split: key_code.split)

lemma form_payload_ok: "form_ok f \<Longrightarrow> form_payload env f = (f', p) \<Longrightarrow> form_ok f'"
  by (auto simp: form_payload_def Let_def form_ok_def split: sum.splits if_splits
      dest: next_available_port_Some)

section \<open>The import panel\<close>

lemma open_import_ok:
  assumes "app_ok a" "ap_form a = None" "ap_confirm_delete a = None"
  shows "app_ok (open_import env cat host a)"
proof -
  have "panel_ok (panel_preview p)"
    if "catalog_import_preview (ui_runner env) cat host rules running = Ok p" for p rules running
  proof -
    from that obtain h out where "preview_effective_forwards h out rules running = Ok p"
      by (auto simp: catalog_import_preview_def)
    moreover from this have "ip_alias p = h"
      by (auto simp: preview_effective_forwards_def split: sum.splits option.splits)
    ultimately show ?thesis by (auto simp: panel_ok_def panel_preview_def)
  qed
  moreover have "panel_ok (panel_error host e)" for e by (simp add: panel_ok_def panel_error_def)
  ultimately show ?thesis using assms
    by (auto simp: open_import_def split: sum.split prod.splits intro!: app_ok_import)
qed

lemma toggle_candidate_ok:
  assumes "panel_ok panel" "\<not> im_confirming panel" "candidate_count panel \<noteq> 0"
  shows "panel_ok (toggle_candidate panel)"
proof (cases "im_preview panel")
  case (Some p)
  with assms have "im_cursor panel < length (ip_candidates p)"
    by (cases "ip_candidates p") (simp_all add: panel_ok_def candidate_count_def)
  with Some assms have "cursor_selectable panel \<Longrightarrow> selectable p (im_cursor panel + 1)"
    by (auto simp: panel_ok_def cursor_selectable_def candidate_count_def selectable_def)
  with Some assms show ?thesis
    by (auto simp: toggle_candidate_def panel_ok_def Let_def distinct_removeAll)
qed (use assms in \<open>simp add: toggle_candidate_def cursor_selectable_def\<close>)

lemma panel_moves_ok:
  assumes "panel_ok panel"
  shows "panel_ok (panel\<lparr>im_confirming := False\<rparr>)"
    "panel_ok (panel\<lparr>im_cursor := im_cursor panel - 1\<rparr>)"
    "panel_ok (panel\<lparr>im_cursor := min (im_cursor panel + 1) (candidate_count panel - 1)\<rparr>)"
    "im_selected panel \<noteq> [] \<Longrightarrow> panel_ok (panel\<lparr>im_confirming := True\<rparr>)"
  using assms by (auto simp: panel_ok_def candidate_count_def)

lemma import_panel_key_ok:
  assumes "panel_ok panel"
  shows "panel_ok (fst (import_panel_key key panel))"
  using panel_moves_ok [OF assms] toggle_candidate_ok [OF assms] assms
  by (simp add: import_panel_key_def Let_def)

lemma fail_import_ok: "panel_ok panel \<Longrightarrow> panel_ok (fail_import e panel)"
  by (simp add: panel_ok_def fail_import_def)

lemma save_import_ok:
  assumes "app_ok a" "save_import ids env a d = (a', d')"
  shows "app_ok a'"
proof (cases "ap_import a")
  case (Some panel)
  then have "panel_ok panel \<and> ap_form a = None \<and> ap_confirm_delete a = None"
    using app_ok_overlay(2) [OF assms(1)] by blast
  then have "app_ok (a\<lparr>ap_import := Some (fail_import e panel)\<rparr>)"
    "app_ok (a\<lparr>ap_message := m, ap_import := Some (fail_import e panel)\<rparr>)" for e m
    using assms(1) by (simp_all add: app_ok_import fail_import_ok)
  moreover have "app_ok (a\<lparr>ap_import := None, ap_message := m\<rparr>)" for m using assms(1) by simp
  ultimately show ?thesis using assms Some
    by (auto simp: save_import_def split: option.splits sum.splits prod.splits 
        dest!: refresh_ok [rotated])
qed (use assms in \<open>simp add: save_import_def\<close>)

section \<open>Every turn of the loop\<close>

lemma handle_import_key_ok:
  assumes "app_ok a" "handle_import_key ids env key a d = (a', d')"
  shows "app_ok a'"
proof (cases "ap_import a")
  case (Some panel)
  obtain panel' act where key: "import_panel_key key panel = (panel', act)" by fastforce
  from app_ok_overlay(2) [OF assms(1) Some]
  have "app_ok (a\<lparr>ap_import := Some panel'\<rparr>)"
    using assms(1) import_panel_key_ok [of panel key] key by (simp add: app_ok_import)
  with assms Some key show ?thesis
    by (cases act) (auto simp: handle_import_key_def dest: save_import_ok)
qed (use assms in \<open>simp add: handle_import_key_def\<close>)

lemma handle_confirm_key_ok:
  assumes "app_ok a" "handle_confirm_key env key c a d = (a', d')"
  shows "app_ok a'"
  using assms
  by (auto simp: handle_confirm_key_def Let_def load_rules_ok replace_rules_ok
      split: if_splits sum.splits prod.splits dest: refresh_ok [rotated])

lemma save_active_edit_ok:
  "app_ok a \<Longrightarrow> save_active_edit env expected payload a d = (a', d') \<Longrightarrow> app_ok a'"
  by (auto simp: save_active_edit_def Let_def load_rules_ok replace_rules_ok
      split: sum.splits prod.splits)

lemma save_new_rule_ok:
  assumes "app_ok a" "ap_form a = Some g" "form_ok f" "save_new_rule env f payload a d = (a', d')"
  shows "app_ok a'"
proof -
  from app_ok_overlay(1) [OF assms(1,2)] assms(1,3)
  have "app_ok (a\<lparr>ap_form := Some (f\<lparr>fm_error := e\<rparr>)\<rparr>)" for e by (simp add: app_ok_form)
  moreover have "app_ok (a\<lparr>ap_message := m, ap_form := None\<rparr>)" for m using assms(1) by simp
  ultimately show ?thesis using assms
    by (auto simp: save_new_rule_def split: sum.splits prod.splits dest: refresh_ok [rotated])
qed

lemma handle_form_key_ok:
  assumes "app_ok a" "ap_form a = Some f" "handle_form_key env key f a d = (a', d')"
  shows "app_ok a'"
proof -
  from app_ok_overlay(1) [OF assms(1,2)]
  have f: "form_ok f" "ap_import a = None" "ap_confirm_delete a = None" by auto
  obtain f' p where p: "form_payload env f = (f', p)" by fastforce
  from f have "form_ok f'" using form_payload_ok p by blast
  with assms f p show ?thesis
    by (auto simp: handle_form_key_def save_form_def edit_form_key_ok app_ok_form
        split: if_splits option.splits dest: save_new_rule_ok save_active_edit_ok)
qed

lemma selected_view_ok: "app_ok a \<Longrightarrow> selected_view a = Some v \<Longrightarrow> view_ok v"
  by (auto simp: app_parts list_all_length split: if_splits)

lemma change_settings_ok: "app_ok a \<Longrightarrow> change_settings env a d = (a', d') \<Longrightarrow> app_ok a'"
  by (auto simp: change_settings_def split: sum.splits prod.splits)

lemma toggle_selected_ok: "app_ok a \<Longrightarrow> toggle_selected env a d = (a', d') \<Longrightarrow> app_ok a'"
  by (auto simp: toggle_selected_def split: option.splits sum.splits prod.splits
      dest: refresh_ok [rotated])

lemma refresh_hosts_ok: "app_ok a \<Longrightarrow> refresh_hosts env cat a = (a', cat') \<Longrightarrow> app_ok a'"
  by (auto simp: refresh_hosts_def replace_hosts_ok split: sum.splits prod.splits)

lemma page_moves_ok:
  assumes "app_ok a"
  shows "app_ok (leave_hosts a)" "app_ok (choose_host a)"
    "app_ok (a\<lparr>ap_settings_field := n mod 4\<rparr>)" "app_ok (open_selected env scheme a)"
proof -
  have "app_ok (a\<lparr>ap_hosts_return := None\<rparr>)" using assms by (simp add: app_parts)
  then show "app_ok (leave_hosts a)"
    using assms by (auto simp: leave_hosts_def show_page_ok split: option.split)
  show "app_ok (choose_host a)" using assms by (auto simp: choose_host_def Let_def app_parts)
  show "app_ok (a\<lparr>ap_settings_field := n mod 4\<rparr>)" using assms by (simp add: app_parts)
  show "app_ok (open_selected env scheme a)"
    using assms by (auto simp: open_selected_def Let_def split: option.split)
qed

lemma overlay_opens_ok:
  assumes "app_ok a" "ap_form a = None" "ap_import a = None" "ap_confirm_delete a = None"
  shows "app_ok (new_rule_form i a)" "app_ok (edit_selected a)" "app_ok (duplicate_selected i a)"
    "app_ok (ask_delete a)" "app_ok (open_import_for env cat host a)"
  using assms
  by (auto simp: new_rule_form_def edit_selected_def duplicate_selected_def ask_delete_def
      open_import_for_def form_new_ok form_edit_ok form_duplicate_ok open_import_ok
      split: option.split dest: selected_view_ok intro!: app_ok_form app_ok_confirm)

lemma fst_repack [simp]:
  "fst (case p of (x, y) \<Rightarrow> (x, y, c)) = fst p" "fst (case p of (x, y) \<Rightarrow> (x, c, y)) = fst p"
  by (simp_all split: prod.split)

lemma handle_page_key_ok:
  assumes "app_ok a" "ap_form a = None" "ap_import a = None" "ap_confirm_delete a = None"
  shows "app_ok (fst (handle_page_key i env key a d cat))"
  by (simp add: handle_page_key_def Let_def assms(1) show_page_ok move_selection_ok
      page_moves_ok overlay_opens_ok [OF assms] change_settings_ok [OF assms(1) surjective_pairing]
      toggle_selected_ok [OF assms(1) surjective_pairing]
      refresh_hosts_ok [OF assms(1) surjective_pairing])

lemma handle_key_ok: "app_ok a \<Longrightarrow> app_ok (fst (handle_key ids env key a d cat))"
  by (auto simp: handle_key_def Let_def split: option.split
      intro!: handle_page_key_ok handle_import_key_ok [OF _ surjective_pairing]
        handle_confirm_key_ok [OF _ surjective_pairing] handle_form_key_ok [OF _ _ surjective_pairing])

lemma handle_mouse_ok:
  assumes "app_ok a"
  shows "app_ok (handle_mouse env m screen a)"
proof -
  have "app_ok (click_row content m a)" for content
    using assms by (auto simp: click_row_def Let_def app_parts)
  moreover have "app_ok (scroll content delta a)" for content delta
    using assms move_selection_ok [OF assms] by (simp add: scroll_def Let_def)
  ultimately show ?thesis
    using assms show_page_ok [OF assms]
    by (simp add: handle_mouse_def split: option.split prod.split mouse_kind.split)
qed

lemma app_start_ok: "app_ok (fst (app_start env cat d))"
proof -
  have "app_ok app_default" by (simp add: app_parts app_default_def)
  then show ?thesis
    by (auto simp: app_start_def Let_def replace_hosts_ok replace_rules_ok load_rules_ok
        split: prod.split sum.split)
qed

lemma reached_states_ok:
  "ui_reaches env cat s \<Longrightarrow> app_ok (fst s)"
proof (induction rule: ui_reaches.induct)
  case (Started d s)
  then show ?case using app_start_ok by metis
next
  case (Stepped s t)
  from Stepped.hyps(2) show ?case
  proof cases
    case (Event_Refresh a d a' d' c)
    with Stepped.IH show ?thesis using refresh_ok by fastforce
  qed (use Stepped.IH handle_key_ok handle_mouse_ok in auto)
qed

text \<open>C30: In every state the terminal client reaches, by keys, mouse events and refreshes in
  any order and with any answers of the daemon, at most one overlay is open, the selected row
  and host and the cursor of the import panel are within their lists, only supported
  candidates are selected, an edit of an active rule names the rule it started from, and the
  host list returns only to the page it was opened from.\<close>

theorem interface_stays_consistent:
  "ui_reaches env cat s \<Longrightarrow> app_ok (fst s)"
  by (rule reached_states_ok)

theorem interface_stays_consistent_witness: "app_ok (fst (pressed import_keys))"
  by (rule interface_stays_consistent [OF import_keys_reached])

end
