(* ===== verification/Tui_Requests.thy ===== *)
theory Tui_Requests
  imports Tui_Safety
begin

text \<open>
  Which requests the terminal client sends: the calls of an environment are recorded, and
  the changing ones among them are compared with what the interface offers in the state a
  key is pressed in.
\<close>

section \<open>Recorded calls\<close>

type_synonym call = "operation \<times> json"

definition reading :: "operation \<Rightarrow> bool" where
  "reading op \<longleftrightarrow> op = ForwardList \<or> op = Status \<or> op = SettingsGet"

definition changing :: "call list \<Rightarrow> call list" where
  "changing calls = filter (\<lambda>(op, _). \<not> reading op) calls"

lemma changing_Nil [simp]: "changing [] = []"
  by (simp add: changing_def)

text \<open>The environment that keeps what it was called with.\<close>

definition recording :: "'d ui_env \<Rightarrow> ('d \<times> call list) ui_env" where
  "recording env = \<lparr>
     ui_call = (\<lambda>op p (d, calls). case ui_call env op p d of (r, d') \<Rightarrow> (r, (d', calls @ [(op, p)]))),
     ui_ser_uuid = ui_ser_uuid env, ui_show_uuid = ui_show_uuid env,
     ui_parse_uuid = ui_parse_uuid env, ui_de_rules = ui_de_rules env,
     ui_de_settings = ui_de_settings env, ui_ser_settings = ui_ser_settings env,
     ui_binds = ui_binds env, ui_platform = ui_platform env, ui_spawn = ui_spawn env,
     ui_world = ui_world env, ui_runner = ui_runner env, ui_areas = ui_areas env,
     ui_title_widths = ui_title_widths env\<rparr>"

locale call_record =
  fixes env :: "'d ui_env" and calls :: "'d \<Rightarrow> call list"
  assumes recorded: "ui_call env op p d = (r, d') \<Longrightarrow> calls d' = calls d @ [(op, p)]"
begin

definition asked :: "'d \<Rightarrow> call list" where
  "asked d = changing (calls d)"

lemma asked_call:
  "ui_call env op p d = (r, d') \<Longrightarrow> asked d' = asked d @ (if reading op then [] else [(op, p)])"
  by (auto simp: asked_def changing_def dest: recorded)

lemma asked_ui_load_rules: "ui_load_rules env d = (r, d') \<Longrightarrow> asked d' = asked d"
  by (auto simp: ui_load_rules_def st_bind_def st_lift_def reading_def
      split: prod.splits sum.splits dest!: asked_call)

lemma asked_load_settings: "load_settings env d = (r, d') \<Longrightarrow> asked d' = asked d"
  by (auto simp: load_settings_def st_bind_def st_lift_def reading_def
      split: prod.splits sum.splits dest!: asked_call)

lemma asked_refresh: "refresh env a d = (a', d') \<Longrightarrow> asked d' = asked d"
  by (auto simp: refresh_def Let_def split: prod.splits
      dest!: asked_ui_load_rules asked_load_settings)

lemmas asked_steps = asked_call asked_ui_load_rules asked_load_settings asked_refresh

text \<open>A confirmed deletion stops a running rule first and removes it only if that succeeded.\<close>

lemma asked_confirm:
  assumes "handle_confirm_key env key c a d = (a', d')"
  shows "asked d' = asked d @
    (if is_char key CHR ''y'' \<or> ke_code key = KEnter then
       (if dc_stop_first c then (ForwardStop, rule_payload env (dc_id c)) #
          (if is_ok (fst (ui_call env ForwardStop (rule_payload env (dc_id c)) d))
           then [(ForwardRemove, rule_payload env (dc_id c))] else [])
        else [(ForwardRemove, rule_payload env (dc_id c))])
     else [])"
  using assms
  by (auto simp: handle_confirm_key_def Let_def reading_def
      split: if_splits prod.splits sum.splits dest!: asked_steps)

lemma asked_save_form:
  assumes "save_form env f a d = (a', d')" "form_payload env f = (f', p)"
  shows "case p of
      None \<Rightarrow> asked d' = asked d
    | Some payload \<Rightarrow>
        (case fm_active_original f' of
           Some expected \<Rightarrow> asked d' = asked d @ [(ForwardEditActive, JObj
             [(''expected'', rule_to_json (ui_ser_uuid env) expected), (''replacement'', payload)])]
         | None \<Rightarrow> asked d' = asked d @ (ForwardAdd, payload) #
             (case fst (ui_call env ForwardAdd payload d) of
                Inl _ \<Rightarrow> []
              | Inr v \<Rightarrow> [(ForwardStart, rule_payload env (added_id env (fm_id f') v))]))"
  using assms
  by (auto simp: save_form_def save_active_edit_def save_new_rule_def Let_def reading_def
      split: prod.splits option.splits sum.splits dest!: asked_steps)

lemma asked_save_import:
  assumes "save_import ids env a d = (a', d')"
  shows "asked d' = asked d \<or> (\<exists>panel preview existing running s rules.
    ap_import a = Some panel \<and> im_preview panel = Some preview \<and>
    rule_snapshots a = Ok (existing, running) \<and> fst (load_settings env d) = Ok s \<and>
    selected_rules ids preview (im_selected panel) existing
      (s_default_auto_start s) (s_default_reconnect s) = Ok rules \<and>
    asked d' = asked d @ [(ForwardImport, import_payload env rules)])"
  using assms
  by (auto simp: save_import_def reading_def
      split: prod.splits option.splits sum.splits dest!: asked_steps)

lemma asked_toggle:
  assumes "toggle_selected env a d = (a', d')"
  shows "asked d' = asked d @ (case selected_view a of
      None \<Rightarrow> []
    | Some v \<Rightarrow> [(if rv_state v = lit ''stopped'' then ForwardStart else ForwardStop,
        rule_payload env (rv_id v))])"
  using assms
  by (auto simp: toggle_selected_def reading_def
      split: prod.splits option.splits sum.splits if_splits dest!: asked_steps)

lemma asked_change_settings:
  assumes "change_settings env a d = (a', d')"
  shows "asked d' = asked d @ [(SettingsUpdate,
    ui_ser_settings env (change_setting (ap_settings_field a) (ap_settings a)))]"
  using assms
  by (auto simp: change_settings_def save_settings_def st_bind_def st_lift_def reading_def
      split: prod.splits sum.splits dest!: asked_steps)

end

text \<open>The recording environment keeps its calls in the second component.\<close>

interpretation rec: call_record "recording env" snd for env
  by unfold_locales (auto simp: recording_def split: prod.splits)

lemma recording_fields [simp]:
  "ui_ser_uuid (recording env) = ui_ser_uuid env"
  "ui_ser_settings (recording env) = ui_ser_settings env"
  "rule_payload (recording env) i = rule_payload env i"
  "import_payload (recording env) rules = import_payload env rules"
  by (simp_all add: recording_def rule_payload_def import_payload_def)

lemma recording_call [simp]:
  "fst (ui_call (recording env) op p (d, calls)) = fst (ui_call env op p d)"
  by (simp add: recording_def split: prod.split)

lemma load_settings_recording [simp]:
  "fst (load_settings (recording env) (d, calls)) = fst (load_settings env d)"
  by (simp add: load_settings_def st_bind_def st_lift_def recording_def split: prod.split sum.split)

lemma added_id_recording [simp]: "added_id (recording env) i v = added_id env i v"
  by (simp add: added_id_def recording_def)

lemma form_payload_recording [simp]: "form_payload (recording env) f = form_payload env f"
proof -
  have free: "port_available (recording env) = port_available env"
    by (intro ext) (simp add: port_available_def recording_def)
  then have "next_available_port (recording env) = next_available_port env"
    by (intro ext) (simp add: next_available_port_def)
  moreover have "keep_original_hosts (recording env) = keep_original_hosts env"
    by (intro ext) (simp only: keep_original_hosts_def recording_fields)
  moreover have "loopback_value (recording env) = loopback_value env"
    by (intro ext) (simp only: loopback_value_def recording_fields)
  ultimately show ?thesis by (simp only: form_payload_def free)
qed

section \<open>What a key may ask for\<close>

text \<open>The changes a key asks the daemon for, in order.\<close>

definition requests ::
  "(nat \<Rightarrow> uuid) \<Rightarrow> 'd ui_env \<Rightarrow> key_event \<Rightarrow> ui_app \<Rightarrow> 'd \<Rightarrow> host_catalog \<Rightarrow> call list" where
  "requests ids env key a d cat =
     (case handle_key ids (recording env) key a (d, []) cat of (a', (d', calls), cat') \<Rightarrow> changing calls)"

definition confirming_key :: "key_event \<Rightarrow> bool" where
  "confirming_key key \<longleftrightarrow> is_char key CHR ''y'' \<or> ke_code key = KEnter"

definition quit_key :: "key_event \<Rightarrow> bool" where
  "quit_key key \<longleftrightarrow> ke_control key \<and> is_char key CHR ''c''"

text \<open>
  What the screen shows, said without the functions that build the requests: the request
  for one rule, the rule a form describes (an edit of an active rule keeps the hosts the
  form does not show, as long as the kind stays), the one setting that is chosen.
\<close>

definition names_rule :: "'d ui_env \<Rightarrow> json \<Rightarrow> uuid \<Rightarrow> bool" where
  "names_rule env p i \<longleftrightarrow> p = JObj [(''rule_id'', ui_ser_uuid env i)]"

definition form_hosts :: "ui_form \<Rightarrow> rstr \<times> rstr" where
  "form_hosts f =
     (case fm_active_original f of
        Some (WLocal w) \<Rightarrow>
          if fm_kind f = ''local'' then (w_bind_address w, w_destination_host w) else (LOOPBACK, LOOPBACK)
      | Some (WRemote w) \<Rightarrow>
          if fm_kind f = ''remote'' then (w_bind_address w, w_destination_host w) else (LOOPBACK, LOOPBACK)
      | Some (WDynamic w) \<Rightarrow>
          if fm_kind f = ''dynamic'' then (wd_bind_address w, LOOPBACK) else (LOOPBACK, LOOPBACK)
      | None \<Rightarrow> (LOOPBACK, LOOPBACK))"

definition form_shows :: "'d ui_env \<Rightarrow> ui_form \<Rightarrow> json \<Rightarrow> bool" where
  "form_shows env f p \<longleftrightarrow>
     json_at p ''id'' = ui_ser_uuid env (fm_id f) \<and>
     json_at p ''kind'' = JStr (lit (fm_kind f)) \<and>
     json_at p ''name'' = JStr (fm_name f) \<and>
     json_at p ''ssh_host_alias'' = JStr (fm_host f) \<and>
     json_at p ''bind_address'' = JStr (fst (form_hosts f)) \<and>
     json_at p ''bind_port'' =
       JNat (port_or_zero (if fm_kind f = ''remote'' then fm_remote_port f else fm_local_port f)) \<and>
     json_at p ''auto_start'' = JBool (fm_auto_start f) \<and>
     json_at p ''reconnect'' = JBool (fm_reconnect f) \<and>
     (if fm_kind f = ''dynamic''
      then json_get p ''destination_host'' = None \<and> json_get p ''destination_port'' = None
      else json_at p ''destination_host'' = JStr (snd (form_hosts f)) \<and> json_at p ''destination_port'' =
        JNat (port_or_zero (if fm_kind f = ''remote'' then fm_local_port f else fm_remote_port f)))"

text \<open>The rule to start after an addition: the one the daemon answered, or the form's.\<close>

definition added_rule :: "'d ui_env \<Rightarrow> ui_form \<Rightarrow> json \<Rightarrow> uuid \<Rightarrow> bool" where
  "added_rule env f answered i \<longleftrightarrow>
     (case as_str (json_at answered ''rule_id'') of
        None \<Rightarrow> i = fm_id f
      | Some s \<Rightarrow> (case ui_parse_uuid env s of None \<Rightarrow> i = fm_id f | Some j \<Rightarrow> i = j))"

definition form_offers :: "'d ui_env \<Rightarrow> ui_form \<Rightarrow> 'd \<Rightarrow> operation \<Rightarrow> json \<Rightarrow> bool" where
  "form_offers env f d op p \<longleftrightarrow>
     (case fm_active_original f of
        Some expected \<Rightarrow> op = ForwardEditActive \<and> (\<exists>payload. form_shows env f payload \<and>
          p = JObj [(''expected'', rule_to_json (ui_ser_uuid env) expected), (''replacement'', payload)])
      | None \<Rightarrow> op = ForwardAdd \<and> form_shows env f p \<or>
          op = ForwardStart \<and> (\<exists>payload answered i. form_shows env f payload \<and>
            fst (ui_call env ForwardAdd payload d) = Ok answered \<and> added_rule env f answered i \<and>
            names_rule env p i))"

definition import_offers ::
  "(nat \<Rightarrow> uuid) \<Rightarrow> 'd ui_env \<Rightarrow> ui_app \<Rightarrow> import_panel \<Rightarrow> 'd \<Rightarrow> json \<Rightarrow> bool" where
  "import_offers ids env a panel d p \<longleftrightarrow>
     (\<exists>preview existing running s rules. im_preview panel = Some preview \<and>
        rule_snapshots a = Ok (existing, running) \<and> fst (load_settings env d) = Ok s \<and>
        selected_rules ids preview (im_selected panel) existing
          (s_default_auto_start s) (s_default_reconnect s) = Ok rules \<and>
        p = JObj [(''rules'', JArr (map (\<lambda>r. rule_to_json (ui_ser_uuid env) (wire_of_domain r)) rules))])"

definition one_setting :: "nat \<Rightarrow> settings \<Rightarrow> settings \<Rightarrow> bool" where
  "one_setting field s s' \<longleftrightarrow>
     (s_theme s' = s_theme s \<longleftrightarrow> field \<noteq> 0) \<and> (s_log_level s' = s_log_level s \<longleftrightarrow> field \<noteq> 1) \<and>
     (s_default_reconnect s' = s_default_reconnect s \<longleftrightarrow> field \<noteq> 2) \<and>
     (s_default_auto_start s' = s_default_auto_start s \<longleftrightarrow> field \<in> {0, 1, 2})"

definition offers ::
  "(nat \<Rightarrow> uuid) \<Rightarrow> 'd ui_env \<Rightarrow> key_event \<Rightarrow> ui_app \<Rightarrow> 'd \<Rightarrow> operation \<Rightarrow> json \<Rightarrow> bool" where
  "offers ids env key a d op p \<longleftrightarrow> \<not> quit_key key \<and>
     (case ap_import a of
        Some panel \<Rightarrow> im_confirming panel \<and> confirming_key key \<and> op = ForwardImport \<and>
          import_offers ids env a panel d p
      | None \<Rightarrow>
     (case ap_confirm_delete a of
        Some c \<Rightarrow> confirming_key key \<and> names_rule env p (dc_id c) \<and>
          (op = ForwardRemove \<or> dc_stop_first c \<and> op = ForwardStop)
      | None \<Rightarrow>
     (case ap_form a of
        Some f \<Rightarrow> ke_code key = KEnter \<and> form_offers env f d op p
      | None \<Rightarrow>
          if ap_page a = SettingsPage
          then op = SettingsUpdate \<and> ke_code key \<in> {KLeft, KRight, KEnter, KChar 32} \<and>
            (\<exists>s. p = ui_ser_settings env s \<and> one_setting (ap_settings_field a) (ap_settings a) s)
          else is_char key CHR '' '' \<and>
            (case selected_view a of
               None \<Rightarrow> False
             | Some v \<Rightarrow> names_rule env p (rv_id v) \<and>
                 op = (if rv_state v = lit ''stopped'' then ForwardStart else ForwardStop)))))"

lemma json_at_update:
  "json_at (JObj (AList.update k v kvs)) k' = (if k' = k then v else json_at (JObj kvs) k')"
  "json_get (JObj (AList.update k v kvs)) k' = (if k' = k then Some v else json_get (JObj kvs) k')"
  by (simp_all add: json_at_def update_conv')

definition form_fields :: "'d ui_env \<Rightarrow> ui_form \<Rightarrow> (string \<times> json) list" where
  "form_fields env f = [(''kind'', JStr (lit (fm_kind f))), (''id'', ui_ser_uuid env (fm_id f)),
     (''name'', JStr (fm_name f)), (''ssh_host_alias'', JStr (fm_host f)),
     (''bind_address'', JStr LOOPBACK),
     (''bind_port'', JNat (port_or_zero (if fm_kind f = ''remote'' then fm_remote_port f else fm_local_port f))),
     (''auto_start'', JBool (fm_auto_start f)), (''reconnect'', JBool (fm_reconnect f))]"

lemma form_fields_at:
  "json_at (JObj (form_fields env f)) ''kind'' = JStr (lit (fm_kind f))"
  "json_at (JObj (form_fields env f)) ''id'' = ui_ser_uuid env (fm_id f)"
  "json_at (JObj (form_fields env f)) ''name'' = JStr (fm_name f)"
  "json_at (JObj (form_fields env f)) ''ssh_host_alias'' = JStr (fm_host f)"
  "json_at (JObj (form_fields env f)) ''bind_address'' = JStr LOOPBACK"
  "json_at (JObj (form_fields env f)) ''bind_port'' =
     JNat (port_or_zero (if fm_kind f = ''remote'' then fm_remote_port f else fm_local_port f))"
  "json_at (JObj (form_fields env f)) ''auto_start'' = JBool (fm_auto_start f)"
  "json_at (JObj (form_fields env f)) ''reconnect'' = JBool (fm_reconnect f)"
  "json_get (JObj (form_fields env f)) ''destination_host'' = None"
  "json_get (JObj (form_fields env f)) ''destination_port'' = None"
  by (simp_all add: json_at_def form_fields_def)

lemma loopback_value_fields:
  "loopback_value env f =
     (if fm_kind f = ''dynamic'' then JObj (form_fields env f)
      else json_set (json_set (JObj (form_fields env f)) ''destination_host'' (JStr LOOPBACK)) ''destination_port''
        (JNat (port_or_zero (if fm_kind f = ''remote'' then fm_local_port f else fm_remote_port f))))"
  by (simp add: loopback_value_def form_fields_def Let_def)

lemma kept_value_shows: "form_shows env f (keep_original_hosts env f (loopback_value env f))"
proof (cases "fm_active_original f")
  case None
  then show ?thesis
    by (simp add: form_shows_def form_hosts_def keep_original_hosts_def loopback_value_fields
        json_at_update form_fields_at del: json_get.simps)
next
  case (Some w)
  then show ?thesis
    by (cases w) (simp_all add: form_shows_def form_hosts_def keep_original_hosts_def loopback_value_fields
        json_at_update form_fields_at rule_to_json_hosts Let_def eq_commute [of _ "fm_kind f"]
        del: json_get.simps rule_to_json.simps)
qed

lemma form_payload_shows: "form_payload env f = (f', Some p) \<Longrightarrow> f' = f \<and> form_shows env f p"
  using kept_value_shows [of env f] by (auto simp: form_payload_def Let_def split: sum.splits if_splits)

lemma added_id_rule: "added_rule env f v (added_id env (fm_id f) v)"
  by (auto simp: added_rule_def added_id_def split: option.split)

lemma change_setting_one: "one_setting field s (change_setting field s)"
proof -
  have "next_theme t \<noteq> t" "next_level l \<noteq> l" for t l by (cases t; simp) (cases l; simp)
  then show ?thesis by (simp add: one_setting_def change_setting_def)
qed

lemma is_char_neq: "is_char key c \<Longrightarrow> is_char key c' \<Longrightarrow> c = c'"
  by (simp add: is_char_def)

lemma handle_key_overlay:
  assumes "\<not> quit_key key"
  shows "ap_import a = Some panel \<Longrightarrow>
      handle_key ids env key a d cat = (case handle_import_key ids env key a d of (a', d') \<Rightarrow> (a', d', cat))"
    "ap_import a = None \<Longrightarrow> ap_confirm_delete a = Some c \<Longrightarrow>
      handle_key ids env key a d cat = (case handle_confirm_key env key c a d of (a', d') \<Rightarrow> (a', d', cat))"
    "ap_import a = None \<Longrightarrow> ap_confirm_delete a = None \<Longrightarrow> ap_form a = Some f \<Longrightarrow>
      handle_key ids env key a d cat = (case handle_form_key env key f a d of (a', d') \<Rightarrow> (a', d', cat))"
    "ap_import a = None \<Longrightarrow> ap_confirm_delete a = None \<Longrightarrow> ap_form a = None \<Longrightarrow>
      handle_key ids env key a d cat = handle_page_key (ids 0) env key a d cat"
  using assms by (auto simp: handle_key_def quit_key_def Let_def)

lemma requests_import:
  assumes "ap_import a = Some panel" "\<not> quit_key key"
  shows "requests ids env key a d cat = [] \<or>
    im_confirming panel \<and> confirming_key key \<and>
      (\<exists>p. import_offers ids env a panel d p \<and> requests ids env key a d cat = [(ForwardImport, p)])"
proof -
  obtain a' d' calls where h: "handle_import_key ids (recording env) key a (d, []) = (a', (d', calls))"
    by (metis prod.collapse)
  then have req: "requests ids env key a d cat = changing calls"
    using assms by (simp add: requests_def handle_key_overlay(1))
  obtain panel' act where k: "import_panel_key key panel = (panel', act)" by fastforce
  show ?thesis
  proof (cases act)
    case SaveImport
    then have saved: "save_import ids (recording env) (a\<lparr>ap_import := Some panel'\<rparr>) (d, []) = (a', (d', calls))"
      using h k assms(1) by (simp add: handle_import_key_def)
    have key: "im_confirming panel \<and> confirming_key key" "panel' = panel"
      using k SaveImport by (auto simp: import_panel_key_def Let_def confirming_key_def split: if_splits)
    have "rule_snapshots (a\<lparr>ap_import := Some panel\<rparr>) = rule_snapshots a"
      by (simp add: rule_snapshots_def)
    with rec.asked_save_import [OF saved] key(2) req have "requests ids env key a d cat = [] \<or>
        (\<exists>p. import_offers ids env a panel d p \<and> requests ids env key a d cat = [(ForwardImport, p)])"
      by (auto simp: rec.asked_def import_offers_def import_payload_def)
    with key(1) show ?thesis by blast
  qed (use h k assms(1) req in \<open>simp_all add: handle_import_key_def\<close>)
qed

lemma requests_confirm:
  assumes "ap_import a = None" "ap_confirm_delete a = Some c" "\<not> quit_key key"
  shows "requests ids env key a d cat =
    (if confirming_key key then
       (if dc_stop_first c then (ForwardStop, rule_payload env (dc_id c)) #
          (if is_ok (fst (ui_call env ForwardStop (rule_payload env (dc_id c)) d))
           then [(ForwardRemove, rule_payload env (dc_id c))] else [])
        else [(ForwardRemove, rule_payload env (dc_id c))])
     else [])"
proof -
  obtain a' d' calls where h: "handle_confirm_key (recording env) key c a (d, []) = (a', (d', calls))"
    by (metis prod.collapse)
  then have "requests ids env key a d cat = changing calls"
    using assms by (simp add: requests_def handle_key_overlay(2))
  with rec.asked_confirm [OF h] show ?thesis
    by (simp add: confirming_key_def rec.asked_def)
qed

lemma requests_form:
  assumes "ap_import a = None" "ap_confirm_delete a = None" "ap_form a = Some f" "\<not> quit_key key"
    "(op, p) \<in> set (requests ids env key a d cat)"
  shows "ke_code key = KEnter \<and> form_offers env f d op p"
proof -
  obtain a' d' calls where h: "handle_form_key (recording env) key f a (d, []) = (a', (d', calls))"
    by (metis prod.collapse)
  then have req: "requests ids env key a d cat = changing calls"
    using assms by (simp add: requests_def handle_key_overlay(3))
  show ?thesis
  proof (cases "ke_code key = KEnter")
    case True
    then have saved: "save_form (recording env) f a (d, []) = (a', (d', calls))"
      using h by (simp add: handle_form_key_def)
    obtain f' payload where p: "form_payload env f = (f', payload)" by fastforce
    note sent = rec.asked_save_form [OF saved, unfolded form_payload_recording, OF p]
    show ?thesis
    proof (cases payload)
      case None
      with sent req assms(5) show ?thesis by (simp add: rec.asked_def)
    next
      case (Some v)
      with form_payload_shows [of env f f' v] p have "f' = f" "form_shows env f v" by simp_all
      with sent Some req True assms(5) added_id_rule [of env f] show ?thesis
        by (fastforce simp: rec.asked_def form_offers_def names_rule_def rule_payload_def
            split: option.splits sum.splits)
    qed
  next
    case False
    with h req assms(5) show ?thesis
      by (auto simp: handle_form_key_def split: if_splits)
  qed
qed

lemma requests_page:
  assumes "ap_import a = None" "ap_confirm_delete a = None" "ap_form a = None" "\<not> quit_key key"
    "(op, p) \<in> set (requests ids env key a d cat)"
  shows "if ap_page a = SettingsPage
    then op = SettingsUpdate \<and> ke_code key \<in> {KLeft, KRight, KEnter, KChar 32} \<and>
      (\<exists>s. p = ui_ser_settings env s \<and> one_setting (ap_settings_field a) (ap_settings a) s)
    else is_char key CHR '' '' \<and>
      (case selected_view a of
         None \<Rightarrow> False
       | Some v \<Rightarrow> names_rule env p (rv_id v) \<and>
           op = (if rv_state v = lit ''stopped'' then ForwardStart else ForwardStop))"
proof -
  obtain a1 d1 c1 where s: "change_settings (recording env) a (d, []) = (a1, (d1, c1))"
    by (metis prod.collapse)
  obtain a2 d2 c2 where t: "toggle_selected (recording env) a (d, []) = (a2, (d2, c2))"
    by (metis prod.collapse)
  from assms rec.asked_change_settings [OF s] rec.asked_toggle [OF t] s t
    change_setting_one [of "ap_settings_field a" "ap_settings a"] show ?thesis
    by (auto simp: requests_def handle_key_overlay(4) handle_page_key_def Let_def rec.asked_def is_char_def
        names_rule_def rule_payload_def split: if_splits prod.splits option.splits)
qed

text \<open>C31: A key makes the client ask for a change only where the screen offers it, and only for
  what it shows: with the import panel open the confirmed import of the selected candidates;
  with a deletion asked about the confirmed stop and removal of that rule; with a form open,
  saving it with Enter, which sends the id, fields and hosts of that form, as an edit of the
  active rule it was opened on or else as an addition and the start of the rule added;
  otherwise the one chosen setting on the settings page, or starting or stopping the selected
  rule with the space bar. Ctrl-C asks for nothing.\<close>

theorem requests_are_offered:
  assumes "(op, p) \<in> set (requests ids env key a d cat)"
  shows "offers ids env key a d op p"
proof (cases "quit_key key")
  case True
  then have "requests ids env key a d cat = []"
    by (simp add: requests_def handle_key_def quit_key_def Let_def)
  with assms show ?thesis by simp
next
  case False
  consider panel where "ap_import a = Some panel"
    | c where "ap_import a = None" "ap_confirm_delete a = Some c"
    | f where "ap_import a = None" "ap_confirm_delete a = None" "ap_form a = Some f"
    | "ap_import a = None" "ap_confirm_delete a = None" "ap_form a = None"
    by (cases "ap_import a"; cases "ap_confirm_delete a"; cases "ap_form a") auto
  then show ?thesis
  proof cases
    case 1
    from requests_import [OF 1 False, of ids env d cat] assms show ?thesis
      by (auto simp: offers_def False 1)
  next
    case 2
    from requests_confirm [OF 2 False, of ids env d cat] assms show ?thesis
      by (auto simp: offers_def False 2 names_rule_def rule_payload_def split: if_splits)
  next
    case 3
    from requests_form [OF 3 False assms] show ?thesis by (simp add: offers_def False 3)
  next
    case 4
    from requests_page [OF 4 False assms] show ?thesis by (simp add: offers_def False 4)
  qed
qed

definition delete_app :: ui_app where
  "delete_app = fst (pressed [KChar 100])"

definition sample_requests :: "key_code \<Rightarrow> ui_app \<Rightarrow> call list" where
  "sample_requests code a = requests of_nat sample_client (press code) a [] sample_catalog"

lemma delete_app_open:
  "ap_import delete_app = None \<and> ap_confirm_delete delete_app = Some \<lparr>dc_id = 1, dc_stop_first = True\<rparr>"
  by code_simp

theorem requests_are_offered_witness:
  "offers of_nat sample_client (press KEnter) delete_app [] ForwardRemove (JObj [(''rule_id'', JNat 1)])"
proof -
  have "(ForwardRemove, JObj [(''rule_id'', JNat 1)]) \<in> set (sample_requests KEnter delete_app)"
    by code_simp
  then show ?thesis unfolding sample_requests_def by (rule requests_are_offered)
qed

text \<open>Confirming a deletion removes a stopped rule at once, but a rule that was running is
  stopped first and removed only if the daemon says the stop succeeded.\<close>

theorem removal_stops_first:
  assumes "ap_import a = None" "ap_confirm_delete a = Some c" "confirming_key key" "\<not> quit_key key"
  shows "requests ids env key a d cat =
    (if dc_stop_first c then (ForwardStop, rule_payload env (dc_id c)) #
       (if is_ok (fst (ui_call env ForwardStop (rule_payload env (dc_id c)) d))
        then [(ForwardRemove, rule_payload env (dc_id c))] else [])
     else [(ForwardRemove, rule_payload env (dc_id c))])"
  using requests_confirm [OF assms(1,2,4), of ids env d cat] assms(3) by simp

theorem removal_stops_first_witness:
  "map fst (sample_requests KEnter delete_app) = [ForwardStop, ForwardRemove]"
proof -
  have "confirming_key (press KEnter)" "\<not> quit_key (press KEnter)"
    by (simp_all add: confirming_key_def quit_key_def press_def)
  note sent = removal_stops_first [OF conjunct1 [OF delete_app_open] conjunct2 [OF delete_app_open] this,
      of of_nat sample_client "[]" sample_catalog]
  have "is_ok (fst (ui_call sample_client ForwardStop (rule_payload sample_client 1) []))"
    by (simp add: sample_client_def)
  with sent show ?thesis by (simp add: sample_requests_def)
qed

section \<open>What a confirmed import sends\<close>

lemma selected_sent:
  assumes "app_ok a" "ap_import a = Some panel" "im_preview panel = Some p" "im_confirming panel"
    and "2 * length (ip_candidates p) + length existing < 10 ^ 99"
  shows "\<exists>rules. selected_rules ids p (im_selected panel) existing auto_start reconnect = Ok rules \<and>
    length rules = length (im_selected panel)"
proof -
  from app_ok_overlay(2) [OF assms(1,2)] have panel: "panel_ok panel" by blast
  with assms(3) obtain out existing' running where
    "preview_effective_forwards (ip_alias p) out existing' running = Ok p"
    by (auto simp: panel_ok_def)
  moreover from panel assms(3,4) have "im_selected panel \<noteq> []" "distinct (im_selected panel)"
    "\<forall>i \<in> set (im_selected panel). 1 \<le> i \<and> i \<le> length (ip_candidates p) \<and>
       ic_classification (ip_candidates p ! (i - 1)) = Supported"
    by (auto simp: panel_ok_def selectable_def)
  ultimately show ?thesis
    using supported_candidates_are_saved [of "ip_alias p" out existing' running p "im_selected panel"
        existing ids auto_start reconnect] assms(5) distinct_card [of "im_selected panel"]
    by auto
qed

text \<open>C32: Confirming an import in any reachable state of the client sends one request with
  exactly one rule per selected candidate, built from the preview with the daemon's current
  defaults, if the rules on the screen are well formed and the settings can be read: the
  selection made on the screen is never refused by the client itself.\<close>

theorem confirmed_import_is_sent:
  assumes "ui_reaches env cat0 (a, d, cat)"
    and "ap_import a = Some panel" "im_preview panel = Some p" "im_confirming panel"
    and "confirming_key key" "\<not> quit_key key"
    and "rule_snapshots a = Ok (existing, running)" "fst (load_settings env d) = Ok s"
    and "2 * length (ip_candidates p) + length existing < 10 ^ 99"
  shows "\<exists>rules. selected_rules ids p (im_selected panel) existing
      (s_default_auto_start s) (s_default_reconnect s) = Ok rules \<and>
    length rules = length (im_selected panel) \<and>
    requests ids env key a d cat = [(ForwardImport, import_payload env rules)]"
proof -
  from assms(1) have "app_ok a" using reached_states_ok by fastforce
  from selected_sent [OF this assms(2-4,9)] obtain rules where
    rules: "selected_rules ids p (im_selected panel) existing
      (s_default_auto_start s) (s_default_reconnect s) = Ok rules"
    "length rules = length (im_selected panel)" by blast
  obtain a' d' calls where h: "handle_import_key ids (recording env) key a (d, []) = (a', (d', calls))"
    by (metis prod.collapse)
  then have req: "requests ids env key a d cat = changing calls"
    using assms(2,6) by (simp add: requests_def handle_key_overlay(1))
  have "import_panel_key key panel = (panel, SaveImport)"
    using assms(4,5) by (auto simp: import_panel_key_def confirming_key_def Let_def)
  then have "save_import ids (recording env) (a\<lparr>ap_import := Some panel\<rparr>) (d, []) = (a', (d', calls))"
    using h assms(2) by (simp add: handle_import_key_def)
  moreover have "rule_snapshots (a\<lparr>ap_import := Some panel\<rparr>) = rule_snapshots a"
    by (simp add: rule_snapshots_def)
  moreover obtain d1 where "load_settings (recording env) (d, []) = (Ok s, d1)"
    using assms(8) by (metis load_settings_recording prod.collapse)
  ultimately have "rec.asked (d', calls) = rec.asked (d, []) @ [(ForwardImport, import_payload env rules)]"
    using assms(3,7) rules(1)
    by (auto simp: save_import_def reading_def split: prod.splits sum.splits dest!: rec.asked_steps)
  with req rules show ?thesis by (simp add: rec.asked_def)
qed

definition import_app :: ui_app where
  "import_app = fst (pressed import_keys)"

definition import_app_panel :: import_panel where
  "import_app_panel = the (ap_import import_app)"

lemma import_app_panel_open:
  "ap_import import_app \<noteq> None \<and> im_preview import_app_panel \<noteq> None \<and>
   im_confirming import_app_panel \<and> length (im_selected import_app_panel) = 1 \<and>
   length (ip_candidates (the (im_preview import_app_panel))) = 1"
  by code_simp

lemma import_app_snapshot: "map_ok (\<lambda>(rules, _). length rules) (rule_snapshots import_app) = Ok 2"
  by code_simp

theorem confirmed_import_is_sent_witness:
  "\<exists>d cat rules. length rules = 1 \<and> requests of_nat sample_client (press KEnter) import_app d cat =
     [(ForwardImport, import_payload sample_client rules)]"
proof -
  obtain d cat where "pressed import_keys = (import_app, d, cat)"
    by (cases "pressed import_keys") (simp add: import_app_def)
  then have r: "ui_reaches sample_client sample_catalog (import_app, d, cat)"
    using import_keys_reached by simp
  obtain p where panel: "ap_import import_app = Some import_app_panel"
    "im_preview import_app_panel = Some p" "im_confirming import_app_panel"
    "length (im_selected import_app_panel) = 1" "length (ip_candidates p) = 1"
    using import_app_panel_open by (auto simp: import_app_panel_def)
  obtain existing running where snap: "rule_snapshots import_app = Ok (existing, running)"
    "length existing = 2" using import_app_snapshot by auto
  have keys: "confirming_key (press KEnter)" "\<not> quit_key (press KEnter)"
    by (simp_all add: confirming_key_def quit_key_def press_def)
  have s: "fst (load_settings sample_client d) = Ok default_settings"
    by (simp add: load_settings_def st_bind_def st_lift_def sample_client_def ok_or_def)
  have "2 * length (ip_candidates p) + length existing < 10 ^ 99" using panel(5) snap(2) by simp
  from confirmed_import_is_sent [OF r panel(1-3) keys snap(1) s this, of of_nat] panel(4)
  show ?thesis by auto
qed

end
