(* ===== verification/Tui_View.thy ===== *)
theory Tui_View
  imports Tui_Safety
begin

text \<open>
  What the terminal client draws: the \<open>render\<close> functions of \<open>src/src/tui/mod.rs\<close>. A text is a
  list of spans; the fixed texts of the source, most of them Japanese, are the constructors of
  the label types, and texts whose display is defined elsewhere enter as the values they are made from.
  Styles are not modelled. How wide a label is on the terminal, and how the layout library
  splits the import panel, are arguments.
\<close>

section \<open>Texts\<close>

datatype screen_label =
    TooSmall | AppTitle | TabTitle ui_page | HelpTitle | HelpText | DashboardHint
  | DashboardHintShort | HostsReturnHint | HostsReturnHintShort | HostsHint
  | HostsHintShort

datatype list_label =
    SettingsTitle | ThemeLabel | LogLevelLabel | ReconnectLabel | AutoStartLabel
  | SettingsKeys | NameHeader | HostHeader | StateHeader | AddressHeader | ForwardsTitle
  | RunningTitle | CountSuffix | HostsTitle | NoHosts

datatype candidate_label =
    KindLocal | KindRemote | KindDynamic | Savable | DuplicateOf | DuplicateSaved
  | ConflictText | RunningSuffix | UnsupportedText | UnixSocketText | RemoteSocksText
  | InvalidText | SyntaxText | BindText | DestinationText | PortText | NonUtf8Text

datatype panel_label =
    ImportTitle | ErrorPrefix | ConfirmCount | ConfirmKeys | SelectKeys | PanelHost
  | NoCandidates | ConfirmTitle | StopAndDelete | DeleteOnly

datatype detail_label =
    DetailTitle | DetailName | DetailKind | DetailHost | DetailState | DetailListener
  | DetailDestination | DetailUptime | DetailReconnects | TimesSuffix | DetailDiagnostic
  | DetailUrl | DetailKeys | NoForwards

datatype form_label =
    FormHost | FormKind | FormKindKey | FormName | FormRemotePort | FormLocalPort
  | FormAutoStart | FormReconnect | FormReconnectKey | FormActiveKeys | FormKeys
  | PortSuggestion | SuggestionKey | EditTitle | AddTitle

datatype span =
    Screen screen_label
  | Listed list_label
  | Candidate candidate_label
  | Panel panel_label
  | Detailed detail_label
  | Entry form_label
  | Shown rstr
  | Message notice
  | FormProblem form_error
  | PanelProblem import_problem

type_synonym drawn = "span list"

definition shown :: "string \<Rightarrow> span" where
  "shown s = Shown (lit s)"

definition shown_nat :: "nat \<Rightarrow> span" where
  "shown_nat n = Shown (show_nat n)"

definition shown_bool :: "bool \<Rightarrow> span" where
  "shown_bool b = shown (if b then ''true'' else ''false'')"

definition shown_port :: "u16 \<Rightarrow> span" where
  "shown_port p = shown_nat (unat p)"

definition marker :: "bool \<Rightarrow> span" where
  "marker here = shown (if here then ''>'' else '' '')"

text \<open>
  A widget: where it is drawn, its title, its lines and how many of them are scrolled away;
  \<open>None\<close> clears the area before a popup.
\<close>

record widget =
  wg_area :: rect
  wg_title :: drawn
  wg_lines :: "drawn list option"
  wg_scroll :: nat

definition paragraph_at :: "rect \<Rightarrow> drawn \<Rightarrow> drawn list \<Rightarrow> widget" where
  "paragraph_at area title ls = \<lparr>wg_area = area, wg_title = title, wg_lines = Some ls, wg_scroll = 0\<rparr>"

definition clear_at :: "rect \<Rightarrow> widget" where
  "clear_at area = \<lparr>wg_area = area, wg_title = [], wg_lines = None, wg_scroll = 0\<rparr>"

section \<open>The footer\<close>

definition page_hints :: "ui_app \<Rightarrow> (screen_label \<times> screen_label) option" where
  "page_hints a =
     (case ap_page a of
        Dashboard \<Rightarrow> Some (DashboardHint, DashboardHintShort)
      | Hosts \<Rightarrow> Some (if ap_hosts_return a \<noteq> None then (HostsReturnHint, HostsReturnHintShort)
          else (HostsHint, HostsHintShort))
      | _ \<Rightarrow> None)"

definition page_hint :: "(screen_label \<Rightarrow> nat) \<Rightarrow> ui_app \<Rightarrow> nat \<Rightarrow> drawn" where
  "page_hint width_of a width =
     (case page_hints a of
        None \<Rightarrow> []
      | Some (full, compact) \<Rightarrow> [Screen (if width_of full \<le> width then full else compact)])"

section \<open>Pages\<close>

primrec theme_debug :: "theme \<Rightarrow> string" where
  "theme_debug System = ''System''"
| "theme_debug Dark = ''Dark''"
| "theme_debug Light = ''Light''"

primrec level_debug :: "log_level \<Rightarrow> string" where
  "level_debug LvError = ''Error''"
| "level_debug LvWarn = ''Warn''"
| "level_debug LvInfo = ''Info''"
| "level_debug LvDebug = ''Debug''"
| "level_debug LvTrace = ''Trace''"

definition render_settings :: "rect \<Rightarrow> ui_app \<Rightarrow> widget" where
  "render_settings area a =
     (let mark = (\<lambda>field. marker (ap_settings_field a = field)); s = ap_settings a
      in paragraph_at area [Listed SettingsTitle]
        [[mark 0, Listed ThemeLabel, shown (theme_debug (s_theme s))],
         [mark 1, Listed LogLevelLabel, shown (level_debug (s_log_level s))],
         [mark 2, Listed ReconnectLabel, shown_bool (s_default_reconnect s)],
         [mark 3, Listed AutoStartLabel, shown_bool (s_default_auto_start s)],
         [], [Listed SettingsKeys]])"

text \<open>The cells of a table row, in the order of its columns.\<close>

definition dashboard_row :: "ui_app \<Rightarrow> nat \<Rightarrow> rule_view \<Rightarrow> drawn" where
  "dashboard_row a i v = [marker (i = ap_selected_rule a), Shown (rv_name v), Shown (rv_host v),
     Shown (rv_state v), Shown (rv_bind_address v @ [58] @ show_nat (unat (rv_bind_port v)))]"

definition indexed :: "nat \<Rightarrow> (nat \<Rightarrow> 'a \<Rightarrow> 'b) \<Rightarrow> 'a list \<Rightarrow> 'b list" where
  "indexed offset f xs = map (\<lambda>(i, x). f i x) (drop offset (enumerate 0 xs))"

definition render_dashboard :: "rect \<Rightarrow> ui_app \<Rightarrow> widget" where
  "render_dashboard area a = paragraph_at area
     [Listed ForwardsTitle, shown_nat (length (ap_rules a)), Listed RunningTitle,
      shown_nat (length (filter (\<lambda>v. rv_state v = lit ''active'') (ap_rules a))), Listed CountSuffix]
     ([Shown [], Listed NameHeader, Listed HostHeader, Listed StateHeader, Listed AddressHeader] #
      indexed (dashboard_offset area a) (dashboard_row a) (ap_rules a))"

definition host_item :: "ui_app \<Rightarrow> nat \<Rightarrow> rstr \<Rightarrow> drawn" where
  "host_item a i h = [marker (i = ap_selected_host a), shown '' '', Shown h]"

definition render_hosts :: "rect \<Rightarrow> ui_app \<Rightarrow> widget" where
  "render_hosts area a = paragraph_at area [Listed HostsTitle]
     (if ap_hosts a = [] then [[Listed NoHosts]]
      else indexed (hosts_offset area a) (host_item a) (ap_hosts a))"

definition detail_lines :: "rule_view \<Rightarrow> drawn list" where
  "detail_lines v =
     [[Detailed DetailName, Shown (rv_name v)], [Detailed DetailKind, shown (rv_kind v)],
      [Detailed DetailHost, Shown (rv_host v)], [Detailed DetailState, Shown (rv_state v)],
      [Detailed DetailListener, Shown (rv_bind_address v), shown '':'', shown_port (rv_bind_port v),
       Detailed DetailDestination,
       (case rv_destination_port v of Some p \<Rightarrow> shown_port p | None \<Rightarrow> shown ''-'')],
      [Detailed DetailUptime, shown_nat (rv_uptime_seconds v), Detailed DetailReconnects,
       shown_nat (rv_reconnect_count v), Detailed TimesSuffix],
      [Detailed DetailDiagnostic, (case rv_last_error v of Some e \<Rightarrow> Shown e | None \<Rightarrow> shown ''-'')],
      [Detailed DetailUrl, Shown (view_url v (lit ''http''))], [], [Detailed DetailKeys]]"

definition render_detail :: "rect \<Rightarrow> ui_app \<Rightarrow> widget" where
  "render_detail area a = paragraph_at area [Detailed DetailTitle]
     (case selected_view a of Some v \<Rightarrow> detail_lines v | None \<Rightarrow> [[Detailed NoForwards]])"

definition render_page :: "rect \<Rightarrow> ui_app \<Rightarrow> widget" where
  "render_page content a =
     (case ap_page a of
        Dashboard \<Rightarrow> render_dashboard content a
      | Hosts \<Rightarrow> render_hosts content a
      | Detail \<Rightarrow> render_detail content a
      | SettingsPage \<Rightarrow> render_settings content a
      | Help \<Rightarrow> paragraph_at content [Screen HelpTitle] [[Screen HelpText]])"

section \<open>Popups\<close>

definition centered :: "rect \<Rightarrow> nat \<Rightarrow> nat \<Rightarrow> rect" where
  "centered area width height =
     (let w = min width (rc_width area - 2); h = min height (rc_height area - 2)
      in \<lparr>rc_x = rc_x area + (rc_width area - w) div 2, rc_y = rc_y area + (rc_height area - h) div 2,
          rc_width = w, rc_height = h\<rparr>)"

definition form_lines :: "ui_form \<Rightarrow> drawn list" where
  "form_lines f =
     (let mark = (\<lambda>field. marker (fm_field f = field)) in
      [[Entry FormHost, Shown (fm_host f)],
       [Entry FormKind, shown (fm_kind f), Entry FormKindKey],
       [mark 0, Entry FormName, Shown (fm_name f)],
       [mark 1, Entry FormRemotePort, Shown (fm_remote_port f)],
       [mark 2, Entry FormLocalPort, Shown (fm_local_port f)],
       [Entry FormAutoStart, shown_bool (fm_auto_start f), Entry FormReconnect, shown_bool (fm_reconnect f),
        Entry FormReconnectKey],
       [Entry (if fm_active_original f \<noteq> None then FormActiveKeys else FormKeys)]] @
      (case fm_suggestion f of
         Some port \<Rightarrow> [[Entry PortSuggestion, shown_nat port, Entry SuggestionKey]] | None \<Rightarrow> []) @
      (case fm_error f of Some e \<Rightarrow> [[FormProblem e]] | None \<Rightarrow> []))"

definition render_form :: "rect \<Rightarrow> ui_form \<Rightarrow> widget list" where
  "render_form area f =
     (let popup = centered area 64 13
      in [clear_at popup, paragraph_at popup [Entry (if fm_editing f then EditTitle else AddTitle)] (form_lines f)])"

definition render_confirm :: "rect \<Rightarrow> bool \<Rightarrow> widget list" where
  "render_confirm area stop_first =
     (let popup = centered area 46 5
      in [clear_at popup,
          paragraph_at popup [Panel ConfirmTitle] [[Panel (if stop_first then StopAndDelete else DeleteOnly)]]])"

section \<open>The import panel\<close>

primrec kind_label :: "directive_kind \<Rightarrow> candidate_label" where
  "kind_label LocalKind = KindLocal"
| "kind_label RemoteKind = KindRemote"
| "kind_label DynamicKind = KindDynamic"

fun endpoint_spans :: "import_forwarding option \<Rightarrow> drawn" where
  "endpoint_spans (Some (ImportLocal b p h q)) =
     [Shown b, shown '':'', shown_port p, shown '' -> '', Shown h, shown '':'', shown_port q]"
| "endpoint_spans (Some (ImportRemote b p h q)) =
     [Shown b, shown '':'', shown_port p, shown '' -> '', Shown h, shown '':'', shown_port q]"
| "endpoint_spans (Some (ImportDynamic b p)) = [Shown b, shown '':'', shown_port p]"
| "endpoint_spans None = [shown ''-'']"

primrec unsupported_label :: "unsupported_reason \<Rightarrow> candidate_label" where
  "unsupported_label UnixSocket = UnixSocketText"
| "unsupported_label RemoteDynamic = RemoteSocksText"

primrec invalid_label :: "invalid_reason \<Rightarrow> candidate_label" where
  "invalid_label ReasonSyntax = SyntaxText"
| "invalid_label ReasonBindAddress = BindText"
| "invalid_label ReasonDestinationHost = DestinationText"
| "invalid_label ReasonPort = PortText"
| "invalid_label NonUtf8Output = NonUtf8Text"

definition running_suffix :: "bool \<Rightarrow> drawn" where
  "running_suffix running = (if running then [Candidate RunningSuffix] else [])"

fun status_spans :: "import_classification \<Rightarrow> drawn" where
  "status_spans Supported = [Candidate Savable]"
| "status_spans (DuplicateDirective first) = [Candidate DuplicateOf, shown_nat (first + 1)]"
| "status_spans (DuplicateRule _ running) = Candidate DuplicateSaved # running_suffix running"
| "status_spans (ImportConflict _ running) = Candidate ConflictText # running_suffix running"
| "status_spans (ImportUnsupported reason) = [Candidate UnsupportedText, Candidate (unsupported_label reason)]"
| "status_spans (ImportInvalid reason) = [Candidate InvalidText, Candidate (invalid_label reason)]"

definition candidate_text :: "import_candidate \<Rightarrow> drawn" where
  "candidate_text c = [Candidate (kind_label (ic_kind c)), shown '' ''] @ endpoint_spans (ic_forwarding c) @
     [shown ''  [''] @ status_spans (ic_classification c) @ [shown '']'']"

definition selection_mark :: "import_panel \<Rightarrow> nat \<Rightarrow> import_candidate \<Rightarrow> span" where
  "selection_mark panel i c =
     shown (if i + 1 \<in> set (im_selected panel) then ''[x]''
       else if ic_classification c = Supported then ''[ ]'' else ''[-]'')"

definition candidate_row :: "import_panel \<Rightarrow> nat \<Rightarrow> import_candidate \<Rightarrow> drawn" where
  "candidate_row panel i c =
     [marker (i = im_cursor panel), selection_mark panel i c, shown '' '', shown_nat (i + 1), shown ''. ''] @
     candidate_text c"

definition candidate_rows :: "import_panel \<Rightarrow> drawn list" where
  "candidate_rows panel =
     (case im_preview panel of
        None \<Rightarrow> []
      | Some p \<Rightarrow> (if ip_candidates p = [] then [[Panel NoCandidates]] else []) @
          indexed 0 (candidate_row panel) (ip_candidates p))"

definition panel_footer :: "import_panel \<Rightarrow> drawn list" where
  "panel_footer panel =
     (case im_error panel of Some e \<Rightarrow> [[Panel ErrorPrefix, PanelProblem e]] | None \<Rightarrow> []) @
     [if im_confirming panel
      then [Panel ConfirmCount, shown_nat (length (im_selected panel)), Panel ConfirmKeys]
      else [Panel SelectKeys]]"

text \<open>The area inside a border of one cell.\<close>

definition border_inner :: "rect \<Rightarrow> rect" where
  "border_inner r = \<lparr>rc_x = rc_x r + 1, rc_y = rc_y r + 1, rc_width = rc_width r - 2,
     rc_height = rc_height r - 2\<rparr>"

definition candidate_scroll :: "import_panel \<Rightarrow> nat \<Rightarrow> nat" where
  "candidate_scroll panel visible = min (im_cursor panel + 1 - visible) 65535"

text \<open>\<open>split inner n\<close> is a line, what remains, and the last \<open>n\<close> lines.\<close>

definition render_import ::
  "(rect \<Rightarrow> nat \<Rightarrow> rect \<times> rect \<times> rect) \<Rightarrow> rect \<Rightarrow> import_panel \<Rightarrow> widget list" where
  "render_import split area panel =
     (let popup = centered area 90 18; inner = border_inner popup; footer = panel_footer panel;
          (head, middle, bottom) = split inner (min (length footer) (rc_height inner - 2))
      in [clear_at popup, paragraph_at popup [Panel ImportTitle] [],
          paragraph_at head [] [[Panel PanelHost, Shown (im_host panel)]],
          (paragraph_at middle [] (candidate_rows panel))\<lparr>wg_scroll := candidate_scroll panel (rc_height middle)\<rparr>,
          paragraph_at bottom [] footer])"

section \<open>The screen\<close>

definition render ::
  "(screen_label \<Rightarrow> nat) \<Rightarrow> (rect \<Rightarrow> nat \<Rightarrow> rect \<times> rect \<times> rect) \<Rightarrow> 'd ui_env \<Rightarrow> rect \<Rightarrow> ui_app \<Rightarrow> widget list" where
  "render width_of split env area a =
     (case screen_areas env area of
        None \<Rightarrow> [paragraph_at area [] [[Screen TooSmall]]]
      | Some (tabs, content, footer) \<Rightarrow>
          [paragraph_at tabs [Screen AppTitle] [map (\<lambda>p. Screen (TabTitle p)) tab_pages], render_page content a,
           paragraph_at footer [] [page_hint width_of a (rc_width footer), [Message (ap_message a)]]] @
          (case ap_form a of Some f \<Rightarrow> render_form area f | None \<Rightarrow> []) @
          (case ap_confirm_delete a of Some c \<Rightarrow> render_confirm area (dc_stop_first c) | None \<Rightarrow> []) @
          (case ap_import a of Some panel \<Rightarrow> render_import split area panel | None \<Rightarrow> []))"

section \<open>What the drawing tells\<close>

lemma indexed_nth: "offset + i < length xs \<Longrightarrow> indexed offset f xs ! i = f (offset + i) (xs ! (offset + i))"
  by (simp add: indexed_def nth_enumerate_eq)

lemma indexed_length [simp]: "length (indexed offset f xs) = length xs - offset"
  by (simp add: indexed_def)

lemma shown_eq [simp]: "shown s = shown t \<longleftrightarrow> s = t"
  by (simp add: shown_def)

lemma marker_eq [simp]: "marker a = marker b \<longleftrightarrow> a = b"
  by (simp add: marker_def)

text \<open>The keys of a page: the hint names Esc exactly when Esc leaves the hosts.\<close>

lemma return_hint_iff:
  assumes "ap_page a = Hosts"
  shows "page_hints a = Some (HostsReturnHint, HostsReturnHintShort) \<longleftrightarrow>
    (\<exists>page. ap_hosts_return a = Some page \<and>
       handle_page_key new_id env \<lparr>ke_code = KEsc, ke_control = False\<rparr> a d cat =
         (show_page page (a\<lparr>ap_hosts_return := None\<rparr>), d, cat))"
  using assms by (auto simp: page_hints_def handle_page_key_def leave_hosts_def is_char_def Let_def)

text \<open>The dashboard draws the selected rule's row, and marks no other.\<close>

lemma dashboard_marks_selected:
  assumes "selected_view a = Some v" "3 < rc_height area"
  shows "dashboard_row a (ap_selected_rule a) v \<in>
      set (take (rc_height area - 3) (indexed (dashboard_offset area a) (dashboard_row a) (ap_rules a)))"
    "hd (dashboard_row a i w) = marker True \<longleftrightarrow> i = ap_selected_rule a"
proof -
  let ?o = "dashboard_offset area a" and ?s = "ap_selected_rule a"
  have s: "?s < length (ap_rules a)" "ap_rules a ! ?s = v"
    using assms(1) by (auto simp: selected_view_def split: if_splits)
  have o: "?o \<le> ?s" "?s < ?o + (rc_height area - 3)"
    using assms(2) by (auto simp: dashboard_offset_def list_offset_def)
  have "indexed ?o (dashboard_row a) (ap_rules a) ! (?s - ?o) = dashboard_row a ?s v"
    using s o by (simp add: indexed_nth)
  then show "dashboard_row a ?s v \<in>
      set (take (rc_height area - 3) (indexed ?o (dashboard_row a) (ap_rules a)))"
    using s o by (auto simp: in_set_conv_nth intro!: exI [of _ "?s - ?o"])
  show "hd (dashboard_row a i w) = marker True \<longleftrightarrow> i = ?s" by (simp add: dashboard_row_def)
qed

lemma candidate_row_parts:
  "hd (candidate_row panel i c) = marker (i = im_cursor panel)"
  "candidate_row panel i c ! 1 = selection_mark panel i c"
  by (simp_all add: candidate_row_def)

lemma marked_count:
  assumes "distinct xs" "\<And>i. i \<in> set xs \<Longrightarrow> 0 < i \<and> i \<le> n"
  shows "length (filter (\<lambda>i. i + 1 \<in> set xs) [0..<n]) = length xs"
proof -
  have "set (map Suc (filter (\<lambda>i. i + 1 \<in> set xs) [0..<n])) = set xs"
    using assms(2) by (fastforce simp: image_iff gr0_conv_Suc)
  then have "card (set xs) = length (map Suc (filter (\<lambda>i. i + 1 \<in> set xs) [0..<n]))"
    by (metis distinct_card distinct_filter distinct_map distinct_upt inj_Suc inj_on_subset subset_UNIV)
  with assms(1) show ?thesis by (simp add: distinct_card)
qed

text \<open>C33: The import panel shows its selection. In every state the client reaches, the panel draws
  one row per candidate; the row under the cursor is marked, is the only one marked and lies in the
  rows that are visible; a box is ticked exactly for the selected candidates and open exactly for
  the other supported ones; and the number of rules the confirmation announces is the number of
  ticked boxes.\<close>

theorem import_panel_shows_selection:
  assumes "ui_reaches env cat0 (a, d, cat)" "ap_import a = Some panel" "im_preview panel = Some p"
    and "w = render_import split area panel ! 3" "0 < rc_height (wg_area w)"
    and "ip_candidates p \<noteq> []" "im_cursor panel < 65536"
  shows "\<exists>rows. wg_lines w = Some rows \<and> length rows = length (ip_candidates p) \<and>
    rows ! im_cursor panel \<in> set (take (rc_height (wg_area w)) (drop (wg_scroll w) rows)) \<and>
    (\<forall>i < length rows.
       (hd (rows ! i) = marker True \<longleftrightarrow> i = im_cursor panel) \<and>
       (rows ! i ! 1 = shown ''[x]'' \<longleftrightarrow> i + 1 \<in> set (im_selected panel)) \<and>
       (rows ! i ! 1 = shown ''[ ]'' \<longleftrightarrow> i + 1 \<notin> set (im_selected panel) \<and>
          ic_classification (ip_candidates p ! i) = Supported)) \<and>
    length (filter (\<lambda>row. row ! 1 = shown ''[x]'') rows) = length (im_selected panel)"
proof -
  let ?cs = "ip_candidates p" and ?h = "rc_height (wg_area w)"
  let ?rows = "indexed 0 (candidate_row panel) ?cs"
  have ok: "panel_ok panel" using reached_states_ok [OF assms(1)] assms(2) by (auto dest: app_ok_overlay(2))
  then have cursor: "im_cursor panel < length ?cs" and dist: "distinct (im_selected panel)"
    and sel: "\<And>i. i \<in> set (im_selected panel) \<Longrightarrow> selectable p i"
    using assms(3,6) by (cases ?cs; auto simp: panel_ok_def)+
  have w: "wg_lines w = Some ?rows" "wg_scroll w = candidate_scroll panel ?h"
    using assms(3,6) by (auto simp: assms(4) render_import_def Let_def paragraph_at_def candidate_rows_def
        split: prod.split)
  have row: "?rows ! i = candidate_row panel i (?cs ! i)" if "i < length ?cs" for i
    using that indexed_nth [of 0 i ?cs] by simp
  have scroll: "wg_scroll w \<le> im_cursor panel" "im_cursor panel < wg_scroll w + ?h"
    using assms(5,7) by (auto simp: w(2) candidate_scroll_def)
  have "?rows ! im_cursor panel \<in> set (take ?h (drop (wg_scroll w) ?rows))"
    using scroll cursor by (auto simp: in_set_conv_nth intro!: exI [of _ "im_cursor panel - wg_scroll w"])
  moreover have "\<forall>i < length ?rows.
       (hd (?rows ! i) = marker True \<longleftrightarrow> i = im_cursor panel) \<and>
       (?rows ! i ! 1 = shown ''[x]'' \<longleftrightarrow> i + 1 \<in> set (im_selected panel)) \<and>
       (?rows ! i ! 1 = shown ''[ ]'' \<longleftrightarrow> i + 1 \<notin> set (im_selected panel) \<and>
          ic_classification (?cs ! i) = Supported)"
    by (simp add: row candidate_row_parts selection_mark_def del: One_nat_def)
  moreover have "length (filter (\<lambda>row. row ! 1 = shown ''[x]'') ?rows) = length (im_selected panel)"
  proof -
    have "?rows = map (\<lambda>i. candidate_row panel i (?cs ! i)) [0..<length ?cs]"
      by (rule nth_equalityI) (simp_all add: row)
    then have "length (filter (\<lambda>row. row ! 1 = shown ''[x]'') ?rows) =
        length (filter (\<lambda>i. i + 1 \<in> set (im_selected panel)) [0..<length ?cs])"
      by (simp add: filter_map comp_def candidate_row_parts selection_mark_def del: One_nat_def)
    also have "\<dots> = length (im_selected panel)"
      by (rule marked_count) (use dist sel in \<open>auto simp: selectable_def\<close>)
    finally show ?thesis .
  qed
  ultimately show ?thesis using w(1) by auto
qed

definition even_split :: "rect \<Rightarrow> nat \<Rightarrow> rect \<times> rect \<times> rect" where
  "even_split r n = (r\<lparr>rc_height := 1\<rparr>, r\<lparr>rc_y := rc_y r + 1, rc_height := rc_height r - 1 - n\<rparr>,
     r\<lparr>rc_y := rc_y r + rc_height r - n, rc_height := n\<rparr>)"

definition wide_screen :: rect where
  "wide_screen = \<lparr>rc_x = 0, rc_y = 0, rc_width = 100, rc_height = 30\<rparr>"

definition asked_panel :: import_panel where
  "asked_panel = the (ap_import (fst (pressed import_keys)))"

lemma asked_panel_facts:
  "ap_import (fst (pressed import_keys)) \<noteq> None" "im_cursor asked_panel = 0" "im_selected asked_panel = [1]"
  "length (ip_candidates (the (im_preview asked_panel))) = 1" "im_preview asked_panel \<noteq> None"
  by code_simp+

theorem import_panel_shows_selection_witness:
  "\<exists>row. wg_lines (render_import even_split wide_screen asked_panel ! 3) = Some [row] \<and>
     hd row = marker True \<and> row ! 1 = shown ''[x]''"
proof -
  note facts = asked_panel_facts
  obtain a d cat where s: "pressed import_keys = (a, d, cat)" by (rule prod_cases3)
  have reached: "ui_reaches sample_client sample_catalog (a, d, cat)" using import_keys_reached s by simp
  obtain p where p: "im_preview asked_panel = Some p" using facts(5) by blast
  have open_panel: "ap_import a = Some asked_panel" using facts(1) s by (auto simp: asked_panel_def)
  let ?w = "render_import even_split wide_screen asked_panel ! 3"
  have "0 < rc_height (wg_area ?w)"
    by (simp add: render_import_def even_split_def wide_screen_def centered_def border_inner_def paragraph_at_def
        panel_footer_def Let_def split: option.split)
  from import_panel_shows_selection [OF reached open_panel p refl this] facts p show ?thesis
    by (auto simp: length_Suc_conv)
qed

end
