(* ===== verification/Client_Link.thy ===== *)
theory Client_Link
  imports Daemon_Manager Daemon_Endpoint Wire_Json
begin

text \<open>
  What lies between a client and the manager: the JSON of every payload, as serde derives it
  from the structs of \<open>src/src/config/mod.rs\<close> and \<open>src/src/daemon/manager.rs\<close>, the way the
  terminal client makes one call (\<open>Service::call_daemon\<close> in \<open>src/src/tui/mod.rs\<close>), and the
  transport that connects a client to the daemon's handler.
\<close>

section \<open>Settings\<close>

primrec theme_name :: "theme \<Rightarrow> string" where
  "theme_name System = ''system''"
| "theme_name Dark = ''dark''"
| "theme_name Light = ''light''"

definition settings_to_json :: "settings \<Rightarrow> json" where
  "settings_to_json s = JObj [(''theme'', JStr (lit (theme_name (s_theme s)))),
     (''log_level'', JStr (log_level_str (s_log_level s))),
     (''default_reconnect'', JBool (s_default_reconnect s)),
     (''default_auto_start'', JBool (s_default_auto_start s))]"

text \<open>serde reads a unit variant from its name or from an object holding the name and null.\<close>

fun variant_name :: "json \<Rightarrow> rstr option" where
  "variant_name (JStr s) = Some s"
| "variant_name (JObj [(key, JNull)]) = Some (lit key)"
| "variant_name _ = None"

definition theme_from_json :: "json \<Rightarrow> theme option" where
  "theme_from_json j = Option.bind (variant_name j)
     (\<lambda>s. find (\<lambda>t. lit (theme_name t) = s) [System, Dark, Light])"

definition level_from_json :: "json \<Rightarrow> log_level option" where
  "level_from_json j = Option.bind (variant_name j)
     (\<lambda>s. find (\<lambda>l. log_level_str l = s) [LvError, LvWarn, LvInfo, LvDebug, LvTrace])"

text \<open>
  The fields a derived struct is read from: an object with these keys and no other, or an
  array of as many values.
\<close>

fun struct_fields :: "string list \<Rightarrow> json \<Rightarrow> json list option" where
  "struct_fields keys (JObj kvs) =
     (if set (map fst kvs) = set keys then those (map (map_of kvs) keys) else None)"
| "struct_fields keys (JArr vs) = (if length vs = length keys then Some vs else None)"
| "struct_fields keys _ = None"

definition settings_from_json :: "json \<Rightarrow> settings option" where
  "settings_from_json j =
     (case struct_fields [''theme'', ''log_level'', ''default_reconnect'', ''default_auto_start''] j of
        Some [t, l, r, a] \<Rightarrow>
          Option.bind (theme_from_json t) (\<lambda>theme.
          Option.bind (level_from_json l) (\<lambda>level.
          Option.bind (as_bool r) (\<lambda>reconnect.
          Option.bind (as_bool a) (\<lambda>auto_start.
            Some \<lparr>s_theme = theme, s_log_level = level, s_default_reconnect = reconnect,
              s_default_auto_start = auto_start\<rparr>))))
      | _ \<Rightarrow> None)"

lemma theme_json_inverse [simp]: "theme_from_json (JStr (lit (theme_name t))) = Some t"
  by (cases t) (simp_all add: theme_from_json_def)

lemma level_json_inverse [simp]: "level_from_json (JStr (log_level_str l)) = Some l"
  by (cases l) (simp_all add: level_from_json_def)

lemma settings_json_inverse [simp]: "settings_from_json (settings_to_json s) = Some s"
  by (simp add: settings_from_json_def settings_to_json_def)

section \<open>Payloads\<close>

text \<open>\<open>Id\<close>, \<open>Name\<close>, \<open>ImportPayload\<close> and \<open>EditPayload\<close>.\<close>

definition id_from_json :: "(json \<Rightarrow> uuid option) \<Rightarrow> json \<Rightarrow> uuid option" where
  "id_from_json de j = (case struct_fields [''rule_id''] j of Some [v] \<Rightarrow> de v | _ \<Rightarrow> None)"

definition name_from_json :: "json \<Rightarrow> rstr option" where
  "name_from_json j = (case struct_fields [''rule_name''] j of Some [v] \<Rightarrow> as_str v | _ \<Rightarrow> None)"

definition rules_from_json :: "(json \<Rightarrow> uuid option) \<Rightarrow> json \<Rightarrow> wire_rule list option" where
  "rules_from_json de j = Option.bind (as_array j) (\<lambda>vs. those (map (rule_from_json de) vs))"

definition import_from_json :: "(json \<Rightarrow> uuid option) \<Rightarrow> json \<Rightarrow> wire_rule list option" where
  "import_from_json de j =
     (case struct_fields [''rules''] j of Some [v] \<Rightarrow> rules_from_json de v | _ \<Rightarrow> None)"

definition edit_from_json :: "(json \<Rightarrow> uuid option) \<Rightarrow> json \<Rightarrow> (wire_rule \<times> wire_rule) option" where
  "edit_from_json de j =
     (case struct_fields [''expected'', ''replacement''] j of
        Some [e, r] \<Rightarrow> Option.bind (rule_from_json de e) (\<lambda>expected.
          map_option (Pair expected) (rule_from_json de r))
      | _ \<Rightarrow> None)"

definition uuid_from_json :: "(rstr \<Rightarrow> uuid option) \<Rightarrow> json \<Rightarrow> uuid option" where
  "uuid_from_json parse j = Option.bind (as_str j) parse"

definition rules_to_json :: "(uuid \<Rightarrow> json) \<Rightarrow> wire_rule list \<Rightarrow> json" where
  "rules_to_json ser ws = JArr (map (rule_to_json ser) ws)"

text \<open>serde's encoders and decoders, from the text form of a uuid.\<close>

definition json_codec :: "(uuid \<Rightarrow> rstr) \<Rightarrow> (rstr \<Rightarrow> uuid option) \<Rightarrow> codec" where
  "json_codec show_id parse =
     (let ser = (\<lambda>i. JStr (show_id i)); de = uuid_from_json parse
      in \<lparr>ser_uuid = ser, ser_rules = rules_to_json ser, ser_settings = settings_to_json,
          de_id = id_from_json de, de_name = name_from_json, de_rule = rule_from_json de,
          de_import = import_from_json de, de_edit = edit_from_json de,
          de_settings = settings_from_json\<rparr>)"

lemma json_codec_fields [simp]:
  "ser_uuid (json_codec show_id parse) i = JStr (show_id i)"
  "ser_rules (json_codec show_id parse) = rules_to_json (\<lambda>i. JStr (show_id i))"
  "ser_settings (json_codec show_id parse) = settings_to_json"
  "de_id (json_codec show_id parse) = id_from_json (uuid_from_json parse)"
  "de_name (json_codec show_id parse) = name_from_json"
  "de_rule (json_codec show_id parse) = rule_from_json (uuid_from_json parse)"
  "de_import (json_codec show_id parse) = import_from_json (uuid_from_json parse)"
  "de_edit (json_codec show_id parse) = edit_from_json (uuid_from_json parse)"
  "de_settings (json_codec show_id parse) = settings_from_json"
  by (simp_all add: json_codec_def Let_def)

text \<open>What the codec needs of the text form: parsing a printed id gives it back.\<close>

definition readable_ids :: "(uuid \<Rightarrow> rstr) \<Rightarrow> (rstr \<Rightarrow> uuid option) \<Rightarrow> bool" where
  "readable_ids show_id parse \<longleftrightarrow> (\<forall>i. parse (show_id i) = Some i)"

lemma id_json [simp]:
  assumes "readable_ids show_id parse"
  shows "id_from_json (uuid_from_json parse) (JObj [(''rule_id'', JStr (show_id i))]) = Some i"
  using assms by (simp add: id_from_json_def uuid_from_json_def readable_ids_def)

lemma name_json [simp]:
  "id_from_json de (JObj [(''rule_name'', v)]) = None"
  "name_from_json (JObj [(''rule_name'', JStr s)]) = Some s"
  by (simp_all add: id_from_json_def name_from_json_def)

lemma rule_json [simp]:
  assumes "readable_ids show_id parse"
  shows "rule_from_json (uuid_from_json parse) (rule_to_json (\<lambda>i. JStr (show_id i)) w) = Some w"
  using assms by (intro rule_json_inverse) (simp add: readable_ids_def uuid_from_json_def)

lemma those_map: "(\<And>x. x \<in> set xs \<Longrightarrow> f x = Some (g x)) \<Longrightarrow> those (map f xs) = Some (map g xs)"
  by (induction xs) auto

lemma rules_json [simp]:
  assumes "readable_ids show_id parse"
  shows "rules_from_json (uuid_from_json parse) (rules_to_json (\<lambda>i. JStr (show_id i)) ws) = Some ws"
  using those_map [of ws "rule_from_json (uuid_from_json parse) \<circ> rule_to_json (\<lambda>i. JStr (show_id i))" id]
  by (simp add: assms rules_from_json_def rules_to_json_def)

lemma import_json [simp]:
  assumes "readable_ids show_id parse"
  shows "import_from_json (uuid_from_json parse)
    (JObj [(''rules'', rules_to_json (\<lambda>i. JStr (show_id i)) ws)]) = Some ws"
  using assms by (simp add: import_from_json_def)

lemma edit_payload_json [simp]:
  assumes "readable_ids show_id parse"
  shows "edit_from_json (uuid_from_json parse)
    (JObj [(''expected'', rule_to_json (\<lambda>i. JStr (show_id i)) e),
           (''replacement'', rule_to_json (\<lambda>i. JStr (show_id i)) r)]) = Some (e, r)"
  using assms by (simp add: edit_from_json_def)

section \<open>One call\<close>

definition DEFAULT_TIMEOUT :: nat where "DEFAULT_TIMEOUT = 5000"
definition STOP_RESPONSE_TIMEOUT :: nat where "STOP_RESPONSE_TIMEOUT = 10000"

text \<open>
  What a call goes through: \<open>ensure_running\<close> on the daemon's socket, a fresh request id, and
  \<open>Client::connect\<close> with \<open>call\<close>, which wait for the answer no longer than the given time.
\<close>

record 'd link =
  ln_ensure :: "('d, daemon_error, unit) st"
  ln_fresh :: "'d \<Rightarrow> uuid"
  ln_exchange :: "nat \<Rightarrow> request \<Rightarrow> ('d, transport_error, response) st"

datatype call_failure =
    NotEnsured daemon_error
  | NotExchanged transport_error
  | CallRefused error_code message

definition link_call ::
  "'d link \<Rightarrow> nat \<Rightarrow> operation \<Rightarrow> json \<Rightarrow> ('d, call_failure, json) st" where
  "link_call ln timeout op payload =
     st_bind (st_map_err NotEnsured (ln_ensure ln)) (\<lambda>_ d.
     st_bind (st_map_err NotExchanged
       (ln_exchange ln timeout (request_new (ln_fresh ln d) op payload))) (\<lambda>response.
       st_lift (case response of
           Success v \<Rightarrow> Ok (sr_result v)
         | Failure v \<Rightarrow> Err (CallRefused (pe_code (er_error v)) (pe_message (er_error v))))) d)"

text \<open>\<open>call_daemon\<close> of the terminal client; the texts of the failures are arguments.\<close>

definition call_timeout :: "operation \<Rightarrow> nat" where
  "call_timeout op =
     (if op = ForwardEditActive
      then STOP_RESPONSE_TIMEOUT + STARTUP_TIMEOUT + CONTROL_TIMEOUT + STOP_GRACE + 2000 + DEFAULT_TIMEOUT
      else if op = ForwardStop then STOP_RESPONSE_TIMEOUT else DEFAULT_TIMEOUT)"

definition call_daemon ::
  "(daemon_error \<Rightarrow> message) \<Rightarrow> (transport_error \<Rightarrow> message) \<Rightarrow> 'd link \<Rightarrow> operation \<Rightarrow> json \<Rightarrow>
   ('d, message, json) st" where
  "call_daemon show_daemon show_transport ln op payload =
     st_map_err (\<lambda>e. case e of
         NotEnsured e \<Rightarrow> show_daemon e
       | NotExchanged e \<Rightarrow> show_transport e
       | CallRefused _ msg \<Rightarrow> msg)
       (link_call ln (call_timeout op) op payload)"

section \<open>A client on the daemon's handler\<close>

text \<open>
  A served daemon and the number of requests it has answered; \<open>orcs\<close> gives what the world
  answers during each of them. The link below reaches it, and the answer arrives in time.
\<close>

type_synonym served = "nat \<times> daemon"

definition serve_request ::
  "manager_env \<Rightarrow> (nat \<Rightarrow> request_oracle) \<Rightarrow> request \<Rightarrow> (served, transport_error, response) st" where
  "serve_request env orcs req s =
     (case handle env (orcs (fst s)) req (snd s) of
        Some (resp, d) \<Rightarrow> (check_response req resp, Suc (fst s), d)
      | None \<Rightarrow> (Err Disconnected, s))"

definition direct_link :: "manager_env \<Rightarrow> (nat \<Rightarrow> request_oracle) \<Rightarrow> (served \<Rightarrow> uuid) \<Rightarrow> served link" where
  "direct_link env orcs ids = \<lparr>ln_ensure = st_return (), ln_fresh = ids,
     ln_exchange = (\<lambda>timeout. serve_request env orcs)\<rparr>"

text \<open>What the handler answers, without the response around it.\<close>

definition handled ::
  "manager_env \<Rightarrow> request_oracle \<Rightarrow> operation \<Rightarrow> json \<Rightarrow> json handler" where
  "handled env orc op payload d =
     (case op of
        ForwardStart \<Rightarrow> start_with env (ro_start orc) False False payload d
      | ForwardStop \<Rightarrow> stop_rule env (ro_stopped orc) payload d
      | ForwardEditActive \<Rightarrow>
          edit_active env (ro_fresh orc) (ro_stopped orc) (ro_start orc) payload d
      | Status \<Rightarrow> (let d' = maintain env (ro_exits orc) (ro_now orc) (ro_fresh orc) (ro_retries orc) d
          in (Ok (status_answer env (ro_now orc) d'), d'))
      | _ \<Rightarrow> the (dispatch env (ro_fresh orc) (ro_now orc) op payload d))"

lemma handle_eq:
  "handle env orc req d =
     (let (res, d') = handled env orc (rq_operation req) (rq_payload req) d
      in Some (case res of Inr v \<Rightarrow> ipc_success (rq_request_id req) v
          | Inl (code, msg) \<Rightarrow> ipc_failure (rq_request_id req) code msg, d'))"
  by (cases "rq_operation req")
    (auto simp: handle_def handled_def dispatch_def Let_def split: prod.splits sum.splits)

lemma link_call_direct:
  "link_call (direct_link env orcs ids) timeout op payload (n, d) =
     (let (res, d') = handled env (orcs n) op payload d
      in (map_err (\<lambda>(code, msg). CallRefused code msg) res, Suc n, d'))"
  by (auto simp: link_call_def direct_link_def serve_request_def handle_eq request_new_def
      st_defs check_response_def ipc_success_def ipc_failure_def Let_def split: prod.splits sum.splits)

lemma call_daemon_direct:
  "call_daemon f g (direct_link env orcs ids) op payload (n, d) =
     (let (res, d') = handled env (orcs n) op payload d in (map_err snd res, Suc n, d'))"
proof -
  obtain res d' where h: "handled env (orcs n) op payload d = (res, d')" by fastforce
  then show ?thesis
    by (cases res) (auto simp: call_daemon_def link_call_direct st_map_err_def Let_def)
qed

end
