(* ===== verification/Terminal_Modes.thy ===== *)
theory Terminal_Modes
  imports Config_Model
begin

text \<open>
  The modes of the terminal that the terminal client changes and gives back: \<open>TerminalGuard\<close>,
  \<open>restore_terminal\<close> and \<open>write_terminal_restore\<close> in \<open>src/src/tui/mod.rs\<close>. What \<open>crossterm\<close>
  does to the terminal is an argument; \<open>documented\<close> says what its documentation promises.
\<close>

section \<open>The device\<close>

record terminal =
  tm_raw :: bool
  tm_alternate :: bool
  tm_cursor :: bool
  tm_mouse :: bool

definition plain_terminal :: terminal where
  "plain_terminal = \<lparr>tm_raw = False, tm_alternate = False, tm_cursor = True, tm_mouse = False\<rparr>"

datatype term_command =
    EnterAlternateScreen | LeaveAlternateScreen | HideCursor | ShowCursor
  | EnableMouseCapture | DisableMouseCapture

text \<open>\<open>enable_raw_mode\<close> and \<open>disable_raw_mode\<close>, and \<open>execute!\<close> with a list of commands.\<close>

record term_device =
  td_raw_mode :: "bool \<Rightarrow> (terminal, io_kind, unit) st"
  td_execute :: "term_command list \<Rightarrow> (terminal, io_kind, unit) st"

section \<open>Taking the terminal and giving it back\<close>

definition write_terminal_restore :: "term_device \<Rightarrow> (terminal, io_kind, unit) st" where
  "write_terminal_restore dev = td_execute dev [DisableMouseCapture, LeaveAlternateScreen, ShowCursor]"

definition restore_terminal :: "term_device \<Rightarrow> terminal \<Rightarrow> terminal" where
  "restore_terminal dev tm =
     (let (_, tm1) = td_raw_mode dev False tm; (_, tm2) = write_terminal_restore dev tm1 in tm2)"

text \<open>\<open>TerminalGuard::enter\<close>; \<open>again\<close> is the device when the modes are given back because they could
  not all be set.\<close>

definition guard_enter :: "term_device \<Rightarrow> term_device \<Rightarrow> (terminal, io_kind, unit) st" where
  "guard_enter dev again tm =
     (case td_raw_mode dev True tm of
        (Inl e, tm1) \<Rightarrow> (Err e, tm1)
      | (Inr _, tm1) \<Rightarrow>
          (case td_execute dev [EnterAlternateScreen, HideCursor, EnableMouseCapture] tm1 of
             (Inl e, tm2) \<Rightarrow> (Err e, restore_terminal again tm2)
           | (Inr _, tm2) \<Rightarrow> (Ok (), tm2)))"

section \<open>What is documented\<close>

primrec carry_out :: "term_command \<Rightarrow> terminal \<Rightarrow> terminal" where
  "carry_out EnterAlternateScreen tm = tm\<lparr>tm_alternate := True\<rparr>"
| "carry_out LeaveAlternateScreen tm = tm\<lparr>tm_alternate := False\<rparr>"
| "carry_out HideCursor tm = tm\<lparr>tm_cursor := False\<rparr>"
| "carry_out ShowCursor tm = tm\<lparr>tm_cursor := True\<rparr>"
| "carry_out EnableMouseCapture tm = tm\<lparr>tm_mouse := True\<rparr>"
| "carry_out DisableMouseCapture tm = tm\<lparr>tm_mouse := False\<rparr>"

text \<open>
  A call that succeeds does what it says. Setting raw mode changes nothing if it fails; when
  writing commands fails, some of the first of them may have reached the terminal.
\<close>

definition documented :: "term_device \<Rightarrow> bool" where
  "documented dev \<longleftrightarrow>
     (\<forall>on tm. td_raw_mode dev on tm = (Ok (), tm\<lparr>tm_raw := on\<rparr>) \<or>
        (\<exists>e. td_raw_mode dev on tm = (Err e, tm))) \<and>
     (\<forall>cs tm. td_execute dev cs tm = (Ok (), fold carry_out cs tm) \<or>
        (\<exists>e n. td_execute dev cs tm = (Err e, fold carry_out (take n cs) tm)))"

text \<open>A device on which nothing fails.\<close>

definition works :: "term_device \<Rightarrow> bool" where
  "works dev \<longleftrightarrow> documented dev \<and>
     (\<forall>on tm. is_ok (fst (td_raw_mode dev on tm))) \<and> (\<forall>cs tm. is_ok (fst (td_execute dev cs tm)))"

lemma works_calls:
  assumes "works dev"
  shows "td_raw_mode dev on tm = (Ok (), tm\<lparr>tm_raw := on\<rparr>)" "td_execute dev cs tm = (Ok (), fold carry_out cs tm)"
proof -
  have ok: "is_ok (fst (td_raw_mode dev on tm))" "is_ok (fst (td_execute dev cs tm))"
    and "documented dev" using assms by (simp_all add: works_def)
  then have "td_raw_mode dev on tm = (Ok (), tm\<lparr>tm_raw := on\<rparr>) \<or> (\<exists>e. td_raw_mode dev on tm = (Err e, tm))"
    "td_execute dev cs tm = (Ok (), fold carry_out cs tm) \<or>
      (\<exists>e n. td_execute dev cs tm = (Err e, fold carry_out (take n cs) tm))"
    by (simp_all add: documented_def)
  with ok show "td_raw_mode dev on tm = (Ok (), tm\<lparr>tm_raw := on\<rparr>)"
    "td_execute dev cs tm = (Ok (), fold carry_out cs tm)" by (auto simp: is_ok_iff)
qed

lemma restore_terminal_plain: "works dev \<Longrightarrow> restore_terminal dev tm = plain_terminal"
  by (cases tm) (simp add: restore_terminal_def write_terminal_restore_def works_calls plain_terminal_def)

text \<open>A restoration that fails half way never undoes an earlier one.\<close>

lemma restore_plain_stays:
  assumes "documented dev"
  shows "restore_terminal dev plain_terminal = plain_terminal"
proof -
  let ?cs = "[DisableMouseCapture, LeaveAlternateScreen, ShowCursor]"
  have part: "fold carry_out (take n ?cs) plain_terminal = plain_terminal" for n
    by (simp add: plain_terminal_def take_Cons' numeral_eq_Suc)
  have "snd (td_raw_mode dev False plain_terminal) = plain_terminal"
    using assms [unfolded documented_def, THEN conjunct1, rule_format, of False plain_terminal]
    by (auto simp: plain_terminal_def)
  moreover have "snd (td_execute dev ?cs plain_terminal) = plain_terminal"
    using assms [unfolded documented_def, THEN conjunct2, rule_format, of ?cs plain_terminal] part part [of 3]
    by (auto simp: numeral_eq_Suc)
  ultimately show ?thesis by (simp add: restore_terminal_def write_terminal_restore_def case_prod_unfold)
qed

lemma restored_plain:
  assumes "documented f" "documented g" "works f \<or> works g"
  shows "restore_terminal g (restore_terminal f tm) = plain_terminal"
  using assms restore_terminal_plain restore_plain_stays by metis

lemma guard_enter_Err:
  assumes "guard_enter dev again plain_terminal = (Inl e, tm)" "documented dev" "works again"
  shows "tm = plain_terminal"
  using assms(2) [unfolded documented_def, THEN conjunct1, rule_format, of True plain_terminal] assms(1)
  by (auto simp: guard_enter_def restore_terminal_plain [OF assms(3)] split: prod.splits sum.splits)

text \<open>A device whose calls fail in a given way.\<close>

definition faulty_device :: "io_kind option \<Rightarrow> (nat \<times> io_kind) option \<Rightarrow> term_device" where
  "faulty_device raw write = \<lparr>
     td_raw_mode = (\<lambda>on tm. case raw of None \<Rightarrow> (Ok (), tm\<lparr>tm_raw := on\<rparr>) | Some e \<Rightarrow> (Err e, tm)),
     td_execute = (\<lambda>cs tm. case write of None \<Rightarrow> (Ok (), fold carry_out cs tm)
       | Some (n, e) \<Rightarrow> (Err e, fold carry_out (take n cs) tm))\<rparr>"

lemma faulty_device_documented: "documented (faulty_device raw write)"
  by (auto simp: documented_def faulty_device_def split: option.split)

lemma faulty_device_works: "works (faulty_device None None)"
  using faulty_device_documented by (simp add: works_def) (simp add: faulty_device_def)

end
