(* ===== verification/Cli_Model.thy ===== *)
theory Cli_Model
  imports Client_Link Ssh_Hosts Paths_Model Rotating_Log Terminal_Modes
begin

text \<open>
  The command line, \<open>src/src/cli/mod.rs\<close>, with its errors and exit statuses
  (\<open>src/src/error.rs\<close>, \<open>src/src/main.rs\<close>). The arguments arrive parsed, as the records and
  datatypes that \<open>clap\<close> fills. Printed lines are lists of pieces: literal text, and values
  whose text another crate makes. The daemon is reached over a \<open>link\<close>; the environment,
  OpenSSH, the generators of \<open>clap\<close> and the terminal client are the fields of \<open>cli_env\<close>.
\<close>

section \<open>Errors and exit statuses\<close>

text \<open>What an error text is made from.\<close>

datatype reason =
    Said rstr
  | ByIo io_kind
  | BySerde
  | ByUtf8 string
  | ByRule validation_error
  | BySelection selection_error
  | ByDaemon daemon_error
  | ByTransport transport_error
  | ByProcess process_error
  | ByStore store_error
  | BySignals io_kind

datatype app_error =
    AppUnavailable rstr
  | AppConfiguration reason
  | AppIpc reason
  | AppDaemon error_code message
  | AppJsonDaemon error_code message
  | AppHost host_error
  | AppConnection rstr

datatype app_exit =
    ExitSuccess | ExitUsage | ExitUnavailable | ExitNotFound | ExitConflict
  | ExitServiceUnavailable | ExitSoftware

primrec exit_number :: "app_exit \<Rightarrow> nat" where
  "exit_number ExitSuccess = 0"
| "exit_number ExitUsage = 2"
| "exit_number ExitUnavailable = 3"
| "exit_number ExitNotFound = 4"
| "exit_number ExitConflict = 5"
| "exit_number ExitServiceUnavailable = 6"
| "exit_number ExitSoftware = 70"

primrec code_exit :: "error_code \<Rightarrow> app_exit" where
  "code_exit InvalidRequest = ExitUsage"
| "code_exit MessageTooLargeCode = ExitUsage"
| "code_exit UnsupportedVersion = ExitUsage"
| "code_exit NotFound = ExitNotFound"
| "code_exit Conflict = ExitConflict"
| "code_exit Unavailable = ExitServiceUnavailable"
| "code_exit Internal = ExitSoftware"

fun exit_of :: "app_error \<Rightarrow> app_exit" where
  "exit_of (AppUnavailable _) = ExitUnavailable"
| "exit_of (AppHost (InvalidAlias _)) = ExitUsage"
| "exit_of (AppDaemon code _) = code_exit code"
| "exit_of (AppJsonDaemon code _) = code_exit code"
| "exit_of _ = ExitSoftware"

primrec error_code_name :: "error_code \<Rightarrow> string" where
  "error_code_name InvalidRequest = ''invalid_request''"
| "error_code_name MessageTooLargeCode = ''message_too_large''"
| "error_code_name UnsupportedVersion = ''unsupported_version''"
| "error_code_name NotFound = ''not_found''"
| "error_code_name Conflict = ''conflict''"
| "error_code_name Unavailable = ''unavailable''"
| "error_code_name Internal = ''internal''"

text \<open>
  A printed line. \<open>PBytes\<close> is written as it is, without a line end, and \<open>PJson\<close> is the
  text of a JSON value; the last four are the display of an
  error code and of errors whose texts are defined elsewhere.
\<close>

datatype piece =
    PText rstr
  | PBytes bytes
  | PJson json
  | PPath rstr
  | PWarning warning_kind
  | PCode error_code
  | PReason reason
  | PHost host_error
  | PMessage message

type_synonym line = "piece list"

text \<open>The display of an error; \<open>render\<close> is the text of a daemon's message.\<close>

fun app_error_line :: "(message \<Rightarrow> rstr) \<Rightarrow> app_error \<Rightarrow> line" where
  "app_error_line render (AppUnavailable feature) = [PText feature, PText (lit '' is not implemented yet'')]"
| "app_error_line render (AppConfiguration r) = [PText (lit ''configuration error: ''), PReason r]"
| "app_error_line render (AppIpc r) = [PText (lit ''IPC error: ''), PReason r]"
| "app_error_line render (AppDaemon code msg) =
     [PText (lit ''daemon request failed (''), PCode code, PText (lit ''): ''), PMessage msg]"
| "app_error_line render (AppJsonDaemon code msg) =
     [PJson (JObj [(''error'', JObj [(''code'', JStr (lit (error_code_name code))),
        (''message'', JStr (render msg))])])]"
| "app_error_line render (AppHost e) = [PText (lit ''SSH host operation failed: ''), PHost e]"
| "app_error_line render (AppConnection text) = [PText (lit ''SSH connection test failed: ''), PText text]"

section \<open>Arguments\<close>

record settings_args =
  sa_theme :: "theme option"
  sa_log_level :: "log_level option"
  sa_default_reconnect :: "bool option"
  sa_default_auto_start :: "bool option"

datatype settings_command = SettingsShow | SettingsSet settings_args

datatype host_command = CmdHostList | CmdHostShow rstr | CmdHostTest rstr

record import_args =
  ia_host :: rstr
  ia_select :: "nat list"

datatype forward_kind = ArgLocal | ArgRemote | ArgDynamic

record add_args =
  aa_kind :: forward_kind
  aa_name :: rstr
  aa_ssh_host_alias :: rstr
  aa_bind_address :: rstr
  aa_bind_port :: u16
  aa_destination_host :: rstr
  aa_destination_port :: "u16 option"
  aa_auto_start :: "bool option"
  aa_reconnect :: "bool option"

datatype forward_command =
    CmdList
  | CmdAdd add_args
  | CmdImport import_args
  | CmdRemove rstr
  | CmdStart rstr
  | CmdStop rstr

datatype daemon_command = CmdRun | CmdGuardian int int

datatype command =
    CmdHost host_command
  | CmdForward forward_command
  | CmdStatus
  | CmdSettings settings_command
  | CmdCompletion rstr
  | CmdManpage
  | CmdDaemon daemon_command

record cli =
  cli_json :: bool
  cli_command :: "command option"

section \<open>The process\<close>

datatype command_tree = Command_Tree (ct_name: rstr) (ct_about: "rstr option") (ct_hidden: bool)
  (ct_subcommands: "command_tree list")

text \<open>
  The state a command works on: the directory tree, what the private directories in it hold,
  the peer, the lines it has printed and the terminal's modes. A command ends with an error, or panics.
\<close>

record 'd process =
  pr_tree :: tree
  pr_dirs :: "path \<Rightarrow> pdir"
  pr_peer :: 'd
  pr_out :: "line list"
  pr_err :: "line list"
  pr_terminal :: terminal

datatype stop = Failed app_error | Panicked

type_synonym ('d, 'a) command_run = "('d process, stop, 'a) st"

record 'd cli_env =
  ce_var :: "string \<Rightarrow> rstr option"
  ce_platform :: platform
  ce_uid :: nat
  ce_exe :: "io_kind + rstr"
  ce_link :: "rstr \<Rightarrow> rstr \<Rightarrow> 'd link"
  ce_new_id :: uuid
  ce_ids :: "nat \<Rightarrow> rule_id"
  ce_show_uuid :: "uuid \<Rightarrow> rstr"
  ce_parse_uuid :: "rstr \<Rightarrow> uuid option"
  ce_world :: config_world
  ce_runner :: runner
  ce_tree :: command_tree
  ce_completion :: "rstr \<Rightarrow> bytes"
  ce_manpage :: "rstr + bytes"
  ce_tui :: "('d process, stop, unit) st"
  ce_lock_held :: bool
  ce_lock_mode :: nat
  ce_socket_mode :: nat
  ce_lock_clone :: "io_kind + unit"
  ce_toml :: toml
  ce_backup_id :: uuid
  ce_save_id :: uuid
  ce_serve :: "daemon \<Rightarrow> ('d process, daemon_error, unit) st"
  ce_guardian :: "int \<Rightarrow> int \<Rightarrow> process_error + unit"

definition try_result :: "app_error + 'a \<Rightarrow> ('d, 'a) command_run" where
  "try_result r = st_lift (map_err Failed r)"

definition print_line :: "line \<Rightarrow> ('d, unit) command_run" where
  "print_line l s = (Ok (), s\<lparr>pr_out := pr_out s @ [l]\<rparr>)"

definition warn_line :: "line \<Rightarrow> ('d, unit) command_run" where
  "warn_line l s = (Ok (), s\<lparr>pr_err := pr_err s @ [l]\<rparr>)"

fun run_all :: "('a \<Rightarrow> ('d, unit) command_run) \<Rightarrow> 'a list \<Rightarrow> ('d, unit) command_run" where
  "run_all f [] = st_return ()"
| "run_all f (x # xs) = st_bind (f x) (\<lambda>_. run_all f xs)"

definition on_tree :: "(tree, 'e, 'a) st \<Rightarrow> ('d process, 'e, 'a) st" where
  "on_tree m s = (let (r, t) = m (pr_tree s) in (r, s\<lparr>pr_tree := t\<rparr>))"

definition on_peer :: "('d, 'e, 'a) st \<Rightarrow> ('d process, 'e, 'a) st" where
  "on_peer m s = (let (r, d) = m (pr_peer s) in (r, s\<lparr>pr_peer := d\<rparr>))"

section \<open>Paths\<close>

text \<open>\<open>var_os(name).filter(|value| !value.is_empty())\<close>.\<close>

definition set_var :: "'d cli_env \<Rightarrow> string \<Rightarrow> rstr option" where
  "set_var env name = (case ce_var env name of Some [] \<Rightarrow> None | v \<Rightarrow> v)"

definition home_dir :: "'d cli_env \<Rightarrow> app_error + rstr" where
  "home_dir env = ok_or (AppConfiguration (Said (lit ''HOME is not set''))) (set_var env ''HOME'')"

definition ssh_program :: "'d cli_env \<Rightarrow> rstr" where
  "ssh_program env = (case set_var env ''TDECK_SSH'' of Some p \<Rightarrow> p | None \<Rightarrow> lit ''ssh'')"

definition resolved_paths :: "'d cli_env \<Rightarrow> ('d, app_paths) command_run" where
  "resolved_paths env =
     st_bind (try_result (home_dir env)) (\<lambda>home.
       st_map_err (\<lambda>e. Failed (AppConfiguration (ByIo e)))
         (on_tree (paths_resolve (ce_platform env) home (ce_uid env)
           \<lparr>xo_config = set_var env ''XDG_CONFIG_HOME'', xo_state = set_var env ''XDG_STATE_HOME'',
            xo_runtime = set_var env ''XDG_RUNTIME_DIR''\<rparr>)))"

section \<open>Calling the daemon\<close>

definition daemon_failure :: "bool \<Rightarrow> call_failure \<Rightarrow> app_error" where
  "daemon_failure json_errors e =
     (case e of
        NotEnsured e \<Rightarrow> AppIpc (ByDaemon e)
      | NotExchanged e \<Rightarrow> AppIpc (ByTransport e)
      | CallRefused code msg \<Rightarrow>
          if json_errors then AppJsonDaemon code msg else AppDaemon code msg)"

definition response_timeout :: "operation \<Rightarrow> nat" where
  "response_timeout op = (if op = ForwardStop then STOP_RESPONSE_TIMEOUT else DEFAULT_TIMEOUT)"

definition daemon_value :: "'d cli_env \<Rightarrow> operation \<Rightarrow> json \<Rightarrow> bool \<Rightarrow> ('d, json) command_run" where
  "daemon_value env op payload json_errors =
     st_bind (resolved_paths env) (\<lambda>paths.
     st_bind (try_result (map_err (\<lambda>e. AppIpc (ByIo e)) (socket_path paths (ce_platform env)))) (\<lambda>socket.
     st_bind (try_result (map_err (\<lambda>e. AppIpc (ByIo e)) (ce_exe env))) (\<lambda>exe.
       st_map_err (\<lambda>e. Failed (daemon_failure json_errors e))
         (on_peer (link_call (ce_link env socket exe) (response_timeout op) op payload)))))"

definition or_dash :: "rstr option \<Rightarrow> rstr" where
  "or_dash s = (case s of Some s \<Rightarrow> s | None \<Rightarrow> lit ''-'')"

definition human_lines :: "operation \<Rightarrow> json \<Rightarrow> line list" where
  "human_lines op value =
     (if op = ForwardList
      then (case as_array value of
          Some rules \<Rightarrow> map (\<lambda>rule. [PText (or_dash (as_str (json_at rule ''id'')) @ [9] @
              or_dash (as_str (json_at rule ''name'')))]) rules
        | None \<Rightarrow> [])
      else if op = SettingsGet \<or> op = SettingsUpdate
      then [[PText (lit ''theme: '' @ or_dash (as_str (json_at value ''theme'')))],
            [PText (lit ''log-level: '' @ or_dash (as_str (json_at value ''log_level'')))],
            [PText (lit ''default-reconnect: ''), PJson (json_at value ''default_reconnect'')],
            [PText (lit ''default-auto-start: ''), PJson (json_at value ''default_auto_start'')]]
      else [[PJson value]])"

definition print_human :: "operation \<Rightarrow> json \<Rightarrow> ('d, unit) command_run" where
  "print_human op value = run_all print_line (human_lines op value)"

definition daemon_call :: "'d cli_env \<Rightarrow> operation \<Rightarrow> json \<Rightarrow> bool \<Rightarrow> ('d, unit) command_run" where
  "daemon_call env op payload json =
     st_bind (daemon_value env op payload json) (\<lambda>value.
       if json then print_line [PJson value] else print_human op value)"

definition rule_selector :: "'d cli_env \<Rightarrow> rstr \<Rightarrow> json" where
  "rule_selector env rule =
     (case ce_parse_uuid env rule of
        Some i \<Rightarrow> JObj [(''rule_id'', JStr (ce_show_uuid env i))]
      | None \<Rightarrow> JObj [(''rule_name'', JStr rule)])"

definition daemon_rule_call :: "'d cli_env \<Rightarrow> operation \<Rightarrow> rstr \<Rightarrow> bool \<Rightarrow> ('d, unit) command_run" where
  "daemon_rule_call env op rule json = daemon_call env op (rule_selector env rule) json"

section \<open>Settings\<close>

text \<open>\<open>value[key] = v\<close>: null becomes an object, anything else but an object panics.\<close>

fun index_set :: "json \<Rightarrow> string \<Rightarrow> json \<Rightarrow> ('d, json) command_run" where
  "index_set (JObj kvs) key v = st_return (json_set (JObj kvs) key v)"
| "index_set JNull key v = st_return (JObj [(key, v)])"
| "index_set j key v = st_lift (Err Panicked)"

definition set_given :: "string \<Rightarrow> json option \<Rightarrow> json \<Rightarrow> ('d, json) command_run" where
  "set_given key given settings =
     (case given of Some v \<Rightarrow> index_set settings key v | None \<Rightarrow> st_return settings)"

definition update_settings :: "'d cli_env \<Rightarrow> settings_args \<Rightarrow> bool \<Rightarrow> ('d, unit) command_run" where
  "update_settings env args json =
     st_bind (daemon_value env SettingsGet (JObj []) json) (\<lambda>s0.
     st_bind (set_given ''theme'' (map_option (\<lambda>t. JStr (lit (theme_name t))) (sa_theme args)) s0) (\<lambda>s1.
     st_bind (set_given ''log_level'' (map_option (\<lambda>l. JStr (log_level_str l)) (sa_log_level args)) s1) (\<lambda>s2.
     st_bind (set_given ''default_reconnect'' (map_option JBool (sa_default_reconnect args)) s2) (\<lambda>s3.
     st_bind (set_given ''default_auto_start'' (map_option JBool (sa_default_auto_start args)) s3) (\<lambda>s4.
       daemon_call env SettingsUpdate s4 json)))))"

section \<open>Adding a rule\<close>

primrec kind_name :: "forward_kind \<Rightarrow> string" where
  "kind_name ArgLocal = ''local''"
| "kind_name ArgRemote = ''remote''"
| "kind_name ArgDynamic = ''dynamic''"

definition given_or_setting :: "bool option \<Rightarrow> json \<Rightarrow> string \<Rightarrow> json" where
  "given_or_setting given settings key =
     JBool (case given of Some b \<Rightarrow> b
       | None \<Rightarrow> (case as_bool (json_at settings key) of Some b \<Rightarrow> b | None \<Rightarrow> False))"

definition add_payload :: "'d cli_env \<Rightarrow> add_args \<Rightarrow> json \<Rightarrow> u16 option \<Rightarrow> json" where
  "add_payload env args settings destination =
     (let payload = JObj [(''kind'', JStr (lit (kind_name (aa_kind args)))),
        (''id'', JStr (ce_show_uuid env (ce_new_id env))), (''name'', JStr (aa_name args)),
        (''ssh_host_alias'', JStr (aa_ssh_host_alias args)),
        (''bind_address'', JStr (aa_bind_address args)), (''bind_port'', json_u16 (aa_bind_port args)),
        (''auto_start'', given_or_setting (aa_auto_start args) settings ''default_auto_start''),
        (''reconnect'', given_or_setting (aa_reconnect args) settings ''default_reconnect'')]
      in case destination of
           None \<Rightarrow> payload
         | Some port \<Rightarrow> json_set (json_set payload ''destination_host'' (JStr (aa_destination_host args)))
             ''destination_port'' (json_u16 port))"

definition execute_add :: "'d cli_env \<Rightarrow> add_args \<Rightarrow> bool \<Rightarrow> ('d, unit) command_run" where
  "execute_add env args json =
     st_bind (daemon_value env SettingsGet (JObj []) json) (\<lambda>settings.
       if aa_kind args \<noteq> ArgDynamic \<and> aa_destination_port args = None
       then st_lift (Err (Failed (AppConfiguration (Said (lit
         ''--destination-port is required for local and remote forwarding'')))))
       else daemon_call env ForwardAdd (add_payload env args settings
         (if aa_kind args = ArgDynamic then None else aa_destination_port args)) json)"

section \<open>Importing forwards\<close>

primrec unsupported_reason_name :: "unsupported_reason \<Rightarrow> string" where
  "unsupported_reason_name UnixSocket = ''unix_socket''"
| "unsupported_reason_name RemoteDynamic = ''remote_dynamic''"

primrec invalid_reason_name :: "invalid_reason \<Rightarrow> string" where
  "invalid_reason_name ReasonSyntax = ''syntax''"
| "invalid_reason_name ReasonBindAddress = ''bind_address''"
| "invalid_reason_name ReasonDestinationHost = ''destination_host''"
| "invalid_reason_name ReasonPort = ''port''"
| "invalid_reason_name NonUtf8Output = ''non_utf8_output''"

primrec directive_name :: "directive_kind \<Rightarrow> string" where
  "directive_name LocalKind = ''local''"
| "directive_name RemoteKind = ''remote''"
| "directive_name DynamicKind = ''dynamic''"

fun classification_json :: "(uuid \<Rightarrow> rstr) \<Rightarrow> import_classification \<Rightarrow> string \<times> json" where
  "classification_json show_id Supported = (''supported'', JNull)"
| "classification_json show_id (DuplicateDirective first) =
     (''duplicate'', JObj [(''kind'', JStr (lit ''directive'')), (''candidate_id'', JNat (first + 1))])"
| "classification_json show_id (DuplicateRule i running) =
     (''duplicate'', JObj [(''kind'', JStr (lit ''rule'')), (''rule_id'', JStr (show_id i)),
        (''running'', JBool running)])"
| "classification_json show_id (ImportConflict i running) =
     (''conflict'', JObj [(''rule_id'', case i of Some i \<Rightarrow> JStr (show_id i) | None \<Rightarrow> JNull),
        (''running'', JBool running)])"
| "classification_json show_id (ImportUnsupported reason) =
     (''unsupported'', JObj [(''kind'', JStr (lit (unsupported_reason_name reason)))])"
| "classification_json show_id (ImportInvalid reason) =
     (''invalid'', JObj [(''kind'', JStr (lit (invalid_reason_name reason)))])"

definition bind_json :: "rstr \<Rightarrow> u16 \<Rightarrow> json" where
  "bind_json address port = JObj [(''address'', JStr address), (''port'', json_u16 port)]"

definition destination_json :: "rstr \<Rightarrow> u16 \<Rightarrow> json" where
  "destination_json host port = JObj [(''host'', JStr host), (''port'', json_u16 port)]"

definition candidate_json :: "(uuid \<Rightarrow> rstr) \<Rightarrow> nat \<Rightarrow> import_candidate \<Rightarrow> json" where
  "candidate_json show_id index c =
     (let (status, reason) = classification_json show_id (ic_classification c);
          value = (\<lambda>type bind destination. JObj [(''id'', JNat (index + 1)),
            (''type'', JStr (lit type)), (''bind'', bind), (''destination'', destination)])
      in json_set (json_set
        (case ic_forwarding c of
           Some (ImportLocal b p h q) \<Rightarrow> value ''local'' (bind_json b p) (destination_json h q)
         | Some (ImportRemote b p h q) \<Rightarrow> value ''remote'' (bind_json b p) (destination_json h q)
         | Some (ImportDynamic b p) \<Rightarrow> value ''dynamic'' (bind_json b p) JNull
         | None \<Rightarrow> value (directive_name (ic_kind c)) JNull JNull)
        ''status'' (JStr (lit status))) ''reason'' reason)"

definition import_preview_json :: "(uuid \<Rightarrow> rstr) \<Rightarrow> import_preview \<Rightarrow> json" where
  "import_preview_json show_id preview = JObj [(''ssh_host_alias'', JStr (ip_alias preview)),
     (''candidates'', JArr (map (\<lambda>(i, c). candidate_json show_id i c)
        (enumerate 0 (ip_candidates preview)))),
     (''saved_rule_ids'', JArr [])]"

definition nat_or_zero :: "json \<Rightarrow> nat" where
  "nat_or_zero j = (case as_u64 j of Some n \<Rightarrow> n | None \<Rightarrow> 0)"

text \<open>\<open>as_object().map(...)\<close> on an endpoint.\<close>

fun endpoint_text :: "string \<Rightarrow> json \<Rightarrow> rstr option" where
  "endpoint_text key (JObj kvs) = Some (or_dash (as_str (json_at (JObj kvs) key)) @ [58] @
     show_nat (nat_or_zero (json_at (JObj kvs) ''port'')))"
| "endpoint_text key _ = None"

definition candidate_line :: "json \<Rightarrow> line" where
  "candidate_line c =
     [PText (show_nat (nat_or_zero (json_at c ''id'')) @ [9] @ or_dash (as_str (json_at c ''type'')) @
        [9] @ or_dash (as_str (json_at c ''status'')) @ [9] @
        or_dash (endpoint_text ''address'' (json_at c ''bind'')) @
        (case endpoint_text ''host'' (json_at c ''destination'') of
           Some s \<Rightarrow> lit '' -> '' @ s | None \<Rightarrow> []))] @
     (if json_at c ''reason'' = JNull then [] else [PText (lit '' ''), PJson (json_at c ''reason'')])"

definition json_items :: "json \<Rightarrow> json list" where
  "json_items j = (case as_array j of Some vs \<Rightarrow> vs | None \<Rightarrow> [])"

definition import_preview_lines :: "json \<Rightarrow> line list" where
  "import_preview_lines value =
     [[PText (lit ''host: '' @ or_dash (as_str (json_at value ''ssh_host_alias'')))]] @
     map candidate_line (json_items (json_at value ''candidates'')) @
     (let ids = json_items (json_at value ''saved_rule_ids'') in
      if ids = [] then [] else [[PText (lit ''saved: '' @ show_nat (length ids))]])"

text \<open>The rules the daemon lists, and the ids of those that its status does not call stopped.\<close>

definition listed_rules :: "'d cli_env \<Rightarrow> json \<Rightarrow> app_error + rule list" where
  "listed_rules env listed =
     and_then (ok_or (AppConfiguration BySerde)
       (rules_from_json (uuid_from_json (ce_parse_uuid env)) listed)) (\<lambda>wires.
     map_err (\<lambda>e. AppConfiguration (ByRule e)) (collect_results domain_of_wire wires))"

definition running_ids :: "'d cli_env \<Rightarrow> json \<Rightarrow> rule_id list" where
  "running_ids env status =
     List.map_filter (\<lambda>v. Option.bind (as_str (json_at v ''rule_id'')) (ce_parse_uuid env))
       (filter (\<lambda>v. as_str (json_at v ''state'') \<noteq> Some (lit ''stopped''))
         (json_items (json_at status ''forwards'')))"

definition config_catalog :: "'d cli_env \<Rightarrow> rstr \<Rightarrow> rstr \<Rightarrow> host_catalog" where
  "config_catalog env home ssh =
     (let ssh_home = path_join home (lit ''.ssh'')
      in catalog_new (path_join ssh_home (lit ''config'')) ssh_home ssh)"

text \<open>The part of \<open>execute_import\<close> that saves: the answer's ids go into the output.\<close>

definition save_selected ::
  "'d cli_env \<Rightarrow> nat list \<Rightarrow> import_preview \<Rightarrow> rule list \<Rightarrow> json \<Rightarrow> bool \<Rightarrow> ('d, json) command_run" where
  "save_selected env chosen preview existing output json =
     (if \<not> distinct chosen \<or> 0 \<in> set chosen
      then st_lift (Err (Failed (AppConfiguration (Said (lit
        ''candidate IDs must be unique positive integers'')))))
      else if list_ex (\<lambda>i. length (ip_candidates preview) < i) chosen
      then st_lift (Err (Failed (AppConfiguration (Said (lit ''selected candidate ID does not exist'')))))
      else
        st_bind (daemon_value env SettingsGet (JObj []) json) (\<lambda>v.
        st_bind (try_result (ok_or (AppConfiguration BySerde) (settings_from_json v))) (\<lambda>s.
        st_bind (try_result (map_err (\<lambda>e. AppConfiguration (BySelection e))
          (selected_rules (ce_ids env) preview chosen existing
            (s_default_auto_start s) (s_default_reconnect s)))) (\<lambda>rules.
        st_bind (daemon_value env ForwardImport (JObj [(''rules'',
          rules_to_json (\<lambda>i. JStr (ce_show_uuid env i)) (map wire_of_domain rules))]) json) (\<lambda>saved.
          st_return (json_set output ''saved_rule_ids'' (json_at saved ''rule_ids'')))))))"

text \<open>Up to the preview of \<open>execute_import\<close>: the listed rules and the candidates.\<close>

definition import_look ::
  "'d cli_env \<Rightarrow> import_args \<Rightarrow> bool \<Rightarrow> ('d, rule list \<times> import_preview) command_run" where
  "import_look env args json =
     st_bind (daemon_value env ForwardList (JObj []) json) (\<lambda>listed.
     st_bind (try_result (listed_rules env listed)) (\<lambda>existing.
     st_bind (daemon_value env Status (JObj []) json) (\<lambda>status.
     st_bind (try_result (home_dir env)) (\<lambda>home.
     st_bind (try_result (map_err AppHost (catalog_import_preview (ce_runner env)
       (config_catalog env home (ssh_program env)) (ia_host args) existing (running_ids env status)))) (\<lambda>preview.
       st_return (existing, preview))))))"

definition execute_import :: "'d cli_env \<Rightarrow> import_args \<Rightarrow> bool \<Rightarrow> ('d, unit) command_run" where
  "execute_import env args json =
     st_bind (import_look env args json) (\<lambda>(existing, preview).
     st_bind (let output = import_preview_json (ce_show_uuid env) preview in
       if ia_select args = [] then st_return output
       else save_selected env (ia_select args) preview existing output json) (\<lambda>output.
       if json then print_line [PJson output]
       else run_all print_line (import_preview_lines output)))"

section \<open>Hosts\<close>

definition warning_line :: "discovery_warning \<Rightarrow> line" where
  "warning_line w = [PText (lit ''warning: ''), PWarning (dw_kind w), PText (lit '' ''), PPath (dw_path w)]"

definition optional_json :: "rstr option \<Rightarrow> json" where
  "optional_json s = (case s of Some s \<Rightarrow> JStr s | None \<Rightarrow> JNull)"

definition host_json :: "effective_host \<Rightarrow> json" where
  "host_json h = JObj [(''alias'', JStr (eh_alias h)), (''hostname'', JStr (eh_hostname h)),
     (''user'', JStr (eh_user h)), (''port'', JNat (eh_port h)),
     (''identity_files'', JArr (map JStr (eh_identity_files h))),
     (''proxy_jump'', optional_json (eh_proxy_jump h)),
     (''proxy_command'', optional_json (eh_proxy_command h))]"

definition optional_line :: "string \<Rightarrow> rstr option \<Rightarrow> line list" where
  "optional_line label s = (case s of Some s \<Rightarrow> [[PText (lit label @ s)]] | None \<Rightarrow> [])"

definition host_lines :: "effective_host \<Rightarrow> line list" where
  "host_lines h =
     [[PText (lit ''alias: '' @ eh_alias h)], [PText (lit ''hostname: '' @ eh_hostname h)],
      [PText (lit ''user: '' @ eh_user h)], [PText (lit ''port: '' @ show_nat (eh_port h))]] @
     map (\<lambda>i. [PText (lit ''identity-file: '' @ i)]) (eh_identity_files h) @
     optional_line ''proxy-jump: '' (eh_proxy_jump h) @
     optional_line ''proxy-command: '' (eh_proxy_command h)"

definition execute_host :: "'d cli_env \<Rightarrow> host_command \<Rightarrow> bool \<Rightarrow> ('d, unit) command_run" where
  "execute_host env cmd json =
     st_bind (try_result (home_dir env)) (\<lambda>home.
       let cat = config_catalog env home (lit ''ssh'') in
       case cmd of
         CmdHostList \<Rightarrow>
           st_bind (try_result (map_err AppHost (fst (catalog_refresh (ce_world env) cat)))) (\<lambda>found.
           st_bind (run_all (\<lambda>w. warn_line (warning_line w)) (hd_warnings found)) (\<lambda>_.
             if json then print_line [PJson (JArr (map JStr (hd_aliases found)))]
             else run_all (\<lambda>a. print_line [PText a]) (hd_aliases found)))
       | CmdHostShow alias \<Rightarrow>
           st_bind (try_result (map_err AppHost (catalog_effective (ce_runner env) cat alias))) (\<lambda>host.
             if json then print_line [PJson (host_json host)] else run_all print_line (host_lines host))
       | CmdHostTest alias \<Rightarrow>
           st_bind (try_result (map_err AppHost (test_connection (ce_runner env) cat alias))) (\<lambda>outcome.
             if outcome \<noteq> ConnSuccess
             then st_lift (Err (Failed (AppConnection (outcome_diagnostic outcome))))
             else if json
             then print_line [PJson (JObj [(''success'', JBool True),
               (''diagnostic'', JStr (outcome_diagnostic outcome))])]
             else print_line [PText (outcome_diagnostic outcome)]))"

section \<open>Generated texts\<close>

text \<open>\<open>append_subcommand_entries\<close>: the visible commands, each before its own subcommands.\<close>

fun subcommand_entries :: "rstr \<Rightarrow> command_tree \<Rightarrow> rstr" where
  "subcommand_entries parent (Command_Tree _ _ _ subs) =
     concat (map (\<lambda>c. if ct_hidden c then []
       else (let name = parent @ [32] @ ct_name c in
         lit ''.TP'' @ [10, 92] @ lit ''fB'' @ name @ [92] @ lit ''fR'' @ [10] @
         (case ct_about c of Some about \<Rightarrow> about @ [10] | None \<Rightarrow> []) @
         subcommand_entries name c)) subs)"

definition append_subcommands :: "command_tree \<Rightarrow> rstr \<Rightarrow> bytes \<Rightarrow> bytes" where
  "append_subcommands tree parent out =
     (if ct_subcommands tree = [] then out
      else out @ utf8_encode ([10] @ lit ''.SH SUBCOMMANDS'' @ [10] @ subcommand_entries parent tree))"

definition emit_generated :: "string \<Rightarrow> bytes \<Rightarrow> bool \<Rightarrow> ('d, unit) command_run" where
  "emit_generated kind out json =
     (if json
      then st_bind (try_result (ok_or (AppConfiguration (ByUtf8 kind))
          (utf8_decode out))) (\<lambda>content.
        print_line [PJson (JObj [(''kind'', JStr (lit kind)), (''content'', JStr content)])])
      else print_line [PBytes out])"

section \<open>Running the daemon\<close>

text \<open>
  \<open>ce_lock_held\<close> says that another process holds the lock file. The text forms of uuids and
  the \<open>toml\<close> crate are those of the manager; \<open>ce_serve\<close> is \<open>start_supervisor\<close> and
  \<open>lifecycle::run\<close> on the opened manager, which ends with an error only.
\<close>

definition daemon_env :: "'d cli_env \<Rightarrow> manager_env" where
  "daemon_env env = \<lparr>me_toml = ce_toml env, me_show_uuid = ce_show_uuid env,
     me_codec = json_codec (ce_show_uuid env) (ce_parse_uuid env), me_process = True, me_logging = True\<rparr>"

definition endpoint_env :: "'d cli_env \<Rightarrow> app_paths \<Rightarrow> rstr \<Rightarrow> runtime_env" where
  "endpoint_env env paths socket = \<lparr>re_absolute = path_absolute (pa_runtime paths),
     re_runtime = path_parts (pa_runtime paths), re_socket = path_parts socket,
     re_lock_mode = ce_lock_mode env, re_socket_mode = ce_socket_mode env\<rparr>"

definition config_directory :: "app_paths \<Rightarrow> rstr" where
  "config_directory paths = (case path_parent (pa_config paths) of Some p \<Rightarrow> p | None \<Rightarrow> lit ''/'')"

text \<open>\<open>RotatingLog::open\<close> on the tree; the log reads its directory through it.\<close>

definition open_log :: "app_paths \<Rightarrow> ('d, rlog) command_run" where
  "open_log paths s =
     (let parts = path_parts (pa_log paths);
          (opened, s1) = on_tree (private_open (path_absolute (pa_log paths)) (tl parts)) s
      in case rlog_open (\<lambda>p. map_ok (\<lambda>_. pr_dirs s1 p) opened) parts DEFAULT_MAX_BYTES DEFAULT_BACKUPS of
           Inl e \<Rightarrow> (Err (Failed (AppConfiguration (ByIo e))), s1)
         | Inr (log, d) \<Rightarrow> (Ok log, s1\<lparr>pr_dirs := (pr_dirs s1)(tl parts := d)\<rparr>))"

text \<open>\<open>DaemonManager::open_managed\<close>: the directory is opened and its configuration loaded.\<close>

definition open_manager :: "'d cli_env \<Rightarrow> rstr \<Rightarrow> ('d, daemon) command_run" where
  "open_manager env directory =
     st_bind (st_map_err (\<lambda>e. Failed (AppConfiguration (ByStore (StoreIo e))))
       (on_tree (private_open (path_absolute directory) (path_parts directory)))) (\<lambda>_ s.
     let p = path_parts directory; menv = daemon_env env; dir = pr_dirs s p;
         left = snd (load_or_migrate_v1 (me_toml menv) (me_show_uuid menv) (ce_backup_id env)
           (ce_save_id env) dir)
     in (map_err (\<lambda>e. Failed (AppConfiguration (ByStore e)))
           (daemon_open menv (ce_backup_id env) (ce_save_id env) dir),
         s\<lparr>pr_dirs := (pr_dirs s)(p := left)\<rparr>))"

text \<open>An endpoint that leaves its scope is dropped, whatever the rest returned.\<close>

definition with_endpoint :: "runtime_env \<Rightarrow> ('d, 'a) command_run \<Rightarrow> ('d, 'a) command_run" where
  "with_endpoint rt m s = (let (r, s1) = m s in (r, s1\<lparr>pr_tree := endpoint_drop rt (pr_tree s1)\<rparr>))"

definition serve_manager :: "'d cli_env \<Rightarrow> app_paths \<Rightarrow> ('d, unit) command_run" where
  "serve_manager env paths =
     st_bind (try_result (map_err (\<lambda>e. AppIpc (ByIo e)) (ce_lock_clone env))) (\<lambda>_.
     st_bind (try_result (map_err (\<lambda>e. AppIpc (ByIo e)) (ce_exe env))) (\<lambda>_.
     st_bind (open_manager env (config_directory paths)) (\<lambda>manager.
       st_map_err (\<lambda>e. Failed (AppIpc (ByDaemon e))) (ce_serve env manager))))"

definition run_daemon :: "'d cli_env \<Rightarrow> ('d, unit) command_run" where
  "run_daemon env =
     st_bind (resolved_paths env) (\<lambda>paths.
     st_bind (open_log paths) (\<lambda>_.
     st_bind (try_result (map_err (\<lambda>e. AppIpc (ByIo e)) (socket_path paths (ce_platform env)))) (\<lambda>socket.
       let rt = endpoint_env env paths socket in
       st_try (on_tree (endpoint_bind rt (ce_lock_held env))) (\<lambda>r. case r of
           Inl e \<Rightarrow> if e = AlreadyRunning then st_return ()
             else st_lift (Err (Failed (AppIpc (ByDaemon e))))
         | Inr _ \<Rightarrow> with_endpoint rt (serve_manager env paths)))))"

section \<open>Dispatch\<close>

definition execute_forward :: "'d cli_env \<Rightarrow> forward_command \<Rightarrow> bool \<Rightarrow> ('d, unit) command_run" where
  "execute_forward env cmd json =
     (case cmd of
        CmdList \<Rightarrow> daemon_call env ForwardList (JObj []) json
      | CmdAdd args \<Rightarrow> execute_add env args json
      | CmdImport args \<Rightarrow> execute_import env args json
      | CmdRemove rule \<Rightarrow> daemon_rule_call env ForwardRemove rule json
      | CmdStart rule \<Rightarrow> daemon_rule_call env ForwardStart rule json
      | CmdStop rule \<Rightarrow> daemon_rule_call env ForwardStop rule json)"

definition cli_execute :: "'d cli_env \<Rightarrow> cli \<Rightarrow> ('d, unit) command_run" where
  "cli_execute env c =
     (let json = cli_json c in
      case cli_command c of
        None \<Rightarrow> ce_tui env
      | Some (CmdHost cmd) \<Rightarrow> execute_host env cmd json
      | Some (CmdForward cmd) \<Rightarrow> execute_forward env cmd json
      | Some CmdStatus \<Rightarrow> daemon_call env Status (JObj []) json
      | Some (CmdSettings SettingsShow) \<Rightarrow> daemon_call env SettingsGet (JObj []) json
      | Some (CmdSettings (SettingsSet args)) \<Rightarrow> update_settings env args json
      | Some (CmdCompletion shell) \<Rightarrow> emit_generated ''completion'' (ce_completion env shell) json
      | Some CmdManpage \<Rightarrow>
          st_bind (try_result (map_err (\<lambda>e. AppConfiguration (Said
            (lit ''could not generate manual page: '' @ e))) (ce_manpage env))) (\<lambda>out.
          emit_generated ''manpage'' (append_subcommands (ce_tree env) (lit ''tdeck'') out) json)
      | Some (CmdDaemon CmdRun) \<Rightarrow> run_daemon env
      | Some (CmdDaemon (CmdGuardian lease lock)) \<Rightarrow>
          try_result (map_err (\<lambda>e. AppIpc (ByProcess e)) (ce_guardian env lease lock)))"

text \<open>
  \<open>main\<close>: the exit status and what it prints on standard error. 101 is the status of a
  process that panics.
\<close>

fun main_exit :: "stop + unit \<Rightarrow> nat" where
  "main_exit (Inr _) = 0"
| "main_exit (Inl (Failed e)) = exit_number (exit_of e)"
| "main_exit (Inl Panicked) = 101"

fun main_error :: "(message \<Rightarrow> rstr) \<Rightarrow> stop + unit \<Rightarrow> line option" where
  "main_error render (Inl (Failed e)) =
     Some ((case e of AppJsonDaemon _ _ \<Rightarrow> [] | _ \<Rightarrow> [PText (lit ''tdeck: '')]) @ app_error_line render e)"
| "main_error render _ = None"

end
