(* ===== verification/Cli_Daemon.thy ===== *)
theory Cli_Daemon
  imports Cli_Model
begin

text \<open>
  \<open>tdeck daemon run\<close> from its arguments to its end: what a process that does not get the
  endpoint leaves untouched, and what holds when one loads the configuration and serves.
\<close>

section \<open>What the steps before the lock leave alone\<close>

text \<open>No file of any directory changes and nothing in the tree goes away.\<close>

definition only_looked :: "'d process \<Rightarrow> 'd process \<Rightarrow> bool" where
  "only_looked s s' \<longleftrightarrow> tree_grows (pr_tree s) (pr_tree s') \<and> pr_peer s' = pr_peer s \<and>
     (\<forall>p. dir_lookup (pr_dirs s' p) = dir_lookup (pr_dirs s p) \<and> honest_faults (pr_dirs s' p))"

lemma only_looked_trans: "only_looked s t \<Longrightarrow> only_looked t u \<Longrightarrow> only_looked s u"
  unfolding only_looked_def by (metis grows_trans)

lemma on_tree_pair: "on_tree m s = (r, s') \<longleftrightarrow> (\<exists>t. m (pr_tree s) = (r, t) \<and> s' = s\<lparr>pr_tree := t\<rparr>)"
  by (auto simp: on_tree_def split: prod.splits)

lemma paths_resolve_grows: "paths_resolve platform home uid xdg t = (r, t') \<Longrightarrow> tree_grows t t'"
  by (auto simp: paths_resolve_def runtime_dir_def st_lift_def st_return_def st_try_def Let_def
      elim!: st_bind_cases split: if_splits option.splits prod.splits sum.splits
      dest!: validate_directory_keeps keeps_grows)

lemma try_result_pair: "try_result q s = (r, s') \<longleftrightarrow> r = map_err Failed q \<and> s' = s"
  by (auto simp: try_result_def st_lift_def)

lemma resolved_paths_looks:
  assumes "resolved_paths env s = (r, s')" "\<forall>p. honest_faults (pr_dirs s p)"
  shows "only_looked s s'"
  using assms
  by (auto simp: resolved_paths_def only_looked_def st_map_err_pair on_tree_pair try_result_pair
      elim!: st_bind_cases dest!: paths_resolve_grows)

lemma open_log_looks:
  assumes "open_log paths s = (r, s')" "\<forall>p. honest_faults (pr_dirs s p)"
  shows "only_looked s s'"
proof -
  let ?parts = "path_parts (pa_log paths)"
  obtain opened s1 where op: "on_tree (private_open (path_absolute (pa_log paths)) (tl ?parts)) s = (opened, s1)"
    by fastforce
  then obtain t where s1: "s1 = s\<lparr>pr_tree := t\<rparr>" "tree_grows (pr_tree s) t"
    by (auto simp: on_tree_pair dest!: private_open_keeps keeps_grows)
  let ?open = "rlog_open (\<lambda>p. map_ok (\<lambda>_. pr_dirs s1 p) opened) ?parts DEFAULT_MAX_BYTES DEFAULT_BACKUPS"
  show ?thesis
  proof (cases ?open)
    case (Inl e)
    with assms op s1 show ?thesis by (auto simp: open_log_def only_looked_def)
  next
    case (Inr ld)
    obtain lg d where ld: "ld = (lg, d)" by fastforce
    with Inr obtain name rest where parts: "?parts = name # rest"
      by (cases ?parts) (auto simp: rlog_open_def)
    with Inr ld obtain q where "rlog_validate lg (pr_dirs s1 rest) = (q, d)"
      by (auto simp: rlog_open_def Let_def split: if_splits prod.splits)
    from rlog_validate_frame [OF this] assms(2) s1 have
      "honest_faults d \<and> dir_lookup d = dir_lookup (pr_dirs s rest)" by simp
    with assms op s1 Inr ld parts show ?thesis by (auto simp: open_log_def only_looked_def)
  qed
qed

section \<open>Claim first, then load\<close>

text \<open>
  With the lock free, binding replaces this user's socket, so that a bind that fails may
  leave the socket's name without a node or with a new one. Nothing else goes away, and
  neither does what is no socket of this user.
\<close>

definition own_socket :: "tree \<Rightarrow> meta \<Rightarrow> bool" where
  "own_socket t m \<longleftrightarrow> mt_kind m = Socket \<and> mt_uid m = tr_uid t"

definition kept_but_socket :: "path \<Rightarrow> tree \<Rightarrow> tree \<Rightarrow> bool" where
  "kept_but_socket sock t t' \<longleftrightarrow> tr_uid t' = tr_uid t \<and>
     (\<forall>p m. map_of (tr_nodes t) p = Some m \<longrightarrow>
        map_of (tr_nodes t') p = Some m \<or> p = sock \<and> own_socket t m)"

lemma grows_kept_but_socket: "tree_grows t t' \<Longrightarrow> kept_but_socket sock t t'"
  by (auto simp: tree_grows_def kept_but_socket_def map_le_def dom_def)

lemma kept_but_socket_after: "tree_grows t u \<Longrightarrow> kept_but_socket sock u v \<Longrightarrow> kept_but_socket sock t v"
  by (auto simp: tree_grows_def kept_but_socket_def own_socket_def map_le_def dom_def)

lemma bind_socket_kept:
  assumes "bind_socket rt t = (r, t')"
  shows "kept_but_socket (re_socket rt) t t'"
proof -
  note e = bind_socket_cases [OF assms]
  have "map_of (tr_nodes t') p = Some m" if "map_of (tr_nodes t) p = Some m"
    and "\<not> (p = re_socket rt \<and> own_socket t m)" for p m
  proof (cases "p = re_socket rt")
    case True
    with that show ?thesis using bind_socket_foreign [OF assms, of m] by (auto simp: own_socket_def)
  next
    case False
    with e that(1) show ?thesis by (simp add: same_elsewhere_def)
  qed
  with e show ?thesis by (auto simp: kept_but_socket_def same_elsewhere_def)
qed

lemma endpoint_bind_cases:
  assumes "endpoint_bind rt held t = (r, t')"
  shows "(held \<longrightarrow> tree_grows t t') \<and> (r = Ok () \<longrightarrow> \<not> held \<and> socket_ready rt t') \<and>
    (held \<longrightarrow> r \<noteq> Ok ()) \<and> kept_but_socket (re_socket rt) t t'"
proof -
  obtain v t1 where v: "bind_lock rt held t = (v, t1)" by fastforce
  note lock = bind_lock_cases [OF v]
  show ?thesis
  proof (cases v)
    case (Inl e)
    with assms v lock show ?thesis by (auto simp: endpoint_bind_def st_bind_def grows_kept_but_socket)
  next
    case (Inr u)
    with assms v have b: "bind_socket rt t1 = (r, t')" by (simp add: endpoint_bind_def st_bind_def)
    from lock Inr have "tree_grows t t1" "\<not> held" by simp_all
    with bind_socket_cases [OF b] kept_but_socket_after bind_socket_kept [OF b] show ?thesis by blast
  qed
qed

definition kept_back :: "bool \<Rightarrow> path \<Rightarrow> 'd process \<Rightarrow> 'd process \<Rightarrow> bool" where
  "kept_back held sock s s' \<longleftrightarrow> (\<forall>p. dir_lookup (pr_dirs s' p) = dir_lookup (pr_dirs s p)) \<and>
     pr_peer s' = pr_peer s \<and> (tree_grows (pr_tree s) (pr_tree s') \<or>
       \<not> held \<and> kept_but_socket sock (pr_tree s) (pr_tree s'))"

lemma only_looked_kept: "only_looked s s' \<Longrightarrow> kept_back held sock s s'"
  by (simp add: only_looked_def kept_back_def)

text \<open>What \<open>run_daemon\<close> does with the result of the bind.\<close>

lemma bound_runs:
  assumes "only_looked s s2" "endpoint_bind rt held (pr_tree s2) = (q, t)"
    and "(case q of Inl e \<Rightarrow> if e = AlreadyRunning then st_return ()
              else st_lift (Err (Failed (AppIpc (ByDaemon e))))
          | Inr _ \<Rightarrow> with_endpoint rt serve) (s2\<lparr>pr_tree := t\<rparr>) = (r, s')"
  shows "kept_back held (re_socket rt) s s' \<or> \<not> held \<and> (\<exists>u. socket_ready rt (pr_tree u) \<and>
    (\<forall>p. dir_lookup (pr_dirs u p) = dir_lookup (pr_dirs s p)) \<and> with_endpoint rt serve u = (r, s'))"
proof (cases q)
  case (Inl e)
  with assms(3) have "s' = s2\<lparr>pr_tree := t\<rparr>" by (auto simp: st_return_def st_lift_def split: if_splits)
  with assms(1) endpoint_bind_cases [OF assms(2)] show ?thesis
    by (auto simp: only_looked_def kept_back_def intro: grows_trans kept_but_socket_after)
next
  case (Inr x)
  with endpoint_bind_cases [OF assms(2)] assms(1,3) show ?thesis
    by (intro disjI2 conjI exI [of _ "s2\<lparr>pr_tree := t\<rparr>"]) (simp_all add: only_looked_def)
qed

text \<open>C18: \<open>tdeck daemon run\<close> claims the endpoint before it reads the configuration. Either it
  leaves every file of every directory as it was, and then the directory tree too has all it
  had, the other process's socket included if that holds the lock; only with the lock free, a
  bind that failed may have taken away or replaced a socket of this user at the socket's own
  path. Or the lock was free, the socket was in place and private, and only then was the
  configuration loaded, which may migrate it, and served.\<close>

theorem daemon_claims_before_loading:
  assumes "run_daemon env s = (r, s')" "\<forall>p. honest_faults (pr_dirs s p)"
  shows "(\<forall>p. dir_lookup (pr_dirs s' p) = dir_lookup (pr_dirs s p)) \<and> pr_peer s' = pr_peer s \<and>
      (tree_grows (pr_tree s) (pr_tree s') \<or>
       \<not> ce_lock_held env \<and> (\<exists>paths socket. socket_path paths (ce_platform env) = Ok socket \<and>
         kept_but_socket (re_socket (endpoint_env env paths socket)) (pr_tree s) (pr_tree s'))) \<or>
    \<not> ce_lock_held env \<and> (\<exists>paths socket t. let rt = endpoint_env env paths socket in
       socket_ready rt (pr_tree t) \<and> (\<forall>p. dir_lookup (pr_dirs t p) = dir_lookup (pr_dirs s p)) \<and>
       socket_path paths (ce_platform env) = Ok socket \<and>
       with_endpoint rt (serve_manager env paths) t = (r, s'))"
proof -
  obtain p s1 where p: "resolved_paths env s = (p, s1)" by fastforce
  note k1 = resolved_paths_looks [OF p assms(2)]
  have kept: ?thesis if "only_looked s s'"
    using that by (simp add: only_looked_def)
  show ?thesis
  proof (cases p)
    case (Inl e)
    with p assms(1) k1 show ?thesis by (intro kept) (simp add: run_daemon_def st_bind_def)
  next
    case paths: (Inr paths)
    obtain l s2 where l: "open_log paths s1 = (l, s2)" by fastforce
    have k2: "only_looked s s2"
      using only_looked_trans [OF k1 open_log_looks [OF l]] k1 by (simp add: only_looked_def)
    show ?thesis
    proof (cases "is_ok l \<and> is_ok (socket_path paths (ce_platform env))")
      case False
      with p paths l assms(1) have "s' = s2"
        by (cases l; cases "socket_path paths (ce_platform env)")
          (auto simp: run_daemon_def st_bind_def try_result_def st_lift_def)
      with k2 show ?thesis by (intro kept) simp
    next
      case True
      then obtain lg socket where ok: "l = Ok lg" "socket_path paths (ce_platform env) = Ok socket"
        by (auto simp: is_ok_iff)
      let ?rt = "endpoint_env env paths socket"
      obtain q t where b: "endpoint_bind ?rt (ce_lock_held env) (pr_tree s2) = (q, t)" by fastforce
      from p paths l ok b assms(1) have "(case q of
            Inl e \<Rightarrow> if e = AlreadyRunning then st_return ()
              else st_lift (Err (Failed (AppIpc (ByDaemon e))))
          | Inr _ \<Rightarrow> with_endpoint ?rt (serve_manager env paths)) (s2\<lparr>pr_tree := t\<rparr>) = (r, s')"
        by (simp add: run_daemon_def st_bind_def try_result_def st_lift_def st_try_def on_tree_def Let_def)
      from bound_runs [OF k2 b this] ok(2) show ?thesis
        unfolding kept_back_def Let_def by blast
    qed
  qed
qed

text \<open>A daemon with one stored rule starts on an empty tree and counts the rules it serves.\<close>

definition boot_tree :: command_tree where
  "boot_tree = Command_Tree (lit ''tdeck'') None False []"

definition boot_env :: "nat cli_env" where
  "boot_env = \<lparr>ce_var = (\<lambda>v. if v = ''HOME'' then Some (lit ''/h'') else None), ce_platform = Linux,
     ce_uid = 1000, ce_exe = Ok (lit ''/bin/tdeck''),
     ce_link = (\<lambda>_ _. \<lparr>ln_ensure = st_return (), ln_fresh = (\<lambda>_. 0),
       ln_exchange = (\<lambda>_ _. st_lift (Err Disconnected))\<rparr>),
     ce_new_id = 1, ce_ids = (\<lambda>n. of_nat n), ce_show_uuid = sample_show_uuid, ce_parse_uuid = (\<lambda>_. None),
     ce_world = \<lparr>cw_canonical = Ok, cw_text = (\<lambda>_. Ok []), cw_glob = (\<lambda>_. Ok [])\<rparr>,
     ce_runner = (\<lambda>_ _ _. Err QueryTimedOut), ce_tree = boot_tree, ce_completion = (\<lambda>_. []),
     ce_manpage = Ok [], ce_tui = st_return (), ce_lock_held = False, ce_lock_mode = 384,
     ce_socket_mode = 493, ce_lock_clone = Ok (), ce_toml = sample_toml, ce_backup_id = 8, ce_save_id = 9,
     ce_serve = (\<lambda>d s. (Err (DaemonIo IoOther), s\<lparr>pr_peer := length (dm_rules d)\<rparr>)),
     ce_guardian = (\<lambda>_ _. Ok ())\<rparr>"

definition boot_config :: pdir where
  "boot_config = sample_dir [(config_name,
     \<lparr>en_meta = private_meta Regular, en_data = lit ''v2'', en_synced = True\<rparr>)]"

definition boot_process :: "nat process" where
  "boot_process = \<lparr>pr_tree = sample_tree, pr_dirs = (\<lambda>p. if p = path_parts (lit ''/h/.config/tunnel-deck'')
       then boot_config else sample_dir []),
     pr_peer = 0, pr_out = [], pr_err = [], pr_terminal = plain_terminal\<rparr>"

definition booted :: "(stop + unit) \<times> nat process" where
  "booted = run_daemon boot_env boot_process"

lemma booted_peer: "pr_peer (snd booted) = 1"
  by code_simp

theorem daemon_claims_before_loading_witness:
  "\<exists>paths socket t. let rt = endpoint_env boot_env paths socket in
     socket_ready rt (pr_tree t) \<and> (\<forall>p. dir_lookup (pr_dirs t p) = dir_lookup (pr_dirs boot_process p)) \<and>
     socket_path paths (ce_platform boot_env) = Ok socket \<and>
     with_endpoint rt (serve_manager boot_env paths) t = booted"
proof -
  have honest: "\<forall>p. honest_faults (pr_dirs boot_process p)"
    by (simp add: boot_process_def honest_faults_def boot_config_def sample_dir_def)
  have "run_daemon boot_env boot_process = (fst booted, snd booted)" by (simp add: booted_def)
  from daemon_claims_before_loading [OF this honest] booted_peer show ?thesis
    by (auto simp: boot_process_def Let_def)
qed

end
