(* ===== verification/Tui_Run.thy ===== *)
theory Tui_Run
  imports Tui_Safety Cli_Daemon
begin

text \<open>
  The terminal client as \<open>tdeck\<close> without a subcommand runs it: \<open>Service::new\<close>, \<open>run\<close> and
  \<open>run_loop\<close> in \<open>src/src/tui/mod.rs\<close>, from the connection to the daemon to the modes the
  terminal is left in. The loop's turns and what fails during them are a list.
\<close>

section \<open>The loop\<close>

datatype input_event = KeyInput key_event | MouseInput mouse_event | OtherInput

text \<open>
  What the world answers in one turn: to drawing, whether a signal of the subscription waits,
  whether input arrives within the turn and which, and the terminal's size.
\<close>

record turn =
  tn_draw :: "io_kind + unit"
  tn_signal :: bool
  tn_poll :: "io_kind + bool"
  tn_read :: "io_kind + input_event"
  tn_size :: "io_kind + rect"

type_synonym 'd ui_state = "ui_app \<times> 'd \<times> host_catalog"

definition turn_refresh :: "'d ui_env \<Rightarrow> bool \<Rightarrow> ('d ui_state, io_kind, unit) st" where
  "turn_refresh env signal s =
     (case s of (a, d, cat) \<Rightarrow>
        (let (a1, d1) = (if signal then refresh env a d else (a, d)) in (Ok (), a1, d1, cat)))"

definition turn_input ::
  "(nat \<Rightarrow> uuid) \<Rightarrow> 'd ui_env \<Rightarrow> io_kind + rect \<Rightarrow> input_event \<Rightarrow> ('d ui_state, io_kind, unit) st" where
  "turn_input ids env area input s =
     (case s of (a, d, cat) \<Rightarrow>
        (case input of
           KeyInput key \<Rightarrow> (Ok (), handle_key ids env key a d cat)
         | MouseInput m \<Rightarrow>
             (case area of
                Inl e \<Rightarrow> (Err e, s)
              | Inr screen \<Rightarrow> (Ok (), handle_mouse env m screen a, d, cat))
         | OtherInput \<Rightarrow> (Ok (), s)))"

definition run_turn ::
  "(nat \<Rightarrow> uuid) \<Rightarrow> 'd ui_env \<Rightarrow> turn \<Rightarrow> ('d ui_state, io_kind, unit) st" where
  "run_turn ids env t =
     st_bind (st_lift (tn_draw t)) (\<lambda>_.
     st_bind (turn_refresh env (tn_signal t)) (\<lambda>_.
     st_bind (st_lift (tn_poll t)) (\<lambda>ready.
       if \<not> ready then st_return ()
       else st_bind (st_lift (tn_read t)) (turn_input ids env (tn_size t)))))"

text \<open>
  A turn may panic instead. The list of what happens ends when the flag of a termination
  signal is seen.
\<close>

datatype happening = Turn turn | Panic

datatype loop_end = Ended "io_kind + unit" | Unwound

fun run_loop ::
  "(nat \<Rightarrow> uuid) \<Rightarrow> 'd ui_env \<Rightarrow> happening list \<Rightarrow> 'd ui_state \<Rightarrow> loop_end \<times> 'd ui_state" where
  "run_loop ids env [] s = (Ended (Ok ()), s)"
| "run_loop ids env (h # hs) s =
     (if ap_quit (fst s) then (Ended (Ok ()), s)
      else case h of
        Panic \<Rightarrow> (Unwound, s)
      | Turn t \<Rightarrow>
          (case run_turn ids env t s of
             (Inl e, s') \<Rightarrow> (Ended (Err e), s')
           | (Inr _, s') \<Rightarrow> run_loop ids env hs s'))"

section \<open>Starting and ending\<close>

text \<open>
  The answers of the world to \<open>run\<close>: the registration of the signals, the terminal's
  device when it is taken, given back and given back again, and \<open>Terminal::new\<close>. Drawing
  changes no mode but whether the cursor is visible, \<open>tw_cursor\<close>.
\<close>

record tui_world =
  tw_signals :: "io_kind + unit"
  tw_enter :: term_device
  tw_back :: term_device
  tw_back_again :: term_device
  tw_terminal :: "io_kind + unit"
  tw_happens :: "happening list"
  tw_cursor :: bool
  tw_ids :: "nat \<Rightarrow> uuid"

definition service_new :: "'d cli_env \<Rightarrow> ('d, rstr \<times> rstr) command_run" where
  "service_new env =
     st_bind (resolved_paths env) (\<lambda>paths.
     st_bind (try_result (map_err (\<lambda>e. AppIpc (ByIo e)) (socket_path paths (ce_platform env)))) (\<lambda>socket.
     st_bind (try_result (map_err (\<lambda>e. AppIpc (ByIo e)) (ce_exe env))) (\<lambda>exe.
     st_bind (st_map_err (\<lambda>e. Failed (AppIpc (ByDaemon e))) (on_peer (ln_ensure (ce_link env socket exe)))) (\<lambda>_.
       st_return (socket, exe)))))"

text \<open>The part of \<open>run\<close> between the guard and its end, from the state before the first turn.\<close>

definition guarded_loop ::
  "'d ui_env \<Rightarrow> tui_world \<Rightarrow> 'd ui_state \<Rightarrow> ('d process, stop, unit) st" where
  "guarded_loop ui w start s =
     (let (over, _, d, _) = (case tw_terminal w of
            Inl e \<Rightarrow> (Ended (Err e), start)
          | Inr _ \<Rightarrow> run_loop (tw_ids w) ui (tw_happens w) start);
          tm = restore_terminal (tw_back w) ((pr_terminal s)\<lparr>tm_cursor := tw_cursor w\<rparr>);
          s1 = s\<lparr>pr_peer := d\<rparr>
      in case over of
           Ended r \<Rightarrow> (map_err (\<lambda>e. Failed (AppIpc (ByIo e))) r, s1\<lparr>pr_terminal := tm\<rparr>)
         | Unwound \<Rightarrow> (Err Panicked, s1\<lparr>pr_terminal := restore_terminal (tw_back_again w) tm\<rparr>))"

definition on_terminal :: "(terminal, 'e, 'a) st \<Rightarrow> ('d process, 'e, 'a) st" where
  "on_terminal m s = (let (r, tm) = m (pr_terminal s) in (r, s\<lparr>pr_terminal := tm\<rparr>))"

text \<open>\<open>ui\<close> is the client's view of a daemon that is reached at a socket.\<close>

definition tui_run ::
  "'d cli_env \<Rightarrow> (rstr \<times> rstr \<Rightarrow> 'd ui_env) \<Rightarrow> tui_world \<Rightarrow> ('d process, stop, unit) st" where
  "tui_run env ui w =
     st_bind (service_new env) (\<lambda>service.
     st_bind (try_result (home_dir env)) (\<lambda>home.
     st_bind (\<lambda>s. (let (a, d, cat) = app_start (ui service)
           (catalog_new (path_join home (lit ''.ssh/config'')) (path_join home (lit ''.ssh'')) (lit ''ssh''))
           (pr_peer s)
         in (Ok (a, cat), s\<lparr>pr_peer := d\<rparr>))) (\<lambda>(a, cat).
     st_bind (try_result (map_err (\<lambda>e. AppIpc (BySignals e)) (tw_signals w))) (\<lambda>_.
     st_bind (st_map_err (\<lambda>e. Failed (AppIpc (ByIo e))) (on_terminal (guard_enter (tw_enter w) (tw_back w)))) (\<lambda>_ s.
       guarded_loop (ui service) w (a, pr_peer s, cat) s)))))"

section \<open>The loop takes the steps of the interface\<close>

lemma refresh_quit: "refresh env a d = (a', d') \<Longrightarrow> ap_quit a' = ap_quit a"
  by (auto simp: refresh_def replace_rules_def note_selected_def Let_def split: prod.splits sum.splits)

lemma turn_refresh_reached:
  assumes "ui_reaches env cat0 s" "\<not> ap_quit (fst s)" "turn_refresh env signal s = (r, s')"
  shows "ui_reaches env cat0 s' \<and> \<not> ap_quit (fst s')"
proof (cases s)
  case s: (fields a d cat)
  obtain a1 d1 where "refresh env a d = (a1, d1)" by (rule prod.exhaust)
  with assms s refresh_quit [OF this] show ?thesis
    by (cases signal) (auto simp: turn_refresh_def intro: Stepped Event_Refresh)
qed

lemma turn_input_reached:
  assumes "ui_reaches env cat0 s" "\<not> ap_quit (fst s)" "turn_input ids env area input s = (r, s')"
  shows "ui_reaches env cat0 s'"
proof (cases s)
  case s: (fields a d cat)
  from assms(2) s have q: "\<not> ap_quit a" by simp
  note steps = Stepped [OF _ Key_Pressed [OF q]] Stepped [OF _ Mouse_Moved [OF q]]
  show ?thesis
    using assms s by (cases input) (auto simp: turn_input_def split: sum.splits intro: steps)
qed

lemma run_turn_reached:
  assumes "ui_reaches env cat0 s" "\<not> ap_quit (fst s)" "run_turn ids env t s = (r, s')"
  shows "ui_reaches env cat0 s'"
proof -
  obtain x u where u: "turn_refresh env (tn_signal t) s = (x, u)" by (rule prod.exhaust)
  have "ui_reaches env cat0 u" "\<not> ap_quit (fst u)"
    using turn_refresh_reached [OF assms(1,2) u] by simp_all
  with turn_input_reached [OF this] assms u show ?thesis
    by (auto simp: run_turn_def st_defs split: sum.splits prod.splits if_splits)
qed

lemma run_loop_reached:
  "ui_reaches env cat0 s \<Longrightarrow> run_loop ids env hs s = (over, s') \<Longrightarrow> ui_reaches env cat0 s'"
  by (induction ids env hs s rule: run_loop.induct)
    (auto split: if_splits happening.splits prod.splits sum.splits dest: run_turn_reached)

lemma run_loop_unwound: "run_loop ids env hs s = (Unwound, s') \<Longrightarrow> Panic \<in> set hs"
  by (induction ids env hs s rule: run_loop.induct)
    (auto split: if_splits happening.splits prod.splits sum.splits)

section \<open>What a run leaves behind\<close>

text \<open>
  A quiet part of the run changes neither the terminal, nor any file, nor what is printed, and
  its failures have the exit status of a software error.
\<close>

definition untouched :: "'d process \<Rightarrow> 'd process \<Rightarrow> bool" where
  "untouched s s' \<longleftrightarrow> pr_terminal s' = pr_terminal s \<and> pr_dirs s' = pr_dirs s \<and>
     pr_out s' = pr_out s \<and> pr_err s' = pr_err s"

definition software_failure :: "stop \<Rightarrow> bool" where
  "software_failure e \<longleftrightarrow> e \<noteq> Panicked \<and> main_exit (Err e) = 70"

definition quiet :: "('d, 'a) command_run \<Rightarrow> bool" where
  "quiet m \<longleftrightarrow> (\<forall>s r s'. m s = (r, s') \<longrightarrow> untouched s s' \<and> (\<forall>e. r = Err e \<longrightarrow> software_failure e))"

named_theorems quiet_intros

lemma untouched_trans: "untouched s t \<Longrightarrow> untouched t u \<Longrightarrow> untouched s u"
  by (simp add: untouched_def)

lemma quiet_bind [quiet_intros]: "quiet m \<Longrightarrow> (\<And>x. quiet (f x)) \<Longrightarrow> quiet (st_bind m f)"
  unfolding quiet_def by (blast elim: st_bind_cases intro: untouched_trans)

lemma quiet_return [quiet_intros]: "quiet (st_return x)"
  by (simp add: quiet_def st_return_def untouched_def)

lemma quiet_try [quiet_intros]:
  "(\<And>e. r = Err e \<Longrightarrow> software_failure (Failed e)) \<Longrightarrow> quiet (try_result r)"
  by (cases r) (simp_all add: quiet_def try_result_def st_lift_def untouched_def)

lemma quiet_on_tree [quiet_intros]:
  "(\<And>e. software_failure (h e)) \<Longrightarrow> quiet (st_map_err h (on_tree m))"
  by (auto simp: quiet_def on_tree_def st_map_err_def untouched_def split: prod.splits)

lemma quiet_on_peer [quiet_intros]:
  "(\<And>e. software_failure (h e)) \<Longrightarrow> quiet (st_map_err h (on_peer m))"
  by (auto simp: quiet_def on_peer_def st_map_err_def untouched_def split: prod.splits)

lemma software_failures [simp]:
  "software_failure (Failed (AppIpc e))" "software_failure (Failed (AppConfiguration e))"
  by (simp_all add: software_failure_def)

lemma home_dir_failure [simp]: "home_dir env = Err e \<Longrightarrow> software_failure (Failed e)"
  by (auto simp: home_dir_def ok_or_def split: option.splits)

lemma quiet_service: "quiet (service_new env)"
  unfolding service_new_def resolved_paths_def
  by (auto intro!: quiet_intros)

definition documented_world :: "tui_world \<Rightarrow> bool" where
  "documented_world w \<longleftrightarrow> documented (tw_enter w) \<and> documented (tw_back w) \<and> documented (tw_back_again w)"

lemma guarded_loop_ends:
  assumes "guarded_loop ui w start s = (r, s')" "documented_world w"
    and "works (tw_back w) \<or> r = Err Panicked \<and> works (tw_back_again w)"
  shows "pr_terminal s' = plain_terminal" "pr_dirs s' = pr_dirs s \<and> pr_out s' = pr_out s \<and> pr_err s' = pr_err s"
    "\<forall>e. r = Err e \<longrightarrow> software_failure e \<or> e = Panicked \<and> Panic \<in> set (tw_happens w)"
proof -
  obtain over a d cat where over: "(case tw_terminal w of Inl e \<Rightarrow> (Ended (Err e), start)
      | Inr _ \<Rightarrow> run_loop (tw_ids w) ui (tw_happens w) start) = (over, a, d, cat)" by (rule prod_cases4)
  note run = assms(1) [unfolded guarded_loop_def over Let_def prod.case]
  have plain: "restore_terminal (tw_back_again w) (restore_terminal (tw_back w) tm) = plain_terminal"
    if "works (tw_back w) \<or> works (tw_back_again w)" for tm
    using assms(2) that by (simp add: restored_plain documented_world_def)
  show "pr_terminal s' = plain_terminal"
    using run assms(3) plain by (cases over) (auto simp: restore_terminal_plain)
  show "pr_dirs s' = pr_dirs s \<and> pr_out s' = pr_out s \<and> pr_err s' = pr_err s"
    using run by (cases over) auto
  have "Panic \<in> set (tw_happens w)" if "over = Unwound"
    using over that by (cases "tw_terminal w") (auto dest: run_loop_unwound [of "tw_ids w" ui "tw_happens w" start])
  then show "\<forall>e. r = Err e \<longrightarrow> software_failure e \<or> e = Panicked \<and> Panic \<in> set (tw_happens w)"
    using run by (cases over) auto
qed

definition gives_back :: "tui_world \<Rightarrow> ('d process, stop, unit) st \<Rightarrow> bool" where
  "gives_back w m \<longleftrightarrow> (\<forall>s r s'. pr_terminal s = plain_terminal \<longrightarrow> m s = (r, s') \<longrightarrow> documented_world w \<longrightarrow>
     works (tw_back w) \<or> r = Err Panicked \<and> works (tw_back_again w) \<longrightarrow>
     untouched s s' \<and>
     (\<forall>e. r = Err e \<longrightarrow> software_failure e \<or> e = Panicked \<and> Panic \<in> set (tw_happens w)))"

lemma gives_back_bind:
  assumes "quiet m" "\<And>x. gives_back w (f x)"
  shows "gives_back w (st_bind m f)"
  unfolding gives_back_def
proof (intro allI impI)
  fix s r s'
  assume s: "pr_terminal s = plain_terminal" and run: "st_bind m f s = (r, s')"
    and doc: "documented_world w"
    and restored: "works (tw_back w) \<or> r = Err Panicked \<and> works (tw_back_again w)"
  from run show "untouched s s' \<and>
      (\<forall>e. r = Err e \<longrightarrow> software_failure e \<or> e = Panicked \<and> Panic \<in> set (tw_happens w))"
  proof (cases rule: st_bind_cases)
    case (1 e)
    with assms(1) show ?thesis by (auto simp: quiet_def)
  next
    case (2 x s1)
    with assms(1) have u: "untouched s s1" by (simp add: quiet_def)
    with s have "pr_terminal s1 = plain_terminal" by (simp add: untouched_def)
    with assms(2) 2(2) restored doc u show ?thesis unfolding gives_back_def by (blast intro: untouched_trans)
  qed
qed

lemma gives_back_loop:
  "gives_back w (st_bind (st_map_err (\<lambda>e. Failed (AppIpc (ByIo e)))
     (on_terminal (guard_enter (tw_enter w) (tw_back w)))) (\<lambda>_ s. guarded_loop ui w (start s) s))"
  (is "gives_back w (st_bind ?enter ?loop)")
  unfolding gives_back_def
proof (intro allI impI)
  fix s r s'
  assume s: "pr_terminal s = plain_terminal" and run: "st_bind ?enter ?loop s = (r, s')"
    and doc: "documented_world w"
    and restored: "works (tw_back w) \<or> r = Err Panicked \<and> works (tw_back_again w)"
  obtain q tm where q: "guard_enter (tw_enter w) (tw_back w) plain_terminal = (q, tm)" by (rule prod.exhaust)
  show "untouched s s' \<and>
      (\<forall>e. r = Err e \<longrightarrow> software_failure e \<or> e = Panicked \<and> Panic \<in> set (tw_happens w))"
  proof (cases q)
    case (Inl e)
    with run q s have r: "r = Err (Failed (AppIpc (ByIo e)))" "s' = s\<lparr>pr_terminal := tm\<rparr>"
      by (simp_all add: st_bind_def st_map_err_def on_terminal_def)
    with restored q Inl doc have "tm = plain_terminal"
      by (auto simp: documented_world_def dest: guard_enter_Err)
    with r s show ?thesis by (simp add: untouched_def)
  next
    case (Inr u)
    with run q s have loop: "guarded_loop ui w (start (s\<lparr>pr_terminal := tm\<rparr>)) (s\<lparr>pr_terminal := tm\<rparr>) = (r, s')"
      by (simp add: st_bind_def st_map_err_def on_terminal_def)
    from guarded_loop_ends [OF this doc restored] s show ?thesis by (simp add: untouched_def)
  qed
qed

lemma quiet_start: "quiet (\<lambda>s. (let (a, d, cat) = g (pr_peer s) in (Ok (a, cat), s\<lparr>pr_peer := d\<rparr>)))"
  by (auto simp: quiet_def untouched_def split: prod.splits)

lemma tui_gives_back: "gives_back w (tui_run env ui w)"
proof -
  have signals: "quiet (try_result (map_err (\<lambda>e. AppIpc (BySignals e)) (tw_signals w)))"
    by (auto intro!: quiet_intros)
  have home: "quiet (try_result (home_dir env))" by (auto intro!: quiet_intros)
  show ?thesis unfolding tui_run_def
    by (intro gives_back_bind quiet_service home quiet_start)
      (auto intro!: gives_back_bind signals gives_back_loop split: prod.split)
qed

text \<open>C29: The terminal is given back. However \<open>tdeck\<close> without a subcommand ends, by quitting or a
  termination signal, because the daemon, the paths, the terminal or its input fail, or by a
  panic, the terminal is in the modes it was in, provided that the device does what is documented
  and giving the modes back does not fail, where a panic has a second try. The client has printed
  no line of its own and written no file; and the exit status is 0, 70 for every failure, and 101
  only after a panic.\<close>

theorem terminal_is_given_back:
  assumes "pr_terminal s = plain_terminal" "documented_world w"
    and "cli_execute (env\<lparr>ce_tui := tui_run env ui w\<rparr>) \<lparr>cli_json = json, cli_command = None\<rparr> s = (r, s')"
    and "works (tw_back w) \<or> r = Err Panicked \<and> works (tw_back_again w)"
  shows "pr_terminal s' = plain_terminal \<and> pr_dirs s' = pr_dirs s \<and> pr_out s' = pr_out s \<and>
    pr_err s' = pr_err s \<and> main_exit r \<in> {0, 70, 101} \<and>
    (main_exit r = 101 \<longrightarrow> Panic \<in> set (tw_happens w))"
proof -
  from assms(3) have run: "tui_run env ui w s = (r, s')" by (simp add: cli_execute_def)
  from tui_gives_back assms(1) this assms(2,4)
  have "untouched s s'" "\<forall>e. r = Err e \<longrightarrow> software_failure e \<or> e = Panicked \<and> Panic \<in> set (tw_happens w)"
    unfolding gives_back_def by blast+
  with assms(1) show ?thesis by (cases r) (auto simp: untouched_def software_failure_def)
qed

section \<open>A client that crashes\<close>

text \<open>A turn with a refresh and a key, then a panic whose first restoration fails on its first write.\<close>

definition idle_ui :: "nat ui_env" where
  "idle_ui = \<lparr>ui_call = (\<lambda>op p n. (Err [Txt (lit ''gone'')], Suc n)), ui_ser_uuid = (\<lambda>_. JNull),
     ui_show_uuid = (\<lambda>_. []), ui_parse_uuid = (\<lambda>_. None), ui_de_rules = (\<lambda>_. None),
     ui_de_settings = (\<lambda>_. None), ui_ser_settings = (\<lambda>_. JNull), ui_binds = (\<lambda>_ _. True),
     ui_platform = Linux, ui_spawn = (\<lambda>_. Ok ()),
     ui_world = \<lparr>cw_canonical = Ok, cw_text = (\<lambda>_. Ok []), cw_glob = (\<lambda>_. Ok [])\<rparr>,
     ui_runner = (\<lambda>_ _ _. Err QueryTimedOut), ui_areas = (\<lambda>r. (r, r, r)), ui_title_widths = []\<rparr>"

definition crash_world :: tui_world where
  "crash_world = \<lparr>tw_signals = Ok (), tw_enter = faulty_device None None,
     tw_back = faulty_device None (Some (0, IoOther)), tw_back_again = faulty_device None None,
     tw_terminal = Ok (),
     tw_happens = [Turn \<lparr>tn_draw = Ok (), tn_signal = True, tn_poll = Ok True,
       tn_read = Ok (KeyInput \<lparr>ke_code = KDown, ke_control = False\<rparr>),
       tn_size = Err IoOther\<rparr>, Panic],
     tw_cursor = False, tw_ids = (\<lambda>n. of_nat n)\<rparr>"

definition crashed :: "(stop + unit) \<times> nat process" where
  "crashed = cli_execute (boot_env\<lparr>ce_tui := tui_run boot_env (\<lambda>_. idle_ui) crash_world\<rparr>)
     \<lparr>cli_json = False, cli_command = None\<rparr> boot_process"

lemma exit_number_small: "exit_number x \<noteq> 101"
  by (cases x) simp_all

lemma crashed_panics: "main_exit (fst crashed) = 101 \<and> pr_peer (snd crashed) = 4"
  by code_simp

theorem terminal_is_given_back_witness:
  "pr_terminal (snd crashed) = plain_terminal \<and> main_exit (fst crashed) = 101 \<and> pr_peer (snd crashed) = 4"
proof -
  have run: "cli_execute (boot_env\<lparr>ce_tui := tui_run boot_env (\<lambda>_. idle_ui) crash_world\<rparr>)
      \<lparr>cli_json = False, cli_command = None\<rparr> boot_process = (fst crashed, snd crashed)"
    by (simp add: crashed_def)
  have plain: "pr_terminal boot_process = plain_terminal" by (simp add: boot_process_def)
  have "fst crashed = Err Panicked"
    using crashed_panics by (cases "fst crashed" rule: main_exit.cases) (simp_all add: exit_number_small)
  then have "works (tw_back crash_world) \<or>
      fst crashed = Err Panicked \<and> works (tw_back_again crash_world)"
    by (simp add: crash_world_def faulty_device_works)
  moreover have "documented_world crash_world"
    by (simp add: documented_world_def crash_world_def faulty_device_documented)
  ultimately have "pr_terminal (snd crashed) = plain_terminal"
    using terminal_is_given_back [OF plain _ run] by blast
  with crashed_panics show ?thesis by simp
qed

end
