(* ===== verification/Tui_Subscription.thy ===== *)
theory Tui_Subscription
  imports Client_Link Tui_Model
begin

text \<open>
  How the terminal client learns of changes: the thread of \<open>spawn_subscription\<close> in
  \<open>src/src/tui/mod.rs\<close>, which reads events and signals the loop of \<open>Tui_Run\<close>.
\<close>

section \<open>Reading with a timeout\<close>

text \<open>
  What a peer sends as pieces, each after some milliseconds of silence. A reader whose reads
  time out sees the pieces up to the first silence that is too long, and then a failing read.
\<close>

type_synonym timed = "(nat \<times> bytes) list"

definition within :: "nat \<Rightarrow> timed \<Rightarrow> timed" where
  "within timeout ps = takeWhile (\<lambda>(silence, _). silence < timeout) ps"

definition seen :: "nat \<Rightarrow> timed \<Rightarrow> stream" where
  "seen timeout ps = \<lparr>in_bytes = concat (map snd (within timeout ps)),
     in_fault = (if within timeout ps = ps then None else Some IoWouldBlock)\<rparr>"

section \<open>The subscription thread\<close>

lemma read_event_shrinks:
  assumes "read_event c s = (Inr e, s')"
  shows "length (in_bytes s') < length (in_bytes s)"
proof -
  obtain res t where f: "read_frame (dec_event c) s = (res, t)" by (rule prod.exhaust)
  with assms obtain v where "res = Ok v" "t = s'" by (cases res) (simp_all add: read_event_def)
  with read_frame_Ok [of "dec_event c" s v s'] f show ?thesis by auto
qed

text \<open>
  \<open>receiving k\<close> says that the loop still holds its end of the channel when signal \<open>k\<close> is
  sent. The result is the number of signals that arrived.
\<close>

function event_signals :: "codec_io \<Rightarrow> (nat \<Rightarrow> bool) \<Rightarrow> nat \<Rightarrow> stream \<Rightarrow> nat" where
  "event_signals c receiving k s =
     (case read_event c s of
        (Inl _, _) \<Rightarrow> k
      | (Inr _, s') \<Rightarrow> if receiving k then event_signals c receiving (Suc k) s' else k)"
  by auto
termination
  by (relation "measure (\<lambda>(c, receiving, k, s). length (in_bytes s))") (auto dest: read_event_shrinks [OF sym])

declare event_signals.simps [simp del]

definition spawn_subscription ::
  "codec_io \<Rightarrow> io_kind option \<Rightarrow> uuid \<Rightarrow> (nat \<Rightarrow> bool) \<Rightarrow> transport_error + timed \<Rightarrow> nat" where
  "spawn_subscription c fault fresh receiving connected =
     (case connected of
        Inl _ \<Rightarrow> 0
      | Inr ps \<Rightarrow>
          (case fst (client_subscribe c fault fresh (seen DEFAULT_TIMEOUT ps)) of
             Inl _ \<Rightarrow> 0
           | Inr peer \<Rightarrow> event_signals c receiving 0 peer))"

section \<open>What arrives\<close>

text \<open>A value passes when its text is one short line that reads back.\<close>

definition passes :: "('a \<Rightarrow> bytes option) \<Rightarrow> (bytes \<Rightarrow> 'a option) \<Rightarrow> 'a \<Rightarrow> bool" where
  "passes enc dec v \<longleftrightarrow>
     (case enc v of
        None \<Rightarrow> False
      | Some line \<Rightarrow> 10 \<notin> set line \<and> length line \<le> MAX_MESSAGE_BYTES \<and> dec line = Some v)"

definition frame :: "('a \<Rightarrow> bytes option) \<Rightarrow> 'a \<Rightarrow> bytes" where
  "frame enc v = snd (write_frame enc None v)"

lemma passes_frame:
  assumes "passes enc dec v"
  shows "read_frame dec \<lparr>in_bytes = frame enc v @ rest, in_fault = f\<rparr> =
    (Ok v, \<lparr>in_bytes = rest, in_fault = f\<rparr>)"
proof -
  from assms obtain line where t: "enc v = Some line" "10 \<notin> set line" "length line \<le> MAX_MESSAGE_BYTES"
    "dec line = Some v" by (auto simp: passes_def split: option.splits)
  then have "write_frame enc None v = (Ok (), frame enc v)" by (simp add: write_frame_def frame_def)
  from this t(1,2,4) show ?thesis by (rule read_frame_written)
qed

definition events_pass :: "codec_io \<Rightarrow> event list \<Rightarrow> bool" where
  "events_pass c es \<longleftrightarrow>
     list_all (\<lambda>e. passes (enc_event c) (dec_event c) e \<and> ev_protocol_version e = PROTOCOL_VERSION) es"

lemma read_event_frame:
  assumes "passes (enc_event c) (dec_event c) e" "ev_protocol_version e = PROTOCOL_VERSION"
  shows "read_event c \<lparr>in_bytes = frame (enc_event c) e @ rest, in_fault = f\<rparr> =
    (Ok e, \<lparr>in_bytes = rest, in_fault = f\<rparr>)"
  using assms by (simp add: read_event_def passes_frame)

lemma read_event_end: "\<exists>e s'. read_event c \<lparr>in_bytes = [], in_fault = f\<rparr> = (Err e, s')"
  by (cases f) (simp_all add: read_event_def read_frame_def Let_def)

lemma event_signals_count:
  assumes "events_pass c es"
  shows "event_signals c (\<lambda>_. True) k \<lparr>in_bytes = concat (map (frame (enc_event c)) es), in_fault = f\<rparr> =
    k + length es"
  using assms
proof (induction es arbitrary: k)
  case Nil
  obtain e s' where "read_event c \<lparr>in_bytes = [], in_fault = f\<rparr> = (Err e, s')"
    using read_event_end by blast
  then show ?case by (simp add: event_signals.simps)
next
  case (Cons e es)
  then show ?case
    by (subst event_signals.simps) (simp add: events_pass_def read_event_frame)
qed

definition subscribed :: "uuid \<Rightarrow> response" where
  "subscribed fresh = ipc_success fresh (JObj [(''subscribed'', JBool True)])"

lemma client_subscribe_ok:
  assumes "passes (enc_request c) (dec_request c) (request_new fresh Subscribe (JObj []))"
    and "passes (enc_response c) (dec_response c) (subscribed fresh)"
  shows "fst (client_subscribe c None fresh
      \<lparr>in_bytes = frame (enc_response c) (subscribed fresh) @ rest, in_fault = f\<rparr>) =
    Ok \<lparr>in_bytes = rest, in_fault = f\<rparr>"
proof -
  from assms(1) obtain out where
    "write_frame (enc_request c) None (request_new fresh Subscribe (JObj [])) = (Ok (), out)"
    by (auto simp: passes_def write_frame_def split: option.splits)
  moreover have "check_response (request_new fresh Subscribe (JObj [])) (subscribed fresh) = Ok (subscribed fresh)"
    by (simp add: check_response_def subscribed_def request_new_def)
  ultimately have "client_call c None (request_new fresh Subscribe (JObj []))
      \<lparr>in_bytes = frame (enc_response c) (subscribed fresh) @ rest, in_fault = f\<rparr> =
      (Ok (subscribed fresh), out, \<lparr>in_bytes = rest, in_fault = f\<rparr>)"
    by (simp add: client_call_def passes_frame [OF assms(2)])
  then show ?thesis by (simp add: client_subscribe_def subscribed_def ipc_success_def)
qed

text \<open>C28: A subscription ends with the first five quiet seconds. The connection keeps the response
  timeout it was made with, so that a silence of \<open>DEFAULT_TIMEOUT\<close> fails the thread's read and the
  thread returns: the loop gets a signal for each event before the first such silence and for
  none after it, however many the daemon publishes, and nothing subscribes again.\<close>

theorem quiet_subscription_ends:
  assumes "passes (enc_request c) (dec_request c) (request_new fresh Subscribe (JObj []))"
    and "passes (enc_response c) (dec_response c) (subscribed fresh)" "wait < DEFAULT_TIMEOUT"
    and "events_pass c (map snd es)"
  shows "spawn_subscription c None fresh (\<lambda>_. True) (Ok ((wait, frame (enc_response c) (subscribed fresh)) #
      map (\<lambda>(silence, e). (silence, frame (enc_event c) e)) es)) =
    length (takeWhile (\<lambda>(silence, e). silence < DEFAULT_TIMEOUT) es)"
proof -
  let ?sent = "map (\<lambda>(silence, e). (silence, frame (enc_event c) e)) es"
  let ?es = "takeWhile (\<lambda>(silence, e). silence < DEFAULT_TIMEOUT) es"
  let ?ps = "(wait, frame (enc_response c) (subscribed fresh)) # ?sent"
  have "within DEFAULT_TIMEOUT ?sent = map (\<lambda>(silence, e). (silence, frame (enc_event c) e)) ?es"
    by (simp add: within_def takeWhile_map comp_def case_prod_unfold)
  then have "in_bytes (seen DEFAULT_TIMEOUT ?ps) = frame (enc_response c) (subscribed fresh) @
      concat (map (frame (enc_event c)) (map snd ?es))"
    using assms(3) by (simp add: seen_def within_def comp_def case_prod_unfold)
  then obtain f where f: "seen DEFAULT_TIMEOUT ?ps =
      \<lparr>in_bytes = frame (enc_response c) (subscribed fresh) @ concat (map (frame (enc_event c)) (map snd ?es)),
       in_fault = f\<rparr>"
    by (cases "seen DEFAULT_TIMEOUT ?ps") simp
  have "events_pass c (map snd ?es)"
    using assms(4) by (auto simp: events_pass_def list_all_iff dest: set_takeWhileD)
  from event_signals_count [OF this] show ?thesis
    by (simp add: spawn_subscription_def f client_subscribe_ok [OF assms(1,2)])
qed

definition tiny_codec :: codec_io where
  "tiny_codec = \<lparr>enc_request = (\<lambda>_. Some [1]),
     dec_request = (\<lambda>s. if s = [1] then Some (request_new 5 Subscribe (JObj [])) else None),
     enc_response = (\<lambda>_. Some [2]), dec_response = (\<lambda>s. if s = [2] then Some (subscribed 5) else None),
     enc_event = (\<lambda>e. Some [100 + ev_sequence e]),
     dec_event = (\<lambda>s. case s of [n] \<Rightarrow> Some \<lparr>ev_protocol_version = PROTOCOL_VERSION, ev_sequence = n - 100,
       ev_event = lit ''rule_started'', ev_payload = JNull\<rparr> | _ \<Rightarrow> None)\<rparr>"

definition tiny_event :: "nat \<Rightarrow> event" where
  "tiny_event n = \<lparr>ev_protocol_version = PROTOCOL_VERSION, ev_sequence = n, ev_event = lit ''rule_started'',
     ev_payload = JNull\<rparr>"

text \<open>Three events, the second after a quiet minute: only the first is signalled.\<close>

theorem quiet_subscription_ends_witness:
  "spawn_subscription tiny_codec None 5 (\<lambda>_. True) (Ok ((20, frame (enc_response tiny_codec) (subscribed 5)) #
     map (\<lambda>(silence, e). (silence, frame (enc_event tiny_codec) e))
       [(300, tiny_event 1), (60000, tiny_event 2), (10, tiny_event 3)])) = 1"
proof -
  have "passes (enc_request tiny_codec) (dec_request tiny_codec) (request_new 5 Subscribe (JObj []))"
    "passes (enc_response tiny_codec) (dec_response tiny_codec) (subscribed 5)" "20 < DEFAULT_TIMEOUT"
    "events_pass tiny_codec (map snd [(300 :: nat, tiny_event 1), (60000, tiny_event 2), (10, tiny_event 3)])"
    by (simp_all add: passes_def tiny_codec_def MAX_MESSAGE_BYTES_def DEFAULT_TIMEOUT_def events_pass_def tiny_event_def)
  from quiet_subscription_ends [OF this] show ?thesis by (simp add: DEFAULT_TIMEOUT_def)
qed

end
