(* ===== verification/Guardian_Protocol.thy ===== *)
theory Guardian_Protocol
  imports Ssh_Process Wire_Json
begin

text \<open>
  The two ends of one attempt put together: the descriptors the guardian inherits, and the
  exchange of a \<open>GuardianSpec\<close> for a \<open>GuardianReport\<close> between \<open>start_attempt\<close> and
  \<open>run_guardian\<close> of \<open>src/src/daemon/process.rs\<close>, each one line of JSON.
\<close>

section \<open>Descriptors\<close>

text \<open>
  The open descriptors of a process and their flags. \<open>fcntl\<close> fails on a descriptor that is not
  open, and \<open>exec\<close> keeps those without the flag \<open>FD_CLOEXEC\<close>.
\<close>

type_synonym descriptors = "int \<Rightarrow> 32 word option"

definition FD_CLOEXEC :: "32 word" where "FD_CLOEXEC = 1"

definition descriptor_flag :: "int \<Rightarrow> bool \<Rightarrow> (descriptors, io_kind, unit) st" where
  "descriptor_flag fd enabled fds =
     (case fds fd of
        None \<Rightarrow> (Err IoOther, fds)
      | Some current \<Rightarrow>
          (Ok (), fds(fd \<mapsto> (if enabled then or current FD_CLOEXEC else and current (not FD_CLOEXEC)))))"

definition clear_cloexec :: "int \<Rightarrow> (descriptors, io_kind, unit) st" where
  "clear_cloexec fd = descriptor_flag fd False"

definition set_cloexec :: "int \<Rightarrow> (descriptors, io_kind, unit) st" where
  "set_cloexec fd = descriptor_flag fd True"

definition after_exec :: "descriptors \<Rightarrow> descriptors" where
  "after_exec fds fd =
     (case fds fd of None \<Rightarrow> None | Some flags \<Rightarrow> if and flags FD_CLOEXEC = 0 then Some flags else None)"

text \<open>The closure that \<open>pre_exec\<close> runs in the guardian's process, and the start of \<open>run_guardian\<close>.\<close>

definition pre_exec :: "int \<Rightarrow> int \<Rightarrow> (descriptors, io_kind, unit) st" where
  "pre_exec lease lock = st_bind (clear_cloexec lease) (\<lambda>_. st_bind (clear_cloexec lock) (\<lambda>_. st_return ()))"

definition guardian_descriptors :: "int \<Rightarrow> int \<Rightarrow> (descriptors, io_kind, unit) st" where
  "guardian_descriptors lease lock = st_bind (set_cloexec lease) (\<lambda>_. set_cloexec lock)"

lemma cleared: "and (and (w :: 32 word) (not FD_CLOEXEC)) FD_CLOEXEC = 0"
  by (simp add: and.assoc)

lemma marked: "and (or (w :: 32 word) FD_CLOEXEC) FD_CLOEXEC \<noteq> 0"
  by (simp add: FD_CLOEXEC_def and.commute [of _ 1] bit.conj_disj_distrib)

text \<open>The guardian gets the lease and the endpoint's lock and hands on neither. If the daemon
  has nothing open for inheritance but \<open>shared\<close>, its guardian has these, the lease and the lock,
  and OpenSSH only \<open>shared\<close>: an OpenSSH master that outlives its guardian holds no lock that would
  keep the next daemon from starting, and no lease that would hide the daemon's end.\<close>

theorem openssh_inherits_no_lock:
  assumes "fds lease = Some a" "fds lock = Some b" "dom (after_exec fds) = shared"
    and "lease \<notin> shared" "lock \<notin> shared" "lease \<noteq> lock"
    and "pre_exec lease lock fds = (r, child)"
    and "guardian_descriptors lease lock (after_exec child) = (q, guardian)"
  shows "r = Ok () \<and> dom (after_exec child) = shared \<union> {lease, lock} \<and>
    q = Ok () \<and> dom guardian = shared \<union> {lease, lock} \<and> dom (after_exec guardian) = shared"
proof -
  have kept: "after_exec fds fd = None \<longleftrightarrow> fd \<notin> shared" for fd
    using assms(3) by (auto simp: domIff)
  from assms(1,2,6,7) have r: "r = Ok ()" and c: "child = fds(lease \<mapsto> and a (not FD_CLOEXEC), lock \<mapsto> and b (not FD_CLOEXEC))"
    by (auto simp: pre_exec_def clear_cloexec_def descriptor_flag_def st_bind_def st_return_def)
  have e: "after_exec child = (after_exec fds)(lease \<mapsto> and a (not FD_CLOEXEC), lock \<mapsto> and b (not FD_CLOEXEC))"
    by (auto simp: c after_exec_def fun_eq_iff cleared)
  then have d: "dom (after_exec child) = shared \<union> {lease, lock}" using assms(3) by auto
  from assms(6,8) e have q: "q = Ok ()" and g: "guardian = (after_exec child)
      (lease \<mapsto> or (and a (not FD_CLOEXEC)) FD_CLOEXEC, lock \<mapsto> or (and b (not FD_CLOEXEC)) FD_CLOEXEC)"
    by (auto simp: guardian_descriptors_def set_cloexec_def descriptor_flag_def st_bind_def)
  have "after_exec guardian fd = None \<longleftrightarrow> fd \<notin> shared" for fd
    using kept [of fd] assms(4,5) marked
    by (auto simp: g e after_exec_def split: option.splits if_splits)
  then have "dom (after_exec guardian) = shared" by (simp add: set_eq_iff domIff)
  moreover have "dom guardian = shared \<union> {lease, lock}" using g d by auto
  ultimately show ?thesis using r q d by simp
qed

definition sample_descriptors :: descriptors where
  "sample_descriptors = (\<lambda>_. None)(0 \<mapsto> 0, 1 \<mapsto> 0, 2 \<mapsto> 0, 5 \<mapsto> 1, 6 \<mapsto> 1, 7 \<mapsto> 1)"

lemma sample_shared: "dom (after_exec sample_descriptors) = {0, 1, 2}"
proof -
  have "after_exec sample_descriptors fd = (if fd \<in> {0, 1, 2} then Some 0 else None)" for fd
    by (simp add: after_exec_def sample_descriptors_def FD_CLOEXEC_def)
  then show ?thesis by (auto simp: set_eq_iff domIff)
qed

theorem openssh_inherits_no_lock_witness:
  "dom (after_exec (snd (guardian_descriptors 5 6 (after_exec (snd (pre_exec 5 6 sample_descriptors)))))) = {0, 1, 2}"
proof -
  have "sample_descriptors 5 = Some 1" "sample_descriptors 6 = Some 1"
    by (simp_all add: sample_descriptors_def)
  from openssh_inherits_no_lock [OF this sample_shared _ _ _ surjective_pairing surjective_pairing] show ?thesis
    by simp
qed

section \<open>The texts\<close>

text \<open>What serde makes of the two structs; keys they do not have are ignored.\<close>

definition guardian_fields :: "string list \<Rightarrow> json \<Rightarrow> json list option" where
  "guardian_fields keys j =
     (case j of
        JObj kvs \<Rightarrow> those (map (map_of kvs) keys)
      | JArr vs \<Rightarrow> if length vs = length keys then Some vs else None
      | _ \<Rightarrow> None)"

definition spec_to_json :: "guardian_spec \<Rightarrow> json" where
  "spec_to_json s = JObj [(''ssh'', JStr (gs_ssh s)), (''alias'', JStr (gs_alias s)),
     (''socket'', JStr (gs_socket s)), (''attempt_dir'', JStr (gs_attempt_dir s)),
     (''forward_flag'', JStr (fst (gs_forward s))), (''forward_spec'', JStr (snd (gs_forward s)))]"

definition spec_from_json :: "json \<Rightarrow> guardian_spec option" where
  "spec_from_json j =
     (case Option.bind (guardian_fields [''ssh'', ''alias'', ''socket'', ''attempt_dir'', ''forward_flag'',
          ''forward_spec''] j) (\<lambda>vs. those (map as_str vs)) of
        Some [ssh, host, socket, dir, flag, spec] \<Rightarrow>
          Some \<lparr>gs_ssh = ssh, gs_alias = host, gs_socket = socket, gs_attempt_dir = dir,
            gs_forward = (flag, spec)\<rparr>
      | _ \<Rightarrow> None)"

definition report_to_json :: "guardian_report \<Rightarrow> json" where
  "report_to_json r = JObj [(''accepted'', JBool (gp_accepted r)), (''diagnostic'', JStr (gp_diagnostic r)),
     (''master_pid'', JNat (gp_master_pid r))]"

definition report_from_json :: "json \<Rightarrow> guardian_report option" where
  "report_from_json j =
     (case guardian_fields [''accepted'', ''diagnostic'', ''master_pid''] j of
        Some [a, d, p] \<Rightarrow>
          Option.bind (as_bool a) (\<lambda>accepted.
          Option.bind (as_str d) (\<lambda>diagnostic.
          Option.bind (as_u64 p) (\<lambda>pid.
            if pid < 2 ^ 32
            then Some \<lparr>gp_accepted = accepted, gp_diagnostic = diagnostic, gp_master_pid = pid\<rparr> else None)))
      | _ \<Rightarrow> None)"

lemma spec_json_inverse [simp]: "spec_from_json (spec_to_json s) = Some s"
  by (simp add: spec_from_json_def spec_to_json_def guardian_fields_def)

lemma report_json_inverse [simp]:
  "gp_master_pid r < 2 ^ 32 \<Longrightarrow> report_from_json (report_to_json r) = Some r"
  by (simp add: report_from_json_def report_to_json_def guardian_fields_def)

text \<open>The printer and parser of \<open>serde_json\<close>, and the texts of its errors.\<close>

record json_text =
  jt_print :: "json \<Rightarrow> rstr"
  jt_parse :: "rstr \<Rightarrow> rstr + json"
  jt_mismatch :: "json \<Rightarrow> rstr"

definition reads_back :: "json_text \<Rightarrow> json \<Rightarrow> bool" where
  "reads_back jt j \<longleftrightarrow> jt_parse jt (jt_print jt j @ [10]) = Ok j"

definition from_line :: "json_text \<Rightarrow> (json \<Rightarrow> 'a option) \<Rightarrow> rstr \<Rightarrow> rstr + 'a" where
  "from_line jt de line = and_then (jt_parse jt line) (\<lambda>j. ok_or (jt_mismatch jt j) (de j))"

definition sent_line :: "json_text \<Rightarrow> ('a \<Rightarrow> json) \<Rightarrow> 'a \<Rightarrow> rstr" where
  "sent_line jt ser v = snd (write_json (\<lambda>v. Ok (jt_print jt (ser v))) None v)"

definition fits :: "json_text \<Rightarrow> ('a \<Rightarrow> json) \<Rightarrow> 'a \<Rightarrow> bool" where
  "fits jt ser v \<longleftrightarrow> str_len (sent_line jt ser v) \<le> MAX_STDERR_BYTES * 2"

definition oversized_line :: process_error where
  "oversized_line = PProtocol (lit ''guardian disconnected or sent an oversized message'')"

lemma read_sent:
  assumes "reads_back jt (ser v)" "de (ser v) = Some v"
  shows "read_json (from_line jt de) (Ok (sent_line jt ser v)) = (if fits jt ser v then Ok v else Err oversized_line)"
  using assms
  by (simp add: read_json_def sent_line_def write_json_def from_line_def reads_back_def fits_def ok_or_def
      oversized_line_def)

section \<open>The exchange\<close>

text \<open>The report \<open>run_guardian\<close> makes of what \<open>guardian_start\<close> returned.\<close>

definition report_of :: "process_error + nat \<Rightarrow> guardian_report" where
  "report_of outcome =
     (case outcome of
        Inr pid \<Rightarrow> \<lparr>gp_accepted = True, gp_diagnostic = [], gp_master_pid = pid\<rparr>
      | Inl e \<Rightarrow> \<lparr>gp_accepted = False, gp_diagnostic = show_process_error e, gp_master_pid = 0\<rparr>)"

text \<open>
  What the daemon reads when its guardian runs: a guardian that cannot read its line ends
  without an answer, and the daemon reads the end of the stream.
\<close>

definition exchange ::
  "json_text \<Rightarrow> guardian_spec \<Rightarrow> (guardian_spec \<Rightarrow> process_error + nat) \<Rightarrow> process_error + guardian_report" where
  "exchange jt spec start =
     read_json (from_line jt report_from_json)
       (Ok (case read_json (from_line jt spec_from_json) (Ok (sent_line jt spec_to_json spec)) of
          Inl _ \<Rightarrow> []
        | Inr got \<Rightarrow> sent_line jt report_to_json (report_of (start got))))"

lemma exchange_reads:
  assumes "reads_back jt (spec_to_json spec)" "reads_back jt (report_to_json (report_of (start spec)))"
    and "fits jt spec_to_json spec" "\<And>pid. start spec = Ok pid \<Longrightarrow> pid < 2 ^ 32"
  shows "exchange jt spec start =
    (if fits jt report_to_json (report_of (start spec)) then Ok (report_of (start spec)) else Err oversized_line)"
proof -
  have "gp_master_pid (report_of (start spec)) < 2 ^ 32"
    using assms(4) by (auto simp: report_of_def split: sum.split)
  then show ?thesis
    using assms(1-3) by (simp add: exchange_def read_sent)
qed

text \<open>C25: The daemon's view of a start is its guardian's. When the two lines read back, the guardian
  gets exactly the command it was sent; the daemon holds an attempt only if the guardian's
  OpenSSH was accepted, under the process id it has, and otherwise fails with the text the guardian
  gave. The exception is a report of more than 128 KiB: its text is lost, and with it whether the
  failure may be retried, because the error the daemon sees instead is never retryable.\<close>

theorem start_reflects_guardian:
  assumes "reads_back jt (spec_to_json spec)" "reads_back jt (report_to_json (report_of (start spec)))"
    and "fits jt spec_to_json spec" "\<And>pid. start spec = Ok pid \<Longrightarrow> pid < 2 ^ 32"
    and "se_exchange e = exchange jt spec start" "se_clear_timeout e = None"
  shows "fst (start_exchange e spec i) =
    (if \<not> fits jt report_to_json (report_of (start spec)) then Err oversized_line
     else case start spec of
       Inl err \<Rightarrow> Err (PStartup (show_process_error err))
     | Inr pid \<Rightarrow> if valid_pid pid
         then Ok \<lparr>ma_lease = True, ma_guardian = True, ma_master_pid = pid,
           ma_attempt_dir = gs_attempt_dir spec, ma_attempt_id = i\<rparr>
         else Err (PProtocol (lit ''guardian returned an invalid master PID''))) \<and>
    \<not> dg_retryable (classify_diagnostic (show_process_error oversized_line))"
proof -
  have "\<not> dg_retryable (classify_diagnostic (show_process_error oversized_line))" by code_simp
  then show ?thesis
    using assms(5,6)
    by (auto simp: exchange_reads [where start = start, OF assms(1-4)] start_exchange_def report_of_def split: sum.split)
qed

definition sample_spec :: guardian_spec where
  "sample_spec = \<lparr>gs_ssh = lit ''ssh'', gs_alias = lit ''web'', gs_socket = lit ''/r/c'', gs_attempt_dir = lit ''/r'',
     gs_forward = (lit ''-D'', lit ''1080'')\<rparr>"

definition two_lines :: "process_error + nat \<Rightarrow> json_text" where
  "two_lines outcome = \<lparr>jt_print = (\<lambda>j. if j = spec_to_json sample_spec then [97] else [98]),
     jt_parse = (\<lambda>s. Ok (if s = [97, 10] then spec_to_json sample_spec else report_to_json (report_of outcome))),
     jt_mismatch = (\<lambda>_. [])\<rparr>"

definition sample_start :: start_env where
  "sample_start = \<lparr>se_mkdir = None, se_chmod = None, se_pair = None, se_clone = None, se_spawn = None,
     se_set_timeout = None, se_exchange = exchange (two_lines (Ok 42)) sample_spec (\<lambda>_. Ok 42),
     se_clear_timeout = None\<rparr>"

theorem start_reflects_guardian_witness:
  "fst (start_exchange sample_start sample_spec 7) = Ok \<lparr>ma_lease = True, ma_guardian = True,
     ma_master_pid = 42, ma_attempt_dir = lit ''/r'', ma_attempt_id = 7\<rparr>"
proof -
  let ?jt = "two_lines (Ok 42)" and ?start = "\<lambda>_ :: guardian_spec. Ok 42 :: process_error + nat"
  have other: "spec_to_json sample_spec \<noteq> report_to_json r" for r
    by (simp add: spec_to_json_def report_to_json_def)
  have texts: "reads_back ?jt (spec_to_json sample_spec)" "reads_back ?jt (report_to_json (report_of (?start sample_spec)))"
    using other other [symmetric] by (simp_all add: reads_back_def two_lines_def)
  have short: "str_len [97, 10] \<le> 131072" "str_len [98, 10] \<le> 131072" by code_simp+
  have "fits ?jt spec_to_json sample_spec" "fits ?jt report_to_json (report_of (?start sample_spec))"
    using short other [symmetric]
    by (simp_all add: fits_def sent_line_def write_json_def two_lines_def MAX_STDERR_BYTES_def)
  moreover have "se_exchange sample_start = exchange ?jt sample_spec ?start" "se_clear_timeout sample_start = None"
    by (simp_all add: sample_start_def)
  ultimately show ?thesis
    using start_reflects_guardian [where start = ?start, OF texts, of sample_start 7] by (simp add: valid_pid_def sample_spec_def)
qed

end
