(* ===== verification/Client_Served.thy ===== *)
theory Client_Served
  imports Client_Link Rule_Identity
begin

text \<open>
  A daemon that speaks serde's JSON, as a client meets it: what each request it serves answers
  and changes. Both clients, the command line and the terminal client, rest on these lemmas.
\<close>

definition speaks_json :: "manager_env \<Rightarrow> (uuid \<Rightarrow> rstr) \<Rightarrow> (rstr \<Rightarrow> uuid option) \<Rightarrow> bool" where
  "speaks_json menv show_id parse \<longleftrightarrow> toml_round_trip (me_toml menv) \<and> me_process menv \<and>
     me_codec menv = json_codec show_id parse \<and> readable_ids show_id parse"

lemma speaks_json_lawful: "speaks_json menv show_id parse \<Longrightarrow> lawful menv"
  by (simp add: speaks_json_def lawful_def rule_ref_def)

lemma handled_locked [simp]:
  "handled env orc ForwardList p d = (forward_list env d, d)"
  "handled env orc ForwardAdd p d = forward_add env (ro_fresh orc) p d"
  "handled env orc ForwardImport p d = forward_import env (ro_fresh orc) p d"
  "handled env orc ForwardRemove p d = forward_remove env (ro_fresh orc) p d"
  "handled env orc SettingsGet p d = (Ok (ser_settings (me_codec env) (dm_settings d)), d)"
  "handled env orc SettingsUpdate p d = settings_update env (ro_fresh orc) p d"
  by (simp_all add: handled_def dispatch_def)

lemma commit_answer:
  assumes "commit_rules env u nxt c a st = (q, st')"
  shows "(is_ok q \<longrightarrow> q = Ok a \<and> dm_rules st' = nxt) \<and> (\<forall>code msg. q = Err (code, msg) \<longrightarrow> code = Internal)"
  using assms
  by (auto simp: commit_rules_def dm_save_def save_outcome_def internal_def Let_def
      split: prod.splits sum.splits option.splits store_error.splits)

lemma forward_add_new:
  assumes "forward_add menv u p d = (q, d')" "de_rule (me_codec menv) p = Some wire"
    and "\<And>x. domain_of_wire wire = Ok x \<Longrightarrow> r_id x = i" "find_rule d i = None" "i \<notin> dm_editing d"
    and "toml_round_trip (me_toml menv)" "config_inv menv d"
  obtains e msg where "domain_of_wire wire = Err e" "q = Err (InvalidRequest, msg)" "d' = d"
  | x e msg where "domain_of_wire wire = Ok x" "validate_rule_set (dm_rules d @ [x]) = Err e"
      "q = Err (Conflict, msg)" "d' = d"
  | x where "domain_of_wire wire = Ok x" "is_ok q \<longrightarrow> dm_rules d' = dm_rules d @ [x]"
      "dm_rules d' = dm_rules d \<or> dm_rules d' = dm_rules d @ [x]" "config_inv menv d'" "same_runtime d d'"
      "\<forall>code msg. q = Err (code, msg) \<longrightarrow> code = Internal"
proof (cases "domain_of_wire wire")
  case (Inl e)
  with assms(1,2) that(1) show thesis by (auto simp: forward_add_def)
next
  case (Inr x)
  have id: "r_id x = i" using assms(3) Inr by simp
  have new: "\<not> list_ex (\<lambda>y. r_id y = i) (dm_rules d)"
    using assms(4) by (auto simp: find_rule_None list_ex_iff)
  let ?nxt = "dm_rules d @ [x]"
  show thesis
  proof (cases "validate_rule_set ?nxt")
    case inv: (Inl e)
    with assms(1,2,5) Inr id new have "q = Err (Conflict, [ShowStore (InvalidRules e)]) \<and> d' = d"
      by (auto simp: forward_add_def Let_def check_rule_set_def)
    with that(2) Inr inv show thesis by blast
  next
    case ok: (Inr v)
    with assms(1,2,5) Inr id new obtain c a where com: "commit_rules menv u ?nxt c a d = (q, d')"
      by (auto simp: forward_add_def Let_def check_rule_set_def)
    have "list_all valid_rule ?nxt"
      using assms(7) domain_of_wire_valid [OF Inr] by (auto simp: config_inv_def well_formed_rules_def)
    from commit_rules_cases [OF com assms(6) this assms(7)] commit_answer [OF com] that(3) Inr
    show thesis by blast
  qed
qed

text \<open>Adding a rule under an id that is taken replaces the rule.\<close>

lemma find_replaced:
  "find (\<lambda>r. r_id r = i) rs \<noteq> None \<Longrightarrow> r_id x = i \<Longrightarrow>
   find (\<lambda>r. r_id r = i) (replace_first i x rs) = Some x"
  by (induction rs) auto

lemma forward_add_replaces:
  assumes "forward_add menv u p d = (Ok v, d')" "de_rule (me_codec menv) p = Some wire"
    and "find_rule d (wire_id wire) \<noteq> None" "toml_round_trip (me_toml menv)" "config_inv menv d"
  obtains x where "domain_of_wire wire = Ok x" "r_id x = wire_id wire" "v = rule_ref menv (r_id x)"
    "dm_rules d' = replace_first (r_id x) x (dm_rules d)" "config_inv menv d'" "same_runtime d d'"
proof -
  from assms(1,2) obtain x where x: "domain_of_wire wire = Ok x"
    by (auto simp: forward_add_def split: sum.splits)
  have id: "r_id x = wire_id wire" using domain_of_wire_id [OF x] .
  have "list_ex (\<lambda>y. r_id y = r_id x) (dm_rules d)"
    using assms(3) id by (auto simp: find_rule_None list_ex_iff)
  with assms(1,2) x have com: "commit_rules menv u (replace_first (r_id x) x (dm_rules d)) (rule_ref menv (r_id x))
      (rule_ref menv (r_id x)) d = (Ok v, d')"
    by (auto simp: forward_add_def Let_def check_rule_set_def split: if_splits sum.splits)
  have "list_all valid_rule (replace_first (r_id x) x (dm_rules d))"
    using assms(5) domain_of_wire_valid [OF x] by (auto simp: config_inv_def well_formed_rules_def intro!: valid_replace_first)
  from commit_rules_cases [OF com assms(4) this assms(5)] commit_answer [OF com] that x id show thesis by auto
qed

lemma settings_update_cases:
  assumes "settings_update menv u p d = (q, d')" "de_settings (me_codec menv) p = Some new"
    "toml_round_trip (me_toml menv)" "config_inv menv d"
  shows "config_inv menv d' \<and> same_runtime d d' \<and> dm_rules d' = dm_rules d \<and>
    (dm_settings d' = dm_settings d \<or> dm_settings d' = new) \<and> (is_ok q \<longrightarrow> dm_settings d' = new) \<and>
    (\<forall>e. q = Err e \<longrightarrow> fst e = Internal)"
proof -
  obtain r st1 where sv: "dm_save menv u (dm_rules d) new d = (r, st1)" by fastforce
  have valid: "list_all valid_rule (dm_rules d)" using assms(4) by (simp add: config_inv_def well_formed_rules_def)
  from sv assms(3) valid show ?thesis
  proof (rule dm_save_cases)
    fix dir assume s1: "st1 = d\<lparr>dm_store := dir\<rparr>" "applied r" "well_formed_rules (dm_rules d)"
      "stored_config (me_toml menv) dir = Ok (Some (dm_rules d, new))"
    obtain u where u: "save_outcome r = Inr u" "\<forall>e. u = Some e \<longrightarrow> fst e = Internal"
      using s1(2) by (cases r) (auto simp: save_outcome_def applied_def internal_def split: store_error.splits)
    with assms(1,2) sv have "d' = publish ''settings_changed'' (ser_settings (me_codec menv) new)
        (st1\<lparr>dm_settings := new\<rparr>) \<and> (\<forall>e. q = Err e \<longrightarrow> fst e = Internal)"
      by (auto simp: settings_update_def Let_def split: option.splits)
    with s1 show ?thesis by (simp add: config_inv_def same_runtime_def)
  next
    fix dir assume s1: "st1 = d\<lparr>dm_store := dir\<rparr>" "\<not> applied r"
      "stored_config (me_toml menv) dir = stored_config (me_toml menv) (dm_store d)"
    obtain e where "save_outcome r = Inl e" "fst e = Internal"
      using s1(2) by (cases r) (auto simp: save_outcome_def applied_def internal_def split: store_error.splits)
    with assms(1,2) sv have "d' = st1 \<and> q = Err e" by (auto simp: settings_update_def Let_def)
    with s1 assms(4) \<open>fst e = Internal\<close> show ?thesis by (simp add: config_inv_def same_runtime_def)
  qed
qed

lemma forward_list_ok:
  assumes "config_inv menv d"
  shows "forward_list menv d = Ok (ser_rules (me_codec menv) (map wire_of_domain (dm_rules d)))"
proof -
  have ok: "validate_rule_set (dm_rules d) = Ok ()"
    using assms by (simp add: config_inv_def well_formed_rules_def)
  then have "v2_from_domain (dm_rules d) (dm_settings d) =
      Ok \<lparr>v2_schema_version = schema_version, v2_rules = map wire_of_domain (dm_rules d),
        v2_settings = dm_settings d\<rparr>"
    by (simp add: v2_from_domain_Ok)
  then show ?thesis by (simp add: forward_list_def)
qed

lemma always_answered:
  "config_inv menv d \<Longrightarrow> handled menv orc ForwardList p d = (q, d') \<Longrightarrow> is_ok q \<and> d' = d"
  "handled menv orc SettingsGet p d = (q, d') \<Longrightarrow> is_ok q \<and> d' = d"
  "handled menv orc Status p d = (q, d') \<Longrightarrow> is_ok q"
  "me_process menv \<Longrightarrow> handled menv orc Status p d = (q, d') \<Longrightarrow> same_config d d' \<and> dm_editing d' = dm_editing d"
  by (auto simp: handled_def Let_def dispatch_def forward_list_ok maintain_frame)

lemma forward_import_new:
  assumes "forward_import menv u p d = (q, d')" "de_import (me_codec menv) p = Some (map wire_of_domain rules)"
    and "rules \<noteq> []" "distinct (map r_id rules)" "\<And>r. r \<in> set rules \<Longrightarrow> find_rule d (r_id r) = None"
    and "well_formed_rules (dm_rules d @ rules)" "toml_round_trip (me_toml menv)" "config_inv menv d"
  shows "config_inv menv d' \<and> same_runtime d d' \<and>
    (dm_rules d' = dm_rules d \<or> dm_rules d' = dm_rules d @ rules) \<and>
    (is_ok q \<longrightarrow> dm_rules d' = dm_rules d @ rules) \<and> (\<forall>code msg. q = Err (code, msg) \<longrightarrow> code = Internal)"
proof -
  have valid: "list_all valid_rule (dm_rules d @ rules)" and set_ok: "validate_rule_set (dm_rules d @ rules) = Ok ()"
    using assms(6) by (simp_all add: well_formed_rules_def)
  have "collect_results domain_of_wire (map wire_of_domain rules) = Ok (map id rules)"
    by (rule collect_results_map) (use valid domain_of_wire_of_domain in \<open>auto simp: list_all_iff\<close>)
  moreover have "first_seen (set (map r_id (dm_rules d))) (map r_id rules) = None"
    using assms(4,5) by (fastforce simp: first_seen_None find_rule_None)
  ultimately obtain c a where com: "commit_rules menv u (dm_rules d @ rules) c a d = (q, d')"
    using assms(1-3) set_ok by (auto simp: forward_import_def Let_def check_rule_set_def)
  from commit_rules_cases [OF com assms(7) valid assms(8)] commit_answer [OF com] show ?thesis by blast
qed

end
