(* ===== verification/Client_Sample.thy ===== *)
theory Client_Sample
  imports Client_Served
begin

text \<open>A daemon with two rules on which clients run in the witnesses, and the texts it is stored as.\<close>

section \<open>Texts that read back\<close>

text \<open>A document of a fixed list is printed as one letter, its place in the list.\<close>

definition table_toml :: "config_v2 list \<Rightarrow> toml" where
  "table_toml cs = \<lparr>
     print_v2 = (\<lambda>c. map_option (\<lambda>i. [65 + i]) (find (\<lambda>i. cs ! i = c) [0 ..< length cs])),
     parse_header = (\<lambda>s. case s of [n] \<Rightarrow> if 65 \<le> n \<and> n < 65 + length cs then Some 2 else None | _ \<Rightarrow> None),
     parse_v1 = (\<lambda>_. None),
     parse_v2 = (\<lambda>s. case s of [n] \<Rightarrow> if 65 \<le> n \<and> n < 65 + length cs then Some (cs ! (n - 65)) else None
       | _ \<Rightarrow> None)\<rparr>"

lemma table_toml_round_trip: "length cs \<le> 26 \<Longrightarrow> toml_round_trip (table_toml cs)"
  by (auto simp: toml_round_trip_def table_toml_def schema_version_def valid_str_def scalar_value_def
      find_Some_iff)

definition decimal_id :: "rstr \<Rightarrow> uuid option" where
  "decimal_id s = (if s \<noteq> [] \<and> list_all is_ascii_digit s then Some (of_nat (digits_value 10 s)) else None)"

lemma sample_ids_readable: "readable_ids sample_show_uuid decimal_id"
  by (simp add: readable_ids_def sample_show_uuid_def decimal_id_def show_nat_digits digits_value_show)

section \<open>A served daemon\<close>

text \<open>Both rules are bound to every interface and lead to \<open>db\<close>; the first is running.\<close>

definition served_wire :: "uuid \<Rightarrow> string \<Rightarrow> u16 \<Rightarrow> wire_rule" where
  "served_wire i name p = WLocal \<lparr>w_id = i, w_name = lit name, w_ssh_host_alias = lit ''web'',
     w_bind_address = lit ''0.0.0.0'', w_bind_port = p, w_destination_host = lit ''db'',
     w_destination_port = 5432, w_auto_start = False, w_reconnect = True\<rparr>"

definition served_rules :: "rule list" where
  "served_rules = map (\<lambda>w. projr (domain_of_wire w)) [served_wire 1 ''a'' 3000, served_wire 2 ''b'' 3001]"

definition document :: "wire_rule list \<Rightarrow> settings \<Rightarrow> config_v2" where
  "document ws s = \<lparr>v2_schema_version = schema_version, v2_rules = ws, v2_settings = s\<rparr>"

definition served_documents :: "config_v2 list \<Rightarrow> config_v2 list" where
  "served_documents later = document [served_wire 1 ''a'' 3000, served_wire 2 ''b'' 3001] default_settings # later"

definition served_env :: "config_v2 list \<Rightarrow> manager_env" where
  "served_env later = \<lparr>me_toml = table_toml (served_documents later), me_show_uuid = sample_show_uuid,
     me_codec = json_codec sample_show_uuid decimal_id, me_process = True, me_logging = True\<rparr>"

lemma served_env_speaks: "length later \<le> 25 \<Longrightarrow> speaks_json (served_env later) sample_show_uuid decimal_id"
  by (simp add: speaks_json_def served_env_def sample_ids_readable table_toml_round_trip served_documents_def)

definition served_daemon :: daemon where
  "served_daemon = \<lparr>dm_store = sample_dir [(config_name,
       \<lparr>en_meta = private_meta Regular, en_data = [65], en_synced = True\<rparr>)],
     dm_rules = served_rules, dm_settings = default_settings,
     dm_running = [(1, AActive \<lparr>ma_lease = True, ma_guardian = True, ma_master_pid = 42,
       ma_attempt_dir = lit ''/r'', ma_attempt_id = 101\<rparr>)],
     dm_diagnostics = [], dm_manually_stopped = {}, dm_editing = {}, dm_events = [], dm_log = []\<rparr>"

lemma served_wires_valid:
  "collect_results domain_of_wire [served_wire 1 ''a'' 3000, served_wire 2 ''b'' 3001] = Ok served_rules"
proof -
  have "is_ok (domain_of_wire (served_wire 1 ''a'' 3000))" "is_ok (domain_of_wire (served_wire 2 ''b'' 3001))"
    by code_simp+
  then show ?thesis by (auto simp: is_ok_iff served_rules_def)
qed

lemma wires_back: "collect_results domain_of_wire ws = Ok rs \<Longrightarrow> map wire_of_domain rs = ws"
  by (auto simp: collect_results_Inr list_all2_conv_all_nth intro!: nth_equalityI wire_of_domain_of_wire)

lemma served_wires: "map wire_of_domain served_rules = [served_wire 1 ''a'' 3000, served_wire 2 ''b'' 3001]"
  by (rule wires_back [OF served_wires_valid])

lemma served_config: "config_inv (served_env later) served_daemon"
proof -
  have wf: "well_formed_rules served_rules"
    unfolding well_formed_rules_def by code_simp
  have "fst (utf8_decode [65 :: nat], ()) = Some [65]" by code_simp
  then have "utf8_decode [65 :: nat] = Some [65]" by simp
  moreover have "decode (table_toml (served_documents later)) [65] = Ok (served_rules, default_settings)"
    using wires_into_domain_map [OF wf]
    by (simp add: served_wires decode_def schema_def table_toml_def served_documents_def document_def
        schema_version_def v2_into_domain_def ok_or_def)
  ultimately have "stored_config (table_toml (served_documents later)) (dm_store served_daemon) =
      Ok (Some (served_rules, default_settings))"
    by (simp add: stored_config_def stored_bytes_def served_daemon_def dir_lookup_def sample_dir_def ok_or_def)
  with wf show ?thesis by (simp add: config_inv_def served_daemon_def served_env_def)
qed

definition quiet_oracle :: request_oracle where
  "quiet_oracle = \<lparr>ro_fresh = 77, ro_now = 9, ro_stopped = Ok (),
     ro_start = \<lparr>or_bind = (\<lambda>_ _. Ok ()), or_now = 9, or_attempt = 200,
       or_outcome = \<lparr>so_started = Ok \<lparr>ma_lease = True, ma_guardian = True, ma_master_pid = 43,
         ma_attempt_dir = lit ''/r2'', ma_attempt_id = 200\<rparr>, so_stopped = Ok ()\<rparr>\<rparr>,
     ro_exits = (\<lambda>_. Ok False),
     ro_retries = (\<lambda>_. \<lparr>or_bind = (\<lambda>_ _. Ok ()), or_now = 9, or_attempt = 201,
       or_outcome = \<lparr>so_started = Err (PProtocol (lit ''lost'')), so_stopped = Ok ()\<rparr>\<rparr>)\<rparr>"

text \<open>Nothing ends or falls due while this oracle answers.\<close>

lemma quiet_maintain:
  "maintain env (ro_exits quiet_oracle) (ro_now quiet_oracle) u os served_daemon = served_daemon"
  by (simp add: maintain_def maintain_locked_def served_daemon_def exited_now_def quiet_oracle_def due_now_def
      is_active_def reset_retries_def report_sweep_def)

end
