(* ===== verification/Cli_Requests.thy ===== *)
theory Cli_Requests
  imports Cli_Model Client_Sample
begin

text \<open>
  The command line on the daemon's handler: what a command that reports success has done, and
  what its exit status tells about the daemon. The link is \<open>direct_link\<close>, so that a command
  is the composition of the code of \<open>src/src/cli/mod.rs\<close> with that of
  \<open>src/src/daemon/manager.rs\<close> over serde's JSON.
\<close>

section \<open>One request of a command\<close>

definition on_daemon :: "served cli_env \<Rightarrow> manager_env \<Rightarrow> (nat \<Rightarrow> request_oracle) \<Rightarrow> bool" where
  "on_daemon env menv orcs \<longleftrightarrow> speaks_json menv (ce_show_uuid env) (ce_parse_uuid env) \<and>
     (\<exists>ids. \<forall>socket exe. ce_link env socket exe = direct_link menv orcs ids)"

lemmas on_daemon_defs = on_daemon_def speaks_json_def

definition cli_refusal :: "bool \<Rightarrow> failure \<Rightarrow> stop" where
  "cli_refusal json e = Failed (daemon_failure json (CallRefused (fst e) (snd e)))"

lemma refusal_exit [simp]: "main_exit (Inl (cli_refusal json e)) = exit_number (code_exit (fst e))"
  by (simp add: cli_refusal_def daemon_failure_def)

text \<open>A command that did not reach the daemon ends with status 70.\<close>

definition local_failure :: "stop \<Rightarrow> bool" where
  "local_failure e \<longleftrightarrow> (\<exists>r. e = Failed (AppConfiguration r) \<or> e = Failed (AppIpc r))"

lemma local_exit [simp]: "local_failure e \<Longrightarrow> main_exit (Inl e) = 70"
  by (auto simp: local_failure_def)

lemma on_tree_frame: "on_tree m s = (r, s') \<Longrightarrow> pr_peer s' = pr_peer s \<and> pr_out s' = pr_out s"
  by (auto simp: on_tree_def split: prod.splits)

lemma Inl_map_err: "Inl e = map_err h r \<longleftrightarrow> (\<exists>e'. r = Inl e' \<and> e = h e')"
  by (cases r) auto

lemma resolved_paths_frame:
  assumes "resolved_paths env s = (r, s')"
  shows "pr_peer s' = pr_peer s \<and> pr_out s' = pr_out s \<and> (\<forall>e. r = Err e \<longrightarrow> local_failure e)"
  using assms
  by (auto simp: resolved_paths_def try_result_def st_lift_def home_dir_def local_failure_def st_map_err_pair
      Inl_map_err elim!: st_bind_cases dest!: on_tree_frame)

lemma daemon_value_cases:
  assumes "daemon_value env op payload json s = (r, s')" "on_daemon env menv orcs" "pr_peer s = (n, d)"
  obtains e where "r = Err e" "local_failure e" "pr_peer s' = (n, d)" "pr_out s' = pr_out s"
  | res d' where "handled menv (orcs n) op payload d = (res, d')" "r = map_err (cli_refusal json) res"
      "pr_peer s' = (Suc n, d')" "pr_out s' = pr_out s"
proof -
  obtain p s1 where p: "resolved_paths env s = (p, s1)" by fastforce
  note frame = resolved_paths_frame [OF p]
  show thesis
  proof (cases p)
    case (Inl e)
    with p assms(1) have "r = Err e" "s' = s1" by (simp_all add: daemon_value_def st_bind_def)
    with that(1) frame Inl assms(3) show thesis by simp
  next
    case (Inr paths)
    show thesis
    proof (cases "is_ok (socket_path paths (ce_platform env)) \<and> is_ok (ce_exe env)")
      case False
      with p Inr assms(1) have "s' = s1 \<and> (\<exists>e. r = Err e \<and> local_failure e)"
        by (cases "socket_path paths (ce_platform env)"; cases "ce_exe env")
          (auto simp: daemon_value_def st_bind_def try_result_def st_lift_def local_failure_def)
      with that(1) frame assms(3) show thesis by auto
    next
      case True
      then obtain socket exe where ok: "socket_path paths (ce_platform env) = Ok socket" "ce_exe env = Ok exe"
        by (auto simp: is_ok_iff)
      obtain ids where ids: "ce_link env socket exe = direct_link menv orcs ids"
        using assms(2) by (auto simp: on_daemon_defs)
      obtain res d' where h: "handled menv (orcs n) op payload d = (res, d')" by fastforce
      from p Inr ok ids assms(1,3) frame h have "r = map_err (cli_refusal json) res"
        "s' = s1\<lparr>pr_peer := (Suc n, d')\<rparr>"
        by (cases res; auto simp: daemon_value_def st_bind_def try_result_def st_lift_def st_map_err_def
            on_peer_def link_call_direct cli_refusal_def split: prod.splits)+
      with that(2) h frame show thesis by simp
    qed
  qed
qed

lemma run_print: "run_all print_line ls s = (Ok (), s\<lparr>pr_out := pr_out s @ ls\<rparr>)"
  by (induction ls arbitrary: s) (simp_all add: st_return_def st_bind_def print_line_def)

text \<open>What a successful call prints.\<close>

definition shown :: "operation \<Rightarrow> bool \<Rightarrow> json \<Rightarrow> line list" where
  "shown op json v = (if json then [[PJson v]] else human_lines op v)"

lemma daemon_call_cases:
  assumes "daemon_call env op payload json s = (r, s')" "on_daemon env menv orcs" "pr_peer s = (n, d)"
  obtains e where "r = Err e" "local_failure e" "pr_peer s' = (n, d)" "pr_out s' = pr_out s"
  | e d' where "handled menv (orcs n) op payload d = (Err e, d')" "r = Err (cli_refusal json e)"
      "pr_peer s' = (Suc n, d')" "pr_out s' = pr_out s"
  | v d' where "handled menv (orcs n) op payload d = (Ok v, d')" "r = Ok ()"
      "pr_peer s' = (Suc n, d')" "pr_out s' = pr_out s @ shown op json v"
proof -
  obtain q s1 where q: "daemon_value env op payload json s = (q, s1)" by fastforce
  show thesis
  proof (rule daemon_value_cases [OF q assms(2,3)])
    fix e assume "q = Err e" "local_failure e" "pr_peer s1 = (n, d)" "pr_out s1 = pr_out s"
    with q assms(1) that(1) show thesis by (auto simp: daemon_call_def st_bind_def)
  next
    fix res d' assume h: "handled menv (orcs n) op payload d = (res, d')"
      "q = map_err (cli_refusal json) res" "pr_peer s1 = (Suc n, d')" "pr_out s1 = pr_out s"
    show thesis
    proof (cases res)
      case (Inl e)
      with q h assms(1) that(2) show thesis by (auto simp: daemon_call_def st_bind_def)
    next
      case (Inr v)
      with q h assms(1) have "r = Ok ()" "s' = s1\<lparr>pr_out := pr_out s1 @ shown op json v\<rparr>"
        by (auto simp: daemon_call_def st_bind_def print_human_def run_print shown_def print_line_def
            split: if_splits)
      with that(3) h Inr show thesis by simp
    qed
  qed
qed

section \<open>Removing a rule\<close>

text \<open>The rule an argument names: a text that reads as a uuid is never looked up as a name.\<close>

definition named_id :: "'d cli_env \<Rightarrow> rstr \<Rightarrow> daemon \<Rightarrow> uuid option" where
  "named_id env rule d =
     (case ce_parse_uuid env rule of
        Some i \<Rightarrow> Some i
      | None \<Rightarrow> map_option r_id (find (\<lambda>r. rule_name_str (r_name r) = rule) (dm_rules d)))"

lemma selector_id:
  assumes "on_daemon env menv orcs"
  shows "rule_id_of menv (rule_selector env rule) d =
    ok_or (NotFound, [Txt (lit ''rule was not found'')]) (named_id env rule d)"
  using assms
  by (simp add: on_daemon_defs rule_id_of_def rule_selector_def named_id_def ok_or_def split: option.split)

lemma forward_remove_cases:
  assumes "forward_remove menv u (rule_selector env rule) d = (q, d')" "on_daemon env menv orcs"
    "config_inv menv d"
  obtains i msg where "named_id env rule d = Some i" "i \<in> dm_editing d \<or> running_of d i \<noteq> None"
      "q = Err (Conflict, msg)" "d' = d"
  | msg where "q = Err (NotFound, msg)" "d' = d"
      "\<forall>i. named_id env rule d = Some i \<longrightarrow> find_rule d i = None"
  | i where "named_id env rule d = Some i" "find_rule d i \<noteq> None" "i \<notin> dm_editing d" "running_of d i = None"
      "is_ok q \<longrightarrow> dm_rules d' = filter (\<lambda>r. r_id r \<noteq> i) (dm_rules d)"
      "dm_rules d' = dm_rules d \<or> dm_rules d' = filter (\<lambda>r. r_id r \<noteq> i) (dm_rules d)"
      "config_inv menv d'" "same_runtime d d'" "\<forall>code msg. q = Err (code, msg) \<longrightarrow> code = Internal"
proof (cases "named_id env rule d")
  case None
  with assms(1) that(2) show thesis by (auto simp: forward_remove_def selector_id [OF assms(2)] ok_or_def)
next
  case (Some i)
  let ?nxt = "filter (\<lambda>r. r_id r \<noteq> i) (dm_rules d)"
  have id: "rule_id_of menv (rule_selector env rule) d = Ok i"
    by (simp add: selector_id [OF assms(2)] Some ok_or_def)
  consider "i \<in> dm_editing d \<or> running_of d i \<noteq> None"
    | "i \<notin> dm_editing d" "running_of d i = None" "length ?nxt = length (dm_rules d)"
    | "i \<notin> dm_editing d" "running_of d i = None" "length ?nxt \<noteq> length (dm_rules d)" by blast
  then show thesis
  proof cases
    case 1
    with assms(1) id have "\<exists>msg. q = Err (Conflict, msg) \<and> d' = d"
      by (cases "i \<in> dm_editing d") (auto simp: forward_remove_def)
    with that(1) Some 1 show thesis by blast
  next
    case 2
    then have "\<forall>r \<in> set (dm_rules d). r_id r \<noteq> i"
      using length_filter_less [of _ "dm_rules d" "\<lambda>r. r_id r \<noteq> i"] by (metis less_irrefl)
    then have "find_rule d i = None" by (auto simp: find_rule_None)
    with 2 assms(1) id Some that(2) show thesis by (auto simp: forward_remove_def Let_def)
  next
    case 3
    have found: "find_rule d i \<noteq> None"
    proof
      assume "find_rule d i = None"
      then have "?nxt = dm_rules d" by (auto simp: find_rule_None intro!: filter_True)
      with 3 show False by simp
    qed
    from 3 assms(1) id obtain c a where com: "commit_rules menv u ?nxt c a d = (q, d')"
      by (simp add: forward_remove_def Let_def)
    have toml: "toml_round_trip (me_toml menv)" using assms(2) by (simp add: on_daemon_defs)
    have "list_all valid_rule ?nxt" using assms(3) by (auto simp: config_inv_def well_formed_rules_def list_all_iff)
    from commit_rules_cases [OF com toml this assms(3)] commit_answer [OF com] that(3) Some 3 found
    show thesis by blast
  qed
qed

text \<open>C15: What the exit status of \<open>tdeck forward remove\<close> tells. 0: the rule the argument names
  existed, was neither running nor being edited, and exactly it is gone, in memory and on
  disk. 4: there is no such rule. 5: the rule is running or being edited. In these last two
  cases the daemon is as it was. Otherwise the status is 70; the rule may then be gone only
  if it could have been removed. An argument that reads as a uuid is an id, never a name.\<close>

theorem remove_status_tells_outcome:
  assumes "on_daemon env menv orcs" "pr_peer s = (n, d)" "config_inv menv d"
    and "cli_execute env \<lparr>cli_json = json, cli_command = Some (CmdForward (CmdRemove rule))\<rparr> s = (r, s')"
  shows "main_exit r \<in> {0, 4, 5, 70} \<and> config_inv menv (snd (pr_peer s')) \<and>
    (main_exit r = 0 \<longrightarrow> (\<exists>i. named_id env rule d = Some i \<and> find_rule d i \<noteq> None \<and>
       i \<notin> dm_editing d \<and> running_of d i = None \<and>
       dm_rules (snd (pr_peer s')) = filter (\<lambda>r. r_id r \<noteq> i) (dm_rules d))) \<and>
    (main_exit r = 4 \<longrightarrow> snd (pr_peer s') = d \<and>
       (\<forall>i. named_id env rule d = Some i \<longrightarrow> find_rule d i = None)) \<and>
    (main_exit r = 5 \<longrightarrow> snd (pr_peer s') = d \<and>
       (\<exists>i. named_id env rule d = Some i \<and> (i \<in> dm_editing d \<or> running_of d i \<noteq> None))) \<and>
    (dm_rules (snd (pr_peer s')) \<noteq> dm_rules d \<longrightarrow> (\<exists>i. named_id env rule d = Some i \<and>
       i \<notin> dm_editing d \<and> running_of d i = None))"
proof -
  have call: "daemon_call env ForwardRemove (rule_selector env rule) json s = (r, s')"
    using assms(4) by (simp add: cli_execute_def execute_forward_def daemon_rule_call_def)
  show ?thesis
  proof (rule daemon_call_cases [OF call assms(1,2)])
    fix e assume "r = Err e" "local_failure e" "pr_peer s' = (n, d)"
    with assms(3) show ?thesis by simp
  next
    fix e d'
    assume h: "handled menv (orcs n) ForwardRemove (rule_selector env rule) d = (Err e, d')"
      "r = Err (cli_refusal json e)" "pr_peer s' = (Suc n, d')"
    from h(1) have "forward_remove menv (ro_fresh (orcs n)) (rule_selector env rule) d = (Err e, d')" by simp
    from this assms(1,3) show ?thesis by (rule forward_remove_cases) (use h assms(3) in \<open>cases e; auto\<close>)+
  next
    fix v d'
    assume h: "handled menv (orcs n) ForwardRemove (rule_selector env rule) d = (Ok v, d')"
      "r = Ok ()" "pr_peer s' = (Suc n, d')"
    from h(1) have "forward_remove menv (ro_fresh (orcs n)) (rule_selector env rule) d = (Ok v, d')" by simp
    from this assms(1,3) show ?thesis by (rule forward_remove_cases) (use h in auto)
  qed
qed

section \<open>Changing settings\<close>

definition given_settings :: "settings_args \<Rightarrow> settings \<Rightarrow> settings" where
  "given_settings args s = \<lparr>
     s_theme = (case sa_theme args of Some t \<Rightarrow> t | None \<Rightarrow> s_theme s),
     s_log_level = (case sa_log_level args of Some l \<Rightarrow> l | None \<Rightarrow> s_log_level s),
     s_default_reconnect = (case sa_default_reconnect args of Some b \<Rightarrow> b | None \<Rightarrow> s_default_reconnect s),
     s_default_auto_start = (case sa_default_auto_start args of Some b \<Rightarrow> b | None \<Rightarrow> s_default_auto_start s)\<rparr>"

lemma update_settings_sends:
  assumes "daemon_value env SettingsGet (JObj []) json s = (Ok (settings_to_json c), s1)"
  shows "update_settings env args json s =
    daemon_call env SettingsUpdate (settings_to_json (given_settings args c)) json s1"
  using assms
  by (cases "sa_theme args"; cases "sa_log_level args"; cases "sa_default_reconnect args";
      cases "sa_default_auto_start args")
    (simp_all add: update_settings_def st_bind_def set_given_def st_return_def settings_to_json_def
      given_settings_def)

text \<open>C16: \<open>tdeck settings set\<close> changes the settings it was given and no other. When it exits with
  0 the daemon has the old settings with exactly the given fields replaced, in memory and on
  disk, and the same rules and processes; otherwise it exits with 70, and what the daemon has
  is the old or the new settings, never a mixture. It never panics.\<close>

theorem settings_set_changes_given:
  assumes "on_daemon env menv orcs" "pr_peer s = (n, d)" "config_inv menv d"
    and "cli_execute env \<lparr>cli_json = json, cli_command = Some (CmdSettings (SettingsSet args))\<rparr> s = (r, s')"
  shows "config_inv menv (snd (pr_peer s')) \<and> same_runtime d (snd (pr_peer s')) \<and>
    dm_rules (snd (pr_peer s')) = dm_rules d \<and> main_exit r \<in> {0, 70} \<and>
    dm_settings (snd (pr_peer s')) \<in> {dm_settings d, given_settings args (dm_settings d)} \<and>
    (main_exit r = 0 \<longrightarrow> dm_settings (snd (pr_peer s')) = given_settings args (dm_settings d) \<and>
       pr_out s' = pr_out s @ shown SettingsUpdate json (settings_to_json (given_settings args (dm_settings d))))"
proof -
  have run: "update_settings env args json s = (r, s')" using assms(4) by (simp add: cli_execute_def)
  have toml: "toml_round_trip (me_toml menv)" using assms(1) by (simp add: on_daemon_defs)
  have codec: "ser_settings (me_codec menv) = settings_to_json" "de_settings (me_codec menv) = settings_from_json"
    using assms(1) by (simp_all add: on_daemon_defs)
  obtain q s1 where q: "daemon_value env SettingsGet (JObj []) json s = (q, s1)" by fastforce
  show ?thesis
  proof (rule daemon_value_cases [OF q assms(1,2)])
    fix e assume "q = Err e" "local_failure e" "pr_peer s1 = (n, d)"
    with run q have "r = Err e \<and> s' = s1" by (simp add: update_settings_def st_bind_def)
    with \<open>local_failure e\<close> \<open>pr_peer s1 = (n, d)\<close> assms(3) show ?thesis by simp
  next
    fix res d1 assume h: "handled menv (orcs n) SettingsGet (JObj []) d = (res, d1)"
      "q = map_err (cli_refusal json) res" "pr_peer s1 = (Suc n, d1)" "pr_out s1 = pr_out s"
    let ?new = "given_settings args (dm_settings d)"
    from h codec have d1: "d1 = d" "q = Ok (settings_to_json (dm_settings d))" by auto
    from update_settings_sends [OF q [unfolded d1(2)]] run
    have call: "daemon_call env SettingsUpdate (settings_to_json ?new) json s1 = (r, s')" by simp
    have upd: "config_inv menv d2 \<and> same_runtime d d2 \<and> dm_rules d2 = dm_rules d \<and>
        (dm_settings d2 = dm_settings d \<or> dm_settings d2 = ?new) \<and> (is_ok w \<longrightarrow> dm_settings d2 = ?new) \<and>
        (\<forall>e. w = Err e \<longrightarrow> fst e = Internal)"
      if "handled menv (orcs (Suc n)) SettingsUpdate (settings_to_json ?new) d = (w, d2)" for w d2
      using settings_update_cases [OF _ _ toml assms(3), of _ _ w d2 ?new] that codec by simp
    show ?thesis
    proof (rule daemon_call_cases [OF call assms(1) h(3) [unfolded d1]])
      fix e assume "r = Err e" "local_failure e" "pr_peer s' = (Suc n, d)"
      with assms(3) show ?thesis by simp
    next
      fix e d2 assume w: "handled menv (orcs (Suc n)) SettingsUpdate (settings_to_json ?new) d = (Err e, d2)"
        "r = Err (cli_refusal json e)" "pr_peer s' = (Suc (Suc n), d2)"
      from upd [OF w(1)] w(2,3) show ?thesis by auto
    next
      fix v d2 assume w: "handled menv (orcs (Suc n)) SettingsUpdate (settings_to_json ?new) d = (Ok v, d2)"
        "r = Ok ()" "pr_peer s' = (Suc (Suc n), d2)" "pr_out s' = pr_out s1 @ shown SettingsUpdate json v"
      have "v = settings_to_json ?new"
        using w(1) codec by (auto simp: settings_update_def Let_def split: prod.splits sum.splits option.splits)
      with upd [OF w(1)] w(2-4) h(4) show ?thesis by auto
    qed
  qed
qed

section \<open>Adding a rule\<close>

definition added_policy :: "bool option \<Rightarrow> bool \<Rightarrow> bool" where
  "added_policy given setting = (case given of Some b \<Rightarrow> b | None \<Rightarrow> setting)"

text \<open>The rule that the arguments describe, under settings \<open>c\<close>.\<close>

definition asked_rule :: "'d cli_env \<Rightarrow> add_args \<Rightarrow> settings \<Rightarrow> wire_rule" where
  "asked_rule env args c =
     (let auto_start = added_policy (aa_auto_start args) (s_default_auto_start c);
          reconnect = added_policy (aa_reconnect args) (s_default_reconnect c);
          w = \<lparr>w_id = ce_new_id env, w_name = aa_name args, w_ssh_host_alias = aa_ssh_host_alias args,
            w_bind_address = aa_bind_address args, w_bind_port = aa_bind_port args,
            w_destination_host = aa_destination_host args,
            w_destination_port = the (aa_destination_port args),
            w_auto_start = auto_start, w_reconnect = reconnect\<rparr>
      in case aa_kind args of
           ArgLocal \<Rightarrow> WLocal w
         | ArgRemote \<Rightarrow> WRemote w
         | ArgDynamic \<Rightarrow> WDynamic \<lparr>wd_id = ce_new_id env, wd_name = aa_name args,
             wd_ssh_host_alias = aa_ssh_host_alias args, wd_bind_address = aa_bind_address args,
             wd_bind_port = aa_bind_port args, wd_auto_start = auto_start, wd_reconnect = reconnect\<rparr>)"

definition complete_args :: "add_args \<Rightarrow> bool" where
  "complete_args args \<longleftrightarrow> aa_kind args = ArgDynamic \<or> aa_destination_port args \<noteq> None"

lemma policy_json: "as_bool (given_or_setting given (settings_to_json c) ''default_auto_start'') =
    Some (added_policy given (s_default_auto_start c))"
  "as_bool (given_or_setting given (settings_to_json c) ''default_reconnect'') =
    Some (added_policy given (s_default_reconnect c))"
  by (simp_all add: given_or_setting_def added_policy_def settings_to_json_def json_at_def split: option.split)

lemma add_payload_decodes:
  assumes "de (JStr (ce_show_uuid env (ce_new_id env))) = Some (ce_new_id env)" "complete_args args"
  shows "rule_from_json de (add_payload env args (settings_to_json c)
      (if aa_kind args = ArgDynamic then None else aa_destination_port args)) = Some (asked_rule env args c)"
proof (cases "aa_kind args = ArgDynamic")
  case True
  with assms show ?thesis
    by (simp add: add_payload_def asked_rule_def rule_json_defs u16_at_json policy_json Let_def)
next
  case False
  then obtain port where "aa_destination_port args = Some port" using assms(2) by (auto simp: complete_args_def)
  with False assms(1) show ?thesis
    by (cases "aa_kind args")
      (simp_all add: add_payload_def asked_rule_def rule_json_defs u16_at_json policy_json Let_def)
qed

lemma asked_rule_id: "domain_of_wire (asked_rule env args c) = Ok x \<Longrightarrow> r_id x = ce_new_id env"
  by (drule domain_of_wire_id) (simp add: asked_rule_def Let_def split: forward_kind.splits)

text \<open>The request of \<open>tdeck forward add\<close> once the defaults are known.\<close>

lemma add_request:
  assumes "daemon_call env ForwardAdd (add_payload env args (settings_to_json (dm_settings d))
      (if aa_kind args = ArgDynamic then None else aa_destination_port args)) json s = (r, s')"
      (is "daemon_call env _ ?p json s = _")
    and "on_daemon env menv orcs" "pr_peer s = (n, d)" "config_inv menv d" "complete_args args"
    and "find_rule d (ce_new_id env) = None" "ce_new_id env \<notin> dm_editing d"
  shows "let wire = asked_rule env args (dm_settings d); d' = snd (pr_peer s') in
    config_inv menv d' \<and> same_runtime d d' \<and> main_exit r \<in> {0, 2, 5, 70} \<and>
    (dm_rules d' = dm_rules d \<or> (\<exists>x. domain_of_wire wire = Ok x \<and> dm_rules d' = dm_rules d @ [x])) \<and>
    (main_exit r = 0 \<longrightarrow> (\<exists>x. domain_of_wire wire = Ok x \<and> dm_rules d' = dm_rules d @ [x])) \<and>
    (main_exit r = 2 \<longrightarrow> dm_rules d' = dm_rules d \<and> \<not> is_ok (domain_of_wire wire)) \<and>
    (main_exit r = 5 \<longrightarrow> dm_rules d' = dm_rules d \<and>
       (\<exists>x. domain_of_wire wire = Ok x \<and> \<not> is_ok (validate_rule_set (dm_rules d @ [x]))))"
proof -
  have toml: "toml_round_trip (me_toml menv)"
    and codec: "de_rule (me_codec menv) = rule_from_json (uuid_from_json (ce_parse_uuid env))"
    and ids: "readable_ids (ce_show_uuid env) (ce_parse_uuid env)"
    using assms(2) by (simp_all add: on_daemon_defs)
  have decoded: "de_rule (me_codec menv) ?p = Some (asked_rule env args (dm_settings d))"
    unfolding codec by (rule add_payload_decodes [OF _ assms(5)])
      (use ids in \<open>simp add: uuid_from_json_def readable_ids_def\<close>)
  have sent: ?thesis if f: "forward_add menv (ro_fresh (orcs n)) ?p d = (w, d2)"
    and "main_exit r = (if is_ok w then 0 else exit_number (code_exit (fst (projl w))))"
    and "snd (pr_peer s') = d2" for w d2
    by (rule forward_add_new [OF f decoded asked_rule_id assms(6,7) toml assms(4)])
      (use that(2,3) assms(4) in \<open>cases w; auto simp: same_runtime_def Let_def\<close>)+
  show ?thesis
  proof (rule daemon_call_cases [OF assms(1-3)])
    fix e assume "r = Err e" "local_failure e" "pr_peer s' = (n, d)"
    with assms(4) show ?thesis by (simp add: same_runtime_def)
  next
    fix e d2 assume "handled menv (orcs n) ForwardAdd ?p d = (Err e, d2)"
      "r = Err (cli_refusal json e)" "pr_peer s' = (Suc n, d2)"
    then show ?thesis by (intro sent [of "Err e" d2]) simp_all
  next
    fix v d2 assume "handled menv (orcs n) ForwardAdd ?p d = (Ok v, d2)"
      "r = Ok ()" "pr_peer s' = (Suc n, d2)"
    then show ?thesis by (intro sent [of "Ok v" d2]) simp_all
  qed
qed

text \<open>C14: \<open>tdeck forward add\<close> adds the rule its arguments describe or nothing. With a fresh id
  it exits with 0 only when the daemon's rules are the old ones followed by that rule, with the
  policy flags that were not given taken from the daemon's settings, and this is also what the
  disk holds. Status 2 means the arguments describe no valid rule, 5 that the rule clashes with
  an existing one, and then nothing has changed. Every other failure has status 70: a needed
  destination port that was not given, where nothing has changed, an error on the way to the
  daemon, or a save that failed; after the last the asked rule is there if the file was already
  in place, and no other change is possible.\<close>

theorem add_adds_asked_rule:
  assumes "on_daemon env menv orcs" "pr_peer s = (n, d)" "config_inv menv d"
    and "find_rule d (ce_new_id env) = None" "ce_new_id env \<notin> dm_editing d"
    and "cli_execute env \<lparr>cli_json = json, cli_command = Some (CmdForward (CmdAdd args))\<rparr> s = (r, s')"
  shows "let wire = asked_rule env args (dm_settings d); d' = snd (pr_peer s') in
    config_inv menv d' \<and> same_runtime d d' \<and> main_exit r \<in> {0, 2, 5, 70} \<and>
    (dm_rules d' = dm_rules d \<or> (\<exists>x. domain_of_wire wire = Ok x \<and> dm_rules d' = dm_rules d @ [x])) \<and>
    (main_exit r = 0 \<longrightarrow> (\<exists>x. domain_of_wire wire = Ok x \<and> dm_rules d' = dm_rules d @ [x])) \<and>
    (main_exit r = 2 \<longrightarrow> dm_rules d' = dm_rules d \<and> \<not> is_ok (domain_of_wire wire)) \<and>
    (main_exit r = 5 \<longrightarrow> dm_rules d' = dm_rules d \<and>
       (\<exists>x. domain_of_wire wire = Ok x \<and> \<not> is_ok (validate_rule_set (dm_rules d @ [x])))) \<and>
    (\<not> complete_args args \<longrightarrow> main_exit r = 70 \<and> dm_rules d' = dm_rules d)"
proof -
  have run: "execute_add env args json s = (r, s')"
    using assms(6) by (simp add: cli_execute_def execute_forward_def)
  have codec: "ser_settings (me_codec menv) = settings_to_json" using assms(1) by (simp add: on_daemon_defs)
  have unchanged: ?thesis if "main_exit r = 70" "snd (pr_peer s') = d"
    using that assms(3) by (simp add: same_runtime_def)
  obtain q s1 where q: "daemon_value env SettingsGet (JObj []) json s = (q, s1)" by fastforce
  show ?thesis
  proof (rule daemon_value_cases [OF q assms(1,2)])
    fix e assume "q = Err e" "local_failure e" "pr_peer s1 = (n, d)"
    moreover from this q run have "r = Err e \<and> s' = s1" by (simp add: execute_add_def st_bind_def)
    ultimately show ?thesis by (intro unchanged) simp_all
  next
    fix res d1 assume h: "handled menv (orcs n) SettingsGet (JObj []) d = (res, d1)"
      "q = map_err (cli_refusal json) res" "pr_peer s1 = (Suc n, d1)"
    from h codec have d1: "d1 = d" "q = Ok (settings_to_json (dm_settings d))" by auto
    show ?thesis
    proof (cases "complete_args args")
      case False
      with run q d1 have "main_exit r = 70" "s' = s1"
        by (auto simp: execute_add_def st_bind_def st_lift_def complete_args_def)
      with h(3) d1 show ?thesis by (intro unchanged) simp_all
    next
      case True
      then have "daemon_call env ForwardAdd (add_payload env args (settings_to_json (dm_settings d))
          (if aa_kind args = ArgDynamic then None else aa_destination_port args)) json s1 = (r, s')"
        using run q d1 by (simp add: execute_add_def st_bind_def complete_args_def split: if_splits)
      from add_request [OF this assms(1) h(3) [unfolded d1] assms(3) True assms(4,5)] True
      show ?thesis by (simp add: Let_def)
    qed
  qed
qed

section \<open>Importing forwards\<close>

lemma daemon_value_Ok:
  assumes "daemon_value env op payload json s = (Ok v, s')" "on_daemon env menv orcs" "pr_peer s = (n, d)"
  shows "\<exists>d'. handled menv (orcs n) op payload d = (Ok v, d') \<and> pr_peer s' = (Suc n, d')"
  using assms(1) by (rule daemon_value_cases [OF _ assms(2,3)]) (auto simp: eq_commute [of "Inr v"])

lemma daemon_value_Err:
  assumes "daemon_value env op payload json s = (Err e, s')" "on_daemon env menv orcs" "pr_peer s = (n, d)"
  shows "local_failure e \<and> pr_peer s' = (n, d) \<or> (\<exists>f d'. handled menv (orcs n) op payload d = (Err f, d') \<and>
    e = cli_refusal json f \<and> pr_peer s' = (Suc n, d'))"
  using assms(1) by (rule daemon_value_cases [OF _ assms(2,3)]) (auto simp: Inl_map_err)

lemma listed_rules_ok:
  assumes "on_daemon env menv orcs" "config_inv menv d" "forward_list menv d = Ok v"
  shows "listed_rules env v = Ok (dm_rules d)"
proof -
  have valid: "list_all valid_rule (dm_rules d)" using assms(2) by (simp add: config_inv_def well_formed_rules_def)
  have "v = rules_to_json (\<lambda>i. JStr (ce_show_uuid env i)) (map wire_of_domain (dm_rules d))"
    using assms by (simp add: on_daemon_defs forward_list_ok)
  moreover have "collect_results domain_of_wire (map wire_of_domain (dm_rules d)) = Ok (map id (dm_rules d))"
    by (rule collect_results_map) (use valid domain_of_wire_of_domain in \<open>auto simp: list_all_iff\<close>)
  ultimately show ?thesis using assms(1) by (simp add: listed_rules_def on_daemon_defs ok_or_def)
qed

text \<open>Looking changes no rule; it fails locally, or because the alias is no alias.\<close>

lemma looked_status:
  assumes "daemon_value env ForwardList (JObj []) json s = (Ok listed, s1)"
    and "try_result (listed_rules env listed) s1 = (Ok existing, s2)"
    and "daemon_value env Status (JObj []) json s2 = (Ok status, s3)"
    and "on_daemon env menv orcs" "pr_peer s = (n, d)" "config_inv menv d"
  obtains d' where "pr_peer s3 = (Suc (Suc n), d')" "same_config d d'" "dm_editing d' = dm_editing d"
    "existing = dm_rules d"
proof -
  have proc: "me_process menv" using assms(4) by (simp add: on_daemon_defs)
  from daemon_value_Ok [OF assms(1,4,5)] assms(2) listed_rules_ok [OF assms(4,6)]
  have "pr_peer s2 = (Suc n, d)" "existing = dm_rules d" by (auto simp: try_result_def st_lift_def)
  with daemon_value_Ok [OF assms(3,4) this(1)] always_answered(4) [OF proc] that show thesis by blast
qed

lemma import_look_cases:
  assumes "import_look env args json s = (r, s')" "on_daemon env menv orcs" "pr_peer s = (n, d)"
    "config_inv menv d"
  obtains e where "r = Err e" "main_exit (Inl e) \<in> {2, 70}" "same_config d (snd (pr_peer s'))"
  | preview running home n' d' where "r = Ok (dm_rules d, preview)" "pr_peer s' = (n', d')" "same_config d d'"
      "dm_editing d' = dm_editing d"
      "catalog_import_preview (ce_runner env) (config_catalog env home (ssh_program env)) (ia_host args)
         (dm_rules d) running = Ok preview"
proof -
  from assms(1) show thesis unfolding import_look_def
  proof (elim st_bind_cases)
    fix e assume "daemon_value env ForwardList (JObj []) json s = (Err e, s')" "r = Err e"
    with daemon_value_Err [OF this(1) assms(2,3)] always_answered(1) [OF assms(4)] that(1) show thesis by fastforce
  next
    fix listed s1 e
    assume "daemon_value env ForwardList (JObj []) json s = (Ok listed, s1)"
      "try_result (listed_rules env listed) s1 = (Err e, s')"
    with daemon_value_Ok [OF this(1) assms(2,3)] listed_rules_ok [OF assms(2,4)] show thesis
      by (auto simp: try_result_def st_lift_def)
  next
    fix listed s1 existing s2 e
    assume a: "daemon_value env ForwardList (JObj []) json s = (Ok listed, s1)"
      "try_result (listed_rules env listed) s1 = (Ok existing, s2)"
      "daemon_value env Status (JObj []) json s2 = (Err e, s')" "r = Err e"
    from daemon_value_Ok [OF a(1) assms(2,3)] a(2) have "pr_peer s2 = (Suc n, d)"
      by (auto simp: try_result_def st_lift_def)
    from daemon_value_Err [OF a(3) assms(2) this] always_answered(3) a(4) that(1) show thesis by fastforce
  next
    fix listed s1 existing s2 status s3 e
    assume a: "daemon_value env ForwardList (JObj []) json s = (Ok listed, s1)"
      "try_result (listed_rules env listed) s1 = (Ok existing, s2)"
      "daemon_value env Status (JObj []) json s2 = (Ok status, s3)"
      "try_result (home_dir env) s3 = (Err e, s')" "r = Err e"
    have "local_failure e" "s' = s3"
      using a(4) by (auto simp: try_result_def st_lift_def home_dir_def ok_or_def local_failure_def split: option.splits)
    with looked_status [OF a(1-3) assms(2-4)] a(5) that(1) show thesis by force
  next
    fix listed s1 existing s2 status s3 home s4 e
    assume a: "daemon_value env ForwardList (JObj []) json s = (Ok listed, s1)"
      "try_result (listed_rules env listed) s1 = (Ok existing, s2)"
      "daemon_value env Status (JObj []) json s2 = (Ok status, s3)"
      "try_result (home_dir env) s3 = (Ok home, s4)"
      "try_result (map_err AppHost (catalog_import_preview (ce_runner env)
        (config_catalog env home (ssh_program env)) (ia_host args) existing (running_ids env status))) s4 = (Err e, s')"
      "r = Err e"
    obtain h where "e = Failed (AppHost h)" "s' = s3" using a(4,5) by (auto simp: try_result_def st_lift_def)
    moreover from this have "main_exit (Inl e) \<in> {2, 70}" by (cases h) simp_all
    ultimately show thesis using looked_status [OF a(1-3) assms(2-4)] a(6) that(1) by (metis snd_conv)
  next
    fix listed s1 existing s2 status s3 home s4 preview s5
    assume a: "daemon_value env ForwardList (JObj []) json s = (Ok listed, s1)"
      "try_result (listed_rules env listed) s1 = (Ok existing, s2)"
      "daemon_value env Status (JObj []) json s2 = (Ok status, s3)"
      "try_result (home_dir env) s3 = (Ok home, s4)"
      "try_result (map_err AppHost (catalog_import_preview (ce_runner env)
        (config_catalog env home (ssh_program env)) (ia_host args) existing (running_ids env status))) s4 =
        (Ok preview, s5)"
      "st_return (existing, preview) s5 = (r, s')"
    obtain d2 where "pr_peer s3 = (Suc (Suc n), d2)" "same_config d d2" "dm_editing d2 = dm_editing d"
      "existing = dm_rules d" by (rule looked_status [OF a(1-3) assms(2-4)])
    with a(4-6) that(2) [where n' = "Suc (Suc n)" and d' = d2] show thesis
      by (auto simp: try_result_def st_lift_def st_return_def)
  qed
qed

text \<open>The ids drawn for the chosen candidates: all different and none of a rule there is.\<close>

definition fresh_ids :: "'d cli_env \<Rightarrow> nat list \<Rightarrow> daemon \<Rightarrow> bool" where
  "fresh_ids env ks d \<longleftrightarrow> inj_on (ce_ids env) (set ks) \<and> (\<forall>k \<in> set ks. find_rule d (ce_ids env k) = None)"

lemma selected_rules_ids:
  assumes "selected_rules new_id preview chosen existing a p = Ok rules" "inj_on new_id (set chosen)"
  shows "rules \<noteq> [] \<and> distinct (map r_id rules) \<and> r_id ` set rules \<subseteq> new_id ` set chosen"
proof -
  let ?ks = "filter (\<lambda>j. j \<in> set chosen) [1 ..< 1 + length (ip_candidates preview)]"
  have ids: "map r_id rules = map new_id ?ks"
    using assms(1) by (intro select_loop_ids) (auto simp: selected_rules_def split: if_splits)
  have "chosen \<noteq> []" "0 \<notin> set chosen" "\<forall>i \<in> set chosen. i \<le> length (ip_candidates preview)"
    using assms(1) by (auto simp: selected_rules_def list_ex_iff split: if_splits)
  moreover from this obtain c where c: "c \<in> set chosen" by (cases chosen) auto
  ultimately have "1 \<le> c" "c < 1 + length (ip_candidates preview)" by (cases c; auto)+
  with c have "c \<in> set ?ks" by (simp del: upt_Suc)
  then have "?ks \<noteq> []" by (metis empty_iff empty_set)
  then have "rules \<noteq> []" using ids by (metis map_is_Nil_conv)
  moreover have "distinct (map r_id rules)"
    unfolding ids using inj_on_subset [OF assms(2), of "set ?ks"] by (simp add: distinct_map subset_iff)
  moreover have "set (map r_id rules) \<subseteq> new_id ` set chosen" unfolding ids by auto
  ultimately show ?thesis by simp
qed

lemma import_request:
  assumes "daemon_value env ForwardImport
      (JObj [(''rules'', rules_to_json (\<lambda>i. JStr (ce_show_uuid env i)) (map wire_of_domain rules))]) json s = (w, s')"
      (is "daemon_value env _ ?p json s = _")
    and "on_daemon env menv orcs" "pr_peer s = (n, d)" "config_inv menv d"
    and "well_formed_rules (dm_rules d @ rules)" "rules \<noteq> []" "distinct (map r_id rules)"
    and "\<And>x. x \<in> set rules \<Longrightarrow> find_rule d (r_id x) = None"
  shows "config_inv menv (snd (pr_peer s')) \<and> same_runtime d (snd (pr_peer s')) \<and>
    (dm_rules (snd (pr_peer s')) = dm_rules d \<or> dm_rules (snd (pr_peer s')) = dm_rules d @ rules) \<and>
    main_exit (map_ok (\<lambda>_. ()) w) \<in> {0, 70} \<and>
    (main_exit (map_ok (\<lambda>_. ()) w) = 0 \<longrightarrow> dm_rules (snd (pr_peer s')) = dm_rules d @ rules)"
proof (rule daemon_value_cases [OF assms(1-3)])
  fix e assume "w = Err e" "local_failure e" "pr_peer s' = (n, d)"
  with assms(4) show ?thesis by (simp add: same_runtime_def)
next
  fix res d2 assume i: "handled menv (orcs n) ForwardImport ?p d = (res, d2)"
    "w = map_err (cli_refusal json) res" "pr_peer s' = (Suc n, d2)"
  have "de_import (me_codec menv) ?p = Some (map wire_of_domain rules)" and toml: "toml_round_trip (me_toml menv)"
    using assms(2) by (simp_all add: on_daemon_defs)
  from forward_import_new [OF _ this(1) assms(6-8,5) toml assms(4)] i(1)
  have "config_inv menv d2 \<and> same_runtime d d2 \<and>
      (dm_rules d2 = dm_rules d \<or> dm_rules d2 = dm_rules d @ rules) \<and>
      (is_ok res \<longrightarrow> dm_rules d2 = dm_rules d @ rules) \<and>
      (\<forall>code msg. res = Err (code, msg) \<longrightarrow> code = Internal)" by auto
  with i(2,3) show ?thesis by (cases res) auto
qed

lemma save_selected_cases:
  assumes "save_selected env chosen preview (dm_rules d) output json s = (r, s')"
    and "on_daemon env menv orcs" "pr_peer s = (n, d)" "config_inv menv d" "fresh_ids env chosen d"
    and "preview_effective_forwards alias out (dm_rules d) running = Ok preview"
  obtains e where "r = Err e" "main_exit (Inl e) = 70" "snd (pr_peer s') = d"
  | rules where "selected_rules (ce_ids env) preview chosen (dm_rules d)
        (s_default_auto_start (dm_settings d)) (s_default_reconnect (dm_settings d)) = Ok rules"
      "config_inv menv (snd (pr_peer s'))" "same_runtime d (snd (pr_peer s'))"
      "dm_rules (snd (pr_peer s')) = dm_rules d \<or> dm_rules (snd (pr_peer s')) = dm_rules d @ rules"
      "main_exit (map_ok (\<lambda>_. ()) r) \<in> {0, 70}"
      "main_exit (map_ok (\<lambda>_. ()) r) = 0 \<longrightarrow> dm_rules (snd (pr_peer s')) = dm_rules d @ rules"
proof -
  have codec: "ser_settings (me_codec menv) = settings_to_json" using assms(2) by (simp add: on_daemon_defs)
  let ?c = "dm_settings d"
  let ?sel = "selected_rules (ce_ids env) preview chosen (dm_rules d)
    (s_default_auto_start ?c) (s_default_reconnect ?c)"
  show thesis
  proof (cases "distinct chosen \<and> 0 \<notin> set chosen \<and> \<not> list_ex (\<lambda>i. length (ip_candidates preview) < i) chosen")
    case False
    with assms(1,3) that(1) show thesis by (auto simp: save_selected_def st_lift_def split: if_splits)
  next
    case True
    obtain q s1 where q: "daemon_value env SettingsGet (JObj []) json s = (q, s1)" by fastforce
    show thesis
    proof (rule daemon_value_cases [OF q assms(2,3)])
      fix e assume e: "q = Err e" "local_failure e" "pr_peer s1 = (n, d)"
      with q assms(1) True have "r = Err e" "s' = s1" by (simp_all add: save_selected_def st_bind_def)
      with that(1) e show thesis by simp
    next
      fix res d1 assume h: "handled menv (orcs n) SettingsGet (JObj []) d = (res, d1)"
        "q = map_err (cli_refusal json) res" "pr_peer s1 = (Suc n, d1)"
      from h codec have d1: "d1 = d" "q = Ok (settings_to_json ?c)" by auto
      show thesis
      proof (cases ?sel)
        case (Inl e)
        with q d1 assms(1) True have "r = Err (Failed (AppConfiguration (BySelection e)))" "s' = s1"
          by (simp_all add: save_selected_def st_bind_def try_result_def st_lift_def ok_or_def)
        with that(1) h(3) d1 show thesis by simp
      next
        case (Inr rules)
        let ?p = "JObj [(''rules'', rules_to_json (\<lambda>i. JStr (ce_show_uuid env i)) (map wire_of_domain rules))]"
        from q d1 assms(1) True Inr have rest: "st_bind (daemon_value env ForwardImport ?p json) (\<lambda>saved.
            st_return (json_set output ''saved_rule_ids'' (json_at saved ''rule_ids''))) s1 = (r, s')"
          by (simp add: save_selected_def st_bind_def try_result_def st_lift_def ok_or_def)
        have wf: "well_formed_rules (dm_rules d @ rules)"
          using imported_rules_well_formed [OF assms(6) _ Inr] assms(4) by (simp add: config_inv_def)
        have inj: "inj_on (ce_ids env) (set chosen)" and new: "\<forall>k \<in> set chosen. find_rule d (ce_ids env k) = None"
          using assms(5) by (simp_all add: fresh_ids_def)
        note drawn = selected_rules_ids [OF Inr inj]
        have apart: "find_rule d (r_id x) = None" if "x \<in> set rules" for x
        proof -
          from drawn that obtain k where "k \<in> set chosen" "r_id x = ce_ids env k" by blast
          with new show ?thesis by simp
        qed
        obtain w s2 where w: "daemon_value env ForwardImport ?p json s1 = (w, s2)" by (rule prod.exhaust)
        have "s' = s2 \<and> main_exit (map_ok (\<lambda>_. ()) r) = main_exit (map_ok (\<lambda>_. ()) w)"
          using rest w by (cases w) (auto simp: st_bind_def st_return_def)
        with import_request [OF w assms(2) h(3) [unfolded d1] assms(4) wf _ _ apart] drawn that(2) [OF Inr]
        show thesis by auto
      qed
    qed
  qed
qed

text \<open>C17: \<open>tdeck forward import --select\<close> saves exactly the selected candidates. The preview is
  made against the rules the daemon has; when the command exits with 0, one rule per selected
  candidate, with the policy of the daemon's settings, follows the rules there were, and
  memory and disk agree. Nothing it offers can be refused as invalid or conflicting: with
  fresh ids the status is 0, 2 for a bad alias, or 70, and no rule ever goes away.\<close>

theorem import_saves_selection:
  assumes "on_daemon env menv orcs" "pr_peer s = (n, d)" "config_inv menv d" "fresh_ids env (ia_select args) d"
    and "ia_select args \<noteq> []"
    and "cli_execute env \<lparr>cli_json = json, cli_command = Some (CmdForward (CmdImport args))\<rparr> s = (r, s')"
  shows "config_inv menv (snd (pr_peer s')) \<and> main_exit r \<in> {0, 2, 70} \<and>
    (main_exit r = 2 \<longrightarrow> dm_rules (snd (pr_peer s')) = dm_rules d) \<and>
    (dm_rules (snd (pr_peer s')) = dm_rules d \<and> main_exit r \<noteq> 0 \<or>
     (\<exists>preview home running rules.
        catalog_import_preview (ce_runner env) (config_catalog env home (ssh_program env)) (ia_host args)
          (dm_rules d) running = Ok preview \<and>
        selected_rules (ce_ids env) preview (ia_select args) (dm_rules d)
          (s_default_auto_start (dm_settings d)) (s_default_reconnect (dm_settings d)) = Ok rules \<and>
        dm_rules (snd (pr_peer s')) = dm_rules d @ rules))"
proof -
  have run: "execute_import env args json s = (r, s')"
    using assms(6) by (simp add: cli_execute_def execute_forward_def)
  obtain q s1 where q: "import_look env args json s = (q, s1)" by fastforce
  from q assms(1-3) show ?thesis
  proof (rule import_look_cases)
    fix e assume e: "q = Err e" "main_exit (Inl e) \<in> {2, 70}" "same_config d (snd (pr_peer s1))"
    with q run have "r = Err e" "s' = s1" by (simp_all add: execute_import_def st_bind_def)
    with e config_inv_same [OF assms(3) e(3)] show ?thesis by (auto simp: same_config_def)
  next
    fix preview running home n' d1
    assume look: "q = Ok (dm_rules d, preview)" "pr_peer s1 = (n', d1)" "same_config d d1"
      and cat: "catalog_import_preview (ce_runner env) (config_catalog env home (ssh_program env)) (ia_host args)
        (dm_rules d) running = Ok preview"
    have same: "dm_rules d1 = dm_rules d" "dm_settings d1 = dm_settings d" and inv: "config_inv menv d1"
      using look(3) config_inv_same [OF assms(3)] by (simp_all add: same_config_def)
    have fresh: "fresh_ids env (ia_select args) d1" using assms(4) find_rule_same [OF look(3)] by (simp add: fresh_ids_def)
    obtain host out where pre: "preview_effective_forwards host out (dm_rules d1) running = Ok preview"
      using cat same by (auto simp: catalog_import_preview_def)
    let ?out = "import_preview_json (ce_show_uuid env) preview"
    obtain w s2 where w: "save_selected env (ia_select args) preview (dm_rules d1) ?out json s1 = (w, s2)"
      by fastforce
    have peer: "pr_peer s' = pr_peer s2" and exits: "main_exit r = main_exit (map_ok (\<lambda>_. ()) w)"
      using q look run w assms(5) same
      by (cases w; auto simp: execute_import_def st_bind_def Let_def print_line_def run_print split: if_splits)+
    from w assms(1) look(2) inv fresh pre show ?thesis
      by (rule save_selected_cases) (use peer exits same inv cat in auto)
  qed
qed

section \<open>Commands that run\<close>

text \<open>A process of the user whose daemon is the sample one; \<open>later\<close> lists the documents that it
  will store.\<close>

definition sample_cli :: "config_v2 list \<Rightarrow> served cli_env" where
  "sample_cli later = \<lparr>ce_var = (\<lambda>v. if v = ''HOME'' then Some (lit ''/h'') else None), ce_platform = Linux,
     ce_uid = 1000, ce_exe = Ok (lit ''/bin/tdeck''),
     ce_link = (\<lambda>_ _. direct_link (served_env later) (\<lambda>_. quiet_oracle) (\<lambda>_. 5)),
     ce_new_id = 9, ce_ids = (\<lambda>n. word_of_nat (100 + n)), ce_show_uuid = sample_show_uuid,
     ce_parse_uuid = decimal_id,
     ce_world = \<lparr>cw_canonical = Ok, cw_text = (\<lambda>_. Ok []), cw_glob = (\<lambda>_. Ok [])\<rparr>,
     ce_runner = (\<lambda>_ _ _. Ok \<lparr>po_status = Exited 0,
       po_stdout = lit ''dynamicforward 7'', po_stderr = [], po_timed_out = False\<rparr>),
     ce_tree = Command_Tree (lit ''tdeck'') None False [], ce_completion = (\<lambda>_. []),
     ce_manpage = Ok [], ce_tui = st_return (), ce_lock_held = False, ce_lock_mode = 384,
     ce_socket_mode = 493, ce_lock_clone = Ok (), ce_toml = table_toml [], ce_backup_id = 8, ce_save_id = 9,
     ce_serve = (\<lambda>_. st_return ()), ce_guardian = (\<lambda>_ _. Ok ())\<rparr>"

definition sample_process :: "served process" where
  "sample_process = \<lparr>pr_tree = sample_tree, pr_dirs = (\<lambda>_. sample_dir []), pr_peer = (0, served_daemon),
     pr_out = [], pr_err = [], pr_terminal = plain_terminal\<rparr>"

definition ran :: "config_v2 list \<Rightarrow> command \<Rightarrow> (stop + unit) \<times> served process" where
  "ran later cmd = cli_execute (sample_cli later) \<lparr>cli_json = False, cli_command = Some cmd\<rparr> sample_process"

lemma sample_on_daemon:
  "length later \<le> 25 \<Longrightarrow> on_daemon (sample_cli later) (served_env later) (\<lambda>_. quiet_oracle)"
  using served_env_speaks by (auto simp: on_daemon_def sample_cli_def)

lemma sample_peer: "pr_peer sample_process = (0, served_daemon)"
  by (simp add: sample_process_def)

lemma ran_pair:
  "cli_execute (sample_cli later) \<lparr>cli_json = False, cli_command = Some cmd\<rparr> sample_process =
    (fst (ran later cmd), snd (ran later cmd))"
  by (simp add: ran_def)

definition sample_paths :: app_paths where
  "sample_paths = projr (fst (paths_resolve Linux (lit ''/h'') 1000
     \<lparr>xo_config = None, xo_state = None, xo_runtime = None\<rparr> sample_tree))"

lemma sample_paths_resolved:
  "paths_resolve Linux (lit ''/h'') 1000 \<lparr>xo_config = None, xo_state = None, xo_runtime = None\<rparr> t =
    (Ok sample_paths, t)"
  by (simp add: sample_paths_def paths_resolve_def runtime_dir_def st_defs Let_def)

lemma sample_daemon_value:
  "daemon_value (sample_cli later) op payload json s =
    (let (res, d') = handled (served_env later) quiet_oracle op payload (snd (pr_peer s))
     in (map_err (cli_refusal json) res, s\<lparr>pr_peer := (Suc (fst (pr_peer s)), d')\<rparr>))"
proof -
  have paths: "resolved_paths (sample_cli later) s = (Ok sample_paths, s)"
  proof -
    have "set_var (sample_cli later) v = (if v = ''HOME'' then Some (lit ''/h'') else None)" for v
      by (auto simp: set_var_def sample_cli_def split: list.split)
    moreover have "ce_platform (sample_cli later) = Linux" "ce_uid (sample_cli later) = 1000"
      by (simp_all add: sample_cli_def)
    ultimately show ?thesis
      by (simp add: resolved_paths_def home_dir_def try_result_def st_defs on_tree_def ok_or_def
          sample_paths_resolved)
  qed
  have "is_ok (socket_path sample_paths Linux)" by code_simp
  then obtain socket where socket: "socket_path sample_paths Linux = Ok socket" by (auto simp: is_ok_iff)
  obtain res d' where h: "handled (served_env later) quiet_oracle op payload (snd (pr_peer s)) = (res, d')"
    by fastforce
  obtain n d where peer: "pr_peer s = (n, d)" by fastforce
  have link: "ce_link (sample_cli later) a b = direct_link (served_env later) (\<lambda>_. quiet_oracle) (\<lambda>_. 5)"
    "ce_platform (sample_cli later) = Linux" "ce_exe (sample_cli later) = Ok (lit ''/bin/tdeck'')" for a b
    by (simp_all add: sample_cli_def)
  show ?thesis using h peer
    by (cases res) (auto simp: daemon_value_def st_bind_def paths socket try_result_def st_lift_def link
        st_map_err_def on_peer_def link_call_direct cli_refusal_def)
qed

definition answer_exit :: "failure + json \<Rightarrow> nat" where
  "answer_exit res = (case res of Inl (code, _) \<Rightarrow> exit_number (code_exit code) | Inr _ \<Rightarrow> 0)"

lemma sample_call_exit:
  "snd (pr_peer s) = served_daemon \<Longrightarrow>
   main_exit (fst (daemon_call (sample_cli later) op payload json s)) =
     answer_exit (fst (handled (served_env later) quiet_oracle op payload served_daemon))"
  by (cases "handled (served_env later) quiet_oracle op payload served_daemon")
    (auto simp: daemon_call_def st_bind_def sample_daemon_value print_human_def run_print print_line_def
      answer_exit_def split: sum.splits)

lemma codec_settings: "ser_settings (me_codec (served_env later)) = settings_to_json"
  by (simp add: served_env_def)

lemma quiet_fresh [simp]: "ro_fresh quiet_oracle = 77"
  by (simp add: quiet_oracle_def)

definition removal_documents :: "config_v2 list" where
  "removal_documents = [document [served_wire 1 ''a'' 3000] default_settings]"

lemma decimal_ids: "decimal_id (lit ''b'') = None" "decimal_id (lit ''1'') = Some 1" "sample_show_uuid 1 = lit ''1''"
  by code_simp+

lemma removal_exit:
  "main_exit (fst (ran later (CmdForward (CmdRemove rule)))) = answer_exit (fst (forward_remove
     (served_env later) 77 (rule_selector (sample_cli later) rule) served_daemon))"
  by (simp add: ran_def cli_execute_def execute_forward_def daemon_rule_call_def sample_call_exit sample_peer)

lemma removal_selectors:
  "rule_selector (sample_cli later) (lit ''b'') = JObj [(''rule_name'', JStr (lit ''b''))]"
  "rule_selector (sample_cli later) (lit ''1'') = JObj [(''rule_id'', JStr (lit ''1''))]"
  by (simp_all add: rule_selector_def sample_cli_def decimal_ids)

lemma removal_answers:
  "answer_exit (fst (forward_remove (served_env removal_documents) 77
     (JObj [(''rule_name'', JStr (lit ''b''))]) served_daemon)) = 0"
  "answer_exit (fst (forward_remove (served_env removal_documents) 77
     (JObj [(''rule_id'', JStr (lit ''1''))]) served_daemon)) = 5"
  by code_simp+

text \<open>Removing the stopped rule \<open>b\<close> succeeds, the running rule 1 is refused.\<close>

theorem remove_status_tells_outcome_witness:
  "dm_rules (snd (pr_peer (snd (ran removal_documents (CmdForward (CmdRemove (lit ''b''))))))) =
     filter (\<lambda>r. r_id r \<noteq> 2) served_rules \<and>
   snd (pr_peer (snd (ran removal_documents (CmdForward (CmdRemove (lit ''1'')))))) = served_daemon"
proof -
  have on: "on_daemon (sample_cli removal_documents) (served_env removal_documents) (\<lambda>_. quiet_oracle)"
    by (rule sample_on_daemon) (simp add: removal_documents_def)
  have "map_option r_id (find (\<lambda>r. rule_name_str (r_name r) = lit ''b'') (dm_rules served_daemon)) = Some 2"
    by code_simp
  then have named: "named_id (sample_cli removal_documents) (lit ''b'') served_daemon = Some 2"
    by (simp add: named_id_def sample_cli_def decimal_ids)
  have exits: "main_exit (fst (ran removal_documents (CmdForward (CmdRemove (lit ''b''))))) = 0"
    "main_exit (fst (ran removal_documents (CmdForward (CmdRemove (lit ''1''))))) = 5"
    by (simp_all add: removal_exit removal_selectors removal_answers)
  note res = remove_status_tells_outcome [OF on sample_peer served_config ran_pair]
  from res [of "lit ''b''"] exits(1) named have
    "dm_rules (snd (pr_peer (snd (ran removal_documents (CmdForward (CmdRemove (lit ''b''))))))) =
      filter (\<lambda>r. r_id r \<noteq> 2) (dm_rules served_daemon)" by auto
  moreover from res [of "lit ''1''"] exits(2) have
    "snd (pr_peer (snd (ran removal_documents (CmdForward (CmdRemove (lit ''1'')))))) = served_daemon" by auto
  ultimately show ?thesis by (simp add: served_daemon_def)
qed

definition dark_args :: settings_args where
  "dark_args = \<lparr>sa_theme = Some Dark, sa_log_level = None, sa_default_reconnect = Some True,
     sa_default_auto_start = None\<rparr>"

definition dark_settings :: settings where
  "dark_settings = \<lparr>s_theme = Dark, s_log_level = LvInfo, s_default_reconnect = True,
     s_default_auto_start = False\<rparr>"

definition settings_documents :: "config_v2 list" where
  "settings_documents = [document [served_wire 1 ''a'' 3000, served_wire 2 ''b'' 3001] dark_settings]"

theorem settings_set_changes_given_witness:
  "dm_settings (snd (pr_peer (snd (ran settings_documents (CmdSettings (SettingsSet dark_args)))))) = dark_settings"
proof -
  have on: "on_daemon (sample_cli settings_documents) (served_env settings_documents) (\<lambda>_. quiet_oracle)"
    by (rule sample_on_daemon) (simp add: settings_documents_def)
  have given: "given_settings dark_args (dm_settings served_daemon) = dark_settings"
    by (simp add: given_settings_def dark_args_def dark_settings_def served_daemon_def default_settings_def)
  have "answer_exit (fst (settings_update (served_env settings_documents) 77
      (settings_to_json dark_settings) served_daemon)) = 0" by code_simp
  then have exits: "main_exit (fst (ran settings_documents (CmdSettings (SettingsSet dark_args)))) = 0"
    using update_settings_sends [of "sample_cli settings_documents" False sample_process
        "dm_settings served_daemon" _ dark_args]
    by (simp add: ran_def cli_execute_def sample_daemon_value sample_peer codec_settings given sample_call_exit)
  from given settings_set_changes_given [OF on sample_peer served_config ran_pair] exits show ?thesis by auto
qed

lemma served_new: "find_rule served_daemon 9 = None" "find_rule served_daemon 101 = None"
  by code_simp+

definition socks_args :: add_args where
  "socks_args = \<lparr>aa_kind = ArgDynamic, aa_name = lit ''socks'', aa_ssh_host_alias = lit ''web'',
     aa_bind_address = lit ''127.0.0.1'', aa_bind_port = 1080, aa_destination_host = lit ''127.0.0.1'',
     aa_destination_port = None, aa_auto_start = Some True, aa_reconnect = None\<rparr>"

definition socks_wire :: wire_rule where
  "socks_wire = WDynamic \<lparr>wd_id = 9, wd_name = lit ''socks'', wd_ssh_host_alias = lit ''web'',
     wd_bind_address = lit ''127.0.0.1'', wd_bind_port = 1080, wd_auto_start = True, wd_reconnect = False\<rparr>"

definition socks_documents :: "config_v2 list" where
  "socks_documents =
     [document [served_wire 1 ''a'' 3000, served_wire 2 ''b'' 3001, socks_wire] default_settings]"

theorem add_adds_asked_rule_witness:
  "\<exists>x. domain_of_wire socks_wire = Ok x \<and>
     dm_rules (snd (pr_peer (snd (ran socks_documents (CmdForward (CmdAdd socks_args)))))) = served_rules @ [x]"
proof -
  have on: "on_daemon (sample_cli socks_documents) (served_env socks_documents) (\<lambda>_. quiet_oracle)"
    by (rule sample_on_daemon) (simp add: socks_documents_def)
  have new: "find_rule served_daemon (ce_new_id (sample_cli socks_documents)) = None"
    "ce_new_id (sample_cli socks_documents) \<notin> dm_editing served_daemon"
    using served_new by (simp_all add: sample_cli_def served_daemon_def)
  have payload: "add_payload (sample_cli socks_documents) socks_args (settings_to_json (dm_settings served_daemon)) None =
      JObj [(''kind'', JStr (lit ''dynamic'')), (''id'', JStr (sample_show_uuid 9)), (''name'', JStr (lit ''socks'')),
        (''ssh_host_alias'', JStr (lit ''web'')), (''bind_address'', JStr (lit ''127.0.0.1'')),
        (''bind_port'', JNat 1080), (''auto_start'', JBool True), (''reconnect'', JBool False)]"
    by (simp add: add_payload_def socks_args_def sample_cli_def json_u16_def given_or_setting_def
        settings_to_json_def json_at_def served_daemon_def default_settings_def)
  have "answer_exit (fst (forward_add (served_env socks_documents) 77
      (JObj [(''kind'', JStr (lit ''dynamic'')), (''id'', JStr (sample_show_uuid 9)), (''name'', JStr (lit ''socks'')),
        (''ssh_host_alias'', JStr (lit ''web'')), (''bind_address'', JStr (lit ''127.0.0.1'')),
        (''bind_port'', JNat 1080), (''auto_start'', JBool True), (''reconnect'', JBool False)])
      served_daemon)) = 0" by code_simp
  then have exits: "main_exit (fst (ran socks_documents (CmdForward (CmdAdd socks_args)))) = 0"
    by (simp add: ran_def cli_execute_def execute_forward_def execute_add_def st_bind_def sample_daemon_value
        sample_peer codec_settings socks_args_def [THEN arg_cong, of aa_kind] sample_call_exit payload)
  have "asked_rule (sample_cli socks_documents) socks_args (dm_settings served_daemon) = socks_wire"
    by (simp add: asked_rule_def socks_args_def socks_wire_def sample_cli_def added_policy_def served_daemon_def
        default_settings_def)
  with add_adds_asked_rule [OF on sample_peer served_config new ran_pair, of socks_args] exits
  have "\<exists>x. domain_of_wire socks_wire = Ok x \<and>
     dm_rules (snd (pr_peer (snd (ran socks_documents (CmdForward (CmdAdd socks_args)))))) =
       dm_rules served_daemon @ [x]"
    unfolding Let_def by simp
  then show ?thesis by (simp add: served_daemon_def)
qed

definition chosen_args :: import_args where
  "chosen_args = \<lparr>ia_host = lit ''web'', ia_select = [1]\<rparr>"

definition imported_wire :: wire_rule where
  "imported_wire = WDynamic \<lparr>wd_id = 101, wd_name = lit ''import-dynamic-7'', wd_ssh_host_alias = lit ''web'',
     wd_bind_address = lit ''localhost'', wd_bind_port = 7, wd_auto_start = False, wd_reconnect = False\<rparr>"

definition import_documents :: "config_v2 list" where
  "import_documents =
     [document [served_wire 1 ''a'' 3000, served_wire 2 ''b'' 3001, imported_wire] default_settings]"

definition imported_preview :: import_preview where
  "imported_preview = \<lparr>ip_alias = lit ''web'', ip_candidates = [\<lparr>ic_kind = DynamicKind,
     ic_forwarding = Some (ImportDynamic (lit ''localhost'') 7), ic_classification = Supported\<rparr>]\<rparr>"

definition looked :: "(stop + rule list \<times> import_preview) \<times> served process" where
  "looked = import_look (sample_cli import_documents) chosen_args False sample_process"

lemma sample_previewed:
  "preview_effective_forwards (lit ''web'') (lit ''dynamicforward 7'') served_rules running = Ok imported_preview"
  by code_simp

lemma sample_looked: "fst looked = Ok (served_rules, imported_preview)" "pr_peer (snd looked) = (2, served_daemon)"
proof -
  let ?env = "sample_cli import_documents"
  have list: "forward_list (served_env import_documents) served_daemon =
      Ok (ser_rules (me_codec (served_env import_documents)) (map wire_of_domain served_rules))"
    using forward_list_ok [OF served_config] by (simp add: served_daemon_def)
  have status: "handled (served_env import_documents) quiet_oracle Status (JObj []) served_daemon =
      (Ok (status_answer (served_env import_documents) 9 served_daemon), served_daemon)"
    by (simp add: handled_def quiet_maintain) (simp add: quiet_oracle_def)
  have on: "on_daemon ?env (served_env import_documents) (\<lambda>_. quiet_oracle)"
    by (rule sample_on_daemon) (simp add: import_documents_def)
  have listed: "listed_rules ?env (ser_rules (me_codec (served_env import_documents)) (map wire_of_domain served_rules)) =
      Ok served_rules"
    using listed_rules_ok [OF on served_config forward_list_ok [OF served_config]] by (simp add: served_daemon_def)
  have home: "home_dir ?env = Ok (lit ''/h'')"
    by (simp add: home_dir_def set_var_def sample_cli_def ok_or_def split: list.split)
  have "is_ok (host_alias_new (lit ''web''))" by code_simp
  then obtain h where h: "host_alias_new (lit ''web'') = Ok h" "alias_str h = lit ''web''"
    by (auto simp: is_ok_iff host_alias_new_Ok)
  have cat: "catalog_import_preview (ce_runner ?env) cat (lit ''web'') served_rules running = Ok imported_preview" for cat running
    by (simp add: catalog_import_preview_def h effective_output_def sample_cli_def status_success_def sample_previewed)
  show "fst looked = Ok (served_rules, imported_preview)" "pr_peer (snd looked) = (2, served_daemon)"
    by (simp_all add: looked_def import_look_def st_bind_def sample_daemon_value sample_peer list status listed
        try_result_def st_lift_def home cat chosen_args_def st_return_def)
qed

definition imported_rules :: "rule list" where
  "imported_rules = projr (selected_rules (ce_ids (sample_cli [])) imported_preview [1] served_rules False False)"

lemma imported_rules_ok:
  "selected_rules (ce_ids (sample_cli later)) imported_preview [1] served_rules False False = Ok imported_rules"
proof -
  have "is_ok (selected_rules (ce_ids (sample_cli [])) imported_preview [1] served_rules False False)" by code_simp
  then show ?thesis by (auto simp: imported_rules_def is_ok_iff sample_cli_def)
qed

lemma imported_saved: "is_ok (fst (forward_import (served_env import_documents) 77
    (JObj [(''rules'', rules_to_json (\<lambda>i. JStr (sample_show_uuid i)) (map wire_of_domain imported_rules))])
    served_daemon))"
  by code_simp

lemma saved_ok:
  assumes "pr_peer s = (2, served_daemon)"
  shows "is_ok (fst (save_selected (sample_cli import_documents) (ia_select chosen_args)
    imported_preview served_rules out False s))"
proof -
  obtain v d where "forward_import (served_env import_documents) 77
      (JObj [(''rules'', rules_to_json (\<lambda>i. JStr (sample_show_uuid i)) (map wire_of_domain imported_rules))])
      served_daemon = (Ok v, d)"
    using imported_saved by (auto simp: is_ok_iff prod_eq_iff)
  moreover have "me_codec (served_env import_documents) = json_codec sample_show_uuid decimal_id"
    "ce_show_uuid (sample_cli import_documents) = sample_show_uuid" "ro_fresh quiet_oracle = 77"
    "dm_settings served_daemon = default_settings"
    by (simp_all add: served_env_def sample_cli_def quiet_oracle_def served_daemon_def)
  moreover have "length (ip_candidates imported_preview) = 1" by (simp add: imported_preview_def)
  ultimately show ?thesis using imported_rules_ok [of import_documents]
    by (simp add: save_selected_def chosen_args_def st_bind_def sample_daemon_value assms try_result_def
        st_lift_def ok_or_def default_settings_def st_return_def)
qed

lemma import_exit: "main_exit (fst (ran import_documents (CmdForward (CmdImport chosen_args)))) = 0"
proof -
  have "import_look (sample_cli import_documents) chosen_args False sample_process =
      (Ok (served_rules, imported_preview), snd looked)"
    using sample_looked(1) by (simp add: looked_def prod_eq_iff)
  moreover obtain v s where "save_selected (sample_cli import_documents) (ia_select chosen_args)
      imported_preview served_rules (import_preview_json sample_show_uuid imported_preview) False (snd looked) =
      (Ok v, s)"
    using saved_ok [OF sample_looked(2)] by (auto simp: is_ok_iff prod_eq_iff)
  moreover have "ia_select chosen_args \<noteq> []" "ce_show_uuid (sample_cli import_documents) = sample_show_uuid"
    by (simp_all add: chosen_args_def sample_cli_def)
  ultimately show ?thesis
    by (simp add: ran_def cli_execute_def execute_forward_def execute_import_def st_bind_def run_print)
qed

lemma sample_fresh: "fresh_ids (sample_cli later) (ia_select chosen_args) served_daemon"
  using served_new by (simp add: fresh_ids_def sample_cli_def chosen_args_def)

theorem import_saves_selection_witness:
  "\<exists>rules. dm_rules (snd (pr_peer (snd (ran import_documents (CmdForward (CmdImport chosen_args)))))) =
     served_rules @ rules \<and> rules \<noteq> []"
proof -
  have on: "on_daemon (sample_cli import_documents) (served_env import_documents) (\<lambda>_. quiet_oracle)"
    by (rule sample_on_daemon) (simp add: import_documents_def)
  have "ia_select chosen_args \<noteq> []" by (simp add: chosen_args_def)
  from import_saves_selection [OF on sample_peer served_config sample_fresh this ran_pair] import_exit
  obtain preview rules where r: "selected_rules (ce_ids (sample_cli import_documents)) preview
      (ia_select chosen_args) (dm_rules served_daemon) (s_default_auto_start (dm_settings served_daemon))
      (s_default_reconnect (dm_settings served_daemon)) = Ok rules"
    "dm_rules (snd (pr_peer (snd (ran import_documents (CmdForward (CmdImport chosen_args)))))) =
      dm_rules served_daemon @ rules" by auto
  have "inj_on (ce_ids (sample_cli import_documents)) (set (ia_select chosen_args))"
    using sample_fresh by (simp add: fresh_ids_def)
  from selected_rules_ids [OF r(1) this] r(2) show ?thesis by (auto simp: served_daemon_def)
qed

end
