(* ===== verification/Tui_Forms.thy ===== *)
theory Tui_Forms
  imports Tui_Safety
begin

text \<open>
  What the form sends for a rule that is edited, which port it suggests, and which row a
  click selects.
\<close>

section \<open>What an edit sends\<close>

definition at_loopback :: "rule_view \<Rightarrow> rule_view" where
  "at_loopback v = v\<lparr>rv_bind_address := LOOPBACK,
     rv_destination_host := map_option (\<lambda>_. LOOPBACK) (rv_destination_host v)\<rparr>"

lemma port_or_zero_show [simp]: "port_or_zero (show_nat (unat (p :: u16))) = unat p"
  using unsigned_less [of p, where ?'a = nat] by (simp add: port_or_zero_def parse_u16_show)

lemma loopback_dest: "destination_host_new LOOPBACK = Ok (DestinationHost LOOPBACK)"
  by code_simp

lemma view_kinds:
  assumes "view_ok v"
  obtains (L) p h where "rv_kind v = ''local''" "rv_destination_port v = Some p" "rv_destination_host v = Some h"
  | (R) p h where "rv_kind v = ''remote''" "rv_destination_port v = Some p" "rv_destination_host v = Some h"
  | (D) "rv_kind v = ''dynamic''" "rv_destination_port v = None" "rv_destination_host v = None"
  using assms by (auto simp: view_ok_def split: if_splits)

lemmas form_edit_defs = form_edit_def form_rule_def view_to_wire_def view_endpoints_def

lemma form_edit_valid:
  assumes "view_ok v" "domain_of_wire (view_to_wire v) = Ok r"
  shows "is_ok (form_rule (form_edit v))"
  using assms(1)
  by (cases rule: view_kinds)
    (use assms(2) in \<open>auto simp: form_edit_defs Let_def is_ok_iff finish_wire_def rule_local_def
      rule_remote_def rule_dynamic_def loopback_dest new_Ok\<close>)

text \<open>The object \<open>payload\<close> builds, for either shape of rule, and what its updates do.\<close>

definition form_object :: "(uuid \<Rightarrow> json) \<Rightarrow> string \<Rightarrow> wire_listener \<Rightarrow> (string \<times> json) list" where
  "form_object ser kind l = [(''kind'', JStr (lit kind)), (''id'', ser (wd_id l)),
     (''name'', JStr (wd_name l)), (''ssh_host_alias'', JStr (wd_ssh_host_alias l)),
     (''bind_address'', JStr (wd_bind_address l)), (''bind_port'', json_u16 (wd_bind_port l)),
     (''auto_start'', JBool (wd_auto_start l)), (''reconnect'', JBool (wd_reconnect l))]"

definition form_destination :: "rstr \<Rightarrow> u16 \<Rightarrow> (string \<times> json) list" where
  "form_destination host p = [(''destination_host'', JStr host), (''destination_port'', json_u16 p)]"

definition with_destination :: "wire_listener \<Rightarrow> rstr \<Rightarrow> u16 \<Rightarrow> wire_endpoints" where
  "with_destination l host p = \<lparr>w_id = wd_id l, w_name = wd_name l,
     w_ssh_host_alias = wd_ssh_host_alias l, w_bind_address = wd_bind_address l,
     w_bind_port = wd_bind_port l, w_destination_host = host, w_destination_port = p,
     w_auto_start = wd_auto_start l, w_reconnect = wd_reconnect l\<rparr>"

lemma form_object_updates:
  "json_set (JObj (form_object ser kind l)) ''bind_address'' (JStr b) =
     JObj (form_object ser kind (l\<lparr>wd_bind_address := b\<rparr>))"
  "json_set (json_set (JObj (form_object ser kind l)) ''destination_host'' (JStr host))
     ''destination_port'' (json_u16 p) = JObj (form_object ser kind l @ form_destination host p)"
  "json_set (JObj (form_object ser kind l @ form_destination host p)) ''bind_address'' (JStr b) =
     JObj (form_object ser kind (l\<lparr>wd_bind_address := b\<rparr>) @ form_destination host p)"
  "json_set (JObj (form_object ser kind l @ form_destination host p)) ''destination_host'' (JStr host') =
     JObj (form_object ser kind l @ form_destination host' p)"
  by (simp_all add: form_object_def form_destination_def)

lemma form_object_kind:
  "json_at (JObj (form_object ser kind l @ rest)) ''kind'' = JStr (lit kind)"
  by (simp add: form_object_def json_at_def)

lemma form_object_listener:
  assumes "\<And>i. de (ser i) = Some i"
  shows "listener_from_json de (JObj (form_object ser kind l @ rest)) = Some l"
  using assms by (simp add: form_object_def listener_from_json_def json_at_def u16_at_json)

lemma form_object_read:
  assumes "\<And>i. de (ser i) = Some i"
  shows "rule_from_json de (JObj (form_object ser ''local'' l @ form_destination host p)) =
      Some (WLocal (with_destination l host p))"
    "rule_from_json de (JObj (form_object ser ''remote'' l @ form_destination host p)) =
      Some (WRemote (with_destination l host p))"
    "rule_from_json de (JObj (form_object ser ''dynamic'' l)) = Some (WDynamic l)"
proof -
  have keys: "only_keys (listener_keys @ destination_keys) (JObj (form_object ser k l @ form_destination host p))"
    "only_keys listener_keys (JObj (form_object ser k l))" for k
    by (simp_all add: form_object_def form_destination_def listener_keys_def destination_keys_def)
  have "json_at (JObj (form_object ser k l @ form_destination host p)) ''destination_host'' = JStr host"
    "u16_at (JObj (form_object ser k l @ form_destination host p)) ''destination_port'' = Some p" for k
    by (simp_all add: form_object_def form_destination_def json_at_def u16_at_json)
  then have "endpoints_from_json de (JObj (form_object ser k l @ form_destination host p)) =
      Some (with_destination l host p)" for k
    by (simp add: endpoints_from_json_def form_object_listener [OF assms] with_destination_def)
  then show "rule_from_json de (JObj (form_object ser ''local'' l @ form_destination host p)) =
      Some (WLocal (with_destination l host p))"
    "rule_from_json de (JObj (form_object ser ''remote'' l @ form_destination host p)) =
      Some (WRemote (with_destination l host p))"
    "rule_from_json de (JObj (form_object ser ''dynamic'' l)) = Some (WDynamic l)"
    using form_object_listener [OF assms, of "''dynamic''" l "[]"]
      form_object_kind [of ser "''dynamic''" l "[]"]
    by (simp_all add: rule_from_json_def form_object_kind keys Let_def del: only_keys.simps)
qed

definition form_listener :: "ui_form \<Rightarrow> nat \<Rightarrow> wire_listener" where
  "form_listener f port = \<lparr>wd_id = fm_id f, wd_name = fm_name f, wd_ssh_host_alias = fm_host f,
     wd_bind_address = LOOPBACK, wd_bind_port = of_nat port, wd_auto_start = fm_auto_start f,
     wd_reconnect = fm_reconnect f\<rparr>"

lemma json_u16_of_nat: "n < 65536 \<Longrightarrow> json_u16 (of_nat n) = JNat n"
  by (simp add: json_u16_def unat_of_nat take_bit_eq_mod)

lemma port_or_zero_bound: "port_or_zero s < 65536"
  by (auto simp: port_or_zero_def split: option.split dest: parse_u16_bound)

lemma loopback_value_object:
  "loopback_value env f =
     (let ser = ui_ser_uuid env; kind = fm_kind f; remote = port_or_zero (fm_remote_port f);
          local = port_or_zero (fm_local_port f)
      in if kind = ''dynamic'' then JObj (form_object ser kind (form_listener f local))
         else if kind = ''remote''
         then JObj (form_object ser kind (form_listener f remote) @ form_destination LOOPBACK (of_nat local))
         else JObj (form_object ser kind (form_listener f local) @ form_destination LOOPBACK (of_nat remote)))"
  using port_or_zero_bound [of "fm_remote_port f"] port_or_zero_bound [of "fm_local_port f"]
  by (simp add: loopback_value_def Let_def form_object_def form_destination_def form_listener_def
      json_u16_of_nat)

lemma edit_json:
  assumes "view_ok v" "\<And>i. de (ui_ser_uuid env i) = Some i"
  shows "rule_from_json de (keep_original_hosts env (form_edit v) (loopback_value env (form_edit v))) =
    Some (view_to_wire (if rv_state v = lit ''active'' then v else at_loopback v))"
  using assms(1)
  by (cases rule: view_kinds)
    (simp_all add: keep_original_hosts_def loopback_value_object form_edit_defs Let_def form_listener_def
      form_object_updates form_object_kind form_object_kind [where rest = "[]", simplified]
      form_object_read [OF assms(2)] rule_to_json_hosts at_loopback_def with_destination_def
      del: rule_to_json.simps json_set.simps)

lemma own_port_of_edit:
  assumes "view_ok v" "rv_kind v \<noteq> ''remote''" "rv_state v = lit ''active''"
  shows "own_active_port (form_edit v) (port_or_zero (fm_local_port (form_edit v)))"
  using assms(1)
  by (cases rule: view_kinds)
    (use assms(2,3) in \<open>simp_all add: own_active_port_def form_edit_defs Let_def\<close>)

lemma probe_of_edit:
  "rv_state v \<noteq> lit ''active'' \<Longrightarrow> probe_address (form_edit v) = LOOPBACK"
  "rv_kind v \<noteq> ''remote'' \<Longrightarrow> port_or_zero (fm_local_port (form_edit v)) = unat (rv_bind_port v)"
  "fm_kind (form_edit v) = rv_kind v"
  by (simp_all add: probe_address_def form_edit_def Let_def)

text \<open>Saving an edit that changes nothing. The request decodes to the rule as it is if the
  rule was active when the form was opened; for a stopped rule it decodes to the rule with its
  bind address and destination host replaced by 127.0.0.1, so that saving the form moves the
  rule: a tunnel that was bound to another address or led to another host no longer does. The
  port probe is passed by an active rule and by a remote one, and needed for the others.\<close>

theorem edit_form_sends:
  assumes "view_ok v" "domain_of_wire (view_to_wire v) = Ok r"
    and "\<And>i. de (ui_ser_uuid env i) = Some i"
    and "rv_state v = lit ''active'' \<or> rv_kind v = ''remote'' \<or>
      port_available env LOOPBACK (unat (rv_bind_port v))"
  shows "\<exists>payload. form_payload env (form_edit v) = (form_edit v, Some payload) \<and>
    rule_from_json de payload =
      Some (view_to_wire (if rv_state v = lit ''active'' then v else at_loopback v))"
proof -
  obtain q where "form_rule (form_edit v) = Ok q"
    using form_edit_valid [OF assms(1,2)] by (auto simp: is_ok_iff)
  moreover have "rv_kind v = ''remote'' \<or>
      own_active_port (form_edit v) (port_or_zero (fm_local_port (form_edit v))) \<or>
      port_available env (probe_address (form_edit v)) (port_or_zero (fm_local_port (form_edit v)))"
    using own_port_of_edit [OF assms(1)] assms(4) probe_of_edit [of v] 
    by (cases "rv_kind v = ''remote''"; cases "rv_state v = lit ''active''") auto
  ultimately show ?thesis
    using edit_json [OF assms(1,3)] probe_of_edit(3) [of v] by (auto simp: form_payload_def Let_def)
qed

definition stopped_view :: rule_view where
  "stopped_view = view_from_wire (sample_rule 2 ''b'' 3001)"

lemma stopped_view_valid: "is_ok (domain_of_wire (view_to_wire stopped_view))"
  by code_simp

theorem edit_form_sends_witness:
  "\<exists>payload. snd (form_payload sample_client (form_edit stopped_view)) = Some payload \<and>
     (\<exists>w. rule_from_json (\<lambda>j. map_option of_nat (as_u64 j)) payload = Some (WLocal w) \<and>
        w_bind_address w = lit ''127.0.0.1'' \<and> w_destination_host w = lit ''127.0.0.1'') \<and>
     rv_bind_address stopped_view = lit ''0.0.0.0''"
proof -
  have v: "view_ok stopped_view" by (simp add: stopped_view_def view_from_wire_ok)
  obtain r where r: "domain_of_wire (view_to_wire stopped_view) = Ok r"
    using stopped_view_valid by (auto simp: is_ok_iff)
  have "map_option of_nat (as_u64 (ui_ser_uuid sample_client i)) = Some i" for i :: uuid
    by (simp add: sample_client_def)
  note sent = edit_form_sends [OF v r, where de = "\<lambda>j. map_option of_nat (as_u64 j)", OF this]
  have "port_available sample_client LOOPBACK (unat (rv_bind_port stopped_view))"
    by (simp add: port_available_def sample_client_def stopped_view_def view_from_wire_def sample_rule_def)
  with sent show ?thesis
    by (auto simp: stopped_view_def view_from_wire_def sample_rule_def at_loopback_def view_to_wire_def
        view_endpoints_def LOOPBACK_def)
qed

section \<open>Suggested ports\<close>

lemma next_available_port_first:
  assumes "next_available_port env address port = Some p" "port < q" "q < p"
  shows "\<not> port_available env address q"
proof -
  let ?xs = "take 100 [min (port + 1) 65535..<65536]"
  from assms(1) obtain i where i: "i < length ?xs" "?xs ! i = p"
      "\<forall>j < i. \<not> port_available env address (?xs ! j)"
    unfolding next_available_port_def find_Some_iff by auto
  have p: "p = min (port + 1) 65535 + i" using i(1,2) by auto
  moreover have "port < 65535" using p i(1) assms(2,3) by auto
  ultimately have "q = ?xs ! (q - (port + 1))" "q - (port + 1) < i" using i(1) assms(2,3) by auto
  with i(3) show ?thesis by metis
qed

lemma next_available_port_None:
  assumes "next_available_port env address port = None" "port < q" "q \<le> port + 100" "q < 65536"
  shows "\<not> port_available env address q"
proof -
  let ?xs = "take 100 [min (port + 1) 65535..<65536]"
  have "\<forall>x \<in> set ?xs. \<not> port_available env address x"
    using assms(1) by (simp add: next_available_port_def find_None_iff)
  moreover have "q = ?xs ! (q - (port + 1))" "q - (port + 1) < length ?xs" using assms(2-4) by auto
  ultimately show ?thesis by (metis nth_mem)
qed

lemma probe_address_same:
  "fm_active_original g = fm_active_original f \<Longrightarrow> fm_kind g = fm_kind f \<Longrightarrow>
   probe_address g = probe_address f"
  by (simp add: probe_address_def split: option.split wire_rule.split)

lemma accept_suggestion_fields [simp]:
  "fm_kind (accept_suggestion f) = fm_kind f"
  "fm_active_original (accept_suggestion f) = fm_active_original f"
  by (simp_all add: accept_suggestion_def split: option.split)

lemma recheck_free_port:
  assumes "parse_u16 (fm_local_port f) = Some p" "port_available env (probe_address f) p"
  shows "fm_suggestion (recheck env f) = None"
  using assms by (simp add: recheck_def)

text \<open>While a port is typed whose local listener is taken, the form suggests the first free
  port above it, at most a hundred further and below 65536, or nothing if there is none; taking
  the suggestion fills in exactly that port, and the form has no complaint about it.\<close>

theorem suggested_port_is_first_free:
  assumes "parse_u16 (fm_local_port f) = Some port" "port \<noteq> 0" "fm_kind f \<noteq> ''remote''"
    and "\<not> own_active_port f port" "\<not> port_available env (probe_address f) port"
  shows "case fm_suggestion (recheck env f) of
      Some p \<Rightarrow> port < p \<and> p \<le> port + 100 \<and> p < 65536 \<and> port_available env (probe_address f) p \<and>
        (\<forall>q. port < q \<and> q < p \<longrightarrow> \<not> port_available env (probe_address f) q) \<and>
        parse_u16 (fm_local_port (accept_suggestion (recheck env f))) = Some p \<and>
        fm_suggestion (recheck env (accept_suggestion (recheck env f))) = None
    | None \<Rightarrow> \<forall>q. port < q \<and> q \<le> port + 100 \<and> q < 65536 \<longrightarrow> \<not> port_available env (probe_address f) q"
proof -
  have s: "fm_suggestion (recheck env f) = next_available_port env (probe_address f) port"
    using assms by (simp add: recheck_def)
  show ?thesis
  proof (cases "next_available_port env (probe_address f) port")
    case None
    with s next_available_port_None [OF None] show ?thesis by simp
  next
    case (Some p)
    note p = next_available_port_Some [OF Some]
    have "port < 65536" using assms(1) by (rule parse_u16_bound)
    moreover have "p \<noteq> port" using p(1) assms(5) by auto
    ultimately have "port < p" using p(4) by (auto simp: min_def split: if_splits)
    moreover have "probe_address (accept_suggestion (recheck env f)) = probe_address f"
      by (rule probe_address_same) simp_all
    moreover have "parse_u16 (fm_local_port (accept_suggestion (recheck env f))) = Some p"
      using parse_u16_show [OF p(3)] s Some by (simp add: accept_suggestion_def)
    moreover from this calculation p(1)
    have "fm_suggestion (recheck env (accept_suggestion (recheck env f))) = None"
      by (intro recheck_free_port) simp_all
    ultimately show ?thesis using s Some p next_available_port_first [OF Some] by simp
  qed
qed

definition typed_form :: ui_form where
  "typed_form = (form_new 7 (lit ''web''))\<lparr>fm_local_port := lit ''3000''\<rparr>"

theorem suggested_port_is_first_free_witness:
  "\<exists>p. fm_suggestion (recheck sample_client typed_form) = Some p \<and> 3000 < p \<and> p \<le> 3100"
proof -
  have port: "parse_u16 (fm_local_port typed_form) = Some 3000" by code_simp
  have f: "fm_kind typed_form \<noteq> ''remote''" "\<not> own_active_port typed_form 3000"
    by (simp_all add: typed_form_def form_new_def own_active_port_def)
  have taken: "\<not> port_available sample_client (probe_address typed_form) 3000"
    by (simp add: port_available_def sample_client_def)
  have "(3000 :: nat) \<noteq> 0" by simp
  note first = suggested_port_is_first_free [OF port this f taken]
  show ?thesis
  proof (cases "fm_suggestion (recheck sample_client typed_form)")
    case None
    with first have "\<not> port_available sample_client (probe_address typed_form) 3001"
      by (simp only: option.case) simp
    then show ?thesis by (simp add: port_available_def sample_client_def)
  next
    case (Some p)
    with first have "3000 < p \<and> p \<le> 3100" by (simp only: option.case) simp
    with Some show ?thesis by blast
  qed
qed

section \<open>Rows on the screen\<close>

lemma list_offset_visible:
  "0 < visible \<Longrightarrow> list_offset selected visible offset \<le> selected \<and>
     selected < list_offset selected visible offset + visible"
  by (auto simp: list_offset_def)

lemma list_offset_stable:
  "offset \<le> i \<Longrightarrow> i < offset + visible \<Longrightarrow> list_offset i visible offset = offset"
  by (simp add: list_offset_def)

lemma click_row_dashboard:
  assumes "ap_page a = Dashboard" "inside_border content m" "ms_row m = rc_y content + 2 + k"
    and "k < length (dashboard_rows content a)"
  shows "selected_view (click_row content m a) = Some (dashboard_rows content a ! k)"
    "dashboard_rows content (click_row content m a) = dashboard_rows content a"
proof -
  let ?o = "dashboard_offset content a" and ?v = "rc_height content - 3"
  have k: "k < ?v" "?o + k < length (ap_rules a)"
    using assms(4) by (auto simp: dashboard_rows_def)
  have c: "click_row content m a = a\<lparr>ap_selected_rule := ?o + k,
      ap_selected_id := Some (rv_id (ap_rules a ! (?o + k))), ap_rule_offset := ?o\<rparr>"
    using assms(1-3) k(2) by (simp add: click_row_def Let_def)
  then show "selected_view (click_row content m a) = Some (dashboard_rows content a ! k)"
    using k by (simp add: selected_view_def dashboard_rows_def)
  have "dashboard_offset content (click_row content m a) = ?o"
    using k(1) by (simp add: c dashboard_offset_def [of _ "a\<lparr>ap_selected_rule := _, ap_selected_id := _, ap_rule_offset := _\<rparr>"]
        list_offset_stable)
  then show "dashboard_rows content (click_row content m a) = dashboard_rows content a"
    by (simp add: dashboard_rows_def c)
qed

text \<open>On the dashboard a click on a row selects the rule drawn there and the rows do not
  move; and whenever there is room for a row, the selected rule is among the rows drawn.\<close>

theorem clicked_row_is_selected:
  assumes "app_ok a" "ap_page a = Dashboard" "ap_form a = None" "ap_confirm_delete a = None" "ap_import a = None"
    and "screen_areas env screen = Some (tabs, content, footer)" "ms_kind m = LeftDown"
    and "tab_at env tabs m = None" "inside_border content m"
    and "ms_row m = rc_y content + 2 + k" "k < length (dashboard_rows content a)"
  shows "selected_view (handle_mouse env m screen a) = Some (dashboard_rows content a ! k) \<and>
    dashboard_rows content (handle_mouse env m screen a) = dashboard_rows content a \<and>
    the (selected_view a) \<in> set (dashboard_rows content a)"
proof -
  have h: "handle_mouse env m screen a = click_row content m a"
    using assms(3-8) by (simp add: handle_mouse_def)
  let ?o = "dashboard_offset content a" and ?v = "rc_height content - 3"
  have "0 < ?v" "ap_rules a \<noteq> []" using assms(11) by (auto simp: dashboard_rows_def)
  then have "?o \<le> ap_selected_rule a \<and> ap_selected_rule a < ?o + ?v"
    using list_offset_visible [of ?v] by (simp only: dashboard_offset_def)
  moreover have sel: "ap_selected_rule a < length (ap_rules a)"
    using assms(1) \<open>ap_rules a \<noteq> []\<close> by (cases "ap_rules a") (simp_all add: app_parts)
  ultimately have "ap_rules a ! ap_selected_rule a = dashboard_rows content a ! (ap_selected_rule a - ?o)"
    "ap_selected_rule a - ?o < length (dashboard_rows content a)"
    by (auto simp: dashboard_rows_def)
  then have "the (selected_view a) \<in> set (dashboard_rows content a)"
    using sel by (simp add: selected_view_def)
  with click_row_dashboard [OF assms(2,9,10,11)] h show ?thesis by simp
qed

definition start_app :: ui_app where
  "start_app = fst (pressed [])"

definition sample_screen :: rect where
  "sample_screen = \<lparr>rc_x = 0, rc_y = 0, rc_width = 80, rc_height = 24\<rparr>"

definition second_row :: mouse_event where
  "second_row = \<lparr>ms_kind = LeftDown, ms_column = 10, ms_row = 6\<rparr>"

lemma start_app_rows:
  "ap_page start_app = Dashboard \<and> ap_form start_app = None \<and> ap_confirm_delete start_app = None \<and>
   ap_import start_app = None \<and> ap_selected_rule start_app = 0 \<and> ap_rule_offset start_app = 0 \<and>
   map rv_id (ap_rules start_app) = [1, 2]"
  by code_simp

theorem clicked_row_is_selected_witness:
  "map_option rv_id (selected_view (handle_mouse sample_client second_row sample_screen start_app)) = Some 2"
proof -
  note rows = start_app_rows
  define content where "content = sample_screen\<lparr>rc_y := 3, rc_height := 19\<rparr>"
  have areas: "screen_areas sample_client sample_screen = Some (sample_screen\<lparr>rc_height := 3\<rparr>, content,
      sample_screen\<lparr>rc_y := 22, rc_height := 2\<rparr>)"
    by (simp add: screen_areas_def sample_client_def sample_screen_def content_def)
  have "dashboard_rows content start_app = ap_rules start_app" "length (ap_rules start_app) = 2"
    "rv_id (ap_rules start_app ! 1) = 2"
    using rows by (auto simp: dashboard_rows_def dashboard_offset_def list_offset_def content_def
        sample_screen_def map_eq_Cons_conv)
  moreover have "app_ok start_app" using reached_states_ok [OF pressed_Nil_reached] by (simp add: start_app_def)
  moreover have "ms_kind second_row = LeftDown" "tab_at sample_client (sample_screen\<lparr>rc_height := 3\<rparr>) second_row = None"
    "inside_border content second_row" "ms_row second_row = rc_y content + 2 + 1"
    by (simp_all add: second_row_def tab_at_def inside_border_def content_def sample_screen_def
        rc_right_def rc_bottom_def)
  ultimately show ?thesis
    using clicked_row_is_selected [OF _ _ _ _ _ areas, of start_app second_row 1] rows by simp
qed

end
