(* ===== verification/Client_Daemon.thy ===== *)
theory Client_Daemon
  imports Tui_Forms Client_Sample
begin

text \<open>
  The terminal client on the daemon's handler: \<open>src/src/tui/mod.rs\<close> composed with
  \<open>src/src/daemon/manager.rs\<close> over serde's JSON. What the rows show after a refresh, and what
  an edit does to the rules the daemon keeps.
\<close>

section \<open>The client's calls\<close>

definition ui_on_daemon :: "served ui_env \<Rightarrow> manager_env \<Rightarrow> (nat \<Rightarrow> request_oracle) \<Rightarrow> bool" where
  "ui_on_daemon env menv orcs \<longleftrightarrow> speaks_json menv (ui_show_uuid env) (ui_parse_uuid env) \<and>
     (\<exists>show_daemon show_transport ids.
        ui_call env = call_daemon show_daemon show_transport (direct_link menv orcs ids)) \<and>
     ui_ser_uuid env = (\<lambda>i. JStr (ui_show_uuid env i)) \<and>
     ui_de_rules env = rules_from_json (uuid_from_json (ui_parse_uuid env)) \<and>
     ui_de_settings env = settings_from_json \<and> ui_ser_settings env = settings_to_json"

lemma ui_facts:
  assumes "ui_on_daemon env menv orcs"
  shows "speaks_json menv (ui_show_uuid env) (ui_parse_uuid env)" "me_process menv"
    "toml_round_trip (me_toml menv)" "lawful menv" "readable_ids (ui_show_uuid env) (ui_parse_uuid env)"
    "me_codec menv = json_codec (ui_show_uuid env) (ui_parse_uuid env)"
    "ui_ser_uuid env = (\<lambda>i. JStr (ui_show_uuid env i))"
    "ui_de_rules env = rules_from_json (uuid_from_json (ui_parse_uuid env))"
    "ui_de_settings env = settings_from_json" "ui_ser_settings env = settings_to_json"
  using assms speaks_json_lawful by (auto simp: ui_on_daemon_def speaks_json_def)

lemma ui_call_direct:
  assumes "ui_on_daemon env menv orcs"
  shows "ui_call env op p (n, d) =
    (map_err snd (fst (handled menv (orcs n) op p d)), Suc n, snd (handled menv (orcs n) op p d))"
  using assms by (auto simp: ui_on_daemon_def call_daemon_direct split: prod.split)

section \<open>Rows\<close>

text \<open>What the row of a rule shows when the status was answered at \<open>now\<close>.\<close>

definition row_of :: "nat \<Rightarrow> daemon \<Rightarrow> rule \<Rightarrow> rule_view" where
  "row_of now d r =
     (let info = map_of (dm_diagnostics d) (r_id r)
      in (view_from_wire (wire_of_domain r))
        \<lparr>rv_state := lit (state_name (running_of d (r_id r))),
         rv_uptime_seconds := (case Option.bind info ri_active_since of
             None \<Rightarrow> 0 | Some t \<Rightarrow> (now - t) div 1000),
         rv_reconnect_count := (case info of None \<Rightarrow> 0 | Some v \<Rightarrow> ri_reconnect_count v),
         rv_last_error := map_option snd (Option.bind info ri_last_error)\<rparr>)"

lemma row_of_facts [simp]:
  "rv_id (row_of now d r) = r_id r" "view_to_wire (row_of now d r) = wire_of_domain r"
  "rv_state (row_of now d r) = lit (state_name (running_of d (r_id r)))" "view_ok (row_of now d r)"
proof -
  let ?v = "view_from_wire (wire_of_domain r)"
  have "wire_id (view_to_wire ?v) = r_id r" by (simp only: view_wire_inverse wire_id_of_domain)
  then show "rv_id (row_of now d r) = r_id r" by (simp add: row_of_def Let_def)
  have "view_to_wire (row_of now d r) = view_to_wire ?v"
    by (simp add: row_of_def Let_def view_to_wire_def view_endpoints_def)
  then show "view_to_wire (row_of now d r) = wire_of_domain r" by (simp add: view_wire_inverse)
  show "rv_state (row_of now d r) = lit (state_name (running_of d (r_id r)))"
    by (simp add: row_of_def Let_def)
  show "view_ok (row_of now d r)"
    using view_from_wire_ok [of "wire_of_domain r"] by (auto simp: row_of_def Let_def view_ok_def)
qed

lemma find_map_id:
  assumes "distinct (map r_id rs)" "r \<in> set rs" "\<And>x. P (f x) \<longleftrightarrow> r_id x = r_id r"
  shows "find P (map f rs) = Some (f r)"
  using assms by (induction rs) (auto simp: rev_image_eqI)

lemma status_row:
  assumes "ui_on_daemon env menv orcs" "distinct (map r_id (dm_rules d))" "r \<in> set (dm_rules d)"
  shows "status_of_rule env (map (rule_status menv now d) (dm_rules d)) (view_from_wire (wire_of_domain r)) =
    Ok (row_of now d r)"
proof -
  note codec = ui_facts(5,6) [OF assms(1)]
  have id: "rv_id (view_from_wire (wire_of_domain r)) = r_id r"
    using row_of_facts(1) [of now d r] by (simp add: row_of_def Let_def)
  have "as_str (json_at (rule_status menv now d x) ''rule_id'') = Some (ui_show_uuid env (r_id x))" for x
    by (simp add: rule_status_def Let_def json_at_def codec(2) split: prod.split)
  then have "find (\<lambda>s. as_str (json_at s ''rule_id'') = Some (ui_show_uuid env (r_id r)))
      (map (rule_status menv now d) (dm_rules d)) = Some (rule_status menv now d r)"
    using assms(2,3) codec(1) by (intro find_map_id) (auto simp: readable_ids_def dest: arg_cong [where f = "ui_parse_uuid env"])
  then show ?thesis
    by (auto simp: status_of_rule_def id row_of_def Let_def rule_status_def json_at_def
        split: option.split prod.split)
qed

lemma load_rules_rows:
  assumes "ui_on_daemon env menv orcs" "config_inv menv d" "distinct (map r_id (dm_rules d))"
  obtains d' where "ui_load_rules env (n, d) =
      (Ok (map (row_of (ro_now (orcs (Suc n))) d') (dm_rules d')), Suc (Suc n), d')"
    "same_config d d'" "d' = snd (handled menv (orcs (Suc n)) Status no_payload d)"
proof -
  let ?o = "orcs (Suc n)"
  define d' where "d' = maintain menv (ro_exits ?o) (ro_now ?o) (ro_fresh ?o) (ro_retries ?o) d"
  note f = ui_facts [OF assms(1)]
  have frame: "same_config d d'" "d' = snd (handled menv ?o Status no_payload d)"
    using maintain_frame [OF f(2)] by (simp_all add: d'_def handled_def Let_def)
  have "ui_call env ForwardList no_payload (n, d) =
      (Ok (rules_to_json (\<lambda>i. JStr (ui_show_uuid env i)) (map wire_of_domain (dm_rules d))), Suc n, d)"
    by (simp add: ui_call_direct [OF assms(1)] forward_list_ok [OF assms(2)] f(6))
  moreover have "ui_call env Status no_payload (Suc n, d) =
      (Ok (status_answer menv (ro_now ?o) d'), Suc (Suc n), d')"
    by (simp add: ui_call_direct [OF assms(1)] handled_def d'_def Let_def)
  moreover have "apply_runtime_status env (map view_from_wire (map wire_of_domain (dm_rules d)))
      (status_answer menv (ro_now ?o) d') = Ok (map (row_of (ro_now ?o) d') (dm_rules d'))"
  proof -
    have d: "dm_rules d = dm_rules d'" using frame(1) by (simp add: same_config_def)
    have "collect_results (status_of_rule env (map (rule_status menv (ro_now ?o) d') (dm_rules d')))
        (map (\<lambda>r. view_from_wire (wire_of_domain r)) (dm_rules d')) =
        Ok (map (row_of (ro_now ?o) d') (dm_rules d'))"
      by (rule collect_results_map) (use status_row [OF assms(1)] assms(3) d in simp)
    then show ?thesis
      by (simp add: apply_runtime_status_def status_answer_def json_at_def d comp_def)
  qed
  ultimately have "ui_load_rules env (n, d) =
      (Ok (map (row_of (ro_now ?o) d') (dm_rules d')), Suc (Suc n), d')"
    by (simp add: ui_load_rules_def st_bind_def st_lift_def f(5,8) ok_or_def)
  with frame that show thesis by blast
qed

lemma load_settings_daemon:
  "ui_on_daemon env menv orcs \<Longrightarrow> load_settings env (n, d) = (Ok (dm_settings d), Suc n, d)"
  by (simp add: load_settings_def st_bind_def st_lift_def ui_call_direct ui_facts ok_or_def)

lemma refresh_rows:
  assumes "ui_on_daemon env menv orcs" "config_inv menv d" "distinct (map r_id (dm_rules d))"
  obtains d' where "refresh env a (n, d) =
      ((replace_rules (map (row_of (ro_now (orcs (Suc n))) d') (dm_rules d')) a)
        \<lparr>ap_settings := dm_settings d'\<rparr>, Suc (Suc (Suc n)), d')"
    "same_config d d'" "d' = snd (handled menv (orcs (Suc n)) Status no_payload d)"
proof (rule load_rules_rows [OF assms, where n = n])
  fix d' assume l: "ui_load_rules env (n, d) =
      (Ok (map (row_of (ro_now (orcs (Suc n))) d') (dm_rules d')), Suc (Suc n), d')"
    "same_config d d'" "d' = snd (handled menv (orcs (Suc n)) Status no_payload d)"
  then have "refresh env a (n, d) =
      ((replace_rules (map (row_of (ro_now (orcs (Suc n))) d') (dm_rules d')) a)
        \<lparr>ap_settings := dm_settings d'\<rparr>, Suc (Suc (Suc n)), d')"
    by (simp only: refresh_def load_settings_daemon [OF assms(1)] prod.case sum.case Let_def)
  with l that show thesis by blast
qed

lemma replace_rules_selects:
  assumes "ap_selected_id a = Some (rv_id v)" "v \<in> set rows" "distinct (map rv_id rows)"
  shows "selected_view (replace_rules rows a) = Some v"
proof -
  have "list_ex (\<lambda>w. rv_id w = rv_id v) rows" using assms(2) by (auto simp: list_ex_iff)
  then obtain n where n: "position (\<lambda>w. rv_id w = rv_id v) rows = Some n" by (simp add: position_def)
  from position_bound [OF this] assms(2,3) have "n < length rows" "rows ! n = v"
    by (auto simp: in_set_conv_nth distinct_conv_nth)
  then show ?thesis using n assms(1) by (simp add: replace_rules_def note_selected_def selected_view_def)
qed

lemma selected_view_settings: "selected_view (a\<lparr>ap_settings := s\<rparr>) = selected_view a"
  by (simp add: selected_view_def)

lemma replace_rules_fields:
  "ap_rules (replace_rules rows a) = rows" "ap_message (replace_rules rows a) = ap_message a"
  by (simp_all add: replace_rules_def note_selected_def Let_def)

text \<open>C20: A refresh shows what the daemon has. The rows are the daemon's rules in its order, each
  with its own endpoints and policies and with the state, uptime, retries and last error of its
  attempt at the moment of the answer; the settings shown are the daemon's, asking does no more
  than the supervisor's pass that a status request makes, and the selection stays on the rule it was on wherever that rule is now.\<close>

theorem refreshed_rows_match:
  assumes "ui_on_daemon env menv orcs" "config_inv menv d" "distinct (map r_id (dm_rules d))"
    and "refresh env a (n, d) = (a', n', d')"
  shows "ap_rules a' = map (row_of (ro_now (orcs (Suc n))) d') (dm_rules d') \<and>
    ap_settings a' = dm_settings d' \<and> ap_message a' = ap_message a \<and>
    d' = snd (handled menv (orcs (Suc n)) Status no_payload d) \<and> same_config d d' \<and>
    (\<forall>i r. ap_selected_id a = Some i \<and> find_rule d i = Some r \<longrightarrow>
       selected_view a' = Some (row_of (ro_now (orcs (Suc n))) d' r))"
proof (rule refresh_rows [OF assms(1-3), where n = n and a = a])
  fix e
  let ?rows = "map (row_of (ro_now (orcs (Suc n))) e) (dm_rules e)"
  assume r: "refresh env a (n, d) = ((replace_rules ?rows a)\<lparr>ap_settings := dm_settings e\<rparr>, Suc (Suc (Suc n)), e)"
    "same_config d e" "e = snd (handled menv (orcs (Suc n)) Status no_payload d)"
  have "selected_view a' = Some (row_of (ro_now (orcs (Suc n))) e r)"
    if "ap_selected_id a = Some i" "find_rule d i = Some r" for i r
  proof -
    have "r \<in> set (dm_rules e)" "r_id r = i"
      using find_rule_Some [OF that(2)] r(2) by (simp_all add: same_config_def)
    moreover have "distinct (map rv_id ?rows)" using assms(3) r(2) by (simp add: same_config_def comp_def)
    ultimately have "selected_view (replace_rules ?rows a) = Some (row_of (ro_now (orcs (Suc n))) e r)"
      using that(1) by (intro replace_rules_selects) auto
    with r(1) assms(4) show ?thesis by (auto simp: selected_view_settings)
  qed
  with r assms(4) show ?thesis by (simp add: replace_rules_fields)
qed

definition served_client :: "config_v2 list \<Rightarrow> served ui_env" where
  "served_client later = \<lparr>
     ui_call = call_daemon (\<lambda>_. []) (\<lambda>_. []) (direct_link (served_env later) (\<lambda>_. quiet_oracle) (\<lambda>_. 5)),
     ui_ser_uuid = (\<lambda>i. JStr (sample_show_uuid i)), ui_show_uuid = sample_show_uuid, ui_parse_uuid = decimal_id,
     ui_de_rules = rules_from_json (uuid_from_json decimal_id), ui_de_settings = settings_from_json,
     ui_ser_settings = settings_to_json, ui_binds = (\<lambda>_ _. True), ui_platform = Linux, ui_spawn = (\<lambda>_. Ok ()),
     ui_world = client_world, ui_runner = ui_runner sample_client, ui_areas = ui_areas sample_client,
     ui_title_widths = [14, 6, 4, 4, 6]\<rparr>"

lemma served_client_on_daemon:
  "length later \<le> 25 \<Longrightarrow> ui_on_daemon (served_client later) (served_env later) (\<lambda>_. quiet_oracle)"
  by (auto simp: ui_on_daemon_def served_client_def served_env_speaks)

lemma served_ids: "map r_id (dm_rules served_daemon) = [1, 2]"
proof -
  have "map wire_id (map wire_of_domain served_rules) = [1, 2]" by (simp add: served_wires served_wire_def)
  then show ?thesis by (simp add: comp_def served_daemon_def)
qed

lemma served_second: "find_rule served_daemon 2 = Some (served_rules ! 1)"
proof -
  have "find (\<lambda>r. r_id r = 2) rs = Some (rs ! 1)" if "map r_id rs = [1, 2]" for rs
    using that by (auto simp: map_eq_Cons_conv)
  with served_ids show ?thesis by (simp add: find_rule_def served_daemon_def)
qed

theorem refreshed_rows_match_witness:
  "map (\<lambda>v. (rv_id v, rv_state v)) (ap_rules (fst (refresh (served_client []) app_default (0, served_daemon)))) =
     [(1, lit ''active''), (2, lit ''stopped'')]"
proof -
  obtain a' n' d' where r: "refresh (served_client []) app_default (0, served_daemon) = (a', n', d')"
    by (rule prod_cases3)
  have on: "ui_on_daemon (served_client []) (served_env []) (\<lambda>_. quiet_oracle)" by (rule served_client_on_daemon) simp
  have ids: "distinct (map r_id (dm_rules served_daemon))" by (simp add: served_ids)
  note rows = refreshed_rows_match [OF on served_config ids r]
  then have "map (\<lambda>v. (rv_id v, rv_state v)) (ap_rules a') =
      map (\<lambda>i. (i, lit (state_name (running_of d' i)))) [1, 2]"
    unfolding served_ids [symmetric] by (auto simp: same_config_def)
  moreover have "d' = served_daemon"
    using rows by (simp add: handled_def quiet_maintain Let_def)
  ultimately show ?thesis
    using r by (simp del: One_nat_def) (simp add: served_daemon_def running_of_def state_name_def)
qed

section \<open>Editing a stopped rule\<close>

lemma stopped_edit_payload:
  assumes "view_ok v" "rv_state v \<noteq> lit ''active''" "form_payload env (form_edit v) = (f, Some payload)"
  shows "f = form_edit v" "payload = keep_original_hosts env (form_edit v) (loopback_value env (form_edit v))"
    "fm_active_original f = None"
  using assms(2,3) by (auto simp: form_payload_def Let_def form_edit_def split: sum.splits if_splits)

text \<open>A form that closes was sent, and the rule it gives is in the daemon in the place of the old one.\<close>

lemma closed_form_was_sent:
  assumes "save_form env f a s = (a', s')" "ap_form a' = None"
  obtains payload where "form_payload env f = (fst (form_payload env f), Some payload)"
  using assms by (cases "form_payload env f") (auto simp: save_form_def split: option.splits)

lemma new_rule_replaces:
  assumes "ui_on_daemon env menv orcs" "config_inv menv d" "distinct (map r_id (dm_rules d))"
    and "save_new_rule env g payload a (n, d) = (a', n', d')" "ap_form a' = None"
    and "de_rule (me_codec menv) payload = Some wire" "wire_id wire = i" "find_rule d i \<noteq> None"
  shows "\<exists>x. wire_of_domain x = wire \<and> dm_rules d' = replace_first i x (dm_rules d) \<and>
    find_rule d' i = Some x \<and> config_inv menv d'"
proof -
  note f = ui_facts [OF assms(1)]
  obtain q d1 where add: "forward_add menv (ro_fresh (orcs n)) payload d = (q, d1)" by (rule prod.exhaust)
  then obtain y where y: "q = Ok y"
    using assms(4,5) by (cases q) (auto simp: save_new_rule_def ui_call_direct [OF assms(1)])
  have there: "find_rule d (wire_id wire) \<noteq> None" using assms(7,8) by simp
  from add [unfolded y] assms(6) there f(3) assms(2) show ?thesis
  proof (rule forward_add_replaces)
    fix x assume x: "domain_of_wire wire = Ok x" "r_id x = wire_id wire"
      "dm_rules d1 = replace_first (r_id x) x (dm_rules d)" "config_inv menv d1"
    let ?op = "rule_payload env (added_id env (fm_id g) y)"
    obtain s d2 where st: "handled menv (orcs (Suc n)) ForwardStart ?op d1 = (s, d2)" by (rule prod.exhaust)
    have keep: "same_config d1 d2"
      using st start_inner_frame(2) [OF _ f(2)] by (simp add: handled_def start_with_def)
    have ids: "distinct (map r_id (dm_rules d2))"
      using assms(3) x(3) keep by (simp add: same_config_def ids_replace_first)
    have d2: "config_inv menv d2" using config_inv_same [OF x(4) keep] .
    obtain u where u: "s = Ok u"
      using assms(4,5) add y st
      by (cases s) (auto simp: save_new_rule_def ui_call_direct [OF assms(1)])
    then have "refresh env (a\<lparr>ap_message := AddedAndStarted, ap_form := None\<rparr>) (Suc (Suc n), d2) = (a', n', d')"
      using assms(4) add y st by (simp add: save_new_rule_def ui_call_direct [OF assms(1)])
    with refresh_rows [OF assms(1) d2 ids] have same: "same_config d2 d'" by (metis prod.inject)
    have rules: "dm_rules d' = replace_first i x (dm_rules d)"
      using x(2,3) assms(7) keep same by (simp add: same_config_def)
    moreover have "find_rule d' i = Some x"
      using find_replaced [of i "dm_rules d" x] there x(2) assms(7) rules by (simp add: find_rule_def)
    ultimately show ?thesis
      using wire_of_domain_of_wire [OF x(1)] config_inv_same [OF d2 same] by blast
  qed
qed

text \<open>C21: Saving an edit moves a stopped rule to loopback. When the form of a rule that is not
  running closes after Enter, although no field was changed, the daemon has the rule with its
  bind address and its destination host replaced by 127.0.0.1, in memory and on disk, in its
  old place among the other rules, which are as they were.\<close>

theorem stopped_edit_rebinds:
  assumes "ui_on_daemon env menv orcs" "config_inv menv d" "distinct (map r_id (dm_rules d))"
    and "find_rule d i = Some r" "running_of d i = None"
    and "save_form env (form_edit (row_of now d r)) a (n, d) = (a', n', d')" "ap_form a' = None"
  shows "\<exists>x. wire_of_domain x = view_to_wire (at_loopback (row_of now d r)) \<and>
    dm_rules d' = replace_first i x (dm_rules d) \<and> find_rule d' i = Some x \<and> config_inv menv d'"
proof -
  let ?v = "row_of now d r" and ?w = "view_to_wire (at_loopback (row_of now d r))"
  note f = ui_facts [OF assms(1)]
  have id: "r_id r = i" using find_rule_Some [OF assms(4)] by simp
  have stopped: "rv_state ?v \<noteq> lit ''active''" by (simp add: id assms(5) state_name_def)
  obtain payload where "form_payload env (form_edit ?v) = (fst (form_payload env (form_edit ?v)), Some payload)"
    using closed_form_was_sent [OF assms(6,7)] by blast
  with stopped_edit_payload(1) [OF row_of_facts(4) stopped]
  have sent: "form_payload env (form_edit ?v) = (form_edit ?v, Some payload)" by metis
  note parts = stopped_edit_payload [OF row_of_facts(4) stopped sent]
  have read: "de_rule (me_codec menv) payload = Some ?w"
    using edit_json [OF row_of_facts(4), of "uuid_from_json (ui_parse_uuid env)" env now d r] stopped f(5,6,7) parts(2)
    by (simp add: uuid_from_json_def readable_ids_def)
  have run: "save_new_rule env (form_edit ?v) payload a (n, d) = (a', n', d')"
    using assms(6) sent parts(3) by (simp add: save_form_def)
  have "wire_id ?w = i" "find_rule d i \<noteq> None" using id assms(4) by (simp_all add: at_loopback_def)
  with new_rule_replaces [OF assms(1-3) run assms(7) read] show ?thesis by simp
qed

definition edited_row :: rule_view where
  "edited_row = row_of 9 served_daemon (served_rules ! 1)"

definition moved_wire :: wire_rule where
  "moved_wire = WLocal \<lparr>w_id = 2, w_name = lit ''b'', w_ssh_host_alias = lit ''web'',
     w_bind_address = LOOPBACK, w_bind_port = 3001, w_destination_host = LOOPBACK,
     w_destination_port = 5432, w_auto_start = False, w_reconnect = True\<rparr>"

definition moved_documents :: "config_v2 list" where
  "moved_documents = [document [served_wire 1 ''a'' 3000, moved_wire] default_settings]"

definition moved_payload :: json where
  "moved_payload = JObj [(''kind'', JStr (lit ''local'')), (''id'', JStr (sample_show_uuid 2)),
     (''name'', JStr (lit ''b'')), (''ssh_host_alias'', JStr (lit ''web'')), (''bind_address'', JStr LOOPBACK),
     (''bind_port'', JNat 3001), (''auto_start'', JBool False), (''reconnect'', JBool True),
     (''destination_host'', JStr LOOPBACK), (''destination_port'', JNat 5432)]"

lemma moved_sent: "snd (form_payload (served_client moved_documents) (form_edit edited_row)) = Some moved_payload"
  by code_simp

lemma moved_view: "view_to_wire (at_loopback edited_row) = moved_wire"
  by code_simp

definition moved :: "(failure + json) \<times> daemon" where
  "moved = forward_add (served_env moved_documents) 77 moved_payload served_daemon"

lemma moved_saved: "fst moved = Ok (rule_ref (served_env moved_documents) 2)"
  by code_simp

lemma moved_started: "is_ok (fst (start_with (served_env moved_documents) (ro_start quiet_oracle) False False
    (rule_ref (served_env moved_documents) 2) (snd moved)))"
  by code_simp

lemma refresh_form: "ap_form (fst (refresh env a d)) = ap_form a"
  by (simp add: refresh_def replace_rules_def note_selected_def Let_def split: prod.split sum.split)

theorem stopped_edit_rebinds_witness:
  "\<exists>x. find_rule (snd (snd (save_form (served_client moved_documents) (form_edit edited_row) app_default
       (0, served_daemon)))) 2 = Some x \<and> wire_of_domain x = moved_wire"
proof -
  let ?env = "served_client moved_documents" and ?menv = "served_env moved_documents"
  obtain a' n' d' where r: "save_form ?env (form_edit edited_row) app_default (0, served_daemon) = (a', n', d')"
    by (rule prod_cases3)
  have on: "ui_on_daemon ?env ?menv (\<lambda>_. quiet_oracle)"
    by (rule served_client_on_daemon) (simp add: moved_documents_def)
  have ids: "distinct (map r_id (dm_rules served_daemon))" by (simp add: served_ids)
  have stopped: "running_of served_daemon 2 = None" by (simp add: served_daemon_def running_of_def)
  have row: "edited_row = row_of 9 served_daemon (served_rules ! 1)" by (simp add: edited_row_def)
  obtain f where f: "form_payload ?env (form_edit edited_row) = (f, Some moved_payload)"
    using moved_sent by (metis prod.collapse)
  have state: "rv_state edited_row \<noteq> lit ''active''"
    using find_rule_Some [OF served_second] stopped by (simp add: row state_name_def)
  have "view_ok edited_row" by (simp add: row)
  note parts = stopped_edit_payload [OF this state f]
  have fid: "fm_id (form_edit edited_row) = 2"
    using find_rule_Some [OF served_second] by (simp add: form_edit_def Let_def row)
  have add: "handled ?menv quiet_oracle ForwardAdd moved_payload served_daemon =
      (Ok (rule_ref ?menv 2), snd moved)"
    using moved_saved by (simp add: moved_def prod_eq_iff) (simp add: quiet_oracle_def)
  have selector: "rule_payload ?env (added_id ?env 2 (rule_ref ?menv 2)) = rule_ref ?menv 2"
    using sample_ids_readable
    by (simp add: rule_payload_def added_id_def rule_ref_def json_at_def served_client_def served_env_def readable_ids_def)
  obtain v d2 where st: "handled ?menv quiet_oracle ForwardStart (rule_ref ?menv 2) (snd moved) = (Ok v, d2)"
    using moved_started by (auto simp: handled_def is_ok_iff prod_eq_iff)
  have "save_form ?env (form_edit edited_row) app_default (0, served_daemon) =
      refresh ?env (app_default\<lparr>ap_message := AddedAndStarted, ap_form := None\<rparr>) (Suc (Suc 0), d2)"
    using f parts add st selector fid
    by (simp add: save_form_def save_new_rule_def ui_call_direct [OF on])
  with r have "ap_form a' = None"
    using refresh_form [of ?env "app_default\<lparr>ap_message := AddedAndStarted, ap_form := None\<rparr>" "(Suc (Suc 0), d2)"] by simp
  from stopped_edit_rebinds [OF on served_config ids served_second stopped r [unfolded row] this]
  show ?thesis using moved_view r by (auto simp: row)
qed

end
