(* ===== verification/Client_Deadlines.thy ===== *)
theory Client_Deadlines
  imports Client_Daemon Cli_Model
begin

text \<open>
  How long a client waits. The link below is \<open>direct_link\<close> with the time each request takes:
  a client that reads no answer within its response time fails with the error of the timed out
  read, while the daemon's handler goes on.
\<close>

definition waiting_link ::
  "manager_env \<Rightarrow> (nat \<Rightarrow> request_oracle) \<Rightarrow> (nat \<Rightarrow> nat) \<Rightarrow> (served \<Rightarrow> uuid) \<Rightarrow> served link" where
  "waiting_link menv orcs took ids = \<lparr>ln_ensure = st_return (), ln_fresh = ids,
     ln_exchange = (\<lambda>timeout req s.
       (let (r, s') = serve_request menv orcs req s
        in (if took (fst s) < timeout then r else Err (TransportIo IoWouldBlock), s')))\<rparr>"

lemma link_call_waiting:
  "link_call (waiting_link menv orcs took ids) timeout op payload (n, d) =
     (if took n < timeout then link_call (direct_link menv orcs ids) timeout op payload (n, d)
      else (Err (NotExchanged (TransportIo IoWouldBlock)), Suc n, snd (handled menv (orcs n) op payload d)))"
  by (auto simp: link_call_def waiting_link_def direct_link_def serve_request_def handle_eq request_new_def
      st_defs Let_def split: prod.splits)

lemma start_handled:
  assumes "lawful menv" "find_rule d i = Some r" "running_of d i = None" "i \<notin> dm_editing d"
    and "check_local_port (or_bind (ro_start orc)) r = Ok ()" "so_started (or_outcome (ro_start orc)) = Ok m"
  shows "running_of (snd (handled menv orc ForwardStart (rule_ref menv i) d)) i = Some (AActive m)"
proof -
  have "find_rule (d\<lparr>dm_manually_stopped := s\<rparr>) i = Some r" for s
    using assms(2) by (simp add: find_rule_def)
  moreover have "me_process menv" using assms(1) by (simp add: lawful_def)
  ultimately show ?thesis
    using assms(3-6)
    by (simp add: handled_def start_with_def start_inner_def start_reserve_def rule_id_of_ref [OF assms(1)]
        start_complete_def start_finished_def Let_def)
qed

text \<open>C10: A start that takes five seconds or more is reported as failed although it succeeds. Both
  clients give up on ForwardStart after \<open>DEFAULT_TIMEOUT\<close>, while the daemon's handler waits for
  the guardian, which has \<open>STARTUP_TIMEOUT\<close>, thirty seconds, to bring OpenSSH up. The terminal client
  shows the timed out read and leaves the rows as they are; the command line ends with an IPC
  error and status 70; the rule is active.\<close>

theorem slow_start_is_reported_failed:
  assumes "speaks_json menv (ui_show_uuid env) parse" "ui_ser_uuid env = (\<lambda>i. JStr (ui_show_uuid env i))"
    and "ui_call env = call_daemon show_daemon show_transport (waiting_link menv orcs took ids)"
    and "selected_view a = Some v" "rv_state v = lit ''stopped''" "find_rule d (rv_id v) = Some r"
    and "running_of d (rv_id v) = None" "rv_id v \<notin> dm_editing d"
    and "check_local_port (or_bind (ro_start (orcs n))) r = Ok ()"
    and "so_started (or_outcome (ro_start (orcs n))) = Ok m" "DEFAULT_TIMEOUT \<le> took n"
  shows "\<exists>d'. toggle_selected env a (n, d) =
      (a\<lparr>ap_message := Plain (show_transport (TransportIo IoWouldBlock))\<rparr>, Suc n, d') \<and>
    link_call (waiting_link menv orcs took ids) (response_timeout ForwardStart) ForwardStart
      (rule_payload env (rv_id v)) (n, d) = (Err (NotExchanged (TransportIo IoWouldBlock)), Suc n, d') \<and>
    main_exit (Inl (Failed (daemon_failure json (NotExchanged (TransportIo IoWouldBlock))))) = 70 \<and>
    running_of d' (rv_id v) = Some (AActive m)"
proof -
  let ?i = "rv_id v" and ?d' = "snd (handled menv (orcs n) ForwardStart (rule_payload env (rv_id v)) d)"
  have ref: "rule_payload env ?i = rule_ref menv ?i"
    using assms(1,2) by (simp add: rule_payload_def rule_ref_def speaks_json_def)
  have late: "link_call (waiting_link menv orcs took ids) DEFAULT_TIMEOUT ForwardStart
      (rule_payload env ?i) (n, d) = (Err (NotExchanged (TransportIo IoWouldBlock)), Suc n, ?d')"
    using assms(11) by (simp add: link_call_waiting)
  then have "ui_call env ForwardStart (rule_payload env ?i) (n, d) =
      (Err (show_transport (TransportIo IoWouldBlock)), Suc n, ?d')"
    by (simp add: assms(3) call_daemon_def st_map_err_def call_timeout_def)
  then have "toggle_selected env a (n, d) =
      (a\<lparr>ap_message := Plain (show_transport (TransportIo IoWouldBlock))\<rparr>, Suc n, ?d')"
    using assms(4,5) by (simp add: toggle_selected_def)
  moreover have "running_of ?d' ?i = Some (AActive m)"
    unfolding ref by (rule start_handled [OF speaks_json_lawful [OF assms(1)] assms(6-10)])
  ultimately show ?thesis
    using late by (simp add: response_timeout_def daemon_failure_def)
qed

text \<open>A guardian whose control socket answers after twelve seconds succeeds.\<close>

definition late_guardian :: guardian_env where
  "late_guardian = sample_guardian\<lparr>ge_clock := (\<lambda>i. 6000 * i)\<rparr>"

lemma late_guardian_starts:
  "guardian_start late_guardian = Some (Ok 77, Alive)" "DEFAULT_TIMEOUT < ge_clock late_guardian 2"
proof -
  have "poll_loop (readiness_poll late_guardian) (ge_clock late_guardian) 30000 (0 + 2) =
      Some (readiness_poll late_guardian (0 + 2))"
    by (rule poll_loop_step(1)) (simp add: poll_stops_def readiness_poll_def late_guardian_def sample_guardian_def)
  then have "poll_loop (readiness_poll late_guardian) (ge_clock late_guardian) 30000 0 =
      Some (Inr (Some Ready))"
    by (simp add: poll_loop.simps [of _ _ _ 0] poll_loop.simps [of _ _ _ "Suc 0"]
        readiness_poll_def late_guardian_def sample_guardian_def numeral_2_eq_2)
  then show "guardian_start late_guardian = Some (Ok 77, Alive)"
    by (simp add: guardian_start_def late_guardian_def sample_guardian_def STARTUP_TIMEOUT_def)
  show "DEFAULT_TIMEOUT < ge_clock late_guardian 2" by (simp add: late_guardian_def DEFAULT_TIMEOUT_def)
qed

definition slow_client :: "served ui_env" where
  "slow_client = (served_client [])\<lparr>ui_call := call_daemon (\<lambda>_. []) (\<lambda>_. [Txt (lit ''timeout'')])
     (waiting_link (served_env []) (\<lambda>_. quiet_oracle) (\<lambda>_. 12000) (\<lambda>_. 5))\<rparr>"

definition second_selected :: ui_app where
  "second_selected = app_default\<lparr>ap_rules := [row_of 9 served_daemon (served_rules ! 1)]\<rparr>"

theorem slow_start_is_reported_failed_witness:
  "\<exists>d'. toggle_selected slow_client second_selected (0, served_daemon) =
      (second_selected\<lparr>ap_message := Plain [Txt (lit ''timeout'')]\<rparr>, 1, d') \<and>
     running_of d' 2 = Some (AActive \<lparr>ma_lease = True, ma_guardian = True, ma_master_pid = 43,
       ma_attempt_dir = lit ''/r2'', ma_attempt_id = 200\<rparr>)"
proof -
  let ?v = "row_of 9 served_daemon (served_rules ! 1)"
  have speaks: "speaks_json (served_env []) (ui_show_uuid slow_client) decimal_id"
    by (simp add: slow_client_def served_client_def served_env_speaks)
  have ser: "ui_ser_uuid slow_client = (\<lambda>i. JStr (ui_show_uuid slow_client i))"
    by (simp add: slow_client_def served_client_def)
  have call: "ui_call slow_client = call_daemon (\<lambda>_. []) (\<lambda>_. [Txt (lit ''timeout'')])
      (waiting_link (served_env []) (\<lambda>_. quiet_oracle) (\<lambda>_. 12000) (\<lambda>_. 5))"
    by (simp add: slow_client_def)
  have sel: "selected_view second_selected = Some ?v" by (simp add: second_selected_def selected_view_def app_default_def)
  have id: "r_id (served_rules ! 1) = 2" using find_rule_Some [OF served_second] by simp
  have free: "running_of served_daemon 2 = None" by (simp add: served_daemon_def running_of_def)
  have state: "rv_state ?v = lit ''stopped''" using id free by (simp add: state_name_def)
  have port: "check_local_port (or_bind (ro_start quiet_oracle)) (served_rules ! 1) = Ok ()" by code_simp
  have out: "so_started (or_outcome (ro_start quiet_oracle)) = Ok \<lparr>ma_lease = True, ma_guardian = True,
      ma_master_pid = 43, ma_attempt_dir = lit ''/r2'', ma_attempt_id = 200\<rparr>" by (simp add: quiet_oracle_def)
  have v: "rv_id ?v = 2" using id by simp
  have slow: "DEFAULT_TIMEOUT \<le> (\<lambda>_ :: nat. 12000) 0" by (simp add: DEFAULT_TIMEOUT_def)
  have edit: "2 \<notin> dm_editing served_daemon" by (simp add: served_daemon_def)
  note late = slow_start_is_reported_failed [OF speaks ser call sel state, unfolded v,
      OF served_second free edit port out slow]
  then show ?thesis by auto
qed

end
