(* ===== verification/Spec2Isabelle.thy ===== *)
theory Spec2Isabelle
  imports Domain_Status Daemon_Supervisor Ssh_Hosts Rotating_Log Daemon_Connection Tui_Requests Tui_View
    Tui_Run Tui_Subscription Guardian_Protocol Cli_Daemon Cli_Requests Client_Daemon Client_Deadlines
begin

text \<open>
  TunnelDeck keeps SSH port forwardings. One daemon per user owns the configuration and the
  OpenSSH processes; the terminal client and the command line are its clients and talk to it
  over a Unix socket. This library models the program as definitions translated from
  \<open>src/src\<close> and proves what makes its parts correct. A Rust function keeps its name where
  HOL allows it, with the name of its type in front where two types share one.

  \<^bold>\<open>Parts and theories.\<close>

  \<^item> Values. \<open>Prelude\<close> and \<open>Utf8\<close> hold strings (lists of Unicode scalar values), results
    (sums, the error on the left) and effects that can fail; \<open>Net_Addr\<close> the address and port
    parsers of the standard library.
  \<^item> Domain (\<open>domain/\<close>). \<open>Domain_Rule\<close>: names, aliases, addresses, ports and the rule with its
    checking constructors. \<open>Domain_Validation\<close>: the pairwise check of a rule set; its locale
    \<open>conflict_relation\<close> is also used by the import preview. \<open>Domain_Status\<close>: the runtime state
    machine, proved to refine the state diagram of the design.
  \<^item> Configuration (\<open>config/\<close>, \<open>platform/\<close>). \<open>Config_Model\<close>: schema versions 1 and 2 and the
    conversions. \<open>Private_Fs\<close>: private directories and their system calls, each of which may
    fail. \<open>Config_Store\<close>: loading, atomic saving and migration; its locale \<open>persistence\<close> is what
    the daemon relies on. \<open>Paths_Model\<close>: where the files live.
  \<^item> Daemon (\<open>daemon/\<close>, \<open>ipc/\<close>). \<open>Daemon_Manager\<close>: the state behind the mutex, every request
    handler cut into the sections that hold the lock, and the supervisor's pass.
    \<open>Attempt_Table\<close> specifies what concurrent calls may do to the table of attempts;
    \<open>Daemon_System\<close> interleaves the sections of all threads and refines it; \<open>Daemon_Safety\<close>
    and \<open>Daemon_Requests\<close> hold the properties, \<open>Daemon_Lemmas\<close> what they share;
    \<open>Rule_Identity\<close>: ids name single rules in every interleaving. \<open>Daemon_Supervisor\<close>: the
    supervisor's thread, the rules it starts and the retries it makes.
    \<open>Ssh_Process\<close>: the guardian and the OpenSSH processes. \<open>Guardian_Protocol\<close>: the descriptors
    daemon, guardian and OpenSSH inherit and the JSON lines of a start, over which the daemon's
    outcome is the guardian's. \<open>Reconnect\<close>: retry delays.
    \<open>Ipc_Model\<close>: messages, framing and the event hub. \<open>Daemon_Endpoint\<close>: the lock and the
    socket, with several processes, guardians and crashes interleaved. \<open>Daemon_Connection\<close>: the
    service of one connection, stated over the locale \<open>request_handler\<close>, which the manager
    interprets.
  \<^item> SSH configuration (\<open>application/\<close>). \<open>Ssh_Hosts\<close>: discovery of aliases over include files,
    effective settings and bounded command runs. \<open>Ssh_Import\<close>: the preview of forwardings and
    the rules made from a selection.
  \<^item> Log (\<open>logging/\<close>). \<open>Rotating_Log\<close>.
  \<^item> Terminal client (\<open>tui/\<close>). \<open>Wire_Json\<close>: rules as JSON. \<open>Tui_Model\<close>: the client's state and
    what keys, mouse events and refreshes do. \<open>Tui_Safety\<close>: the invariant of its loop.
    \<open>Tui_Requests\<close>: what it asks of the daemon, over the locale \<open>call_record\<close>.
    \<open>Tui_Forms\<close>: what the form sends and the rows on the screen. \<open>Tui_View\<close>: what is drawn, as
    widgets of text spans without styles. \<open>Tui_Subscription\<close>: the thread that reads events.
    \<open>Tui_Run\<close>: the whole run of the client and its loop, on the modes of \<open>Terminal_Modes\<close>.
    \<open>Tui_Sample\<close>: a client to run.
  \<^item> Clients on the daemon. \<open>Client_Link\<close>: the JSON of every payload, one call with its response
    time, and the link that connects a client to the daemon's handler. \<open>Client_Served\<close>: what the
    daemon answers and changes, as a client meets it; \<open>Client_Sample\<close>: a daemon to run.
    \<open>Client_Daemon\<close>: the terminal client composed with the daemon: the rows after a refresh and
    what saving a form changes. \<open>Client_Deadlines\<close>: a client that waits less than the daemon takes.
  \<^item> Command line (\<open>cli/\<close>, \<open>error.rs\<close>, \<open>main.rs\<close>). \<open>Cli_Model\<close>: every subcommand from its
    arguments to its printed lines and exit status. \<open>Cli_Requests\<close>: commands composed with the
    daemon's handler; \<open>Cli_Daemon\<close>: the start of the daemon.

  \<^bold>\<open>State and steps.\<close> A handler of the daemon that releases the lock around a process call is
  one definition per section; \<open>Daemon_System\<close> gives every section as a step, so that the
  sections of requests, supervisor and restore interleave in any order, and a process call
  that is still to answer is an entry of the calls in flight. Log lines and events are lists
  that a section extends. The endpoint is cut at the file lock in the same way, and the
  terminal client at the turns of its loop, between which the daemon may change.

  \<^bold>\<open>What is an argument.\<close> Answers of the kernel, of OpenSSH and of crates are arguments of the
  definitions: faults of each system call, clock readings, fresh UUIDs, port probes, the
  outcomes of starting and stopping a process, the TOML printer and parser, the JSON text
  codec, glob matches, the layout of a terminal and the device that sets its modes. What a property needs of them is a named
  hypothesis, such as \<open>toml_round_trip\<close> or \<open>lawful\<close>, and its witness instantiates them.

  \<^bold>\<open>Bounds and fuel.\<close> Loops are structural or have a termination proof. Discovery descends at
  most \<open>MAX_INCLUDE_DEPTH + 1\<close> levels, which is the limit of the code itself. The polling loops
  of the guardian are \<open>partial_function (option)\<close> and their termination is proved from the
  deadlines. Machine integers are words; durations are naturals in milliseconds, and counters
  saturate or overflow where the code does.

  \<^bold>\<open>Not modelled.\<close> The signal handler's thread and the start of a thread per connection only
  set flags and spawn; their effects enter as steps. Colours and other styles of what is drawn
  are left out. Poisoned locks are left out: a panic ends the model's run, and only the terminal
  client's own panics have a model of what follows. The text of messages is kept as fragments.
  The command line's parser and the generators of completions and of the manual page are
  crates: arguments arrive parsed.
\<close>

end
